(* ===== verification/Prelude.thy ===== *)
theory Prelude
  imports Main "HOL-Library.List_Lexorder" "HOL-Library.Char_ord" "HOL-Library.Multiset"
begin

section \<open>Shared vocabulary: errors, results, loops with exceptions\<close>

text \<open>
  Every script of the repository is a sequence of reads, checks and sums in which a failed check
  raises a Python exception. An exception is a value of type \<open>error\<close> on the left of a sum; a
  statement that may raise has type \<open>'a result\<close>, and \<open>rbind\<close> is sequencing: the first exception
  ends the computation, as an uncaught \<open>raise\<close> does. \<open>fold_r\<close> is a \<open>for\<close> loop whose body may raise,
  \<open>map_r\<close> a list comprehension whose element may raise.

  The two locales at the end are the interfaces of such loops: \<open>invariant_loop\<close> (the body keeps a
  predicate) and \<open>conserving_loop\<close> (the body adds the amount of its item to a running total). The
  components interpret them on their own loop bodies.
\<close>

subsection \<open>Collections of facts\<close>

named_theorems result_simps \<open>sequencing of results: when a computation succeeds or fails\<close>
named_theorems row_simps \<open>reading the fields of a dictionary or of a CSV row\<close>
named_theorems codec_simps \<open>parsers applied to what the printers produce\<close>

subsection \<open>Exceptions and sequencing\<close>

datatype error =
    KeyError string
  | ValueError string
  | TypeError string
  | AttributeError string
  | IndexError
  | RuntimeError string
  | FileExistsError string
  | FileNotFoundError string
  | OSError string

type_synonym 'a result = "error + 'a"

definition rbind :: "'a result \<Rightarrow> ('a \<Rightarrow> 'b result) \<Rightarrow> 'b result" where
  "rbind m f = (case m of Inl e \<Rightarrow> Inl e | Inr x \<Rightarrow> f x)"

text \<open>Evaluation reads \<open>rbind\<close> as the \<open>case\<close>: what follows is looked at only when the first part has a result.\<close>

declare rbind_def [code_unfold]

lemma rbind_Inl [simp]: "rbind (Inl e) f = Inl e"
  and rbind_Inr [simp]: "rbind (Inr x) f = f x"
  by (simp_all add: rbind_def)

lemma rbind_eq_Inr [result_simps]: "rbind m f = Inr y \<longleftrightarrow> (\<exists>x. m = Inr x \<and> f x = Inr y)"
  by (cases m) auto

lemma rbind_eq_Inl [result_simps]:
  "rbind m f = Inl e \<longleftrightarrow> m = Inl e \<or> (\<exists>x. m = Inr x \<and> f x = Inl e)"
  by (cases m) auto

lemma rbind_cong [fundef_cong]:
  "m = m' \<Longrightarrow> (\<And>x. m' = Inr x \<Longrightarrow> f x = g x) \<Longrightarrow> rbind m f = rbind m' g"
  by (cases m') auto

lemma rbind_assoc: "rbind (rbind m f) g = rbind m (\<lambda>x. rbind (f x) g)"
  by (cases m) auto

lemma rbind_E:
  assumes "rbind m f = Inr y"
  obtains x where "m = Inr x" and "f x = Inr y"
  using assms by (auto simp: rbind_eq_Inr)

text \<open>A guard: \<open>if c: raise e\<close>.\<close>

definition raise_if :: "bool \<Rightarrow> error \<Rightarrow> unit result" where
  "raise_if c e = (if c then Inl e else Inr ())"

lemma raise_if_eq_Inr [simp]: "raise_if c e = Inr u \<longleftrightarrow> \<not> c"
  by (simp add: raise_if_def)

lemma raise_if_eq_Inl [simp]: "raise_if c e = Inl e' \<longleftrightarrow> c \<and> e' = e"
  by (auto simp: raise_if_def)

definition is_ok :: "'a result \<Rightarrow> bool" where
  "is_ok m = (case m of Inl _ \<Rightarrow> False | Inr _ \<Rightarrow> True)"

lemma is_ok_simps [simp]: "\<not> is_ok (Inl e)" "is_ok (Inr x)"
  by (simp_all add: is_ok_def)

lemma is_ok_iff: "is_ok m \<longleftrightarrow> (\<exists>x. m = Inr x)"
  by (cases m) auto

lemma is_ok_rbind: "is_ok (rbind m f) \<longleftrightarrow> (case m of Inl _ \<Rightarrow> False | Inr x \<Rightarrow> is_ok (f x))"
  by (cases m) simp_all

subsection \<open>Loops whose body may raise\<close>

fun fold_r :: "('s \<Rightarrow> 'x \<Rightarrow> 's result) \<Rightarrow> 's \<Rightarrow> 'x list \<Rightarrow> 's result" where
  "fold_r f s [] = Inr s"
| "fold_r f s (x # xs) = rbind (f s x) (\<lambda>s'. fold_r f s' xs)"

fun map_r :: "('x \<Rightarrow> 'y result) \<Rightarrow> 'x list \<Rightarrow> 'y list result" where
  "map_r f [] = Inr []"
| "map_r f (x # xs) = rbind (f x) (\<lambda>y. rbind (map_r f xs) (\<lambda>ys. Inr (y # ys)))"

lemma fold_r_append: "fold_r f s (xs @ ys) = rbind (fold_r f s xs) (\<lambda>s'. fold_r f s' ys)"
  by (induction xs arbitrary: s) (simp_all add: rbind_assoc)

lemma fold_r_cong [fundef_cong]:
  "s = s' \<Longrightarrow> xs = ys \<Longrightarrow> (\<And>t x. x \<in> set ys \<Longrightarrow> f t x = g t x) \<Longrightarrow> fold_r f s xs = fold_r g s' ys"
proof (induction ys arbitrary: s s' xs)
  case (Cons y ys)
  have "rbind (f s' y) (\<lambda>t. fold_r f t ys) = rbind (g s' y) (\<lambda>t. fold_r g t ys)"
    by (rule rbind_cong) (auto simp: Cons.prems(3) intro: Cons.IH)
  with Cons.prems show ?case by simp
qed simp

lemma map_r_eq_Inr [result_simps]:
  "map_r f xs = Inr ys \<longleftrightarrow> list_all2 (\<lambda>x y. f x = Inr y) xs ys"
proof (induction xs arbitrary: ys)
  case Nil
  show ?case by auto
next
  case (Cons x xs)
  show ?case by (auto simp: Cons.IH rbind_eq_Inr list_all2_Cons1)
qed

lemma map_r_Inr: "(\<And>x. x \<in> set xs \<Longrightarrow> f x = Inr (g x)) \<Longrightarrow> map_r f xs = Inr (map g xs)"
  by (induction xs) auto

lemma map_r_cong [fundef_cong]:
  "xs = ys \<Longrightarrow> (\<And>x. x \<in> set ys \<Longrightarrow> f x = g x) \<Longrightarrow> map_r f xs = map_r g ys"
  by (induction ys arbitrary: xs) auto

lemma map_r_elem:
  assumes "map_r f xs = Inr ys" and "y \<in> set ys"
  shows "\<exists>x \<in> set xs. f x = Inr y"
  using assms by (induction xs arbitrary: ys) (auto simp: rbind_eq_Inr)

lemma map_r_is_ok: "is_ok (map_r f xs) \<longleftrightarrow> (\<forall>x \<in> set xs. is_ok (f x))"
  by (induction xs) (auto simp: is_ok_iff rbind_eq_Inr)

lemma map_r_at: "map_r f xs = Inr ys \<Longrightarrow> x \<in> set xs \<Longrightarrow> \<exists>y \<in> set ys. f x = Inr y"
  by (induction xs arbitrary: ys) (auto simp: rbind_eq_Inr)

lemma map_r_append: "map_r f (xs @ ys) = rbind (map_r f xs) (\<lambda>us. rbind (map_r f ys) (\<lambda>vs. Inr (us @ vs)))"
  by (induction xs) (simp_all add: rbind_assoc, cases "map_r f ys", simp_all)

lemma map_r_length: "map_r f xs = Inr ys \<Longrightarrow> length ys = length xs"
  by (auto simp: map_r_eq_Inr dest: list_all2_lengthD)

lemma list_all2_map_eq:
  "list_all2 P xs ys \<Longrightarrow> (\<And>x y. P x y \<Longrightarrow> f y = g x) \<Longrightarrow> map f ys = map g xs"
  by (induction rule: list_all2_induct) auto

lemma list_all2_right: "list_all2 P xs ys \<Longrightarrow> y \<in> set ys \<Longrightarrow> \<exists>x \<in> set xs. P x y"
  by (induction rule: list_all2_induct) auto

subsection \<open>Dictionaries\<close>

text \<open>\<open>d[k]\<close> on a dictionary raises \<open>KeyError\<close> when \<open>k\<close> is absent; \<open>d.get(k, v)\<close> does not.\<close>

definition getitem :: "(string \<rightharpoonup> 'v) \<Rightarrow> string \<Rightarrow> 'v result" where
  "getitem d k = (case d k of None \<Rightarrow> Inl (KeyError k) | Some v \<Rightarrow> Inr v)"

definition get_or :: "('k \<rightharpoonup> 'v) \<Rightarrow> 'k \<Rightarrow> 'v \<Rightarrow> 'v" where
  "get_or d k v = (case d k of None \<Rightarrow> v | Some w \<Rightarrow> w)"

lemma getitem_eq_Inr [row_simps]: "getitem d k = Inr v \<longleftrightarrow> d k = Some v"
  by (auto simp: getitem_def split: option.splits)

lemma getitem_eq_Inl [row_simps]: "getitem d k = Inl e \<longleftrightarrow> d k = None \<and> e = KeyError k"
  by (auto simp: getitem_def split: option.splits)

lemma getitem_upd [simp]: "getitem (d(k \<mapsto> v)) k = Inr v"
  "j \<noteq> k \<Longrightarrow> getitem (d(k \<mapsto> v)) j = getitem d j"
  by (simp_all add: getitem_def)

lemma get_or_upd [simp]: "get_or (d(k \<mapsto> v)) k w = v"
  "j \<noteq> k \<Longrightarrow> get_or (d(k \<mapsto> v)) j w = get_or d j w"
  by (simp_all add: get_or_def)

lemma get_or_empty [simp]: "get_or Map.empty k v = v"
  by (simp add: get_or_def)

lemma getitem_get_or: "getitem d k = Inr v \<Longrightarrow> get_or d k w = v"
  by (simp add: getitem_eq_Inr get_or_def)

text \<open>A CSV record as \<open>csv.DictReader\<close> yields it: column name to cell text.\<close>

type_synonym row = "string \<rightharpoonup> string"

subsection \<open>Lists of integers\<close>

lemma sum_list_filter_split:
  "sum_list (map f (filter P xs)) + sum_list (map f (filter (\<lambda>x. \<not> P x) xs)) = sum_list (map f xs)"
  for f :: "'a \<Rightarrow> int"
  by (induction xs) auto

lemma sum_list_nonneg_le:
  "(\<And>x. x \<in> set xs \<Longrightarrow> f x \<le> g x) \<Longrightarrow> sum_list (map f xs) \<le> sum_list (map g xs)"
  for f g :: "'a \<Rightarrow> int"
  by (induction xs) (simp_all add: add_mono)

lemma sum_list_filter_nonzero: "sum_list (map f (filter (\<lambda>x. f x \<noteq> 0) xs)) = sum_list (map f xs)"
  for f :: "'a \<Rightarrow> int"
  by (induction xs) auto

lemma sum_list_sort: "sum_list (map f (sort xs)) = sum_list (map f xs)"
  for f :: "'a::linorder \<Rightarrow> int"
  by (metis mset_map mset_sort sum_mset_sum_list)

lemma sum_list_sort_key: "sum_list (map f (sort_key k xs)) = sum_list (map f xs)"
  for f :: "'a \<Rightarrow> int"
  by (metis mset_map mset_sort sum_mset_sum_list)

lemma sum_upd_plus:
  fixes f :: "'a \<Rightarrow> int"
  assumes "finite A" and "a \<in> A"
  shows "(\<Sum>x\<in>A. (f(a := f a + d)) x) = (\<Sum>x\<in>A. f x) + d"
proof -
  have "(\<Sum>x\<in>A. (f(a := f a + d)) x) = (f a + d) + (\<Sum>x\<in>A - {a}. f x)"
    using assms by (simp add: sum.remove [of A a])
  also have "\<dots> = (\<Sum>x\<in>A. f x) + d"
    using assms by (simp add: sum.remove [of A a])
  finally show ?thesis .
qed

lemma int_div_less:
  fixes a d n :: int
  assumes "0 < d" and "a < n * d"
  shows "a div d < n"
proof (rule ccontr)
  assume "\<not> a div d < n"
  then have "n * d \<le> (a div d) * d" using assms(1) by (intro mult_right_mono) auto
  moreover have "(a div d) * d + a mod d = a" by simp
  moreover have "0 \<le> a mod d" using assms(1) by simp
  ultimately show False using assms(2) by linarith
qed

subsection \<open>Interfaces of a loop\<close>

locale invariant_loop =
  fixes step :: "'s \<Rightarrow> 'x \<Rightarrow> 's result"
    and inv :: "'s \<Rightarrow> bool"
  assumes step_inv: "inv s \<Longrightarrow> step s x = Inr s' \<Longrightarrow> inv s'"
begin

lemma run_inv: "inv s \<Longrightarrow> fold_r step s xs = Inr s' \<Longrightarrow> inv s'"
proof (induction xs arbitrary: s)
  case (Cons x xs)
  from Cons.prems(2) obtain t where "step s x = Inr t" and t: "fold_r step t xs = Inr s'"
    by (auto simp: rbind_eq_Inr)
  then have "inv t" using Cons.prems(1) step_inv by blast
  then show ?case using t by (rule Cons.IH)
qed simp

end

text \<open>
  A loop over items that books the amount of each item: what the running totals of every audit
  script are. The amount is an arbitrary commutative monoid, so that one interpretation covers a
  single counter and another a whole vector of components.
\<close>

locale conserving_loop =
  fixes step :: "'s \<Rightarrow> 'x \<Rightarrow> 's result"
    and total :: "'s \<Rightarrow> 'm::comm_monoid_add"
    and amount :: "'x \<Rightarrow> 'm"
  assumes step_total: "step s x = Inr s' \<Longrightarrow> total s' = total s + amount x"
begin

lemma run_total: "fold_r step s xs = Inr s' \<Longrightarrow> total s' = total s + sum_list (map amount xs)"
proof (induction xs arbitrary: s)
  case (Cons x xs)
  from Cons.prems obtain t where "step s x = Inr t" and t: "fold_r step t xs = Inr s'"
    by (auto simp: rbind_eq_Inr)
  then show ?case using step_total [of s x t] Cons.IH [OF t] by (simp add: add.assoc)
qed simp

lemma run_total_from_zero:
  "total s = 0 \<Longrightarrow> fold_r step s xs = Inr s' \<Longrightarrow> total s' = sum_list (map amount xs)"
  by (simp add: run_total)

end

end
