(* ===== verification/Pybase.thy ===== *)
theory Pybase
  imports Prelude
begin

section \<open>The Python built-ins the scripts use on text and JSON\<close>

text \<open>
  Strings are ASCII byte strings. \<open>lower\<close>, \<open>strip\<close>, \<open>py_int\<close> (the constructor \<open>int(text)\<close> and
  \<open>int(text, 16)\<close>), \<open>py_str\<close> (\<open>str(n)\<close>), \<open>hex_int\<close> (\<open>hex(n)\<close>), \<open>bytes.hex\<close> and \<open>bytes.fromhex\<close> follow
  CPython: surrounding white space, one sign, digits with single underscores between them. The
  4300-digit limit of newer interpreters is not modelled. \<open>json\<close> is a JSON document as \<open>json.load\<close>
  returns it (no script reads a float), with subscription, \<open>.get\<close>, truth value and iteration.
\<close>

subsection \<open>Text\<close>

definition lower_char :: "char \<Rightarrow> char" where
  "lower_char c = (if CHR ''A'' \<le> c \<and> c \<le> CHR ''Z'' then char_of (of_char c + (32::nat)) else c)"

definition lower :: "string \<Rightarrow> string" where
  "lower s = map lower_char s"

definition upper_char :: "char \<Rightarrow> char" where
  "upper_char c = (if CHR ''a'' \<le> c \<and> c \<le> CHR ''z'' then char_of (of_char c - (32::nat)) else c)"

definition upper :: "string \<Rightarrow> string" where
  "upper s = map upper_char s"

definition is_space :: "char \<Rightarrow> bool" where
  "is_space c \<longleftrightarrow> (let n = (of_char c :: nat) in n = 32 \<or> (9 \<le> n \<and> n \<le> 13) \<or> (28 \<le> n \<and> n \<le> 31))"

definition lstrip :: "string \<Rightarrow> string" where
  "lstrip s = dropWhile is_space s"

definition strip :: "string \<Rightarrow> string" where
  "strip s = rev (dropWhile is_space (rev (dropWhile is_space s)))"

definition starts_with :: "string \<Rightarrow> string \<Rightarrow> bool" where
  "starts_with p s = (take (length p) s = p)"

definition ends_with :: "string \<Rightarrow> string \<Rightarrow> bool" where
  "ends_with p s = (length p \<le> length s \<and> drop (length s - length p) s = p)"

definition removeprefix :: "string \<Rightarrow> string \<Rightarrow> string" where
  "removeprefix p s = (if starts_with p s then drop (length p) s else s)"

lemma starts_with_append [simp]: "starts_with p (p @ s)"
  by (simp add: starts_with_def)

lemma starts_with_iff: "starts_with p s \<longleftrightarrow> (\<exists>t. s = p @ t)"
  by (metis append_take_drop_id starts_with_append starts_with_def)

lemma removeprefix_append [simp]: "removeprefix p (p @ s) = s"
  by (simp add: removeprefix_def)

lemma lower_append [simp]: "lower (s @ t) = lower s @ lower t"
  and lower_Nil [simp]: "lower [] = []"
  and lower_Cons: "lower (c # s) = lower_char c # lower s"
  and length_lower [simp]: "length (lower s) = length s"
  by (simp_all add: lower_def)

lemma lower_eq_Nil_iff [simp]: "lower s = [] \<longleftrightarrow> s = []"
  by (simp add: lower_def)

lemma upper_range: "CHR ''A'' \<le> c \<and> c \<le> CHR ''Z'' \<longleftrightarrow> 65 \<le> (of_char c :: nat) \<and> (of_char c :: nat) \<le> 90"
  by (simp add: less_eq_char_def)

lemma lower_char_idem [simp]: "lower_char (lower_char c) = lower_char c"
proof (cases "CHR ''A'' \<le> c \<and> c \<le> CHR ''Z''")
  case True
  then have "65 \<le> (of_char c :: nat)" and "(of_char c :: nat) \<le> 90" by (simp_all add: upper_range)
  moreover from this have "(of_char c + 32) mod 256 = of_char c + (32::nat)" by simp
  ultimately have "(of_char (lower_char c) :: nat) = of_char c + 32"
    using True by (simp add: lower_char_def)
  then have "\<not> (of_char (lower_char c) :: nat) \<le> 90"
    using \<open>65 \<le> (of_char c :: nat)\<close> by simp
  then show ?thesis by (simp add: lower_char_def [of "lower_char c"] upper_range)
next
  case False
  then have "lower_char c = c" by (simp only: lower_char_def if_False)
  then show ?thesis by simp
qed

lemma lower_idem [simp]: "lower (lower s) = lower s"
  by (simp add: lower_def)

subsection \<open>Integers and their text\<close>

definition digit_value :: "nat \<Rightarrow> char \<Rightarrow> nat option" where
  "digit_value base c =
     (let n = (of_char c :: nat);
          v = (if 48 \<le> n \<and> n \<le> 57 then n - 48
               else if 97 \<le> n \<and> n \<le> 122 then n - 87
               else if 65 \<le> n \<and> n \<le> 90 then n - 55 else base)
      in if v < base then Some v else None)"

text \<open>\<open>digits_value base b acc cs\<close>: \<open>b\<close> tells that the character before \<open>cs\<close> was a digit.\<close>

fun digits_value :: "nat \<Rightarrow> bool \<Rightarrow> nat \<Rightarrow> string \<Rightarrow> nat option" where
  "digits_value base b acc [] = (if b then Some acc else None)"
| "digits_value base b acc (c # cs) =
     (if c = CHR ''_'' then (if b then digits_value base False acc cs else None)
      else case digit_value base c of None \<Rightarrow> None
           | Some d \<Rightarrow> digits_value base True (base * acc + d) cs)"

text \<open>\<open>int(text, 16)\<close> accepts a \<open>0x\<close> prefix after the sign, and an underscore after the prefix.\<close>

definition strip_base_prefix :: "nat \<Rightarrow> string \<Rightarrow> string" where
  "strip_base_prefix base s =
     (if base = 16 \<and> (starts_with ''0x'' s \<or> starts_with ''0X'' s)
      then (case drop 2 s of c # cs \<Rightarrow> if c = CHR ''_'' then cs else c # cs | [] \<Rightarrow> [])
      else s)"

definition int_base :: "nat \<Rightarrow> string \<Rightarrow> int result" where
  "int_base base s =
     (let t = strip s;
          neg = starts_with ''-'' t;
          body = (if neg \<or> starts_with ''+'' t then drop 1 t else t)
      in case digits_value base False 0 (strip_base_prefix base body) of
           None \<Rightarrow> Inl (ValueError ''invalid literal for int()'')
         | Some n \<Rightarrow> Inr (if neg then - int n else int n))"

definition py_int :: "string \<Rightarrow> int result" where
  "py_int s = int_base 10 s"

definition py_int16 :: "string \<Rightarrow> int result" where
  "py_int16 s = int_base 16 s"

definition digit_char :: "nat \<Rightarrow> char" where
  "digit_char d = char_of (if d < 10 then 48 + d else 87 + d)"

fun nat_str :: "nat \<Rightarrow> nat \<Rightarrow> string" where
  "nat_str base n =
     (if base < 2 \<or> n < base then [digit_char n]
      else nat_str base (n div base) @ [digit_char (n mod base)])"

declare nat_str.simps [simp del]

definition py_str :: "int \<Rightarrow> string" where
  "py_str n = (if n < 0 then ''-'' @ nat_str 10 (nat (- n)) else nat_str 10 (nat n))"

text \<open>\<open>f"{n:018d}"\<close> for a non-negative \<open>n\<close>, with any width.\<close>

definition zero_padded :: "nat \<Rightarrow> int \<Rightarrow> string" where
  "zero_padded w n = (let s = py_str n in replicate (w - length s) CHR ''0'' @ s)"

definition hex_int :: "int \<Rightarrow> string" where
  "hex_int n = (if n < 0 then ''-0x'' @ nat_str 16 (nat (- n)) else ''0x'' @ nat_str 16 (nat n))"

text \<open>
  Evaluation: parsing and printing with \<open>int\<close> accumulators, since the evaluator counts natural numbers in unary.
\<close>

fun int_digits :: "nat \<Rightarrow> bool \<Rightarrow> int \<Rightarrow> string \<Rightarrow> int option" where
  "int_digits base b acc [] = (if b then Some acc else None)"
| "int_digits base b acc (c # cs) =
     (if c = CHR ''_'' then (if b then int_digits base False acc cs else None)
      else case digit_value base c of None \<Rightarrow> None
           | Some d \<Rightarrow> int_digits base True (int base * acc + int d) cs)"

lemma digits_value_int: "map_option int (digits_value base b acc cs) = int_digits base b (int acc) cs"
  by (induction base b acc cs rule: digits_value.induct) (simp_all split: option.split)

lemma int_base_code [code]:
  "int_base base s =
     (let t = strip s;
          neg = starts_with ''-'' t;
          body = (if neg \<or> starts_with ''+'' t then drop 1 t else t)
      in case int_digits base False 0 (strip_base_prefix base body) of
           None \<Rightarrow> Inl (ValueError ''invalid literal for int()'')
         | Some n \<Rightarrow> Inr (if neg then - n else n))"
proof -
  have "int_digits base False 0 cs = map_option int (digits_value base False 0 cs)" for cs
    using digits_value_int [of base False 0 cs] by simp
  moreover have "(case x of None \<Rightarrow> Inl e | Some n \<Rightarrow> Inr (if neg then - int n else int n))
      = (case map_option int x of None \<Rightarrow> Inl e | Some n \<Rightarrow> Inr (if neg then - n else n))"
    for x and e :: error and neg by (cases x) simp_all
  ultimately show ?thesis by (simp only: int_base_def Let_def)
qed

function int_str :: "int \<Rightarrow> string" where
  "int_str n = (if n < 10 then [digit_char (nat n)] else int_str (n div 10) @ [digit_char (nat (n mod 10))])"
  by pat_completeness auto
termination by (relation "measure nat") auto

declare int_str.simps [simp del]

lemma int_str_nat: "int_str (int n) = nat_str 10 n"
proof (induction n rule: less_induct)
  case (less n)
  have "int n div 10 = int (n div 10)" "nat (int n mod 10) = n mod 10" by (simp_all add: zdiv_int nat_mod_distrib)
  then show ?case using less [of "n div 10"]
    by (cases "n < 10") (simp_all add: int_str.simps [of "int n"] nat_str.simps [of 10 n])
qed

lemma py_str_code [code]: "py_str n = (if n < 0 then ''-'' @ int_str (- n) else int_str n)"
  using int_str_nat [of "nat n"] int_str_nat [of "nat (- n)"] by (cases "n < 0") (simp_all add: py_str_def)

lemma of_char_digit_char: "d < 36 \<Longrightarrow> (of_char (digit_char d) :: nat) = (if d < 10 then 48 + d else 87 + d)"
  by (simp add: digit_char_def)

lemma digit_value_digit_char [codec_simps]:
  "d < base \<Longrightarrow> base \<le> 36 \<Longrightarrow> digit_value base (digit_char d) = Some d"
  by (auto simp: digit_value_def of_char_digit_char Let_def)

lemma of_char_underscore: "(of_char CHR ''_'' :: nat) = 95"
  by simp

lemma digit_char_ordinary:
  assumes "d < 36"
  shows "digit_char d \<noteq> CHR ''_''" and "\<not> is_space (digit_char d)"
    and "digit_char d \<noteq> CHR ''-''" and "digit_char d \<noteq> CHR ''+''"
proof -
  let ?n = "of_char (digit_char d) :: nat"
  have n: "?n = (if d < 10 then 48 + d else 87 + d)" using assms by (rule of_char_digit_char)
  then have "?n \<noteq> of_char CHR ''_''" "?n \<noteq> of_char CHR ''-''" "?n \<noteq> of_char CHR ''+''"
    using assms by (auto split: if_splits)
  then show "digit_char d \<noteq> CHR ''_''" "digit_char d \<noteq> CHR ''-''" "digit_char d \<noteq> CHR ''+''"
    by metis+
  show "\<not> is_space (digit_char d)"
    using n assms by (auto simp: is_space_def Let_def split: if_splits)
qed

lemma set_nat_str: "2 \<le> base \<Longrightarrow> c \<in> set (nat_str base n) \<Longrightarrow> \<exists>d < base. c = digit_char d"
proof (induction base n rule: nat_str.induct)
  case (1 base n)
  show ?case
  proof (cases "n < base")
    case True
    with 1(2,3) show ?thesis by (subst (asm) nat_str.simps) auto
  next
    case False
    with 1(2,3) have "c \<in> set (nat_str base (n div base)) \<or> c = digit_char (n mod base)"
      by (subst (asm) nat_str.simps) auto
    then show ?thesis
    proof
      assume "c \<in> set (nat_str base (n div base))"
      then show ?thesis using 1(1) [OF _ 1(2)] False 1(2) by simp
    next
      assume "c = digit_char (n mod base)"
      then show ?thesis using 1(2) by (intro exI [of _ "n mod base"]) simp
    qed
  qed
qed

lemma nat_str_chars:
  assumes "2 \<le> base" and "base \<le> 36" and "c \<in> set (nat_str base n)"
  shows "c \<noteq> CHR ''_''" and "\<not> is_space c" and "c \<noteq> CHR ''-''" and "c \<noteq> CHR ''+''"
proof -
  from set_nat_str [OF assms(1,3)] obtain d where "d < base" and c: "c = digit_char d" by blast
  then have "d < 36" using assms(2) by simp
  then show "c \<noteq> CHR ''_''" "\<not> is_space c" "c \<noteq> CHR ''-''" "c \<noteq> CHR ''+''"
    unfolding c by (rule digit_char_ordinary)+
qed

lemma nat_str_nonempty [simp]: "nat_str base n \<noteq> []"
  by (subst nat_str.simps) simp

lemma digits_value_append:
  assumes "digits_value base b acc s = Some m" and "s \<noteq> []"
    and "\<forall>c \<in> set s. c \<noteq> CHR ''_''"
  shows "digits_value base b acc (s @ t) = digits_value base True m t"
  using assms
proof (induction s arbitrary: b acc)
  case (Cons c s)
  from Cons.prems obtain d where d: "digit_value base c = Some d"
    and rest: "digits_value base True (base * acc + d) s = Some m"
    by (auto split: option.splits)
  show ?case
  proof (cases "s = []")
    case True
    with d rest Cons.prems show ?thesis by simp
  next
    case False
    with rest Cons.prems have "digits_value base True (base * acc + d) (s @ t) = digits_value base True m t"
      by (intro Cons.IH) auto
    with d Cons.prems show ?thesis by simp
  qed
qed simp

lemma digits_value_nat_str [codec_simps]:
  assumes "2 \<le> base" and "base \<le> 36"
  shows "digits_value base False 0 (nat_str base n) = Some n"
  using assms
proof (induction base n rule: nat_str.induct)
  case (1 base n)
  show ?case
  proof (cases "n < base")
    case True
    with 1 show ?thesis
      using digit_char_ordinary(1) [of n] by (simp add: nat_str.simps digit_value_digit_char)
  next
    case False
    have pre: "digits_value base False 0 (nat_str base (n div base)) = Some (n div base)"
      using 1 False by simp
    have no_us: "\<forall>c \<in> set (nat_str base (n div base)). c \<noteq> CHR ''_''"
      using nat_str_chars(1) [OF 1(2,3)] by blast
    have step: "digits_value base False 0 (nat_str base n) =
        digits_value base True (n div base) [digit_char (n mod base)]"
      using 1(2) False digits_value_append [OF pre nat_str_nonempty no_us]
      by (simp add: nat_str.simps [of base n])
    have lt: "n mod base < base" using 1(2) by simp
    then have "digit_char (n mod base) \<noteq> CHR ''_''"
      using 1(3) by (intro digit_char_ordinary(1)) simp
    with lt 1(3) have "digits_value base True (n div base) [digit_char (n mod base)] = Some n"
      by (simp add: digit_value_digit_char mult.commute)
    with step show ?thesis by simp
  qed
qed

lemma strip_ordinary:
  assumes "\<forall>c \<in> set s. \<not> is_space c"
  shows "strip s = s"
proof -
  have drop: "dropWhile is_space t = t" if "\<forall>c \<in> set t. \<not> is_space c" for t
    using that by (cases t) auto
  have "dropWhile is_space (rev s) = rev s" using assms by (intro drop) simp
  then show ?thesis using drop [OF assms] by (simp add: strip_def)
qed

lemma nat_str_ordinary:
  "\<forall>c \<in> set (nat_str 10 n). \<not> is_space c \<and> c \<noteq> CHR ''-'' \<and> c \<noteq> CHR ''+'' \<and> c \<noteq> CHR ''_''"
  using nat_str_chars [of 10 _ n] by simp

lemma sign_of_nat_str: "\<not> starts_with ''-'' (nat_str 10 n)" "\<not> starts_with ''+'' (nat_str 10 n)"
  using nat_str_ordinary [of n] by (cases "nat_str 10 n"; simp add: starts_with_def)+

text \<open>Printing an integer and parsing it back: what every \<open>*_atto\<close> column relies on.\<close>

lemma py_int_py_str [codec_simps]: "py_int (py_str n) = Inr n"
proof (cases "n < 0")
  case True
  have "strip (''-'' @ nat_str 10 (nat (- n))) = ''-'' @ nat_str 10 (nat (- n))"
    using nat_str_ordinary by (intro strip_ordinary) (auto simp: is_space_def)
  then show ?thesis
    using True by (simp add: py_int_def py_str_def int_base_def Let_def strip_base_prefix_def
        starts_with_def codec_simps)
next
  case False
  have "strip (nat_str 10 (nat n)) = nat_str 10 (nat n)"
    using nat_str_ordinary by (intro strip_ordinary) auto
  then show ?thesis
    using False sign_of_nat_str
    by (simp add: py_int_def py_str_def int_base_def Let_def strip_base_prefix_def codec_simps)
qed

lemma py_str_inject [simp]: "py_str m = py_str n \<longleftrightarrow> m = n"
  using py_int_py_str by (metis sum.inject(2))

lemma py_str_nonempty [simp]: "py_str n \<noteq> []"
  by (simp add: py_str_def)

subsection \<open>Bytes\<close>

text \<open>A \<open>bytes\<close> object is the list of its byte values, as iterating over it in Python gives them.\<close>

type_synonym bytes = "int list"

definition is_bytes :: "bytes \<Rightarrow> bool" where
  "is_bytes bs \<longleftrightarrow> (\<forall>b \<in> set bs. 0 \<le> b \<and> b < 256)"

definition hex_byte :: "int \<Rightarrow> string" where
  "hex_byte b = [digit_char (nat (b div 16)), digit_char (nat (b mod 16))]"

definition bytes_hex :: "bytes \<Rightarrow> string" where
  "bytes_hex bs = concat (map hex_byte bs)"

text \<open>\<open>bytes.fromhex\<close> skips white space between, but not inside, the two-digit groups.\<close>

fun fromhex :: "string \<Rightarrow> bytes result" where
  "fromhex [] = Inr []"
| "fromhex [c] = (if is_space c then Inr [] else Inl (ValueError ''non-hexadecimal number''))"
| "fromhex (c # d # cs) =
     (if is_space c then fromhex (d # cs)
      else case (digit_value 16 c, digit_value 16 d) of
             (Some h, Some l) \<Rightarrow>
               rbind (fromhex cs) (\<lambda>bs. Inr (int (16 * h + l) # bs))
           | _ \<Rightarrow> Inl (ValueError ''non-hexadecimal number''))"

lemma fromhex_hex_byte:
  assumes "0 \<le> b" and "b < 256"
  shows "fromhex (hex_byte b @ s) = rbind (fromhex s) (\<lambda>bs. Inr (b # bs))"
proof -
  have "nat (b div 16) < 16" and "nat (b mod 16) < 16" using assms by auto
  moreover have "int (16 * nat (b div 16) + nat (b mod 16)) = b"
    using assms pos_imp_zdiv_nonneg_iff [of 16 b] by (simp add: mult_div_mod_eq)
  ultimately show ?thesis
    by (simp add: hex_byte_def digit_value_digit_char digit_char_ordinary(2))
qed

lemma fromhex_bytes_hex [codec_simps]: "is_bytes bs \<Longrightarrow> fromhex (bytes_hex bs) = Inr bs"
  by (induction bs) (simp_all add: bytes_hex_def is_bytes_def fromhex_hex_byte)

lemma digit_value_less: "digit_value base c = Some d \<Longrightarrow> d < base"
  by (auto simp: digit_value_def Let_def split: if_splits)

lemma fromhex_is_bytes: "fromhex s = Inr bs \<Longrightarrow> is_bytes bs"
proof (induction s arbitrary: bs rule: fromhex.induct)
  case (3 c d cs)
  show ?case
  proof (cases "is_space c")
    case True
    with 3 show ?thesis by simp
  next
    case False
    with 3(3) obtain h l bs' where hl: "digit_value 16 c = Some h" "digit_value 16 d = Some l"
      and "fromhex cs = Inr bs'" and bs: "bs = int (16 * h + l) # bs'"
      by (auto simp: rbind_eq_Inr split: option.splits)
    then have "is_bytes bs'" using 3(2) False by simp
    moreover have "16 * h + l < 256" using hl [THEN digit_value_less] by simp
    ultimately show ?thesis by (simp add: bs is_bytes_def)
  qed
qed (auto simp: is_bytes_def split: if_splits)

text \<open>\<open>int.from_bytes(bs, "big")\<close>.\<close>

definition from_bytes_big :: "bytes \<Rightarrow> int" where
  "from_bytes_big bs = foldl (\<lambda>acc b. 256 * acc + b) 0 bs"

subsection \<open>JSON values\<close>

datatype json =
    JNull
  | JBool bool
  | JInt int
  | JStr string
  | JList "json list"
  | JDict "(string \<times> json) list"

text \<open>\<open>v[k]\<close>, \<open>v.get(k)\<close>, \<open>v.get(k, d)\<close> with a text key.\<close>

fun subscript :: "json \<Rightarrow> string \<Rightarrow> json result" where
  "subscript (JDict kvs) k = getitem (map_of kvs) k"
| "subscript _ k = Inl (TypeError ''not subscriptable by a text key'')"

fun get_default :: "json \<Rightarrow> string \<Rightarrow> json \<Rightarrow> json result" where
  "get_default (JDict kvs) k d = Inr (get_or (map_of kvs) k d)"
| "get_default _ k d = Inl (AttributeError ''get'')"

text \<open>\<open>v[k1][k2]\<dots>\<close>.\<close>

definition at_path :: "json \<Rightarrow> string list \<Rightarrow> json result" where
  "at_path v ks = fold_r subscript v ks"

text \<open>Truth value and \<open>a or b\<close>.\<close>

fun truthy :: "json \<Rightarrow> bool" where
  "truthy JNull = False"
| "truthy (JBool b) = b"
| "truthy (JInt n) = (n \<noteq> 0)"
| "truthy (JStr s) = (s \<noteq> [])"
| "truthy (JList vs) = (vs \<noteq> [])"
| "truthy (JDict kvs) = (kvs \<noteq> [])"

definition or_else :: "json \<Rightarrow> json \<Rightarrow> json" where
  "or_else a b = (if truthy a then a else b)"

text \<open>Iteration: a text yields its characters, a dictionary its keys.\<close>

fun iter :: "json \<Rightarrow> json list result" where
  "iter (JList vs) = Inr vs"
| "iter (JStr s) = Inr (map (\<lambda>c. JStr [c]) s)"
| "iter (JDict kvs) = Inr (map (JStr \<circ> fst) kvs)"
| "iter _ = Inl (TypeError ''not iterable'')"

text \<open>\<open>int(v)\<close> and \<open>v.lower()\<close>.\<close>

fun int_of :: "json \<Rightarrow> int result" where
  "int_of (JInt n) = Inr n"
| "int_of (JBool b) = Inr (if b then 1 else 0)"
| "int_of (JStr s) = py_int s"
| "int_of _ = Inl (TypeError ''int() argument'')"

fun text_of :: "json \<Rightarrow> string result" where
  "text_of (JStr s) = Inr s"
| "text_of _ = Inl (AttributeError ''lower'')"

definition int_at :: "json \<Rightarrow> string list \<Rightarrow> int result" where
  "int_at v ks = rbind (at_path v ks) int_of"

text \<open>Python's \<open>==\<close>: \<open>True == 1\<close> and \<open>False == 0\<close>; dictionaries compare as maps.\<close>

definition as_number :: "json \<Rightarrow> int option" where
  "as_number v = (case v of JInt n \<Rightarrow> Some n | JBool b \<Rightarrow> Some (if b then 1 else 0) | _ \<Rightarrow> None)"

lemma int_of_py_str [codec_simps]: "int_of (JStr (py_str n)) = Inr n"
  by (simp add: py_int_py_str)

text \<open>Containers are compared by their printed structure: the scripts compare only scalars.\<close>

definition py_eq :: "json \<Rightarrow> json \<Rightarrow> bool" where
  "py_eq a b = (case (as_number a, as_number b) of (Some m, Some n) \<Rightarrow> m = n | _ \<Rightarrow> a = b)"

text \<open>
  \<open>str(v)\<close>. A text is itself; inside a container it is quoted as \<open>repr\<close> quotes it.
\<close>

definition hex_pair :: "nat \<Rightarrow> string" where
  "hex_pair n = [digit_char (n div 16), digit_char (n mod 16)]"

definition repr_char :: "char \<Rightarrow> char \<Rightarrow> string" where
  "repr_char quote c = (let n = (of_char c :: nat) in
     if c = quote \<or> n = 92 then [char_of (92::nat), c]
     else if n = 9 then [char_of (92::nat), CHR ''t''] else if n = 10 then [char_of (92::nat), CHR ''n'']
     else if n = 13 then [char_of (92::nat), CHR ''r'']
     else if n < 32 \<or> 127 \<le> n then [char_of (92::nat), CHR ''x''] @ hex_pair n else [c])"

definition repr_text :: "string \<Rightarrow> string" where
  "repr_text s = (let single = char_of (39::nat); double = char_of (34::nat);
     quote = (if single \<in> set s \<and> double \<notin> set s then double else single)
     in quote # concat (map (repr_char quote) s) @ [quote])"

fun join :: "string \<Rightarrow> string list \<Rightarrow> string" where
  "join sep [] = []"
| "join sep [s] = s"
| "join sep (s # t # ts) = s @ sep @ join sep (t # ts)"

fun py_repr :: "json \<Rightarrow> string" where
  "py_repr JNull = ''None''"
| "py_repr (JBool b) = (if b then ''True'' else ''False'')"
| "py_repr (JInt n) = py_str n"
| "py_repr (JStr s) = repr_text s"
| "py_repr (JList vs) = ''['' @ join '', '' (map py_repr vs) @ '']''"
| "py_repr (JDict kvs) = ''{'' @ join '', '' (map (\<lambda>(k, v). repr_text k @ '': '' @ py_repr v) kvs) @ ''}''"

definition str_of :: "json \<Rightarrow> string" where
  "str_of v = (case v of JStr s \<Rightarrow> s | _ \<Rightarrow> py_repr v)"

lemma str_of_JStr [simp]: "str_of (JStr s) = s"
  by (simp add: str_of_def)

text \<open>\<open>text.split(".")\<close> with a separator of one character; \<open>csv\<close> writes \<open>None\<close> as the empty text; \<open>v[:10]\<close>.\<close>

fun split_on :: "char \<Rightarrow> string \<Rightarrow> string \<Rightarrow> string list" where
  "split_on sep acc [] = [rev acc]"
| "split_on sep acc (c # cs) = (if c = sep then rev acc # split_on sep [] cs else split_on sep (c # acc) cs)"

definition csv_text :: "json \<Rightarrow> string" where
  "csv_text v = (if v = JNull then [] else str_of v)"

definition first_ten :: "json \<Rightarrow> json result" where
  "first_ten v = (case v of JStr s \<Rightarrow> Inr (JStr (take 10 s)) | JList vs \<Rightarrow> Inr (JList (take 10 vs))
     | _ \<Rightarrow> Inl (TypeError ''not sliceable''))"

subsection \<open>Walking a document\<close>

text \<open>The members of a value that \<open>iter\<close> yields are smaller than a dictionary that holds the value.\<close>

fun weight :: "json \<Rightarrow> nat" where
  "weight (JList vs) = sum_list (map weight vs)"
| "weight (JDict kvs) = Suc (sum_list (map (\<lambda>kv. weight (snd kv)) kvs))"
| "weight _ = 0"

lemma weight_iter: "iter v = Inr ws \<Longrightarrow> w \<in> set ws \<Longrightarrow> weight w \<le> weight v"
  by (cases v) (auto simp: member_le_sum_list)

lemma weight_get:
  "get_default v k d = Inr w \<Longrightarrow> weight d = 0 \<Longrightarrow> weight w < weight v"
proof (cases v)
  case (JDict kvs)
  assume get: "get_default v k d = Inr w" and "weight d = 0"
  then have "w = d \<or> (k, w) \<in> set kvs"
    by (auto simp: JDict get_or_def split: option.splits dest: map_of_SomeD)
  moreover have "weight w \<le> sum_list (map (\<lambda>kv. weight (snd kv)) kvs)" if "(k, w) \<in> set kvs"
    using that by (intro member_le_sum_list) (force, simp)
  ultimately show ?thesis using \<open>weight d = 0\<close> by (auto simp: JDict)
qed simp_all

subsection \<open>Digests\<close>

text \<open>The regular expressions \<open>^[0-9a-f]{64}$\<close> and \<open>^0x[0-9a-f]{64}$\<close> under \<open>fullmatch\<close>.\<close>

definition hex_lower :: "char \<Rightarrow> bool" where
  "hex_lower c \<longleftrightarrow> (CHR ''0'' \<le> c \<and> c \<le> CHR ''9'') \<or> (CHR ''a'' \<le> c \<and> c \<le> CHR ''f'')"

definition is_sha256 :: "string \<Rightarrow> bool" where
  "is_sha256 s \<longleftrightarrow> length s = 64 \<and> list_all hex_lower s"

definition is_tx_hash :: "string \<Rightarrow> bool" where
  "is_tx_hash s \<longleftrightarrow> starts_with ''0x'' s \<and> is_sha256 (drop 2 s)"

end
