(* ===== verification/Bech32.thy ===== *)
theory Bech32
  imports Pybase
begin

unbundle bit_operations_syntax

section \<open>Bech32 addresses\<close>

text \<open>
  The address codec that five scripts carry a copy of: \<open>polymod\<close>, \<open>hrp_expand\<close>, \<open>convert_bits\<close>,
  the decoders and \<open>to_bech32\<close>. Values and bytes are Python integers (\<open>int\<close>), combined with the bit
  operators of the source. The decoders differ only in what they accept besides a \<open>one1\<close> address
  and in the order of their checks, so the shared parts are defined once.
\<close>

subsection \<open>The code\<close>

definition CHARSET :: string where
  "CHARSET = ''qpzry9x8gf2tvdw0s3jn54khce6mua7l''"

definition GENERATOR :: "int list" where
  "GENERATOR = [0x3B6A57B2, 0x26508E6D, 0x1EA119FA, 0x3D4233DD, 0x2A1462B3]"

fun index_from :: "nat \<Rightarrow> char \<Rightarrow> string \<Rightarrow> nat option" where
  "index_from i c [] = None"
| "index_from i c (d # ds) = (if c = d then Some i else index_from (Suc i) c ds)"

definition charset_index :: "char \<Rightarrow> int result" where
  "charset_index c = (case index_from 0 c CHARSET of
     None \<Rightarrow> Inl (ValueError ''substring not found'') | Some i \<Rightarrow> Inr (int i))"

definition apply_generator :: "int \<Rightarrow> int \<Rightarrow> nat \<times> int \<Rightarrow> int" where
  "apply_generator top_bits checksum ig =
     (if drop_bit (fst ig) top_bits AND 1 \<noteq> 0 then checksum XOR snd ig else checksum)"

definition polymod_step :: "int \<Rightarrow> int \<Rightarrow> int" where
  "polymod_step checksum v =
     (let top_bits = drop_bit 25 checksum
      in foldl (apply_generator top_bits) (push_bit 5 (checksum AND 0x1FFFFFF) XOR v) (enumerate 0 GENERATOR))"

definition polymod :: "int list \<Rightarrow> int" where
  "polymod vs = foldl polymod_step 1 vs"

definition hrp_expand :: "string \<Rightarrow> int list" where
  "hrp_expand hrp = map (\<lambda>c. drop_bit 5 (of_char c)) hrp @ [0] @ map (\<lambda>c. of_char c AND 31) hrp"

text \<open>
  The inner \<open>while bits >= to_bits\<close> loop: the groups it appends and the bits it leaves. The code
  calls it with \<open>to_bits\<close> 5 and 8; for 0 the source loop does not end and the model stops at once.
\<close>

function emit :: "nat \<Rightarrow> int \<Rightarrow> nat \<Rightarrow> int list \<times> nat" where
  "emit to_bits acc bits =
     (if 0 < to_bits \<and> to_bits \<le> bits
      then (let (gs, r) = emit to_bits acc (bits - to_bits)
            in ((drop_bit (bits - to_bits) acc AND (push_bit to_bits 1 - 1)) # gs, r))
      else ([], bits))"
  by pat_completeness auto
termination
  by (relation "measure (\<lambda>(t, a, b). b)") auto

declare emit.simps [simp del]

definition convert_step :: "nat \<Rightarrow> nat \<Rightarrow> int \<times> nat \<times> int list \<Rightarrow> int \<Rightarrow> int \<times> nat \<times> int list" where
  "convert_step from_bits to_bits st v =
     (case st of (acc, bits, out) \<Rightarrow>
        let acc' = push_bit from_bits acc OR v;
            (gs, bits') = emit to_bits acc' (bits + from_bits)
        in (acc', bits', out @ gs))"

definition convert_loop :: "nat \<Rightarrow> nat \<Rightarrow> int list \<Rightarrow> int \<times> nat \<times> int list" where
  "convert_loop from_bits to_bits vs = foldl (convert_step from_bits to_bits) (0, 0, []) vs"

text \<open>\<open>convert_bits\<close> of the decoders refuses nonzero padding; that of the encoder pads.\<close>

definition convert_bits_strict :: "int list \<Rightarrow> nat \<Rightarrow> nat \<Rightarrow> int list result" where
  "convert_bits_strict vs from_bits to_bits =
     (case convert_loop from_bits to_bits vs of (acc, bits, out) \<Rightarrow>
        if bits \<noteq> 0 \<and> push_bit (to_bits - bits) acc AND (push_bit to_bits 1 - 1) \<noteq> 0
        then Inl (ValueError ''nonzero address padding'') else Inr out)"

definition convert_bits_padded :: "int list \<Rightarrow> nat \<Rightarrow> nat \<Rightarrow> int list" where
  "convert_bits_padded vs from_bits to_bits =
     (case convert_loop from_bits to_bits vs of (acc, bits, out) \<Rightarrow>
        if bits \<noteq> 0 then out @ [push_bit (to_bits - bits) acc AND (push_bit to_bits 1 - 1)] else out)"

definition rfind :: "string \<Rightarrow> char \<Rightarrow> int" where
  "rfind s c = (if c \<in> set s
     then int (length s) - 1 - int (length (takeWhile (\<lambda>d. d \<noteq> c) (rev s))) else - 1)"

text \<open>\<open>decode_bech32\<close> of \<open>blacklisted-address-audit.py\<close>: a \<open>one1\<close> address only.\<close>

definition decode_bech32 :: "string \<Rightarrow> string result" where
  "decode_bech32 address =
     (if address \<noteq> lower address \<or> \<not> starts_with ''one1'' address
      then Inl (ValueError ''invalid Harmony address'')
      else let separator = rfind address CHR ''1'';
               hrp = take (nat separator) address
           in case map_r charset_index (drop (nat (separator + 1)) address) of
                Inl e \<Rightarrow> Inl (ValueError ''invalid Harmony address character'')
              | Inr data \<Rightarrow>
                  if polymod (hrp_expand hrp @ data) \<noteq> 1
                  then Inl (ValueError ''invalid Harmony address checksum'')
                  else (case convert_loop 5 8 (take (length data - 6) data) of (acc, bits, decoded) \<Rightarrow>
                    if bits \<noteq> 0 \<and> acc AND (push_bit bits 1 - 1) \<noteq> 0
                    then Inl (ValueError ''nonzero Harmony address padding'')
                    else if length decoded \<noteq> 20
                    then Inl (ValueError ''Harmony address is not 20 bytes'')
                    else Inr (''0x'' @ bytes_hex decoded)))"

text \<open>The part of \<open>decode_address\<close> that the three forensic scripts share.\<close>

definition decode_one :: "string \<Rightarrow> string result" where
  "decode_one v =
     (if v \<noteq> lower v \<or> \<not> starts_with ''one1'' v
      then Inl (ValueError ''invalid Harmony address'')
      else let separator = rfind v CHR ''1'';
               hrp = take (nat separator) v
           in rbind (map_r charset_index (drop (nat (separator + 1)) v)) (\<lambda>data.
                if length data < 6 \<or> polymod (hrp_expand hrp @ data) \<noteq> 1
                then Inl (ValueError ''invalid Harmony address checksum'')
                else rbind (convert_bits_strict (take (length data - 6) data) 5 8) (\<lambda>decoded.
                  if length decoded \<noteq> 20
                  then Inl (ValueError ''invalid Harmony address length'')
                  else Inr (''0x'' @ bytes_hex decoded))))"

text \<open>
  \<open>decode_address\<close> of \<open>cx-source-audit.py\<close> (JSON \<open>null\<close> gives the empty text, a \<open>0x\<close> address only
  its lower case), of \<open>historical-exploit-flow-export.py\<close> (any empty value gives the empty text) and
  of \<open>historical-staking-rpc.py\<close> (a \<open>one1\<close> address only).
\<close>

definition decode_address :: "string option \<Rightarrow> string result" where
  "decode_address v = (case v of None \<Rightarrow> Inr []
     | Some s \<Rightarrow> if starts_with ''0x'' s then Inr (lower s) else decode_one s)"

definition flow_decode_address :: "string option \<Rightarrow> string result" where
  "flow_decode_address v = (case v of None \<Rightarrow> Inr []
     | Some s \<Rightarrow> if s = [] then Inr [] else if starts_with ''0x'' s then Inr (lower s) else decode_one s)"

definition staking_decode_address :: "string \<Rightarrow> string result" where
  "staking_decode_address v = decode_one v"

text \<open>\<open>to_bech32\<close> of \<open>build-non-issuance-audit.py\<close>.\<close>

definition checksum_of :: "int list \<Rightarrow> int list" where
  "checksum_of data =
     (let p = polymod (hrp_expand ''one'' @ data @ replicate 6 0) XOR 1
      in map (\<lambda>index. drop_bit (5 * (5 - index)) p AND 31) [0..<6])"

definition to_bech32 :: "string \<Rightarrow> string result" where
  "to_bech32 address =
     rbind (fromhex (removeprefix ''0x'' address)) (\<lambda>raw.
       if length raw \<noteq> 20 then Inl (ValueError ''address is not 20 bytes'')
       else let data = convert_bits_padded raw 8 5
            in Inr (''one1'' @ map (\<lambda>v. CHARSET ! nat v) (data @ checksum_of data)))"

subsection \<open>Regrouping bits keeps the number\<close>

text \<open>
  The accumulator of \<open>convert_bits\<close> is never masked, so it always is the number whose base
  \<open>2 ^ from_bits\<close> digits have been read, and the output is that number without its last \<open>bits\<close> bits.
\<close>

definition number :: "nat \<Rightarrow> int list \<Rightarrow> int" where
  "number w vs = foldl (\<lambda>a v. a * 2 ^ w + v) 0 vs"

definition digits :: "nat \<Rightarrow> int list \<Rightarrow> bool" where
  "digits w vs \<longleftrightarrow> (\<forall>v \<in> set vs. 0 \<le> v \<and> v < 2 ^ w)"

lemma digits_simps [simp]: "digits w []"
  "digits w (v # vs) \<longleftrightarrow> 0 \<le> v \<and> v < 2 ^ w \<and> digits w vs"
  "digits w (us @ vs) \<longleftrightarrow> digits w us \<and> digits w vs"
  by (auto simp: digits_def)

lemma number_snoc [simp]: "number w (vs @ [v]) = number w vs * 2 ^ w + v"
  and number_Nil [simp]: "number w [] = 0"
  by (simp_all add: number_def)

lemma number_inject:
  assumes "length us = length vs" and "digits w us" and "digits w vs" and "number w us = number w vs"
  shows "us = vs"
  using assms
proof (induction us arbitrary: vs rule: rev_induct)
  case (snoc u us)
  obtain vs' v where vs: "vs = vs' @ [v]"
    using snoc.prems(1) by (metis Zero_not_Suc length_0_conv length_append_singleton rev_exhaust)
  have eq: "number w us * 2 ^ w + u = number w vs' * 2 ^ w + v"
    using snoc.prems(4) by (simp add: vs)
  have "(number w us * 2 ^ w + u) mod 2 ^ w = u" and "(number w vs' * 2 ^ w + v) mod 2 ^ w = v"
    using snoc.prems(2,3) by (simp_all add: vs)
  with eq have "u = v" by simp
  with eq have "number w us = number w vs'" by simp
  then have "us = vs'"
    using snoc.prems by (intro snoc.IH) (simp_all add: vs)
  with \<open>u = v\<close> show ?case by (simp add: vs)
qed simp

lemma push_bit_or_eq_plus:
  fixes a v :: int
  assumes "0 \<le> v" and "v < 2 ^ w"
  shows "push_bit w a OR v = a * 2 ^ w + v"
proof -
  have v: "v = take_bit w v"
    using assms by (simp add: take_bit_int_eq_self)
  have "push_bit w a AND take_bit w v = 0"
    by (rule bit_eqI) (auto simp: bit_simps)
  then have "push_bit w a OR take_bit w v = push_bit w a + take_bit w v"
    by (simp add: disjunctive_add_eq_or)
  then show ?thesis using v by (simp add: push_bit_eq_mult)
qed

lemma and_low_mask: "a AND (2 ^ w - 1) = a mod 2 ^ w" "a AND (push_bit w 1 - 1) = a mod 2 ^ w" for a :: int
proof -
  show "a AND (2 ^ w - 1) = a mod 2 ^ w"
    by (simp add: take_bit_eq_mod flip: mask_eq_exp_minus_1 take_bit_eq_mask)
  then show "a AND (push_bit w 1 - 1) = a mod 2 ^ w" by (simp add: push_bit_eq_mult)
qed

lemma div_mod_pow_step:
  fixes a :: int
  assumes "to_bits \<le> bits"
  shows "(a div 2 ^ bits) * 2 ^ to_bits + (a div 2 ^ (bits - to_bits)) mod 2 ^ to_bits = a div 2 ^ (bits - to_bits)"
proof -
  have "(2::int) ^ bits = 2 ^ (bits - to_bits) * 2 ^ to_bits"
    using assms by (simp flip: power_add)
  then have "a div 2 ^ bits = (a div 2 ^ (bits - to_bits)) div 2 ^ to_bits"
    by (simp add: zdiv_zmult2_eq)
  then show ?thesis by (simp only: div_mult_mod_eq)
qed

lemma emit_spec:
  assumes "emit to_bits acc bits = (gs, r)" and "0 < to_bits"
  shows "r < to_bits" and "length gs * to_bits + r = bits" and "digits to_bits gs"
    and "foldl (\<lambda>a v. a * 2 ^ to_bits + v) (acc div 2 ^ bits) gs = acc div 2 ^ r"
proof -
  have "r < to_bits \<and> length gs * to_bits + r = bits \<and> digits to_bits gs \<and>
      foldl (\<lambda>a v. a * 2 ^ to_bits + v) (acc div 2 ^ bits) gs = acc div 2 ^ r"
    using assms
  proof (induction to_bits acc bits arbitrary: gs r rule: emit.induct)
    case (1 to_bits acc bits)
    show ?case
    proof (cases "to_bits \<le> bits")
      case False
      with 1(2,3) show ?thesis by (subst (asm) emit.simps) simp
    next
      case True
      obtain gs' where rec: "emit to_bits acc (bits - to_bits) = (gs', r)"
        and gs: "gs = (acc div 2 ^ (bits - to_bits)) mod 2 ^ to_bits # gs'"
        using 1(2,3) True emit.simps [of to_bits acc bits]
        by (auto simp: and_low_mask drop_bit_eq_div split: prod.splits)
      have IH: "r < to_bits \<and> length gs' * to_bits + r = bits - to_bits \<and> digits to_bits gs' \<and>
          foldl (\<lambda>a v. a * 2 ^ to_bits + v) (acc div 2 ^ (bits - to_bits)) gs' = acc div 2 ^ r"
        using 1 True rec by blast
      then have "length gs' * to_bits + r = bits - to_bits" by blast
      then have "length gs * to_bits + r = bits" using True by (simp add: gs)
      then show ?thesis
        using IH div_mod_pow_step [OF True, of acc] by (simp add: gs)
    qed
  qed
  then show "r < to_bits" and "length gs * to_bits + r = bits" and "digits to_bits gs"
    and "foldl (\<lambda>a v. a * 2 ^ to_bits + v) (acc div 2 ^ bits) gs = acc div 2 ^ r"
    by blast+
qed

lemma convert_loop_spec:
  assumes "convert_loop from_bits to_bits vs = (acc, bits, out)"
    and "0 < to_bits" and "digits from_bits vs"
  shows "acc = number from_bits vs" and "bits < to_bits"
    and "length out * to_bits + bits = length vs * from_bits"
    and "digits to_bits out" and "number to_bits out = acc div 2 ^ bits"
proof -
  have "acc = number from_bits vs \<and> bits < to_bits \<and> length out * to_bits + bits = length vs * from_bits
      \<and> digits to_bits out \<and> number to_bits out = acc div 2 ^ bits"
    using assms
  proof (induction vs arbitrary: acc bits out rule: rev_induct)
    case Nil
    then show ?case by (simp add: convert_loop_def)
  next
    case (snoc v vs)
    obtain acc0 bits0 out0 where st: "convert_loop from_bits to_bits vs = (acc0, bits0, out0)"
      by (cases "convert_loop from_bits to_bits vs")
    with snoc have IH: "acc0 = number from_bits vs" "bits0 < to_bits"
      "length out0 * to_bits + bits0 = length vs * from_bits" "digits to_bits out0"
      "number to_bits out0 = acc0 div 2 ^ bits0"
      by (metis digits_simps(3))+
    have acc: "acc = acc0 * 2 ^ from_bits + v"
      and em: "emit to_bits acc (bits0 + from_bits) = (drop (length out0) out, bits)"
      and out: "out = out0 @ drop (length out0) out"
      using snoc.prems st
      by (auto simp: convert_loop_def convert_step_def push_bit_or_eq_plus Let_def split: prod.splits)
    note spec = emit_spec [OF em snoc.prems(2)]
    have "acc div 2 ^ (bits0 + from_bits) = (acc div 2 ^ from_bits) div 2 ^ bits0"
      by (simp add: power_add zdiv_zmult2_eq mult.commute [of "2 ^ bits0"])
    also have "acc div 2 ^ from_bits = acc0"
      using snoc.prems(3) by (simp add: acc)
    finally have "acc div 2 ^ (bits0 + from_bits) = number to_bits out0" using IH(5) by simp
    then have "number to_bits (out0 @ drop (length out0) out) = acc div 2 ^ bits"
      using spec(4) by (simp add: number_def)
    moreover have "digits to_bits (out0 @ drop (length out0) out)"
      using IH(4) spec(3) by simp
    moreover have "length (out0 @ drop (length out0) out) * to_bits + bits = length (vs @ [v]) * from_bits"
      using IH(3) spec(2) by (simp add: algebra_simps)
    ultimately show ?case using acc IH(1) spec(1) out by simp
  qed
  then show "acc = number from_bits vs" and "bits < to_bits"
    and "length out * to_bits + bits = length vs * from_bits"
    and "digits to_bits out" and "number to_bits out = acc div 2 ^ bits"
    by blast+
qed

subsection \<open>The checksum is linear over exclusive or\<close>

lemma apply_generator_bit:
  "apply_generator t c ig = (if bit t (fst ig) then c XOR snd ig else c)"
  by (simp add: apply_generator_def bit_iff_odd_drop_bit and_one_eq odd_iff_mod_2_eq_one)

lemma apply_generator_linear:
  "apply_generator (s XOR t) (a XOR b) ig = apply_generator s a ig XOR apply_generator t b ig"
  by (simp add: apply_generator_bit bit_xor_iff ac_simps)

lemma apply_generators_linear:
  "foldl (apply_generator (s XOR t)) (a XOR b) igs =
     foldl (apply_generator s) a igs XOR foldl (apply_generator t) b igs"
  by (induction igs arbitrary: a b) (simp_all add: apply_generator_linear)

lemma polymod_step_linear: "polymod_step (a XOR b) v = polymod_step a 0 XOR polymod_step b v"
proof -
  have "drop_bit 25 (a XOR b) = drop_bit 25 a XOR drop_bit 25 b" by simp
  moreover have "push_bit 5 ((a XOR b) AND 0x1FFFFFF) XOR v =
      (push_bit 5 (a AND 0x1FFFFFF) XOR 0) XOR (push_bit 5 (b AND 0x1FFFFFF) XOR v)"
    by (rule bit_eqI) (auto simp: bit_simps)
  ultimately show ?thesis
    by (simp only: polymod_step_def Let_def apply_generators_linear)
qed

lemma foldl_polymod_linear:
  "foldl polymod_step (a XOR b) vs =
     foldl polymod_step a (replicate (length vs) 0) XOR foldl polymod_step b vs"
  by (induction vs arbitrary: a b) (simp_all add: polymod_step_linear)

text \<open>The state of the checksum stays within 30 bits.\<close>

definition state30 :: "int \<Rightarrow> bool" where
  "state30 c \<longleftrightarrow> 0 \<le> c \<and> c < 2 ^ 30"

lemma state30_xor: "state30 a \<Longrightarrow> state30 b \<Longrightarrow> state30 (a XOR b)"
  using XOR_upper [of a 30 b] by (simp add: state30_def)

lemma state30_generators:
  assumes "state30 c" and "\<forall>ig \<in> set igs. state30 (snd ig)"
  shows "state30 (foldl (apply_generator t) c igs)"
  using assms by (induction igs arbitrary: c) (simp_all add: apply_generator_bit state30_xor)

lemma state30_GENERATOR: "\<forall>ig \<in> set (enumerate 0 GENERATOR). state30 (snd ig)"
  by (simp add: GENERATOR_def state30_def)

lemma state30_polymod_step:
  assumes "0 \<le> v" and "v < 32"
  shows "state30 (polymod_step c v)"
proof -
  have m: "c AND 0x1FFFFFF = take_bit 25 c"
    by (simp add: take_bit_eq_mask mask_numeral)
  have "take_bit 25 c < 2 ^ 25" by (rule take_bit_int_less_exp)
  then have "state30 (push_bit 5 (c AND 0x1FFFFFF))"
    by (simp add: m state30_def push_bit_eq_mult)
  moreover have "state30 v" using assms by (simp add: state30_def)
  ultimately show ?thesis
    by (simp add: polymod_step_def Let_def state30_generators state30_xor state30_GENERATOR)
qed

lemma state30_foldl: "state30 c \<Longrightarrow> digits 5 vs \<Longrightarrow> state30 (foldl polymod_step c vs)"
  by (induction vs arbitrary: c) (simp_all add: state30_polymod_step)

lemma state30_polymod: "digits 5 vs \<Longrightarrow> state30 (polymod vs)"
  using state30_foldl [of 1 vs] by (simp add: polymod_def state30_def)

text \<open>What the bits above position 24 contribute, apart from the shift.\<close>

definition generators :: "int \<Rightarrow> int" where
  "generators t = foldl (apply_generator t) 0 (enumerate 0 GENERATOR)"

lemma polymod_step_split:
  "polymod_step c v = (push_bit 5 (take_bit 25 c) XOR v) XOR generators (drop_bit 25 c)"
proof -
  have m: "c AND 0x1FFFFFF = take_bit 25 c"
    by (simp add: take_bit_eq_mask mask_numeral)
  have zero: "foldl (apply_generator 0) a igs = a" for a igs
    by (induction igs arbitrary: a) (simp_all add: apply_generator_bit)
  have "foldl (apply_generator (0 XOR t)) (a XOR 0) igs = a XOR foldl (apply_generator t) 0 igs" for t a igs
    by (simp only: apply_generators_linear zero)
  from this [of "drop_bit 25 c" "push_bit 5 (take_bit 25 c) XOR v" "enumerate 0 GENERATOR"]
  show ?thesis
    unfolding polymod_step_def generators_def Let_def m
    by (simp only: xor.left_neutral xor.right_neutral)
qed

lemma generators_0 [simp]: "generators 0 = 0"
  by (simp add: generators_def GENERATOR_def apply_generator_bit)

lemma polymod_step_small:
  assumes "0 \<le> c" and "c < 2 ^ 25" and "0 \<le> v" and "v < 32"
  shows "polymod_step c v = c * 32 + v"
proof -
  have "take_bit 25 c = c" and "drop_bit 25 c = 0"
    using assms(1,2) by (simp_all add: take_bit_int_eq_self drop_bit_eq_div)
  then have "polymod_step c v = push_bit 5 c XOR v" by (simp add: polymod_step_split)
  also have "push_bit 5 c AND v = 0"
  proof -
    have "v = take_bit 5 v" using assms(3,4) by (simp add: take_bit_int_eq_self)
    moreover have "push_bit 5 c AND take_bit 5 v = 0" by (rule bit_eqI) (auto simp: bit_simps)
    ultimately show ?thesis by metis
  qed
  then have "push_bit 5 c XOR v = push_bit 5 c + v" by (simp add: disjunctive_add_eq_xor)
  finally show ?thesis by (simp add: push_bit_eq_mult)
qed

lemma generators_low_bits:
  assumes "0 \<le> t" and "t < 32" and "take_bit 5 (generators t) = 0"
  shows "t = 0"
proof -
  have "list_all (\<lambda>t. take_bit 5 (generators t) = 0 \<longrightarrow> t = 0) (map int [0..<32])"
    by code_simp
  moreover have "t \<in> set (map int [0..<32])"
    using assms(1,2) by (auto simp: image_iff intro!: bexI [of _ "nat t"])
  ultimately show ?thesis using assms(3) by (auto simp: list_all_iff)
qed

text \<open>Appending a symbol to a nonzero difference never makes it vanish.\<close>

lemma polymod_step_zero_cancel:
  assumes "state30 c" and "polymod_step c 0 = 0"
  shows "c = 0"
proof -
  have eq: "push_bit 5 (take_bit 25 c) XOR generators (drop_bit 25 c) = 0"
    using assms(2) by (simp add: polymod_step_split)
  then have "take_bit 5 (push_bit 5 (take_bit 25 c) XOR generators (drop_bit 25 c)) = 0" by simp
  moreover have "take_bit 5 (push_bit 5 (take_bit 25 c)) = 0"
    by (rule bit_eqI) (auto simp: bit_simps)
  ultimately have low: "take_bit 5 (generators (drop_bit 25 c)) = 0" by simp
  have "0 \<le> c div 33554432 \<and> c div 33554432 < 32"
    using assms(1) int_div_less [of 33554432 c 32]
    by (simp add: state30_def pos_imp_zdiv_nonneg_iff)
  moreover have d: "drop_bit 25 c = c div 33554432" by (simp add: drop_bit_eq_div)
  ultimately have top0: "drop_bit 25 c = 0"
    using generators_low_bits [OF _ _ low] unfolding d by blast
  with eq have "push_bit 5 (take_bit 25 c) = 0" by simp
  then have "take_bit 25 c = 0" by (simp add: push_bit_eq_mult)
  with top0 show ?thesis using bits_ident [of 25 c] by simp
qed

lemma foldl_zero_cancel:
  "state30 c \<Longrightarrow> foldl polymod_step c (replicate n 0) = 0 \<Longrightarrow> c = 0"
proof (induction n arbitrary: c)
  case (Suc n)
  then have "polymod_step c 0 = 0" using state30_polymod_step [of 0 c] by auto
  with Suc.prems(1) show ?case by (rule polymod_step_zero_cancel)
qed simp

end
