(* ===== verification/Address.thy ===== *)
theory Address
  imports Bech32
begin

section \<open>Correctness of the address codec\<close>

text \<open>
  \<open>to_bech32\<close> followed by any of the decoders gives back the address in lower-case hexadecimal, so
  two different addresses never print alike; the two independently written decoders accept the same
  strings with the same result; a single mistyped character other than the separator is refused. The
  human-readable prefix is not checked: every prefix that begins with \<open>one1\<close> is accepted. The interface is the
  locale \<open>address_codec\<close>, interpreted once per decoder.
\<close>

subsection \<open>The checksum closes\<close>

lemma polymod_append: "polymod (us @ vs) = foldl polymod_step (polymod us) vs"
  by (simp add: polymod_def)

lemma number_bounds: "digits w vs \<Longrightarrow> 0 \<le> number w vs \<and> number w vs < 2 ^ (w * length vs)"
proof (induction vs rule: rev_induct)
  case (snoc v vs)
  then have IH: "0 \<le> number w vs" "number w vs < 2 ^ (w * length vs)" and v: "0 \<le> v" "v < 2 ^ w"
    by simp_all
  have "number w vs * 2 ^ w + v < (number w vs + 1) * 2 ^ w" using v by (simp add: algebra_simps)
  also have "\<dots> \<le> 2 ^ (w * length vs) * 2 ^ w" using IH by (intro mult_right_mono) auto
  finally show ?case using IH v by (simp add: power_add mult.commute)
qed simp

lemma foldl_polymod_zero:
  "digits 5 vs \<Longrightarrow> length vs \<le> 6 \<Longrightarrow> foldl polymod_step 0 vs = number 5 vs"
proof (induction vs rule: rev_induct)
  case (snoc v vs)
  then have d: "digits 5 vs" and len: "length vs \<le> 5" and v: "0 \<le> v" "v < 32" by simp_all
  have "(2::int) ^ (5 * length vs) \<le> 2 ^ 25" using len by (intro power_increasing) auto
  then have "number 5 vs < 2 ^ 25" using number_bounds [OF d] by linarith
  then show ?case using snoc.IH d len v number_bounds [OF d] by (simp add: polymod_step_small)
qed simp

definition five_bit_groups :: "int \<Rightarrow> int list" where
  "five_bit_groups p = map (\<lambda>index. drop_bit (5 * (5 - index)) p AND 31) [0..<6]"

lemma and_31: "a AND 31 = a mod 32" for a :: int
  using and_low_mask(1) [of a 5] by simp

lemma digits_five_bit_groups: "digits 5 (five_bit_groups p)"
  by (auto simp: five_bit_groups_def digits_def and_31)

lemma number_five_bit_groups:
  assumes "state30 p"
  shows "number 5 (five_bit_groups p) = p"
proof -
  have p: "0 \<le> p" "p < 32 * 33554432" using assms by (simp_all add: state30_def)
  then have top: "p div 33554432 mod 32 = p div 33554432"
    using int_div_less [of 33554432 p 32] by (simp add: pos_imp_zdiv_nonneg_iff)
  have step: "p div (m * 32) * 32 + p div m mod 32 = p div m" if "0 < m" for m
    using that by (simp add: zdiv_zmult2_eq)
  have "five_bit_groups p = [p div 33554432 mod 32, p div 1048576 mod 32, p div 32768 mod 32,
      p div 1024 mod 32, p div 32 mod 32, p mod 32]"
    by (simp add: five_bit_groups_def and_31 drop_bit_eq_div upt_conv_Cons)
  then show ?thesis
    using step [of 1048576] step [of 32768] step [of 1024] step [of 32] step [of 1]
    by (simp add: number_def top)
qed

lemma checksum_of_eq:
  "checksum_of data = five_bit_groups (polymod (hrp_expand ''one'' @ data @ replicate 6 0) XOR 1)"
  by (simp add: checksum_of_def five_bit_groups_def Let_def)

lemma length_checksum_of [simp]: "length (checksum_of data) = 6"
  by (simp add: checksum_of_eq five_bit_groups_def)

text \<open>The checksum that closes a text with the human-readable prefix \<open>hrp\<close>; \<open>to_bech32\<close> writes that of \<open>one\<close>.\<close>

definition checksum_for :: "string \<Rightarrow> int list \<Rightarrow> int list" where
  "checksum_for hrp data = five_bit_groups (polymod (hrp_expand hrp @ data @ replicate 6 0) XOR 1)"

lemma checksum_of_for: "checksum_of data = checksum_for ''one'' data"
  by (simp add: checksum_of_eq checksum_for_def)

lemma length_checksum_for [simp]: "length (checksum_for hrp data) = 6"
  by (simp add: checksum_for_def five_bit_groups_def)

lemma digits_checksum_for: "digits 5 (checksum_for hrp data)"
  by (simp add: checksum_for_def digits_five_bit_groups)

lemma digits_hrp: "digits 5 (hrp_expand hrp)"
proof -
  have "drop_bit 5 (of_char c :: int) < 32" for c
    using pos_mod_bound [of 256 "of_char c :: int"] by (simp add: drop_bit_eq_div)
  moreover have "0 \<le> (of_char c :: int)" for c
    using pos_mod_sign [of 256 "of_char c :: int"] by simp
  ultimately show ?thesis by (auto simp: hrp_expand_def digits_def and_31)
qed

lemma checksum_for_closes:
  assumes "digits 5 data"
  shows "polymod (hrp_expand hrp @ data @ checksum_for hrp data) = 1"
proof -
  let ?s = "polymod (hrp_expand hrp @ data)"
  let ?zero = "foldl polymod_step ?s (replicate 6 0)"
  have s: "state30 ?s" using assms digits_hrp by (intro state30_polymod) simp
  have "state30 ?zero" by (intro state30_foldl s) (simp add: numeral_eq_Suc)
  then have p: "state30 (?zero XOR 1)" by (intro state30_xor) (simp_all add: state30_def)
  have c: "checksum_for hrp data = five_bit_groups (?zero XOR 1)"
    by (simp add: checksum_for_def polymod_append flip: append_assoc)
  have "polymod (hrp_expand hrp @ data @ checksum_for hrp data) = foldl polymod_step (?s XOR 0) (checksum_for hrp data)"
    by (simp add: polymod_append flip: append_assoc)
  also have "\<dots> = ?zero XOR foldl polymod_step 0 (checksum_for hrp data)"
    by (simp only: foldl_polymod_linear length_checksum_for)
  also have "foldl polymod_step 0 (checksum_for hrp data) = ?zero XOR 1"
    using p by (simp add: foldl_polymod_zero c digits_five_bit_groups number_five_bit_groups five_bit_groups_def [THEN arg_cong [of _ _ length]])
  finally show ?thesis by (simp flip: xor.assoc)
qed

subsection \<open>Characters\<close>

lemma charset_char:
  assumes "0 \<le> v" and "v < 32"
  shows "charset_index (CHARSET ! nat v) = Inr v" and "CHARSET ! nat v \<noteq> CHR ''1''"
    and "lower_char (CHARSET ! nat v) = CHARSET ! nat v"
proof -
  have "list_all (\<lambda>v. charset_index (CHARSET ! v) = Inr (int v) \<and> CHARSET ! v \<noteq> CHR ''1'' \<and>
      lower_char (CHARSET ! v) = CHARSET ! v) [0..<32]"
    by code_simp
  then have "charset_index (CHARSET ! nat v) = Inr (int (nat v)) \<and> CHARSET ! nat v \<noteq> CHR ''1'' \<and>
      lower_char (CHARSET ! nat v) = CHARSET ! nat v"
    using assms by (simp only: list_all_iff set_upt) auto
  then show "charset_index (CHARSET ! nat v) = Inr v" and "CHARSET ! nat v \<noteq> CHR ''1''"
    and "lower_char (CHARSET ! nat v) = CHARSET ! nat v"
    using assms(1) by simp_all
qed

lemma index_from_bounds: "index_from i c ds = Some j \<Longrightarrow> i \<le> j \<and> j < i + length ds \<and> ds ! (j - i) = c"
proof (induction ds arbitrary: i)
  case (Cons d ds)
  show ?case
  proof (cases "c = d")
    case False
    with Cons.prems have "index_from (Suc i) c ds = Some j" by simp
    from Cons.IH [OF this] have "Suc i \<le> j" "j < Suc i + length ds" "ds ! (j - Suc i) = c" by simp_all
    moreover from this have "j - i = Suc (j - Suc i)" by simp
    ultimately show ?thesis by simp
  qed (use Cons in auto)
qed simp

lemma charset_index_spec:
  assumes "charset_index c = Inr v"
  shows "0 \<le> v" and "v < 32" and "CHARSET ! nat v = c"
  using assms index_from_bounds [of 0 c CHARSET]
  by (auto simp: charset_index_def CHARSET_def split: option.splits)

lemma charset_data:
  assumes "digits 5 vs"
  shows "map_r charset_index (map (\<lambda>v. CHARSET ! nat v) vs) = Inr vs"
    and "CHR ''1'' \<notin> set (map (\<lambda>v. CHARSET ! nat v) vs)"
    and "lower (map (\<lambda>v. CHARSET ! nat v) vs) = map (\<lambda>v. CHARSET ! nat v) vs"
proof -
  show "map_r charset_index (map (\<lambda>v. CHARSET ! nat v) vs) = Inr vs"
    using assms by (induction vs) (simp_all add: charset_char(1))
  show "CHR ''1'' \<notin> set (map (\<lambda>v. CHARSET ! nat v) vs)"
    using assms charset_char(2) by (fastforce simp: digits_def)
  show "lower (map (\<lambda>v. CHARSET ! nat v) vs) = map (\<lambda>v. CHARSET ! nat v) vs"
    using assms by (induction vs) (simp_all add: lower_Cons charset_char(3))
qed

lemma digits_charset_data: "map_r charset_index t = Inr data \<Longrightarrow> digits 5 data"
  using charset_index_spec by (fastforce simp: digits_def dest: map_r_elem)

lemma charset_index_inject: "charset_index c = Inr v \<Longrightarrow> charset_index d = Inr v \<Longrightarrow> c = d"
  using charset_index_spec(3) by blast

lemma rfind_separator: "CHR ''1'' \<notin> set t \<Longrightarrow> rfind (h @ ''1'' @ t) CHR ''1'' = int (length h)"
proof -
  assume "CHR ''1'' \<notin> set t"
  then have "takeWhile (\<lambda>d. d \<noteq> CHR ''1'') (rev (h @ ''1'' @ t)) = rev t"
    by (subst rev_append, subst rev_append, subst append_assoc, subst takeWhile_append2) auto
  then show ?thesis unfolding rfind_def by simp
qed

lemma lower_one: "lower ''one'' = ''one''" and lower_separator: "lower ''1'' = ''1''"
  by (code_simp, code_simp)

subsection \<open>What a decoder does on a \<open>one1\<close> string\<close>

text \<open>The payload check of a decoder, after the separator has been found.\<close>

definition decode_data :: "string \<Rightarrow> int list \<Rightarrow> string result" where
  "decode_data hrp data =
     (if length data < 6 \<or> polymod (hrp_expand hrp @ data) \<noteq> 1
      then Inl (ValueError ''invalid Harmony address checksum'')
      else rbind (convert_bits_strict (take (length data - 6) data) 5 8) (\<lambda>decoded.
        if length decoded \<noteq> 20
        then Inl (ValueError ''invalid Harmony address length'')
        else Inr (''0x'' @ bytes_hex decoded)))"

lemma decode_one_separated:
  assumes "CHR ''1'' \<notin> set t" and "lower h = h" and "starts_with ''one1'' (h @ ''1'' @ t)"
  shows "decode_one (h @ ''1'' @ t) =
    (if t \<noteq> lower t then Inl (ValueError ''invalid Harmony address'')
     else rbind (map_r charset_index t) (decode_data h))"
proof -
  have "drop (nat (int (length h) + 1)) (h @ ''1'' @ t) = t" and "take (nat (int (length h))) (h @ ''1'' @ t) = h"
    by (simp_all add: nat_add_distrib)
  moreover have "lower (h @ ''1'' @ t) = h @ ''1'' @ lower t" by (simp only: lower_append lower_separator assms(2))
  ultimately show ?thesis
    using assms(3) unfolding decode_one_def decode_data_def Let_def rfind_separator [OF assms(1)] by simp
qed

lemma decode_one_data:
  assumes "CHR ''1'' \<notin> set t"
  shows "decode_one (''one1'' @ t) =
    (if t \<noteq> lower t then Inl (ValueError ''invalid Harmony address'')
     else rbind (map_r charset_index t) (decode_data ''one''))"
  using decode_one_separated [OF assms lower_one] starts_with_append [of "''one1''" t] by simp

lemma convert_bits_strict_groups:
  assumes "digits 8 raw" and "length raw * 8 = n * 5"
  obtains data where "convert_bits_padded raw 8 5 = data" and "digits 5 data" and "length data = n"
    and "convert_bits_strict data 5 8 = Inr raw"
proof -
  obtain acc bits data where st: "convert_loop 8 5 raw = (acc, bits, data)" by (cases "convert_loop 8 5 raw")
  note enc = convert_loop_spec [OF st _ assms(1)]
  have "length data * 5 + bits = n * 5" and "bits < 5" using enc(2,3) assms(2) by simp_all
  then have bits: "bits = 0" and n: "length data = n" by presburger+
  have data: "digits 5 data" "number 5 data = number 8 raw" using enc by (simp_all add: bits)
  obtain acc' bits' out where st': "convert_loop 5 8 data = (acc', bits', out)" by (cases "convert_loop 5 8 data")
  note dec = convert_loop_spec [OF st' _ data(1)]
  have "length out * 8 + bits' = length raw * 8" and "bits' < 8" using dec(2,3) assms(2) n by simp_all
  then have bits': "bits' = 0" and out: "length out = length raw" by presburger+
  have "out = raw"
    using dec(1,4,5) data(2) assms(1) out by (intro number_inject [of out raw 8]) (simp_all add: bits')
  then have "convert_bits_strict data 5 8 = Inr raw"
    by (simp add: convert_bits_strict_def st' bits')
  moreover have "convert_bits_padded raw 8 5 = data" by (simp add: convert_bits_padded_def st bits)
  ultimately show ?thesis using data(1) n by (intro that) simp_all
qed

text \<open>The lower-case hexadecimal form of an address: what both ends agree on.\<close>

definition canonical_hex :: "string \<Rightarrow> string result" where
  "canonical_hex address = rbind (fromhex (removeprefix ''0x'' address)) (\<lambda>raw.
     if length raw \<noteq> 20 then Inl (ValueError ''address is not 20 bytes'') else Inr (''0x'' @ bytes_hex raw))"

lemma is_bytes_digits: "is_bytes bs \<longleftrightarrow> digits 8 bs"
  by (simp add: is_bytes_def digits_def)

lemma to_bech32_shape:
  assumes "to_bech32 a = Inr s"
  obtains raw data where "fromhex (removeprefix ''0x'' a) = Inr raw" and "length raw = 20"
    and "convert_bits_strict data 5 8 = Inr raw" and "digits 5 data" and "length data = 32"
    and "s = ''one1'' @ map (\<lambda>v. CHARSET ! nat v) (data @ checksum_of data)"
proof -
  from assms obtain raw where raw: "fromhex (removeprefix ''0x'' a) = Inr raw" and len: "length raw = 20"
    and s: "s = ''one1'' @ map (\<lambda>v. CHARSET ! nat v)
      (convert_bits_padded raw 8 5 @ checksum_of (convert_bits_padded raw 8 5))"
    by (auto simp: to_bech32_def rbind_eq_Inr Let_def split: if_splits)
  have "digits 8 raw" using fromhex_is_bytes [OF raw] by (simp add: is_bytes_digits)
  then obtain data where "convert_bits_padded raw 8 5 = data" "digits 5 data" "length data = 32"
    "convert_bits_strict data 5 8 = Inr raw"
    using convert_bits_strict_groups [of raw 32] len by auto
  with raw len s show ?thesis by (intro that) simp_all
qed

text \<open>
  The form of an address under another human-readable prefix, with the checksum that belongs to it.
\<close>

definition prefixed_address :: "string \<Rightarrow> string \<Rightarrow> string result" where
  "prefixed_address hrp address = rbind (fromhex (removeprefix ''0x'' address)) (\<lambda>raw.
     let data = convert_bits_padded raw 8 5
     in Inr (hrp @ ''1'' @ map (\<lambda>v. CHARSET ! nat v) (data @ checksum_for hrp data)))"

lemma to_bech32_prefixed: "to_bech32 a = Inr s \<Longrightarrow> prefixed_address ''one'' a = Inr s"
  by (auto simp: to_bech32_def prefixed_address_def rbind_eq_Inr Let_def checksum_of_for split: if_splits)

lemma starts_with_extend: "starts_with p s \<Longrightarrow> starts_with p (s @ t)"
  by (auto simp: starts_with_iff)

lemma decode_one_prefixed:
  assumes "canonical_hex a = Inr b" and "lower h = h" and "starts_with ''one1'' (h @ ''1'')"
  shows "\<exists>t. prefixed_address h a = Inr (h @ ''1'' @ t) \<and> decode_one (h @ ''1'' @ t) = Inr b"
proof -
  from assms(1) obtain raw where raw: "fromhex (removeprefix ''0x'' a) = Inr raw" "length raw = 20"
    and b: "b = ''0x'' @ bytes_hex raw"
    by (auto simp: canonical_hex_def rbind_eq_Inr split: if_splits)
  have "digits 8 raw" using fromhex_is_bytes [OF raw(1)] by (simp add: is_bytes_digits)
  then obtain data where data: "convert_bits_padded raw 8 5 = data" "digits 5 data" "length data = 32"
    "convert_bits_strict data 5 8 = Inr raw"
    using convert_bits_strict_groups [of raw 32] raw(2) by auto
  define t where "t = map (\<lambda>v. CHARSET ! nat v) (data @ checksum_for h data)"
  have ds: "digits 5 (data @ checksum_for h data)" using data(2) digits_checksum_for by simp
  have "starts_with ''one1'' (h @ ''1'' @ t)"
    using starts_with_extend [OF assms(3), of t] by simp
  then have "decode_one (h @ ''1'' @ t) = decode_data h (data @ checksum_for h data)"
    unfolding t_def by (simp only: decode_one_separated [OF charset_data(2) [OF ds] assms(2)] charset_data [OF ds]) simp
  also have "\<dots> = Inr b"
    using checksum_for_closes [OF data(2)] data(3,4) raw(2) by (simp add: decode_data_def b)
  finally show ?thesis using raw(1) data(1) by (simp add: prefixed_address_def t_def)
qed

lemma decode_one_to_bech32:
  assumes "to_bech32 a = Inr s"
  shows "\<exists>b. canonical_hex a = Inr b \<and> decode_one s = Inr b"
proof -
  from assms obtain raw where "fromhex (removeprefix ''0x'' a) = Inr raw" "length raw = 20"
    by (rule to_bech32_shape)
  then have b: "canonical_hex a = Inr (''0x'' @ bytes_hex raw)" by (simp add: canonical_hex_def)
  with decode_one_prefixed [OF b lower_one] to_bech32_prefixed [OF assms] show ?thesis
    by (auto simp: starts_with_def)
qed

subsection \<open>The two decoders agree\<close>

lemma padding_tests_agree:
  fixes acc :: int
  assumes "bits < 8"
  shows "push_bit (8 - bits) acc AND (push_bit 8 1 - 1) = 0 \<longleftrightarrow> acc AND (push_bit bits 1 - 1) = 0"
proof -
  have "push_bit (8 - bits) acc AND (push_bit 8 1 - 1) = take_bit 8 (push_bit (8 - bits) acc)"
    using and_low_mask(2) [of "push_bit (8 - bits) acc" 8] by (simp add: take_bit_eq_mod)
  also have "\<dots> = push_bit (8 - bits) (take_bit bits acc)"
    using assms by (simp add: take_bit_push_bit)
  also have "\<dots> = 0 \<longleftrightarrow> take_bit bits acc = 0" by (simp add: push_bit_eq_mult)
  finally show ?thesis using and_low_mask(2) [of acc bits] by (simp add: take_bit_eq_mod)
qed

lemma decoders_agree: "decode_bech32 s = Inr a \<longleftrightarrow> decode_one s = Inr a"
proof (cases "s \<noteq> lower s \<or> \<not> starts_with ''one1'' s")
  case True
  then show ?thesis by (auto simp: decode_bech32_def decode_one_def)
next
  case False
  define tail hrp where "tail = drop (nat (rfind s CHR ''1'' + 1)) s" and "hrp = take (nat (rfind s CHR ''1'')) s"
  show ?thesis
  proof (cases "map_r charset_index tail")
    case (Inl e)
    with False show ?thesis
      by (simp add: decode_bech32_def decode_one_def Let_def flip: tail_def hrp_def)
  next
    case (Inr data)
    then have "digits 5 data" by (rule digits_charset_data)
    then have payload: "digits 5 (take (length data - 6) data)"
      by (auto simp: digits_def dest: in_set_takeD)
    obtain acc bits out where st: "convert_loop 5 8 (take (length data - 6) data) = (acc, bits, out)"
      by (cases "convert_loop 5 8 (take (length data - 6) data)")
    note spec = convert_loop_spec [OF st _ payload]
    have bits: "bits < 8" using spec(2) by simp
    have "length data < 6 \<Longrightarrow> length out = 0" using spec(3) by simp
    with Inr False st show ?thesis
      by (auto simp: decode_bech32_def decode_one_def Let_def convert_bits_strict_def rbind_eq_Inr
          padding_tests_agree [OF bits, simplified] simp flip: tail_def hrp_def)
  qed
qed

subsection \<open>Mistyped characters\<close>

lemma substitution_breaks_checksum:
  assumes "digits 5 (pre @ [v] @ post)" and "digits 5 (pre @ [w] @ post)"
    and "polymod (pre @ [v] @ post) = 1" and "polymod (pre @ [w] @ post) = 1"
  shows "v = w"
proof -
  let ?s = "polymod_step (polymod pre)"
  have split: "?s w = (v XOR w) XOR ?s v"
    by (rule bit_eqI) (auto simp: polymod_step_split bit_xor_iff)
  have "foldl polymod_step (?s w) post =
      foldl polymod_step (v XOR w) (replicate (length post) 0) XOR foldl polymod_step (?s v) post"
    unfolding split by (rule foldl_polymod_linear)
  then have "1 = foldl polymod_step (v XOR w) (replicate (length post) 0) XOR (1 :: int)"
    using assms(3,4) by (simp only: polymod_append foldl.simps foldl_append)
  then have zero: "foldl polymod_step (v XOR w) (replicate (length post) 0) = 0"
    by (metis xor.assoc xor.left_neutral xor.right_neutral xor_self_eq)
  have "state30 v" and "state30 w" using assms(1,2) by (simp_all add: state30_def)
  then have "state30 (v XOR w)" by (rule state30_xor)
  then have "v XOR w = 0" using zero by (rule foldl_zero_cancel)
  then show ?thesis by (metis xor.assoc xor.left_neutral xor.right_neutral xor_self_eq)
qed

lemma decode_one_digits:
  assumes "CHR ''1'' \<notin> set t" and "decode_one (''one1'' @ t) = Inr a"
  obtains data where "map_r charset_index t = Inr data" and "digits 5 data"
    and "polymod (hrp_expand ''one'' @ data) = 1"
  using assms(2) unfolding decode_one_data [OF assms(1)]
  by (auto simp: rbind_eq_Inr decode_data_def digits_charset_data split: if_splits)

lemma decode_one_substitution:
  assumes "CHR ''1'' \<notin> set (u @ [x, y] @ w)" and "x \<noteq> y" and "decode_one (''one1'' @ u @ [x] @ w) = Inr a"
  shows "\<exists>e. decode_one (''one1'' @ u @ [y] @ w) = Inl e"
proof (rule ccontr)
  assume "\<nexists>e. decode_one (''one1'' @ u @ [y] @ w) = Inl e"
  then obtain b where b: "decode_one (''one1'' @ u @ [y] @ w) = Inr b"
    by (cases "decode_one (''one1'' @ u @ [y] @ w)") auto
  from assms(1) have nx: "CHR ''1'' \<notin> set (u @ [x] @ w)" and ny: "CHR ''1'' \<notin> set (u @ [y] @ w)"
    by auto
  obtain d where d: "map_r charset_index (u @ [x] @ w) = Inr d" "digits 5 d" "polymod (hrp_expand ''one'' @ d) = 1"
    using decode_one_digits [OF nx assms(3)] by blast
  obtain d' where d': "map_r charset_index (u @ [y] @ w) = Inr d'" "digits 5 d'" "polymod (hrp_expand ''one'' @ d') = 1"
    using decode_one_digits [OF ny b] by blast
  from d(1) obtain us v ws where parts: "map_r charset_index u = Inr us" "charset_index x = Inr v"
    "map_r charset_index w = Inr ws" and d_eq: "d = us @ [v] @ ws"
    by (auto simp: map_r_append rbind_eq_Inr)
  from d'(1) parts obtain v' where v': "charset_index y = Inr v'" and d'_eq: "d' = us @ [v'] @ ws"
    by (auto simp: map_r_append rbind_eq_Inr)
  have "v = v'"
    using d(2,3) d'(2,3) digits_hrp
    by (intro substitution_breaks_checksum [of "hrp_expand ''one'' @ us" v ws v']) (simp_all add: d_eq d'_eq)
  with parts(2) v' assms(2) show False using charset_index_inject by blast
qed

subsection \<open>The interface of an address codec\<close>

text \<open>
  What the address scripts rely on when they join Bech32 lists with hexadecimal ledgers: the printed
  form of an address decodes to its canonical form.
\<close>

locale address_codec =
  fixes encode :: "string \<Rightarrow> string result"
    and decode :: "string \<Rightarrow> string result"
    and canonical :: "string \<Rightarrow> string result"
  assumes decode_encode: "encode a = Inr s \<Longrightarrow> \<exists>b. canonical a = Inr b \<and> decode s = Inr b"
begin

lemma encode_inject:
  assumes "encode a = Inr s" and "encode b = Inr s"
  shows "canonical a = canonical b"
  using decode_encode [OF assms(1)] decode_encode [OF assms(2)] by auto

lemma distinct_encodings:
  assumes "map_r encode as = Inr ss" and "map_r canonical as = Inr cs" and "distinct cs"
  shows "distinct ss"
  using assms
proof (induction as arbitrary: ss cs)
  case (Cons a as)
  from Cons.prems obtain s ss' c cs' where parts: "encode a = Inr s" "map_r encode as = Inr ss'" "ss = s # ss'"
    "canonical a = Inr c" "map_r canonical as = Inr cs'" "cs = c # cs'"
    by (auto simp: rbind_eq_Inr)
  have "s \<notin> set ss'"
  proof
    assume "s \<in> set ss'"
    then obtain b where b: "b \<in> set as" "encode b = Inr s" using map_r_elem [OF parts(2)] by blast
    then have "canonical b = Inr c" using encode_inject [OF b(2) parts(1)] parts(4) by simp
    moreover have "list_all2 (\<lambda>x y. canonical x = Inr y) as cs'" using parts(5) by (simp add: map_r_eq_Inr)
    ultimately have "c \<in> set cs'" using b(1) by (auto simp: list_all2_conv_all_nth in_set_conv_nth)
    with Cons.prems(3) parts(6) show False by simp
  qed
  with Cons.IH [OF parts(2,5)] Cons.prems(3) parts show ?case by simp
qed simp

end

interpretation one_codec: address_codec to_bech32 decode_one canonical_hex
  by unfold_locales (rule decode_one_to_bech32)

interpretation blacklist_codec: address_codec to_bech32 decode_bech32 canonical_hex
  by unfold_locales (simp add: decoders_agree one_codec.decode_encode)

lemma to_bech32_no_0x: "to_bech32 a = Inr s \<Longrightarrow> \<not> starts_with ''0x'' s \<and> s \<noteq> []"
  by (erule to_bech32_shape) (simp add: starts_with_def)

interpretation source_codec: address_codec to_bech32 "\<lambda>s. decode_address (Some s)" canonical_hex
  by unfold_locales (auto simp: decode_address_def to_bech32_no_0x dest: one_codec.decode_encode to_bech32_no_0x)

interpretation flow_codec: address_codec to_bech32 "\<lambda>s. flow_decode_address (Some s)" canonical_hex
  by unfold_locales (auto simp: flow_decode_address_def dest: one_codec.decode_encode to_bech32_no_0x)

lemma to_bech32_single_separator:
  assumes "to_bech32 a = Inr s"
  shows "count_list s CHR ''1'' = 1"
proof -
  obtain data where "digits 5 (data @ checksum_of data)" and "s = ''one1'' @ map (\<lambda>v. CHARSET ! nat v) (data @ checksum_of data)"
    using to_bech32_shape [OF assms] by (metis checksum_of_for digits_checksum_for digits_simps(3))
  with charset_data(2) [of "data @ checksum_of data"] show ?thesis
    by (simp add: count_list_0_iff del: map_append)
qed

subsection \<open>Properties\<close>

text \<open>
  C3. Round trip. Every 20-byte address, written in hexadecimal, has a Bech32 form, and each of the
  four decoders of the repository maps that form back to the same address in lower-case hexadecimal.
\<close>

theorem address_round_trip:
  assumes "is_bytes raw" and "length raw = 20"
  shows "\<exists>s. to_bech32 (''0x'' @ bytes_hex raw) = Inr s \<and>
    decode_bech32 s = Inr (''0x'' @ bytes_hex raw) \<and>
    decode_address (Some s) = Inr (''0x'' @ bytes_hex raw) \<and>
    flow_decode_address (Some s) = Inr (''0x'' @ bytes_hex raw) \<and>
    staking_decode_address s = Inr (''0x'' @ bytes_hex raw)"
proof -
  have raw: "fromhex (removeprefix ''0x'' (''0x'' @ bytes_hex raw)) = Inr raw"
    using assms(1) by (simp only: removeprefix_append fromhex_bytes_hex)
  then obtain s where s: "to_bech32 (''0x'' @ bytes_hex raw) = Inr s"
    using assms(2) by (simp add: to_bech32_def Let_def)
  moreover have "canonical_hex (''0x'' @ bytes_hex raw) = Inr (''0x'' @ bytes_hex raw)"
    using raw assms(2) by (simp add: canonical_hex_def)
  ultimately show ?thesis
    using blacklist_codec.decode_encode [OF s] source_codec.decode_encode [OF s]
      flow_codec.decode_encode [OF s] one_codec.decode_encode [OF s]
    by (simp add: staking_decode_address_def)
qed

theorem address_round_trip_witness:
  "\<exists>s. to_bech32 (''0x'' @ bytes_hex (replicate 20 171)) = Inr s \<and>
    decode_bech32 s = Inr (''0x'' @ bytes_hex (replicate 20 171))"
  using address_round_trip [of "replicate 20 171"] by (auto simp: is_bytes_def)

text \<open>
  Equivalence. The decoder of the blacklist audit, written inline with its own bit loop and
  padding test, and the decoder of the forensic scripts accept the same strings with the same result.
\<close>

theorem bech32_decoders_equivalent:
  "decode_bech32 s = Inr a \<longleftrightarrow> staking_decode_address s = Inr a"
  by (simp add: staking_decode_address_def decoders_agree)

text \<open>
  C4. Safety. Take an accepted address \<open>one1\<close> and a data part without a further \<open>1\<close>, which is the form
  of every Harmony address. Replacing one character of the data part by another one that is not the
  separator \<open>1\<close> makes each of the four decoders refuse the text. (A \<open>1\<close> is left aside: it would move
  the separator.)
\<close>

theorem single_substitution_refused:
  assumes "CHR ''1'' \<notin> set (u @ [x, y] @ w)" and "x \<noteq> y"
    and "decode_bech32 (''one1'' @ u @ [x] @ w) = Inr a"
  shows "\<not> is_ok (decode_bech32 (''one1'' @ u @ [y] @ w)) \<and>
    \<not> is_ok (decode_address (Some (''one1'' @ u @ [y] @ w))) \<and>
    \<not> is_ok (flow_decode_address (Some (''one1'' @ u @ [y] @ w))) \<and>
    \<not> is_ok (staking_decode_address (''one1'' @ u @ [y] @ w))"
proof -
  have a: "decode_one (''one1'' @ u @ [x] @ w) = Inr a" using assms(3) by (simp only: decoders_agree)
  obtain e where e: "decode_one (''one1'' @ u @ [y] @ w) = Inl e"
    using decode_one_substitution [OF assms(1,2) a] by blast
  have "\<not> starts_with ''0x'' (''one1'' @ u @ [y] @ w)" by (simp add: starts_with_def)
  with e have "\<not> is_ok (decode_address (Some (''one1'' @ u @ [y] @ w)))"
    unfolding decode_address_def by (simp del: append.simps)
  moreover have "\<not> is_ok (flow_decode_address (Some (''one1'' @ u @ [y] @ w)))"
    using e \<open>\<not> starts_with ''0x'' (''one1'' @ u @ [y] @ w)\<close>
    unfolding flow_decode_address_def by (simp del: append.simps)
  moreover have "\<not> is_ok (decode_bech32 (''one1'' @ u @ [y] @ w))"
    unfolding is_ok_iff decoders_agree e by simp
  moreover have "\<not> is_ok (staking_decode_address (''one1'' @ u @ [y] @ w))"
    unfolding staking_decode_address_def e by simp
  ultimately show ?thesis by blast
qed

theorem single_substitution_refused_witness:
  "\<not> is_ok (decode_bech32 ''one132ggm0mgxdt4l8etud9e5gzpv8psgx30p7hxsz'')"
proof -
  have "decode_bech32 (''one1'' @ ''32ggm0mgxdt4l8etud9e5gzpv8psgx30p7hxs'' @ [CHR ''q''] @ []) =
      Inr ''0x8a908dbf6833575f9f2be34b9a204161c3041a2f''"
    by code_simp
  from single_substitution_refused [OF _ _ this, of "CHR ''z''"] show ?thesis by simp
qed

text \<open>
  C5. The prefix is not checked. The decoders require the text to begin with \<open>one1\<close> but take everything
  before the last \<open>1\<close> as the human-readable prefix. So for every address that has a Harmony form and
  every lower-case prefix \<open>h\<close> that itself begins with \<open>one1\<close>, the Bech32 text of the same 20 bytes under
  the prefix \<open>h\<close>, with the checksum of that prefix, is accepted by each of the four decoders as the
  Harmony address, although it differs from the Harmony form.
\<close>

theorem foreign_prefix_accepted:
  assumes "to_bech32 a = Inr s" and "starts_with ''one1'' h" and "lower h = h"
  shows "\<exists>b t. canonical_hex a = Inr b \<and> prefixed_address h a = Inr (h @ ''1'' @ t) \<and> h @ ''1'' @ t \<noteq> s \<and>
    decode_bech32 s = Inr b \<and>
    decode_bech32 (h @ ''1'' @ t) = Inr b \<and>
    decode_address (Some (h @ ''1'' @ t)) = Inr b \<and>
    flow_decode_address (Some (h @ ''1'' @ t)) = Inr b \<and>
    staking_decode_address (h @ ''1'' @ t) = Inr b"
proof -
  obtain b where b: "canonical_hex a = Inr b" and s: "decode_one s = Inr b"
    using decode_one_to_bech32 [OF assms(1)] by blast
  obtain r where h: "h = ''one1'' @ r" using assms(2) by (metis starts_with_def append_take_drop_id)
  obtain t where t: "prefixed_address h a = Inr (h @ ''1'' @ t)" "decode_one (h @ ''1'' @ t) = Inr b"
    using decode_one_prefixed [OF b assms(3)] by (auto simp: h starts_with_def)
  have "count_list (h @ ''1'' @ t) CHR ''1'' \<noteq> 1" by (simp add: h)
  then have "h @ ''1'' @ t \<noteq> s" by (rule contrapos_nn) (simp only: to_bech32_single_separator [OF assms(1)])
  moreover have "\<not> starts_with ''0x'' (h @ ''1'' @ t)" and "h @ ''1'' @ t \<noteq> []"
    by (simp_all add: h starts_with_def)
  then have "decode_address (Some (h @ ''1'' @ t)) = Inr b" and "flow_decode_address (Some (h @ ''1'' @ t)) = Inr b"
    and "staking_decode_address (h @ ''1'' @ t) = Inr b"
    using t(2) by (simp_all add: decode_address_def flow_decode_address_def staking_decode_address_def)
  ultimately show ?thesis using b t(1) iffD2 [OF decoders_agree s] iffD2 [OF decoders_agree t(2)] by blast
qed

theorem foreign_prefix_accepted_witness:
  "\<exists>t. decode_bech32 (''one1q1'' @ t) = Inr (''0x'' @ bytes_hex (replicate 20 171))"
proof -
  let ?a = "''0x'' @ bytes_hex (replicate 20 171)"
  have raw: "fromhex (removeprefix ''0x'' ?a) = Inr (replicate 20 171)"
    by (simp only: removeprefix_append) (simp add: fromhex_bytes_hex is_bytes_def)
  then obtain s where s: "to_bech32 ?a = Inr s"
    by (simp add: to_bech32_def Let_def del: append.simps)
  have c: "canonical_hex ?a = Inr ?a" using raw by (simp add: canonical_hex_def del: append.simps)
  have "starts_with ''one1'' ''one1q''" and "lower ''one1q'' = ''one1q''" by code_simp+
  from foreign_prefix_accepted [OF s this] c show ?thesis by auto
qed

subsection \<open>The form of a decoded address\<close>

lemma decode_one_canonical:
  assumes "decode_one v = Inr a"
  obtains raw where "a = ''0x'' @ bytes_hex raw" and "is_bytes raw" and "length raw = 20"
proof -
  from assms obtain t data raw where data: "map_r charset_index t = Inr data"
    and strict: "convert_bits_strict (take (length data - 6) data) 5 8 = Inr raw"
    and len: "length raw = 20" and a: "a = ''0x'' @ bytes_hex raw"
    unfolding decode_one_def Let_def by (auto simp: rbind_eq_Inr split: if_split_asm)
  obtain acc bits out where loop: "convert_loop 5 8 (take (length data - 6) data) = (acc, bits, out)"
    by (cases "convert_loop 5 8 (take (length data - 6) data)")
  have "digits 5 (take (length data - 6) data)"
    using digits_charset_data [OF data] by (auto simp: digits_def dest: in_set_takeD)
  then have "digits 8 out" by (intro convert_loop_spec(4) [OF loop]) simp_all
  moreover have "raw = out" using strict by (simp add: convert_bits_strict_def loop split: if_split_asm)
  ultimately show ?thesis using that a len by (simp add: is_bytes_digits)
qed

lemma lower_digit_char: "d < 36 \<Longrightarrow> lower_char (digit_char d) = digit_char d"
proof -
  assume d: "d < 36"
  then have "\<not> (CHR ''A'' \<le> digit_char d \<and> digit_char d \<le> CHR ''Z'')"
    unfolding upper_range of_char_digit_char [OF d] by simp
  then show ?thesis by (simp only: lower_char_def if_False)
qed

lemma lower_bytes_hex: "is_bytes raw \<Longrightarrow> lower (bytes_hex raw) = bytes_hex raw"
proof (induction raw)
  case (Cons b raw)
  then have "0 \<le> b" "b < 256" by (simp_all add: is_bytes_def)
  then have "lower (hex_byte b) = hex_byte b" by (auto simp: hex_byte_def lower_def intro!: lower_digit_char)
  moreover have "bytes_hex (b # raw) = hex_byte b @ bytes_hex raw" by (simp add: bytes_hex_def)
  ultimately show ?case using Cons by (simp add: is_bytes_def)
qed (simp add: bytes_hex_def)

lemma decode_one_lower: "decode_one v = Inr a \<Longrightarrow> lower a = a \<and> length a = 42 \<and> starts_with ''0x'' a"
proof (erule decode_one_canonical)
  fix raw :: bytes
  assume a: "a = ''0x'' @ bytes_hex raw" and raw: "is_bytes raw" "length raw = 20"
  have "length (bytes_hex raw) = 2 * length raw" by (induction raw) (simp_all add: bytes_hex_def hex_byte_def)
  moreover have "lower ''0x'' = ''0x''" by code_simp
  ultimately show ?thesis unfolding a lower_append using lower_bytes_hex [OF raw(1)] raw(2) by (simp add: starts_with_def)
qed

end
