(* ===== verification/Ledger.thy ===== *)
theory Ledger
  imports Pybase
begin

section \<open>The factual claim ledger: \<open>actual-supply-ledger.py\<close>\<close>

text \<open>
  The script merges three CSV exports sorted by secure key (liquid balances of shard 0 and shard 1,
  staking claims) and the pending cross-shard receipts into one row per key, and books every row into
  a summary. Each export is read lazily through the generator \<open>rows\<close>, which refuses a key that does
  not increase: here a \<open>cursor\<close>, its \<open>next_or_none\<close> the step of the generator. One round of the
  \<open>while\<close> loop is \<open>merge_step\<close>, the loop \<open>merge_loop\<close>. File names, hashes and the writing of the two
  outputs are outside this theory: the result is the list of rows and the summary.
\<close>

subsection \<open>Reading an export\<close>

record cursor =
  kind :: string
  previous :: "string option"
  rest :: "row list"

text \<open>The rows a cursor yields carry their key in lower case, so their \<open>secure_key\<close> is present.\<close>

definition row_key :: "row \<Rightarrow> string" where
  "row_key r = get_or r ''secure_key'' []"

definition rows :: "row list \<Rightarrow> string \<Rightarrow> cursor" where
  "rows source k = \<lparr>kind = k, previous = None, rest = source\<rparr>"

definition next_or_none :: "cursor \<Rightarrow> (row option \<times> cursor) result" where
  "next_or_none c = (case rest c of
     [] \<Rightarrow> Inr (None, c)
   | r # rs \<Rightarrow> rbind (getitem r ''secure_key'') (\<lambda>k.
       let key = lower k in
       if (case previous c of None \<Rightarrow> False | Some p \<Rightarrow> key \<le> p)
       then Inl (ValueError ''secure keys are not strictly increasing'')
       else Inr (Some (r(''secure_key'' \<mapsto> key, ''_kind'' \<mapsto> kind c)),
                 c\<lparr>previous := Some key, rest := rs\<rparr>)))"

subsection \<open>Pending receipts\<close>

record claim =
  claim_address :: string
  claim_amount :: int

text \<open>The dictionary \<open>pending\<close>: its keys in insertion order and its entries; and the running total.\<close>

record pending =
  pending_keys :: "string list"
  entries :: "string \<rightharpoonup> claim"
  pending_total :: int

definition no_pending :: pending where
  "no_pending = \<lparr>pending_keys = [], entries = Map.empty, pending_total = 0\<rparr>"

text \<open>\<open>entry = pending.setdefault(key, ...)\<close>, the check of the address and the two additions.\<close>

definition credit :: "pending \<Rightarrow> string \<Rightarrow> string \<Rightarrow> int \<Rightarrow> pending result" where
  "credit p key a amount =
     (let entry = get_or (entries p) key \<lparr>claim_address = a, claim_amount = 0\<rparr>
      in if lower (claim_address entry) \<noteq> lower a then Inl (ValueError ''receipt address mismatch'')
         else Inr \<lparr>pending_keys = (if entries p key = None then pending_keys p @ [key] else pending_keys p),
                   entries = (entries p)(key \<mapsto> entry\<lparr>claim_amount := claim_amount entry + amount\<rparr>),
                   pending_total = pending_total p + amount\<rparr>)"

definition add_receipt :: "pending \<Rightarrow> json \<Rightarrow> pending result" where
  "add_receipt p receipt =
     rbind (rbind (subscript receipt ''secure_key'') text_of) (\<lambda>k.
     rbind (subscript receipt ''to'') (\<lambda>address.
     rbind (rbind (subscript receipt ''amount_atto'') int_of) (\<lambda>amount.
       if amount < 0 then Inl (ValueError ''negative receipt amount'')
       else rbind (text_of address) (\<lambda>a. credit p (lower k) a amount))))"

definition add_group :: "pending \<Rightarrow> json \<Rightarrow> pending result" where
  "add_group p g =
     rbind (get_default g ''receipts'' JNull) (\<lambda>rs.
     rbind (iter (or_else rs (JList []))) (fold_r add_receipt p))"

definition add_direction :: "pending \<Rightarrow> json \<Rightarrow> pending result" where
  "add_direction p direction =
     rbind (get_default direction ''pending_groups'' JNull) (\<lambda>gs.
     rbind (iter (or_else gs (JList []))) (fold_r add_group p))"

definition load_pending_receipts :: "json \<Rightarrow> pending result" where
  "load_pending_receipts report =
     rbind (rbind (subscript report ''directions'') iter) (\<lambda>directions.
     rbind (fold_r add_direction no_pending directions) (\<lambda>p.
     rbind (rbind (subscript report ''pending_active_atto'') int_of) (\<lambda>reported.
       if pending_total p \<noteq> reported then Inl (ValueError ''pending receipt sum differs from the report'')
       else Inr p)))"

subsection \<open>One merged row\<close>

definition int_field :: "row option \<Rightarrow> string \<Rightarrow> int result" where
  "int_field r field = (case r of None \<Rightarrow> Inr 0
     | Some row \<Rightarrow> rbind (getitem row field) (\<lambda>s. rbind (py_int s) (\<lambda>n.
         if n < 0 then Inl (ValueError ''negative field'') else Inr n)))"

record ledger_row =
  secure_key :: string
  address :: string
  liquid_shard0 :: int
  liquid_shard1 :: int
  liquid_total :: int
  active_delegation :: int
  pending_undelegation :: int
  unclaimed_reward :: int
  pending_cross_shard :: int
  total_claim :: int
  nonce_shard0 :: string
  nonce_shard1 :: string
  code_hash_shard0 :: string
  code_hash_shard1 :: string

text \<open>\<open>row and row["address"]\<close>: a missing row contributes no address.\<close>

definition cell :: "row option \<Rightarrow> string \<Rightarrow> string result" where
  "cell r field = (case r of None \<Rightarrow> Inr [] | Some row \<Rightarrow> getitem row field)"

definition row_address :: "row option \<Rightarrow> row option \<Rightarrow> row option \<Rightarrow> claim option \<Rightarrow> string result" where
  "row_address current0 current1 stake receipt =
     rbind (cell current0 ''address'') (\<lambda>a0.
     rbind (cell current1 ''address'') (\<lambda>a1.
     rbind (cell stake ''address'') (\<lambda>a2.
       let addresses = filter (\<lambda>a. a \<noteq> []) [a0, a1, a2, case receipt of None \<Rightarrow> [] | Some c \<Rightarrow> claim_address c]
       in (case addresses of
             [] \<Rightarrow> Inr []
           | a # as \<Rightarrow> if \<exists>b \<in> set as. lower b \<noteq> lower a then Inl (ValueError ''address mismatch'')
                       else Inr a))))"

definition compose_row :: "string \<Rightarrow> row option \<Rightarrow> row option \<Rightarrow> row option \<Rightarrow> claim option \<Rightarrow> ledger_row result" where
  "compose_row key current0 current1 stake receipt =
     rbind (row_address current0 current1 stake receipt) (\<lambda>addr.
     rbind (int_field current0 ''balance_atto'') (\<lambda>liquid0.
     rbind (int_field current1 ''balance_atto'') (\<lambda>liquid1.
     rbind (int_field stake ''active_delegation_atto'') (\<lambda>active.
     rbind (int_field stake ''pending_undelegation_atto'') (\<lambda>undelegation.
     rbind (int_field stake ''unclaimed_reward_atto'') (\<lambda>reward.
       let pending_receipt = (case receipt of None \<Rightarrow> 0 | Some c \<Rightarrow> claim_amount c);
           liquid = liquid0 + liquid1;
           total = liquid + active + undelegation + reward + pending_receipt
       in if total \<le> 0 then Inl (ValueError ''non-positive merged claim'')
          else rbind (cell current0 ''nonce'') (\<lambda>n0.
               rbind (cell current1 ''nonce'') (\<lambda>n1.
               rbind (cell current0 ''code_hash'') (\<lambda>h0.
               rbind (cell current1 ''code_hash'') (\<lambda>h1.
                 Inr \<lparr>secure_key = key, address = addr, liquid_shard0 = liquid0, liquid_shard1 = liquid1,
                      liquid_total = liquid, active_delegation = active, pending_undelegation = undelegation,
                      unclaimed_reward = reward, pending_cross_shard = pending_receipt, total_claim = total,
                      nonce_shard0 = n0, nonce_shard1 = n1, code_hash_shard0 = h0, code_hash_shard1 = h1\<rparr>))))))))))"

subsection \<open>The summary\<close>

record summary =
  row_count :: int
  rows_without_address :: int
  sum_liquid_shard0 :: int
  sum_liquid_shard1 :: int
  sum_active_delegation :: int
  sum_pending_undelegation :: int
  sum_unclaimed_reward :: int
  sum_pending_cross_shard :: int
  sum_total_claim :: int

definition empty_summary :: summary where
  "empty_summary = \<lparr>row_count = 0, rows_without_address = 0, sum_liquid_shard0 = 0, sum_liquid_shard1 = 0,
     sum_active_delegation = 0, sum_pending_undelegation = 0, sum_unclaimed_reward = 0,
     sum_pending_cross_shard = 0, sum_total_claim = 0\<rparr>"

definition book_row :: "summary \<Rightarrow> ledger_row \<Rightarrow> summary" where
  "book_row s r = \<lparr>
     row_count = row_count s + 1,
     rows_without_address = rows_without_address s + (if address r = [] then 1 else 0),
     sum_liquid_shard0 = sum_liquid_shard0 s + liquid_shard0 r,
     sum_liquid_shard1 = sum_liquid_shard1 s + liquid_shard1 r,
     sum_active_delegation = sum_active_delegation s + active_delegation r,
     sum_pending_undelegation = sum_pending_undelegation s + pending_undelegation r,
     sum_unclaimed_reward = sum_unclaimed_reward s + unclaimed_reward r,
     sum_pending_cross_shard = sum_pending_cross_shard s + pending_cross_shard r,
     sum_total_claim = sum_total_claim s + total_claim r\<rparr>"

subsection \<open>The merge loop\<close>

record merge_state =
  liquid0 :: cursor
  liquid1 :: cursor
  staking :: cursor
  receipt_keys :: "string list"
  row0 :: "row option"
  row1 :: "row option"
  stake_row :: "row option"
  receipt_key :: "string option"
  written :: "ledger_row list"
  booked :: summary

definition present_keys :: "merge_state \<Rightarrow> string list" where
  "present_keys s = map row_key (List.map_filter id [row0 s, row1 s, stake_row s]) @ List.map_filter id [receipt_key s]"

definition at_key :: "string \<Rightarrow> row option \<Rightarrow> row option" where
  "at_key key r = (case r of None \<Rightarrow> None | Some row \<Rightarrow> if row_key row = key then Some row else None)"

text \<open>\<open>if current is not None: row = next_or_none(iterator)\<close>.\<close>

definition advance :: "row option \<Rightarrow> row option \<Rightarrow> cursor \<Rightarrow> (row option \<times> cursor) result" where
  "advance current row c = (if current = None then Inr (row, c) else next_or_none c)"

text \<open>\<open>next_or_none(receipt_keys)\<close>, and \<open>if receipt_key == key: receipt_key = next_or_none(receipt_keys)\<close>.\<close>

definition next_key :: "string list \<Rightarrow> string option \<times> string list" where
  "next_key ks = (case ks of [] \<Rightarrow> (None, []) | k # ks' \<Rightarrow> (Some k, ks'))"

definition next_receipt :: "string \<Rightarrow> string option \<Rightarrow> string list \<Rightarrow> string option \<times> string list" where
  "next_receipt key rk ks =
     (if rk = Some key then next_key ks else (rk, ks))"

definition merge_step :: "(string \<rightharpoonup> claim) \<Rightarrow> merge_state \<Rightarrow> merge_state result" where
  "merge_step claims s =
     (let key = min_list (present_keys s);
          current0 = at_key key (row0 s);
          current1 = at_key key (row1 s);
          current_stake = at_key key (stake_row s);
          current_receipt = claims key;
          receipts = next_receipt key (receipt_key s) (receipt_keys s)
      in rbind (advance current0 (row0 s) (liquid0 s)) (\<lambda>(r0, l0).
         rbind (advance current1 (row1 s) (liquid1 s)) (\<lambda>(r1, l1).
         rbind (advance current_stake (stake_row s) (staking s)) (\<lambda>(rs, ls).
         rbind (compose_row key current0 current1 current_stake current_receipt) (\<lambda>w.
           Inr \<lparr>liquid0 = l0, liquid1 = l1, staking = ls, receipt_keys = snd receipts,
                row0 = r0, row1 = r1, stake_row = rs, receipt_key = fst receipts,
                written = written s @ [w], booked = book_row (booked s) w\<rparr>)))))"

definition pending_items :: "merge_state \<Rightarrow> nat" where
  "pending_items s = length (present_keys s) + length (rest (liquid0 s)) + length (rest (liquid1 s))
     + length (rest (staking s)) + length (receipt_keys s)"

text \<open>Every round consumes the row or receipt whose key it processes.\<close>

definition source_items :: "row option \<Rightarrow> cursor \<Rightarrow> nat" where
  "source_items r c = (if r = None then 0 else 1) + length (rest c)"

lemma pending_items_eq:
  "pending_items s = source_items (row0 s) (liquid0 s) + source_items (row1 s) (liquid1 s)
     + source_items (stake_row s) (staking s) + (if receipt_key s = None then 0 else 1) + length (receipt_keys s)"
  by (cases "row0 s"; cases "row1 s"; cases "stake_row s"; cases "receipt_key s")
    (simp_all add: pending_items_def present_keys_def source_items_def List.map_filter_def)

lemma next_or_none_items: "next_or_none c = Inr (r, c') \<Longrightarrow> source_items r c' = length (rest c)"
  by (auto simp: next_or_none_def source_items_def rbind_eq_Inr Let_def split: list.splits if_splits)

lemma advance_items:
  assumes "advance (at_key key row) row c = Inr (r, c')"
  shows "source_items r c' + (if at_key key row = None then 0 else 1) = source_items row c"
  using assms next_or_none_items [of c r c']
  by (cases "at_key key row") (auto simp: advance_def at_key_def source_items_def split: option.splits if_splits)

lemma at_key_eq_None: "at_key key r = None \<longleftrightarrow> (\<forall>row. r = Some row \<longrightarrow> row_key row \<noteq> key)"
  by (auto simp: at_key_def split: option.splits)

lemma min_list_in: "xs \<noteq> [] \<Longrightarrow> min_list xs \<in> set xs"
proof (induction xs)
  case (Cons x xs)
  then show ?case by (cases xs) (auto simp: min_def)
qed simp

lemma key_is_current:
  assumes "present_keys s \<noteq> []"
  defines "key \<equiv> min_list (present_keys s)"
  shows "at_key key (row0 s) \<noteq> None \<or> at_key key (row1 s) \<noteq> None \<or> at_key key (stake_row s) \<noteq> None
    \<or> receipt_key s = Some key"
proof -
  have "key \<in> set (present_keys s)" using assms(1) by (simp add: key_def min_list_in)
  then show ?thesis
    by (auto simp: present_keys_def at_key_eq_None List.map_filter_def split: if_splits)
qed

text \<open>The shape of a successful round.\<close>

lemma merge_step_E:
  assumes "merge_step claims s = Inr s'"
  obtains key w where "key = min_list (present_keys s)"
    and "advance (at_key key (row0 s)) (row0 s) (liquid0 s) = Inr (row0 s', liquid0 s')"
    and "advance (at_key key (row1 s)) (row1 s) (liquid1 s) = Inr (row1 s', liquid1 s')"
    and "advance (at_key key (stake_row s)) (stake_row s) (staking s) = Inr (stake_row s', staking s')"
    and "compose_row key (at_key key (row0 s)) (at_key key (row1 s)) (at_key key (stake_row s)) (claims key) = Inr w"
    and "(receipt_key s', receipt_keys s') = next_receipt key (receipt_key s) (receipt_keys s)"
    and "written s' = written s @ [w]" and "booked s' = book_row (booked s) w"
  using assms
  by (auto simp: merge_step_def Let_def rbind_eq_Inr intro!: that)

definition receipt_items :: "string option \<Rightarrow> string list \<Rightarrow> nat" where
  "receipt_items rk ks = (if rk = None then 0 else 1) + length ks"

lemma next_receipt_items:
  "next_receipt key rk ks = (rk', ks') \<Longrightarrow>
     receipt_items rk' ks' + (if rk = Some key then 1 else 0) = receipt_items rk ks"
  by (auto simp: next_receipt_def next_key_def receipt_items_def split: if_splits list.splits)

lemma merge_step_items:
  assumes "merge_step claims s = Inr s'" and "present_keys s \<noteq> []"
  shows "pending_items s' < pending_items s"
proof -
  obtain key w where key: "key = min_list (present_keys s)"
    and a0: "advance (at_key key (row0 s)) (row0 s) (liquid0 s) = Inr (row0 s', liquid0 s')"
    and a1: "advance (at_key key (row1 s)) (row1 s) (liquid1 s) = Inr (row1 s', liquid1 s')"
    and as: "advance (at_key key (stake_row s)) (stake_row s) (staking s) = Inr (stake_row s', staking s')"
    and ks: "next_receipt key (receipt_key s) (receipt_keys s) = (receipt_key s', receipt_keys s')"
    using assms(1) by (metis merge_step_E)
  have "at_key key (row0 s) \<noteq> None \<or> at_key key (row1 s) \<noteq> None \<or> at_key key (stake_row s) \<noteq> None
      \<or> receipt_key s = Some key"
    using key_is_current [OF assms(2)] by (simp add: key)
  then show ?thesis
    using advance_items [OF a0] advance_items [OF a1] advance_items [OF as] next_receipt_items [OF ks]
    unfolding pending_items_eq receipt_items_def by (auto split: if_splits)
qed

function merge_loop :: "(string \<rightharpoonup> claim) \<Rightarrow> merge_state \<Rightarrow> merge_state result" where
  "merge_loop claims s =
     (if present_keys s = [] then Inr s
      else rbind (merge_step claims s) (merge_loop claims))"
  by pat_completeness auto
termination
  by (relation "measure (\<lambda>(claims, s). pending_items s)") (auto simp: merge_step_items)

declare merge_loop.simps [simp del]

definition start_merge :: "pending \<Rightarrow> row list \<Rightarrow> row list \<Rightarrow> row list \<Rightarrow> merge_state result" where
  "start_merge p shard0 shard1 stakes =
     (let receipts = next_key (sort (pending_keys p))
      in rbind (next_or_none (rows shard0 ''liquid0'')) (\<lambda>(r0, l0).
         rbind (next_or_none (rows shard1 ''liquid1'')) (\<lambda>(r1, l1).
         rbind (next_or_none (rows stakes ''staking'')) (\<lambda>(rs, ls).
           Inr \<lparr>liquid0 = l0, liquid1 = l1, staking = ls, receipt_keys = snd receipts, row0 = r0, row1 = r1,
                stake_row = rs, receipt_key = fst receipts, written = [], booked = empty_summary\<rparr>))))"

text \<open>
  \<open>merge\<close>: the rows of the ledger, the summary, and the report's amount for retired shards, which is
  copied. The arguments are the parsed contents of the four input files.
\<close>

definition merge :: "row list \<Rightarrow> row list \<Rightarrow> row list \<Rightarrow> json \<Rightarrow> (ledger_row list \<times> summary \<times> json) result" where
  "merge shard0 shard1 stakes report =
     rbind (load_pending_receipts report) (\<lambda>p.
     rbind (start_merge p shard0 shard1 stakes) (\<lambda>s.
     rbind (subscript report ''unsupported_pending_atto'') (\<lambda>retired.
     rbind (merge_loop (entries p) s) (\<lambda>s'.
       Inr (written s', booked s', retired)))))"

end
