(* ===== verification/LedgerMerge.thy ===== *)
theory LedgerMerge
  imports Ledger
begin

section \<open>What the claim ledger computes\<close>

text \<open>
  The merge of \<open>actual-supply-ledger.py\<close> against its specification: one composed row for every key
  of the four inputs, in increasing order of the key, and nothing at all unless the three exports are
  strictly increasing. The interface between the loop and its inputs is the locale \<open>sorted_source\<close>:
  a generator that yields items in strictly increasing order of their key or raises. The three CSV
  cursors and the iterator over the sorted receipt keys are its two interpretations.
\<close>

subsection \<open>Generators that yield in increasing order\<close>

lemma find_filter_other:
  "(\<And>x. P x \<Longrightarrow> Q x) \<Longrightarrow> find P (filter Q xs) = find P xs"
  by (induction xs) auto

lemma filter_head_only:
  fixes key :: "'a \<Rightarrow> 'k::linorder"
  assumes "sorted_wrt (<) (map key (x # xs))"
  shows "filter (\<lambda>y. key y \<noteq> key x) (x # xs) = xs"
proof -
  have "filter (\<lambda>y. key y \<noteq> key x) xs = xs" using assms by (intro filter_True) auto
  then show ?thesis by simp
qed

locale sorted_source =
  fixes pull :: "'c \<Rightarrow> ('r option \<times> 'c) result"
    and todo :: "'c \<Rightarrow> 'r list"
    and ok :: "'c \<Rightarrow> bool"
    and key :: "'r \<Rightarrow> string"
  assumes pull_defined: "ok c \<Longrightarrow> \<exists>p. pull c = Inr p"
    and pull_ok: "pull c = Inr (r, c') \<Longrightarrow> ok c \<Longrightarrow> ok c'"
    and pull_end: "pull c = Inr (r, c') \<Longrightarrow> todo c = [] \<Longrightarrow> r = None \<and> todo c' = []"
    and pull_next: "pull c = Inr (r, c') \<Longrightarrow> todo c = x # xs \<Longrightarrow> r = Some x \<and> todo c' = xs"
    and ok_sorted: "ok c \<Longrightarrow> sorted_wrt (<) (map key (todo c))"
begin

text \<open>The items still to come when \<open>r\<close> has been pulled and not been processed.\<close>

definition held :: "'r option \<Rightarrow> 'c \<Rightarrow> 'r list" where
  "held r c = (case r of None \<Rightarrow> [] | Some x \<Rightarrow> x # todo c)"

definition fits :: "'r option \<Rightarrow> 'c \<Rightarrow> bool" where
  "fits r c \<longleftrightarrow> (r = None \<longrightarrow> todo c = []) \<and> sorted_wrt (<) (map key (held r c))"

definition current :: "string \<Rightarrow> 'r option \<Rightarrow> 'r option" where
  "current k r = (case r of None \<Rightarrow> None | Some x \<Rightarrow> if key x = k then Some x else None)"

definition past :: "string \<Rightarrow> 'r option \<Rightarrow> 'c \<Rightarrow> ('r option \<times> 'c) result" where
  "past k r c = (if current k r = None then Inr (r, c) else pull c)"

text \<open>A source has nothing pulled only once it is exhausted.\<close>

definition ended :: "'r option \<Rightarrow> 'c \<Rightarrow> bool" where
  "ended r c \<longleftrightarrow> (r = None \<longrightarrow> todo c = [])"

lemma pull_ended: "pull c = Inr (r, c') \<Longrightarrow> ended r c'"
  using pull_end [of c r c'] pull_next [of c r c'] by (cases "todo c") (auto simp: ended_def)

lemma past_ended: "ended r c \<Longrightarrow> past k r c = Inr (r', c') \<Longrightarrow> ended r' c'"
  by (auto simp: past_def pull_ended split: if_splits)

lemma fits_ended: "fits r c \<Longrightarrow> ended r c"
  by (simp add: fits_def ended_def)

lemma pull_held: "pull c = Inr (r, c') \<Longrightarrow> held r c' = todo c"
  using pull_end [of c r c'] pull_next [of c r c'] by (cases "todo c") (auto simp: held_def)

lemma pull_fits: "pull c = Inr (r, c') \<Longrightarrow> ok c \<Longrightarrow> fits r c'"
  using pull_held [of c r c'] pull_ok [of c r c'] ok_sorted [of c] pull_end [of c r c'] pull_next [of c r c']
  by (cases "todo c") (auto simp: fits_def)

lemma past_fits: "fits r c \<Longrightarrow> ok c \<Longrightarrow> past k r c = Inr (r', c') \<Longrightarrow> fits r' c'"
  by (auto simp: past_def pull_fits split: if_splits)

lemma past_ok: "past k r c = Inr (r', c') \<Longrightarrow> ok c \<Longrightarrow> ok c'"
  by (auto simp: past_def pull_ok split: if_splits)

lemma past_defined: "ok c \<Longrightarrow> \<exists>p. past k r c = Inr p"
  using pull_defined [of c] by (auto simp: past_def)

lemma held_sorted: "fits r c \<Longrightarrow> sorted_wrt (<) (map key (held r c))"
  by (simp add: fits_def)

lemma held_least:
  assumes "fits r c" "y \<in> set (held r c)"
  shows "\<exists>x. r = Some x \<and> key x \<le> key y"
  using held_sorted [OF assms(1)] assms(2) by (cases r) (auto simp: held_def intro: less_imp_le)

lemma past_held:
  assumes "fits r c" and least: "\<And>x. x \<in> set (held r c) \<Longrightarrow> k \<le> key x"
    and past: "past k r c = Inr (r', c')"
  shows "held r' c' = filter (\<lambda>x. key x \<noteq> k) (held r c)"
proof (cases "current k r")
  case None
  have "key y \<noteq> k" if y: "y \<in> set (held r c)" for y
  proof -
    obtain x where x: "r = Some x" "key x \<le> key y" using held_least [OF assms(1), of y] y by blast
    then have "k \<le> key x" using least by (simp add: held_def)
    moreover have "key x \<noteq> k" using None x by (auto simp: current_def split: if_splits)
    ultimately show ?thesis using x by auto
  qed
  then show ?thesis using past None by (auto simp: past_def intro!: filter_True [symmetric])
next
  case (Some x)
  then have r: "r = Some x" and k: "key x = k" by (auto simp: current_def split: option.splits if_splits)
  have "held r' c' = todo c" using past Some by (auto simp: past_def pull_held)
  moreover have "filter (\<lambda>y. key y \<noteq> key x) (x # todo c) = todo c"
    using held_sorted [OF assms(1)] by (intro filter_head_only) (simp add: r held_def)
  ultimately show ?thesis by (simp add: r held_def flip: k)
qed

lemma current_find:
  assumes "fits r c" and least: "\<And>x. x \<in> set (held r c) \<Longrightarrow> k \<le> key x"
  shows "current k r = find (\<lambda>x. key x = k) (held r c)"
proof (cases "current k r")
  case (Some x)
  then show ?thesis by (auto simp: current_def held_def split: option.splits if_splits)
next
  case None
  have "key y \<noteq> k" if y: "y \<in> set (held r c)" for y
  proof -
    obtain x where x: "r = Some x" "key x \<le> key y" using held_least [OF assms(1), of y] y by blast
    then have "k \<le> key x" using least by (simp add: held_def)
    moreover have "key x \<noteq> k" using None x by (auto simp: current_def split: if_splits)
    ultimately show ?thesis using x by auto
  qed
  then have "find (\<lambda>x. key x = k) (held r c) = None" by (simp add: find_None_iff)
  then show ?thesis using None by simp
qed

end

text \<open>A generator that has yielded everything has found every check of the order to hold.\<close>

locale checked_source = sorted_source +
  assumes pull_checked: "pull c = Inr (r, c') \<Longrightarrow> ok c' \<Longrightarrow> ok c"
    and end_ok: "todo c = [] \<Longrightarrow> ok c"
begin

lemma past_checked: "past k r c = Inr (r', c') \<Longrightarrow> ok c' = ok c"
  using past_ok [of k r c r' c'] pull_checked [of c r' c'] by (auto simp: past_def split: if_splits)

end

subsection \<open>The two kinds of generators\<close>

text \<open>A row as \<open>rows\<close> yields it.\<close>

definition mark :: "string \<Rightarrow> row \<Rightarrow> row" where
  "mark k r = r(''secure_key'' \<mapsto> lower (row_key r), ''_kind'' \<mapsto> k)"

fun increasing_from :: "string option \<Rightarrow> row list \<Rightarrow> bool" where
  "increasing_from prev [] = True"
| "increasing_from prev (r # rs) = (case r ''secure_key'' of None \<Rightarrow> False
     | Some k \<Rightarrow> (case prev of None \<Rightarrow> True | Some p \<Rightarrow> p < lower k) \<and> increasing_from (Some (lower k)) rs)"

definition cursor_todo :: "cursor \<Rightarrow> row list" where
  "cursor_todo c = map (mark (kind c)) (rest c)"

definition cursor_ok :: "cursor \<Rightarrow> bool" where
  "cursor_ok c = increasing_from (previous c) (rest c)"

lemma row_key_mark [simp]: "row_key (mark k r) = lower (row_key r)"
  by (simp add: row_key_def mark_def)

lemma increasing_from_sorted:
  "increasing_from prev rs \<Longrightarrow> sorted_wrt (<) (map (\<lambda>r. lower (row_key r)) rs)
     \<and> (\<forall>p r. prev = Some p \<longrightarrow> r \<in> set rs \<longrightarrow> p < lower (row_key r))"
proof (induction rs arbitrary: prev)
  case (Cons r rs)
  then obtain k where k: "r ''secure_key'' = Some k" and i: "increasing_from (Some (lower k)) rs"
    by (auto split: option.splits)
  have "row_key r = k" by (simp add: row_key_def get_or_def k)
  moreover have "p < lower k" if "prev = Some p" for p using Cons.prems that k by simp
  ultimately show ?case using Cons.IH [OF i] by (auto intro: less_trans)
qed simp

lemma next_or_none_nil: "rest c = [] \<Longrightarrow> next_or_none c = Inr (None, c)"
  by (simp add: next_or_none_def)

lemma next_or_none_Cons:
  "rest c = r # rs \<Longrightarrow> next_or_none c = Inr (x, c') \<longleftrightarrow>
     (\<exists>k. r ''secure_key'' = Some k \<and> (\<forall>p. previous c = Some p \<longrightarrow> p < lower k)
        \<and> x = Some (mark (kind c) r) \<and> c' = c\<lparr>previous := Some (lower k), rest := rs\<rparr>)"
  by (auto simp: next_or_none_def rbind_eq_Inr getitem_eq_Inr mark_def row_key_def get_or_def Let_def
      split: option.splits if_splits)

interpretation export: checked_source next_or_none cursor_todo cursor_ok row_key
proof
  fix c :: cursor and c' :: cursor and r x xs
  show "\<exists>p. next_or_none c = Inr p" if "cursor_ok c"
    using that by (cases "rest c")
      (auto simp: next_or_none_nil next_or_none_Cons cursor_ok_def split: option.splits)
  show "cursor_ok c'" if "next_or_none c = Inr (r, c')" "cursor_ok c"
    using that by (cases "rest c")
      (auto simp: next_or_none_nil next_or_none_Cons cursor_ok_def split: option.splits)
  show "cursor_ok c" if "next_or_none c = Inr (r, c')" "cursor_ok c'"
    using that by (cases "rest c")
      (auto simp: next_or_none_nil next_or_none_Cons cursor_ok_def split: option.splits)
  show "cursor_ok c" if "cursor_todo c = []"
    using that by (simp add: cursor_todo_def cursor_ok_def)
  show "r = None \<and> cursor_todo c' = []" if "next_or_none c = Inr (r, c')" "cursor_todo c = []"
    using that by (auto simp: next_or_none_nil cursor_todo_def)
  show "r = Some x \<and> cursor_todo c' = xs" if "next_or_none c = Inr (r, c')" "cursor_todo c = x # xs"
    using that by (cases "rest c") (auto simp: next_or_none_Cons cursor_todo_def)
  show "sorted_wrt (<) (map row_key (cursor_todo c))" if "cursor_ok c"
    using increasing_from_sorted [of "previous c" "rest c"] that
    by (simp add: cursor_todo_def cursor_ok_def sorted_wrt_map)
qed

text \<open>\<open>iter(sorted(receipt_claims))\<close>: the remaining keys are the state of the iterator.\<close>

interpretation receipts: sorted_source "\<lambda>ks. Inr (next_key ks)" "\<lambda>ks. ks" "sorted_wrt (<)" "\<lambda>k. k"
  by unfold_locales (auto simp: next_key_def split: list.splits)

text \<open>The loop advances each source as the interface says.\<close>

lemma at_key_current: "at_key k r = export.current k r"
  by (simp add: at_key_def export.current_def)

lemma advance_past: "advance (export.current k r) r c = export.past k r c"
  by (simp add: advance_def export.past_def)

lemma next_receipt_past: "receipts.past k rk ks = Inr (next_receipt k rk ks)"
  by (auto simp: next_receipt_def receipts.past_def receipts.current_def split: option.splits list.splits)

subsection \<open>The loop against its specification\<close>

text \<open>The keys that remain, and the row the specification gives for one of them.\<close>

definition open_keys :: "merge_state \<Rightarrow> string set" where
  "open_keys s = row_key ` set (export.held (row0 s) (liquid0 s)) \<union> row_key ` set (export.held (row1 s) (liquid1 s))
     \<union> row_key ` set (export.held (stake_row s) (staking s)) \<union> set (receipts.held (receipt_key s) (receipt_keys s))"

definition keyed :: "string \<Rightarrow> row list \<Rightarrow> row option" where
  "keyed k rs = find (\<lambda>r. row_key r = k) rs"

definition composed :: "(string \<rightharpoonup> claim) \<Rightarrow> row list \<Rightarrow> row list \<Rightarrow> row list \<Rightarrow> string \<Rightarrow> ledger_row result" where
  "composed claims xs ys zs k = compose_row k (keyed k xs) (keyed k ys) (keyed k zs) (claims k)"

definition composed_at :: "(string \<rightharpoonup> claim) \<Rightarrow> merge_state \<Rightarrow> string \<Rightarrow> ledger_row result" where
  "composed_at claims s = composed claims (export.held (row0 s) (liquid0 s)) (export.held (row1 s) (liquid1 s))
     (export.held (stake_row s) (staking s))"

definition sources_ok :: "merge_state \<Rightarrow> bool" where
  "sources_ok s \<longleftrightarrow> cursor_ok (liquid0 s) \<and> cursor_ok (liquid1 s) \<and> cursor_ok (staking s)"

definition sources_ended :: "merge_state \<Rightarrow> bool" where
  "sources_ended s \<longleftrightarrow> export.ended (row0 s) (liquid0 s) \<and> export.ended (row1 s) (liquid1 s)
     \<and> export.ended (stake_row s) (staking s)"

definition sources_fit :: "merge_state \<Rightarrow> bool" where
  "sources_fit s \<longleftrightarrow> export.fits (row0 s) (liquid0 s) \<and> export.fits (row1 s) (liquid1 s)
     \<and> export.fits (stake_row s) (staking s) \<and> receipts.fits (receipt_key s) (receipt_keys s)"

lemma keyed_filter: "j \<noteq> k \<Longrightarrow> keyed j (filter (\<lambda>r. row_key r \<noteq> k) rs) = keyed j rs"
  by (simp add: keyed_def find_filter_other)

lemma merge_step_past:
  "merge_step claims s = (let key = min_list (present_keys s) in
     rbind (export.past key (row0 s) (liquid0 s)) (\<lambda>(r0, l0).
     rbind (export.past key (row1 s) (liquid1 s)) (\<lambda>(r1, l1).
     rbind (export.past key (stake_row s) (staking s)) (\<lambda>(rs, ls).
     rbind (compose_row key (export.current key (row0 s)) (export.current key (row1 s))
              (export.current key (stake_row s)) (claims key)) (\<lambda>w.
       let receipts = next_receipt key (receipt_key s) (receipt_keys s) in
       Inr \<lparr>liquid0 = l0, liquid1 = l1, staking = ls, receipt_keys = snd receipts,
            row0 = r0, row1 = r1, stake_row = rs, receipt_key = fst receipts,
            written = written s @ [w], booked = book_row (booked s) w\<rparr>)))))"
  unfolding merge_step_def Let_def at_key_current advance_past ..

lemma present_keys_Nil: "present_keys s = [] \<longleftrightarrow> row0 s = None \<and> row1 s = None \<and> stake_row s = None \<and> receipt_key s = None"
  by (auto simp: present_keys_def List.map_filter_def split: option.splits if_splits)

lemma open_keys_empty: "open_keys s = {} \<longleftrightarrow> present_keys s = []"
  by (cases "row0 s"; cases "row1 s"; cases "stake_row s"; cases "receipt_key s")
    (simp_all add: open_keys_def present_keys_Nil export.held_def receipts.held_def)

lemma present_keys_open: "set (present_keys s) \<subseteq> open_keys s"
  by (auto simp: open_keys_def present_keys_def List.map_filter_def export.held_def receipts.held_def image_iff
      split: option.splits if_splits)

lemma open_keys_finite [simp]: "finite (open_keys s)"
  by (simp add: open_keys_def)

lemma min_list_le:
  fixes x :: "'a::linorder"
  shows "x \<in> set xs \<Longrightarrow> min_list xs \<le> x"
proof (induction xs)
  case (Cons y xs)
  then show ?case by (cases xs) (auto simp: min.coboundedI1 min.coboundedI2)
qed simp

lemma present_row:
  "row0 s = Some r \<Longrightarrow> row_key r \<in> set (present_keys s)"
  "row1 s = Some r \<Longrightarrow> row_key r \<in> set (present_keys s)"
  "stake_row s = Some r \<Longrightarrow> row_key r \<in> set (present_keys s)"
  "receipt_key s = Some k \<Longrightarrow> k \<in> set (present_keys s)"
  by (auto simp: present_keys_def List.map_filter_def split: if_splits)

text \<open>The key of a round is the least that remains.\<close>

lemma key_least:
  assumes fit: "sources_fit s" and k: "k \<in> open_keys s"
  shows "min_list (present_keys s) \<le> k"
proof -
  obtain k' where "k' \<in> set (present_keys s)" and "k' \<le> k"
    using k fit export.held_least [of "row0 s" "liquid0 s"] export.held_least [of "row1 s" "liquid1 s"]
      export.held_least [of "stake_row s" "staking s"] receipts.held_least [of "receipt_key s" "receipt_keys s"]
      present_row [of s]
    unfolding open_keys_def sources_fit_def by blast
  then show ?thesis using min_list_le [of k' "present_keys s"] by (rule_tac order_trans) auto
qed

lemma key_Min:
  assumes "sources_fit s" and "present_keys s \<noteq> []"
  shows "min_list (present_keys s) = Min (open_keys s)"
  using key_least [OF assms(1)] min_list_in [OF assms(2)] present_keys_open [of s]
  by (intro Min_eqI [symmetric]) auto

lemma sources_fit_D:
  assumes "sources_fit s"
  shows "export.fits (row0 s) (liquid0 s)" "export.fits (row1 s) (liquid1 s)"
    "export.fits (stake_row s) (staking s)" "receipts.fits (receipt_key s) (receipt_keys s)"
  using assms by (simp_all add: sources_fit_def)

lemma sources_ok_D:
  assumes "sources_ok s"
  shows "cursor_ok (liquid0 s)" "cursor_ok (liquid1 s)" "cursor_ok (staking s)"
  using assms by (simp_all add: sources_ok_def)

lemma receipts_strict: "receipts.fits rk ks \<Longrightarrow> sorted_wrt (<) ks"
  by (cases rk) (auto simp: receipts.fits_def receipts.held_def)

lemma open_keys_least:
  assumes "sources_fit s"
  defines "key \<equiv> min_list (present_keys s)"
  shows "r \<in> set (export.held (row0 s) (liquid0 s)) \<Longrightarrow> key \<le> row_key r"
    and "r \<in> set (export.held (row1 s) (liquid1 s)) \<Longrightarrow> key \<le> row_key r"
    and "r \<in> set (export.held (stake_row s) (staking s)) \<Longrightarrow> key \<le> row_key r"
    and "k \<in> set (receipts.held (receipt_key s) (receipt_keys s)) \<Longrightarrow> key \<le> k"
  using key_least [OF assms(1)] unfolding key_def open_keys_def by blast+

text \<open>One round on ordered sources: it composes the row of the least key, and removes that key.\<close>

lemma merge_step_composed:
  assumes fit: "sources_fit s" and ok: "sources_ok s"
  defines "key \<equiv> min_list (present_keys s)"
  shows "compose_row key (export.current key (row0 s)) (export.current key (row1 s))
      (export.current key (stake_row s)) (claims key) = composed_at claims s key"
  using export.current_find [OF sources_fit_D(1) [OF fit], of key]
    export.current_find [OF sources_fit_D(2) [OF fit], of key]
    export.current_find [OF sources_fit_D(3) [OF fit], of key]
    open_keys_least [OF fit]
  by (simp add: composed_at_def composed_def keyed_def key_def)

lemma merge_step_error:
  assumes fit: "sources_fit s" and ok: "sources_ok s"
    and "composed_at claims s (min_list (present_keys s)) = Inl e"
  shows "merge_step claims s = Inl e"
proof -
  define key where "key = min_list (present_keys s)"
  obtain r0 l0 r1 l1 rs ls where "export.past key (row0 s) (liquid0 s) = Inr (r0, l0)"
    "export.past key (row1 s) (liquid1 s) = Inr (r1, l1)" "export.past key (stake_row s) (staking s) = Inr (rs, ls)"
    using export.past_defined sources_ok_D [OF ok] by (metis surj_pair)
  then show ?thesis using assms(3) merge_step_composed [OF fit ok, of claims]
    by (simp add: merge_step_past Let_def key_def)
qed

lemma merge_step_row:
  assumes fit: "sources_fit s" and ok: "sources_ok s"
    and w: "composed_at claims s (min_list (present_keys s)) = Inr w"
  obtains s' where "merge_step claims s = Inr s'" "sources_fit s'" "sources_ok s'"
    "open_keys s' = open_keys s - {min_list (present_keys s)}"
    "\<And>k. k \<noteq> min_list (present_keys s) \<Longrightarrow> composed_at claims s' k = composed_at claims s k"
    "written s' = written s @ [w]" "booked s' = book_row (booked s) w"
proof -
  define key where "key = min_list (present_keys s)"
  obtain r0 l0 r1 l1 rs ls where p0: "export.past key (row0 s) (liquid0 s) = Inr (r0, l0)"
    and p1: "export.past key (row1 s) (liquid1 s) = Inr (r1, l1)"
    and ps: "export.past key (stake_row s) (staking s) = Inr (rs, ls)"
    using export.past_defined sources_ok_D [OF ok] by (metis surj_pair)
  obtain rk ks where n: "next_receipt key (receipt_key s) (receipt_keys s) = (rk, ks)" by fastforce
  then have pr: "receipts.past key (receipt_key s) (receipt_keys s) = Inr (rk, ks)"
    by (simp add: next_receipt_past)
  define s' where "s' = \<lparr>liquid0 = l0, liquid1 = l1, staking = ls, receipt_keys = ks, row0 = r0, row1 = r1,
    stake_row = rs, receipt_key = rk, written = written s @ [w], booked = book_row (booked s) w\<rparr>"
  note least = open_keys_least [OF fit, folded key_def]
  note h0 = export.past_held [OF sources_fit_D(1) [OF fit] least(1) p0]
  note h1 = export.past_held [OF sources_fit_D(2) [OF fit] least(2) p1]
  note hs = export.past_held [OF sources_fit_D(3) [OF fit] least(3) ps]
  note hr = receipts.past_held [OF sources_fit_D(4) [OF fit] least(4) pr]
  show thesis
  proof (rule that [of s'])
    show "merge_step claims s = Inr s'"
      using w merge_step_composed [OF fit ok, of claims] p0 p1 ps n
      by (simp add: merge_step_past Let_def key_def s'_def)
    show "sources_fit s'"
      using export.past_fits [OF sources_fit_D(1) [OF fit] sources_ok_D(1) [OF ok] p0]
        export.past_fits [OF sources_fit_D(2) [OF fit] sources_ok_D(2) [OF ok] p1]
        export.past_fits [OF sources_fit_D(3) [OF fit] sources_ok_D(3) [OF ok] ps]
        receipts.past_fits [OF sources_fit_D(4) [OF fit] receipts_strict [OF sources_fit_D(4) [OF fit]] pr]
      by (simp add: sources_fit_def s'_def)
    show "sources_ok s'"
      using export.past_ok [OF p0] export.past_ok [OF p1] export.past_ok [OF ps] sources_ok_D [OF ok]
      by (simp add: sources_ok_def s'_def)
    show "open_keys s' = open_keys s - {min_list (present_keys s)}"
      using h0 h1 hs hr by (auto simp: open_keys_def s'_def key_def)
    show "composed_at claims s' k = composed_at claims s k" if "k \<noteq> min_list (present_keys s)" for k
      using h0 h1 hs that by (simp add: composed_at_def composed_def s'_def key_def keyed_filter)
  qed (simp_all add: s'_def)
qed

text \<open>The loop on ordered sources, errors included: the rows of the remaining keys in their order.\<close>

definition outcome :: "merge_state result \<Rightarrow> (ledger_row list \<times> summary) result" where
  "outcome m = rbind m (\<lambda>s. Inr (written s, booked s))"

lemma merge_loop_ordered:
  "sources_fit s \<Longrightarrow> sources_ok s \<Longrightarrow>
   outcome (merge_loop claims s) = rbind (map_r (composed_at claims s) (sorted_list_of_set (open_keys s)))
     (\<lambda>ws. Inr (written s @ ws, foldl book_row (booked s) ws))"
proof (induction claims s rule: merge_loop.induct)
  case (1 claims s)
  note fit = "1.prems"(1) and ok = "1.prems"(2)
  show ?case
  proof (cases "present_keys s = []")
    case True
    then have "open_keys s = {}" by (simp add: open_keys_empty)
    then show ?thesis using True by (subst merge_loop.simps) (simp add: outcome_def)
  next
    case False
    define key where "key = min_list (present_keys s)"
    have key: "key = Min (open_keys s)" using key_Min [OF fit False] by (simp add: key_def)
    have ne: "open_keys s \<noteq> {}" using False by (simp add: open_keys_empty)
    have keys: "sorted_list_of_set (open_keys s) = key # sorted_list_of_set (open_keys s - {key})"
      using sorted_list_of_set_nonempty [OF open_keys_finite ne] by (simp add: key)
    show ?thesis
    proof (cases "composed_at claims s key")
      case (Inl e)
      then show ?thesis using merge_step_error [OF fit ok, of claims e] False
        by (subst merge_loop.simps) (simp add: outcome_def keys key_def)
    next
      case (Inr w)
      obtain s' where s': "merge_step claims s = Inr s'" "sources_fit s'" "sources_ok s'"
        "open_keys s' = open_keys s - {key}"
        "\<And>k. k \<noteq> key \<Longrightarrow> composed_at claims s' k = composed_at claims s k"
        "written s' = written s @ [w]" "booked s' = book_row (booked s) w"
        using merge_step_row [OF fit ok Inr [unfolded key_def]] unfolding key_def by metis
      have "outcome (merge_loop claims s) = outcome (merge_loop claims s')"
        using False s'(1) by (subst merge_loop.simps) simp
      also have "\<dots> = rbind (map_r (composed_at claims s') (sorted_list_of_set (open_keys s - {key})))
         (\<lambda>ws. Inr (written s @ w # ws, foldl book_row (booked s) (w # ws)))"
        using "1.IH" [OF False s'(1-3)] s' by simp
      also have "map_r (composed_at claims s') (sorted_list_of_set (open_keys s - {key}))
          = map_r (composed_at claims s) (sorted_list_of_set (open_keys s - {key}))"
        using s'(5) by (intro map_r_cong) auto
      finally show ?thesis by (simp add: keys Inr rbind_assoc)
    qed
  qed
qed

text \<open>A loop that returned has read every export to its end, so every check of the order held.\<close>

lemma merge_step_checked:
  assumes "merge_step claims s = Inr s'"
  shows "(sources_ended s \<longrightarrow> sources_ended s') \<and> (sources_ok s' \<longrightarrow> sources_ok s)"
proof -
  obtain key where "export.past key (row0 s) (liquid0 s) = Inr (row0 s', liquid0 s')"
    "export.past key (row1 s) (liquid1 s) = Inr (row1 s', liquid1 s')"
    "export.past key (stake_row s) (staking s) = Inr (stake_row s', staking s')"
    using merge_step_E [OF assms] by (metis at_key_current advance_past)
  then show ?thesis unfolding sources_ended_def sources_ok_def
    using export.past_ended export.past_checked by metis
qed

lemma merge_loop_checked:
  "sources_ended s \<Longrightarrow> merge_loop claims s = Inr s' \<Longrightarrow> sources_ok s"
proof (induction claims s rule: merge_loop.induct)
  case (1 claims s)
  show ?case
  proof (cases "present_keys s = []")
    case True
    then show ?thesis using "1.prems"(1) export.end_ok
      by (simp add: sources_ended_def sources_ok_def present_keys_Nil export.ended_def)
  next
    case False
    then obtain t where t: "merge_step claims s = Inr t" "merge_loop claims t = Inr s'"
      using "1.prems"(2) by (subst (asm) merge_loop.simps) (auto simp: rbind_eq_Inr)
    then show ?thesis using "1.IH" [OF False t(1)] "1.prems"(1) merge_step_checked [OF t(1)] by blast
  qed
qed

subsection \<open>The pending receipts\<close>

definition pending_ok :: "pending \<Rightarrow> bool" where
  "pending_ok p \<longleftrightarrow> distinct (pending_keys p) \<and> set (pending_keys p) = dom (entries p)
     \<and> (\<forall>c \<in> ran (entries p). 0 \<le> claim_amount c)
     \<and> pending_total p = (\<Sum>k\<in>dom (entries p). claim_amount (the (entries p k)))"

lemma no_pending_ok: "pending_ok no_pending"
  by (simp add: pending_ok_def no_pending_def)

definition receipt_amount :: "json \<Rightarrow> int" where
  "receipt_amount receipt = (case rbind (subscript receipt ''amount_atto'') int_of of Inl _ \<Rightarrow> 0 | Inr n \<Rightarrow> n)"

lemma add_receipt_credit:
  assumes "add_receipt p receipt = Inr p'"
  shows "\<exists>k a. 0 \<le> receipt_amount receipt \<and> credit p k a (receipt_amount receipt) = Inr p'"
  using assms by (auto simp: add_receipt_def receipt_amount_def rbind_eq_Inr split: if_splits) blast

text \<open>What a key is owed after a credit.\<close>

definition owed :: "pending \<Rightarrow> string \<Rightarrow> int" where
  "owed p k = (case entries p k of None \<Rightarrow> 0 | Some c \<Rightarrow> claim_amount c)"

lemma credit_E:
  assumes "credit p k a amount = Inr p'"
  shows "pending_keys p' = (if entries p k = None then pending_keys p @ [k] else pending_keys p)"
    and "dom (entries p') = insert k (dom (entries p))"
    and "owed p' j = owed p j + (if j = k then amount else 0)"
    and "pending_total p' = pending_total p + amount"
  using assms
  by (auto simp: credit_def Let_def owed_def get_or_def split: if_splits option.splits)

lemma pending_ok_owed:
  "pending_ok p \<longleftrightarrow> distinct (pending_keys p) \<and> set (pending_keys p) = dom (entries p)
     \<and> (\<forall>k. 0 \<le> owed p k) \<and> pending_total p = (\<Sum>k\<in>dom (entries p). owed p k)"
proof -
  have "(\<Sum>k\<in>dom (entries p). owed p k) = (\<Sum>k\<in>dom (entries p). claim_amount (the (entries p k)))"
    by (rule sum.cong) (auto simp: owed_def)
  moreover have "(\<forall>k. 0 \<le> owed p k) \<longleftrightarrow> (\<forall>c \<in> ran (entries p). 0 \<le> claim_amount c)"
    by (auto simp: owed_def ran_def split: option.splits)
  ultimately show ?thesis by (simp add: pending_ok_def)
qed

lemma credit_ok:
  assumes "pending_ok p" and "0 \<le> amount" and "credit p k a amount = Inr p'"
  shows "pending_ok p'"
proof -
  note c = credit_E [OF assms(3)]
  have fin: "finite (dom (entries p))" using assms(1) by (metis pending_ok_def List.finite_set)
  have "(\<Sum>j\<in>dom (entries p'). owed p' j) = (\<Sum>j\<in>insert k (dom (entries p)). owed p j) + amount"
    using fin by (simp add: c(2,3) sum.distrib sum.delta)
  also have "(\<Sum>j\<in>insert k (dom (entries p)). owed p j) = (\<Sum>j\<in>dom (entries p). owed p j)"
    using fin by (cases "k \<in> dom (entries p)") (auto simp: insert_absorb owed_def domIff)
  finally have "(\<Sum>j\<in>dom (entries p'). owed p' j) = pending_total p'"
    using assms(1) c(4) by (simp add: pending_ok_owed)
  then show ?thesis using assms(1,2) c(1-3) by (auto simp: pending_ok_owed domIff)
qed

lemma add_receipt_ok:
  assumes "pending_ok p" and "add_receipt p receipt = Inr p'"
  shows "pending_ok p'"
  using add_receipt_credit [OF assms(2)] credit_ok [OF assms(1)] by blast

interpretation receipt_loop: invariant_loop add_receipt pending_ok
  by unfold_locales (rule add_receipt_ok)

lemma add_group_ok: "pending_ok p \<Longrightarrow> add_group p g = Inr p' \<Longrightarrow> pending_ok p'"
  by (auto simp: add_group_def rbind_eq_Inr intro: receipt_loop.run_inv)

interpretation group_loop: invariant_loop add_group pending_ok
  by unfold_locales (rule add_group_ok)

lemma add_direction_ok: "pending_ok p \<Longrightarrow> add_direction p d = Inr p' \<Longrightarrow> pending_ok p'"
  by (auto simp: add_direction_def rbind_eq_Inr intro: group_loop.run_inv)

interpretation direction_loop: invariant_loop add_direction pending_ok
  by unfold_locales (rule add_direction_ok)

lemma load_pending_receipts_ok: "load_pending_receipts report = Inr p \<Longrightarrow> pending_ok p"
  by (auto simp: load_pending_receipts_def rbind_eq_Inr split: if_splits
      intro: direction_loop.run_inv [OF no_pending_ok])

subsection \<open>The whole merge\<close>

text \<open>
  The specification: the keys of the four inputs, once each and in order, each with the row composed
  of what the inputs hold for it.
\<close>

definition yielded :: "string \<Rightarrow> row list \<Rightarrow> row list" where
  "yielded k rs = map (mark k) rs"

definition all_keys :: "pending \<Rightarrow> row list \<Rightarrow> row list \<Rightarrow> row list \<Rightarrow> string list" where
  "all_keys p shard0 shard1 stakes = sort (remdups (pending_keys p
     @ map (\<lambda>r. lower (row_key r)) (shard0 @ shard1 @ stakes)))"

definition ledger :: "pending \<Rightarrow> row list \<Rightarrow> row list \<Rightarrow> row list \<Rightarrow> ledger_row list result" where
  "ledger p shard0 shard1 stakes =
     map_r (composed (entries p) (yielded ''liquid0'' shard0) (yielded ''liquid1'' shard1) (yielded ''staking'' stakes))
       (all_keys p shard0 shard1 stakes)"

lemma open_export:
  assumes "next_or_none (rows source k) = Inr (r, c)"
  shows "export.held r c = yielded k source" and "export.ended r c"
    and "cursor_ok c \<longleftrightarrow> increasing_from None source"
    and "increasing_from None source \<Longrightarrow> export.fits r c"
  using export.pull_held [OF assms] export.pull_ended [OF assms] export.pull_ok [OF assms]
    export.pull_checked [OF assms] export.pull_fits [OF assms]
  by (auto simp: rows_def cursor_todo_def cursor_ok_def yielded_def)

lemma open_export_defined: "increasing_from None source \<Longrightarrow> \<exists>r c. next_or_none (rows source k) = Inr (r, c)"
  using export.pull_defined [of "rows source k"] by (auto simp: cursor_ok_def rows_def)

lemma start_merge_E:
  assumes "start_merge p shard0 shard1 stakes = Inr s"
  shows "next_or_none (rows shard0 ''liquid0'') = Inr (row0 s, liquid0 s)"
    and "next_or_none (rows shard1 ''liquid1'') = Inr (row1 s, liquid1 s)"
    and "next_or_none (rows stakes ''staking'') = Inr (stake_row s, staking s)"
    and "next_key (sort (pending_keys p)) = (receipt_key s, receipt_keys s)"
    and "written s = []" and "booked s = empty_summary"
  using assms by (auto simp: start_merge_def Let_def rbind_eq_Inr)

lemma start_merge_defined:
  "increasing_from None shard0 \<Longrightarrow> increasing_from None shard1 \<Longrightarrow> increasing_from None stakes \<Longrightarrow>
   \<exists>s. start_merge p shard0 shard1 stakes = Inr s"
  using open_export_defined [of shard0 "''liquid0''"] open_export_defined [of shard1 "''liquid1''"]
    open_export_defined [of stakes "''staking''"]
  by (auto simp: start_merge_def Let_def)

lemma start_merge_loop:
  assumes s: "start_merge p shard0 shard1 stakes = Inr s" and p: "pending_ok p"
    and ok: "sources_ok s"
  shows "outcome (merge_loop (entries p) s) = rbind (ledger p shard0 shard1 stakes)
    (\<lambda>ws. Inr (ws, foldl book_row empty_summary ws))"
proof -
  note e = start_merge_E [OF s]
  note x0 = open_export [OF e(1)] and x1 = open_export [OF e(2)] and xs = open_export [OF e(3)]
  have strict: "sorted_wrt (<) (sort (pending_keys p))"
    using p by (simp add: pending_ok_def strict_sorted_iff)
  have r: "receipts.held (receipt_key s) (receipt_keys s) = sort (pending_keys p)"
    and rf: "receipts.fits (receipt_key s) (receipt_keys s)"
    using receipts.pull_held [of "sort (pending_keys p)"] receipts.pull_fits [of "sort (pending_keys p)"] e(4) strict
    by simp_all
  have fit: "sources_fit s"
    using ok x0 x1 xs rf by (simp add: sources_fit_def sources_ok_def)
  have keys: "sorted_list_of_set (open_keys s) = all_keys p shard0 shard1 stakes"
    by (simp add: open_keys_def x0(1) x1(1) xs(1) r all_keys_def yielded_def image_image
        flip: sorted_list_of_set_sort_remdups) (rule arg_cong [where f = sorted_list_of_set], auto)
  have comp: "composed_at (entries p) s
      = composed (entries p) (yielded ''liquid0'' shard0) (yielded ''liquid1'' shard1) (yielded ''staking'' stakes)"
    by (simp add: composed_at_def x0(1) x1(1) xs(1))
  show ?thesis using merge_loop_ordered [OF fit ok] by (simp add: keys comp ledger_def e(5,6))
qed

lemma merge_eq_Inr:
  "merge shard0 shard1 stakes report = Inr (ws, sm, retired) \<longleftrightarrow>
     (\<exists>p s. load_pending_receipts report = Inr p \<and> start_merge p shard0 shard1 stakes = Inr s
        \<and> subscript report ''unsupported_pending_atto'' = Inr retired
        \<and> outcome (merge_loop (entries p) s) = Inr (ws, sm))"
  by (auto simp: merge_def outcome_def rbind_eq_Inr)

lemma merge_refines_spec:
  "merge shard0 shard1 stakes report = Inr (ws, sm, retired) \<longleftrightarrow>
     increasing_from None shard0 \<and> increasing_from None shard1 \<and> increasing_from None stakes
     \<and> (\<exists>p. load_pending_receipts report = Inr p \<and> ledger p shard0 shard1 stakes = Inr ws)
     \<and> subscript report ''unsupported_pending_atto'' = Inr retired
     \<and> sm = foldl book_row empty_summary ws"
  (is "?merge \<longleftrightarrow> ?spec")
proof
  assume ?merge
  then obtain p s where p: "load_pending_receipts report = Inr p" and s: "start_merge p shard0 shard1 stakes = Inr s"
    and retired: "subscript report ''unsupported_pending_atto'' = Inr retired"
    and out: "outcome (merge_loop (entries p) s) = Inr (ws, sm)" by (auto simp: merge_eq_Inr)
  note x = start_merge_E(1-3) [OF s, THEN open_export(3)] start_merge_E(1-3) [OF s, THEN open_export(2)]
  have "sources_ended s" using x by (simp add: sources_ended_def)
  then have ok: "sources_ok s"
    using out merge_loop_checked [of s "entries p"] by (auto simp: outcome_def rbind_eq_Inr)
  have "rbind (ledger p shard0 shard1 stakes) (\<lambda>ws. Inr (ws, foldl book_row empty_summary ws)) = Inr (ws, sm)"
    using start_merge_loop [OF s load_pending_receipts_ok [OF p] ok] out by simp
  then show ?spec using ok x p retired by (auto simp: sources_ok_def rbind_eq_Inr)
next
  assume spec: ?spec
  then obtain p s where p: "load_pending_receipts report = Inr p" and s: "start_merge p shard0 shard1 stakes = Inr s"
    using start_merge_defined by blast
  have ok: "sources_ok s"
    using spec start_merge_E(1-3) [OF s, THEN open_export(3)] by (simp add: sources_ok_def)
  show ?merge
    using start_merge_loop [OF s load_pending_receipts_ok [OF p] ok] spec p s by (auto simp: merge_eq_Inr)
qed

text \<open>
  C2. The ledger is exactly its specification: the merge succeeds precisely when each of the three
  exports is strictly increasing in its lower-case key, the receipts load, the report names the amount
  of retired shards and every key composes; and then it writes the composed row of every key of the
  four inputs, once each in order, with the summary of those rows.
\<close>

theorem merge_refines_ledger:
  "merge shard0 shard1 stakes report = Inr (ws, sm, retired) \<longleftrightarrow>
     increasing_from None shard0 \<and> increasing_from None shard1 \<and> increasing_from None stakes
     \<and> (\<exists>p. load_pending_receipts report = Inr p \<and> ledger p shard0 shard1 stakes = Inr ws)
     \<and> subscript report ''unsupported_pending_atto'' = Inr retired
     \<and> sm = foldl book_row empty_summary ws"
  by (rule merge_refines_spec)

subsection \<open>Conservation\<close>

text \<open>What a field of a row contributes, and the sum of a column of an export.\<close>

definition amount_in :: "row option \<Rightarrow> string \<Rightarrow> int" where
  "amount_in r field = (case int_field r field of Inl _ \<Rightarrow> 0 | Inr n \<Rightarrow> n)"

definition column :: "string \<Rightarrow> row list \<Rightarrow> int" where
  "column field rs = sum_list (map (\<lambda>r. amount_in (Some r) field) rs)"

lemma int_field_nonneg: "int_field r field = Inr n \<Longrightarrow> 0 \<le> n"
  by (auto simp: int_field_def rbind_eq_Inr split: option.splits if_splits)

lemma compose_row_E:
  assumes "compose_row key c0 c1 st rc = Inr w"
  shows "secure_key w = key"
    and "liquid_shard0 w = amount_in c0 ''balance_atto''" and "liquid_shard1 w = amount_in c1 ''balance_atto''"
    and "active_delegation w = amount_in st ''active_delegation_atto''"
    and "pending_undelegation w = amount_in st ''pending_undelegation_atto''"
    and "unclaimed_reward w = amount_in st ''unclaimed_reward_atto''"
    and "pending_cross_shard w = (case rc of None \<Rightarrow> 0 | Some c \<Rightarrow> claim_amount c)"
    and "liquid_total w = liquid_shard0 w + liquid_shard1 w"
    and "total_claim w = liquid_total w + active_delegation w + pending_undelegation w + unclaimed_reward w
      + pending_cross_shard w"
    and "0 < total_claim w"
  using assms by (auto simp: compose_row_def amount_in_def rbind_eq_Inr Let_def split: if_splits)

lemma amount_in_mark: "amount_in (Some (mark k r)) field = amount_in (Some r) field"
  if "field \<noteq> ''secure_key''" and "field \<noteq> ''_kind''"
  using that by (simp add: amount_in_def int_field_def mark_def)

lemma keyed_member:
  assumes "distinct (map row_key rs)" and "r \<in> set rs"
  shows "keyed (row_key r) rs = Some r"
  using assms by (induction rs) (auto simp: keyed_def)

lemma keyed_None: "k \<notin> row_key ` set rs \<Longrightarrow> keyed k rs = None"
  by (auto simp: keyed_def find_None_iff)

lemma column_by_key:
  assumes rs: "distinct (map row_key rs)" and ks: "distinct ks" "row_key ` set rs \<subseteq> set ks"
  shows "sum_list (map (\<lambda>k. amount_in (keyed k rs) field) ks) = column field rs"
proof -
  let ?g = "\<lambda>k. amount_in (keyed k rs) field"
  have "sum_list (map ?g ks) = sum ?g (set ks)" using ks(1) by (simp add: sum_list_distinct_conv_sum_set)
  also have "\<dots> = sum ?g (row_key ` set rs)"
    using ks(2) by (intro sum.mono_neutral_right) (auto simp: keyed_None amount_in_def int_field_def)
  also have "\<dots> = (\<Sum>r\<in>set rs. amount_in (Some r) field)"
    using rs by (subst sum.reindex) (auto simp: distinct_map keyed_member intro!: sum.cong)
  also have "\<dots> = column field rs"
    using rs by (simp add: column_def sum_list_distinct_conv_sum_set distinct_map)
  finally show ?thesis .
qed

lemma column_yielded:
  assumes "increasing_from None source" and "distinct ks" and "\<And>r. r \<in> set source \<Longrightarrow> lower (row_key r) \<in> set ks"
    and "field \<noteq> ''secure_key''" and "field \<noteq> ''_kind''"
  shows "sum_list (map (\<lambda>k. amount_in (keyed k (yielded kd source)) field) ks) = column field source"
proof -
  have "map row_key (yielded kd source) = map (\<lambda>r. lower (row_key r)) source" by (simp add: yielded_def)
  then have "distinct (map row_key (yielded kd source))"
    using increasing_from_sorted [OF assms(1)] by (simp add: strict_sorted_iff)
  then have "sum_list (map (\<lambda>k. amount_in (keyed k (yielded kd source)) field) ks) = column field (yielded kd source)"
    using assms(2,3) by (intro column_by_key) (auto simp: yielded_def)
  also have "\<dots> = column field source"
    using assms(4,5) by (simp add: column_def yielded_def amount_in_mark comp_def)
  finally show ?thesis .
qed

text \<open>The summary adds up the rows.\<close>

lemma summary_sums:
  "sum_liquid_shard0 (foldl book_row s ws) = sum_liquid_shard0 s + sum_list (map liquid_shard0 ws)"
  "sum_liquid_shard1 (foldl book_row s ws) = sum_liquid_shard1 s + sum_list (map liquid_shard1 ws)"
  "sum_active_delegation (foldl book_row s ws) = sum_active_delegation s + sum_list (map active_delegation ws)"
  "sum_pending_undelegation (foldl book_row s ws) = sum_pending_undelegation s + sum_list (map pending_undelegation ws)"
  "sum_unclaimed_reward (foldl book_row s ws) = sum_unclaimed_reward s + sum_list (map unclaimed_reward ws)"
  "sum_pending_cross_shard (foldl book_row s ws) = sum_pending_cross_shard s + sum_list (map pending_cross_shard ws)"
  "sum_total_claim (foldl book_row s ws) = sum_total_claim s + sum_list (map total_claim ws)"
  "row_count (foldl book_row s ws) = row_count s + int (length ws)"
  "rows_without_address (foldl book_row s ws)
     = rows_without_address s + int (length (filter (\<lambda>w. address w = []) ws))"
  by (induction ws arbitrary: s) (simp_all add: book_row_def)

lemma ledger_rows:
  assumes "ledger p shard0 shard1 stakes = Inr ws"
  defines "ks \<equiv> all_keys p shard0 shard1 stakes"
  shows "map secure_key ws = ks"
    and "map liquid_shard0 ws = map (\<lambda>k. amount_in (keyed k (yielded ''liquid0'' shard0)) ''balance_atto'') ks"
    and "map liquid_shard1 ws = map (\<lambda>k. amount_in (keyed k (yielded ''liquid1'' shard1)) ''balance_atto'') ks"
    and "map active_delegation ws = map (\<lambda>k. amount_in (keyed k (yielded ''staking'' stakes)) ''active_delegation_atto'') ks"
    and "map pending_undelegation ws = map (\<lambda>k. amount_in (keyed k (yielded ''staking'' stakes)) ''pending_undelegation_atto'') ks"
    and "map unclaimed_reward ws = map (\<lambda>k. amount_in (keyed k (yielded ''staking'' stakes)) ''unclaimed_reward_atto'') ks"
    and "map pending_cross_shard ws = map (owed p) ks"
    and "\<forall>w \<in> set ws. 0 < total_claim w \<and> total_claim w = liquid_shard0 w + liquid_shard1 w + active_delegation w
      + pending_undelegation w + unclaimed_reward w + pending_cross_shard w"
proof -
  have "list_all2 (\<lambda>k w. composed (entries p) (yielded ''liquid0'' shard0) (yielded ''liquid1'' shard1)
      (yielded ''staking'' stakes) k = Inr w) ks ws"
    using assms by (simp add: ledger_def map_r_eq_Inr)
  note rows = this [unfolded composed_def]
  show "map secure_key ws = ks"
    using list_all2_map_eq [OF rows, of secure_key "\<lambda>k. k"] compose_row_E(1) by auto
  show "map liquid_shard0 ws = map (\<lambda>k. amount_in (keyed k (yielded ''liquid0'' shard0)) ''balance_atto'') ks"
    using rows by (rule list_all2_map_eq) (rule compose_row_E(2))
  show "map liquid_shard1 ws = map (\<lambda>k. amount_in (keyed k (yielded ''liquid1'' shard1)) ''balance_atto'') ks"
    using rows by (rule list_all2_map_eq) (rule compose_row_E(3))
  show "map active_delegation ws
      = map (\<lambda>k. amount_in (keyed k (yielded ''staking'' stakes)) ''active_delegation_atto'') ks"
    using rows by (rule list_all2_map_eq) (rule compose_row_E(4))
  show "map pending_undelegation ws
      = map (\<lambda>k. amount_in (keyed k (yielded ''staking'' stakes)) ''pending_undelegation_atto'') ks"
    using rows by (rule list_all2_map_eq) (rule compose_row_E(5))
  show "map unclaimed_reward ws
      = map (\<lambda>k. amount_in (keyed k (yielded ''staking'' stakes)) ''unclaimed_reward_atto'') ks"
    using rows by (rule list_all2_map_eq) (rule compose_row_E(6))
  show "map pending_cross_shard ws = map (owed p) ks"
    using rows by (rule list_all2_map_eq) (auto simp: owed_def dest: compose_row_E(7))
  show "\<forall>w \<in> set ws. 0 < total_claim w \<and> total_claim w = liquid_shard0 w + liquid_shard1 w + active_delegation w
      + pending_undelegation w + unclaimed_reward w + pending_cross_shard w"
    using list_all2_right [OF rows] compose_row_E(8-10) by metis
qed

lemma total_of_rows:
  assumes "\<forall>w \<in> set ws. total_claim w = liquid_shard0 w + liquid_shard1 w + active_delegation w
      + pending_undelegation w + unclaimed_reward w + pending_cross_shard w"
  shows "sum_list (map total_claim ws) = sum_list (map liquid_shard0 ws) + sum_list (map liquid_shard1 ws)
    + sum_list (map active_delegation ws) + sum_list (map pending_undelegation ws)
    + sum_list (map unclaimed_reward ws) + sum_list (map pending_cross_shard ws)"
  using assms by (induction ws) simp_all

lemma receipts_by_key:
  assumes "pending_ok p" and "distinct ks" and "set (pending_keys p) \<subseteq> set ks"
  shows "sum_list (map (owed p) ks) = pending_total p"
proof -
  have "sum_list (map (owed p) ks) = sum (owed p) (set ks)"
    using assms(2) by (simp add: sum_list_distinct_conv_sum_set)
  also have "\<dots> = sum (owed p) (dom (entries p))"
    using assms by (intro sum.mono_neutral_right) (auto simp: pending_ok_owed owed_def)
  finally show ?thesis using assms(1) by (simp add: pending_ok_owed)
qed

lemma all_keys_facts:
  "sorted_wrt (<) (all_keys p shard0 shard1 stakes)"
  "set (all_keys p shard0 shard1 stakes) = set (pending_keys p)
     \<union> (\<lambda>r. lower (row_key r)) ` (set shard0 \<union> set shard1 \<union> set stakes)"
  by (auto simp: all_keys_def strict_sorted_iff)

text \<open>
  C1. Conservation. What the ledger writes is what the inputs hold: each total of the summary is the
  sum of the corresponding column of its export (for the receipts, the amount the report states), the
  grand total is the sum of the six, and it is the sum of the claims of the rows written.
\<close>

theorem merge_conserves:
  assumes "merge shard0 shard1 stakes report = Inr (ws, sm, retired)"
  shows "sum_liquid_shard0 sm = column ''balance_atto'' shard0
    \<and> sum_liquid_shard1 sm = column ''balance_atto'' shard1
    \<and> sum_active_delegation sm = column ''active_delegation_atto'' stakes
    \<and> sum_pending_undelegation sm = column ''pending_undelegation_atto'' stakes
    \<and> sum_unclaimed_reward sm = column ''unclaimed_reward_atto'' stakes
    \<and> Inr (sum_pending_cross_shard sm) = rbind (subscript report ''pending_active_atto'') int_of
    \<and> sum_total_claim sm = sum_liquid_shard0 sm + sum_liquid_shard1 sm + sum_active_delegation sm
        + sum_pending_undelegation sm + sum_unclaimed_reward sm + sum_pending_cross_shard sm
    \<and> sum_total_claim sm = sum_list (map total_claim ws)"
proof -
  from assms obtain p where inc: "increasing_from None shard0" "increasing_from None shard1" "increasing_from None stakes"
    and p: "load_pending_receipts report = Inr p" and l: "ledger p shard0 shard1 stakes = Inr ws"
    and sm: "sm = foldl book_row empty_summary ws" by (auto simp: merge_refines_spec)
  note ok = load_pending_receipts_ok [OF p] and k = all_keys_facts [of p shard0 shard1 stakes] and r = ledger_rows [OF l]
  have d: "distinct (all_keys p shard0 shard1 stakes)" using k(1) by (simp add: strict_sorted_iff)
  have total: "\<forall>w \<in> set ws. total_claim w = liquid_shard0 w + liquid_shard1 w + active_delegation w
      + pending_undelegation w + unclaimed_reward w + pending_cross_shard w"
    using r(8) by blast
  have "rbind (subscript report ''pending_active_atto'') int_of = Inr (pending_total p)"
    using p by (auto simp: load_pending_receipts_def rbind_eq_Inr split: if_splits)
  moreover have "sum_list (map (owed p) (all_keys p shard0 shard1 stakes)) = pending_total p"
    using k(2) by (intro receipts_by_key [OF ok d]) auto
  ultimately show ?thesis
    using column_yielded [OF inc(1) d, of "''balance_atto''"] column_yielded [OF inc(2) d, of "''balance_atto''"]
      column_yielded [OF inc(3) d] k(2) total_of_rows [OF total]
    by (simp add: sm summary_sums empty_summary_def r(2-7))
qed

text \<open>A small instance: two keys on shard 0, one of them also on shard 1, a validator and a receipt.\<close>

definition example_report :: json where
  "example_report = JDict [(''directions'', JList [JDict [(''pending_groups'', JList [JDict [(''receipts'', JList [
      JDict [(''secure_key'', JStr ''0B''), (''to'', JStr ''one1b''), (''amount_atto'', JStr ''7'')]])]])]]),
    (''pending_active_atto'', JInt 7), (''unsupported_pending_atto'', JStr ''0'')]"

definition example_shard0 :: "row list" where
  "example_shard0 = [
     [''secure_key'' \<mapsto> ''0A'', ''address'' \<mapsto> ''one1a'', ''balance_atto'' \<mapsto> ''5'', ''nonce'' \<mapsto> ''1'', ''code_hash'' \<mapsto> []],
     [''secure_key'' \<mapsto> ''0b'', ''address'' \<mapsto> [], ''balance_atto'' \<mapsto> ''11'', ''nonce'' \<mapsto> ''0'', ''code_hash'' \<mapsto> []]]"

definition example_shard1 :: "row list" where
  "example_shard1 = [[''secure_key'' \<mapsto> ''0a'', ''address'' \<mapsto> ''one1A'', ''balance_atto'' \<mapsto> ''2'', ''nonce'' \<mapsto> ''3'',
     ''code_hash'' \<mapsto> []]]"

definition example_stakes :: "row list" where
  "example_stakes = [[''secure_key'' \<mapsto> ''0c'', ''address'' \<mapsto> ''one1c'', ''active_delegation_atto'' \<mapsto> ''2'',
     ''pending_undelegation_atto'' \<mapsto> ''0'', ''unclaimed_reward_atto'' \<mapsto> ''1'']]"

definition example_rows :: "ledger_row list" where
  "example_rows = [
     \<lparr>secure_key = ''0a'', address = ''one1a'', liquid_shard0 = 5, liquid_shard1 = 2, liquid_total = 7,
      active_delegation = 0, pending_undelegation = 0, unclaimed_reward = 0, pending_cross_shard = 0, total_claim = 7,
      nonce_shard0 = ''1'', nonce_shard1 = ''3'', code_hash_shard0 = [], code_hash_shard1 = []\<rparr>,
     \<lparr>secure_key = ''0b'', address = ''one1b'', liquid_shard0 = 11, liquid_shard1 = 0, liquid_total = 11,
      active_delegation = 0, pending_undelegation = 0, unclaimed_reward = 0, pending_cross_shard = 7, total_claim = 18,
      nonce_shard0 = ''0'', nonce_shard1 = [], code_hash_shard0 = [], code_hash_shard1 = []\<rparr>,
     \<lparr>secure_key = ''0c'', address = ''one1c'', liquid_shard0 = 0, liquid_shard1 = 0, liquid_total = 0,
      active_delegation = 2, pending_undelegation = 0, unclaimed_reward = 1, pending_cross_shard = 0, total_claim = 3,
      nonce_shard0 = [], nonce_shard1 = [], code_hash_shard0 = [], code_hash_shard1 = []\<rparr>]"

definition example_summary :: summary where
  "example_summary = \<lparr>row_count = 3, rows_without_address = 0, sum_liquid_shard0 = 16, sum_liquid_shard1 = 2,
     sum_active_delegation = 2, sum_pending_undelegation = 0, sum_unclaimed_reward = 1, sum_pending_cross_shard = 7,
     sum_total_claim = 28\<rparr>"

lemma example_merge:
  "merge example_shard0 example_shard1 example_stakes example_report = Inr (example_rows, example_summary, JStr ''0'')"
  by code_simp

theorem merge_conserves_witness:
  "sum_total_claim example_summary = column ''balance_atto'' example_shard0 + column ''balance_atto'' example_shard1
     + column ''active_delegation_atto'' example_stakes + column ''pending_undelegation_atto'' example_stakes
     + column ''unclaimed_reward_atto'' example_stakes + 7"
  using merge_conserves [OF example_merge] by (simp add: example_summary_def)

text \<open>
  Every claimant has one row. The keys of the rows are strictly increasing and are exactly the
  lower-case keys of the exports and of the pending receipts; each row claims a positive amount, which
  is the sum of its six components; and the summary counts the rows.
\<close>

theorem merge_one_row_per_key:
  assumes "merge shard0 shard1 stakes report = Inr (ws, sm, retired)"
    and "load_pending_receipts report = Inr p"
  shows "sorted_wrt (<) (map secure_key ws)
    \<and> secure_key ` set ws = set (pending_keys p) \<union> (\<lambda>r. lower (row_key r)) ` (set shard0 \<union> set shard1 \<union> set stakes)
    \<and> (\<forall>w \<in> set ws. 0 < total_claim w \<and> total_claim w = liquid_shard0 w + liquid_shard1 w + active_delegation w
         + pending_undelegation w + unclaimed_reward w + pending_cross_shard w)
    \<and> row_count sm = int (length ws)"
proof -
  from assms have l: "ledger p shard0 shard1 stakes = Inr ws" and sm: "sm = foldl book_row empty_summary ws"
    by (auto simp: merge_refines_spec)
  note r = ledger_rows [OF l] and k = all_keys_facts [of p shard0 shard1 stakes]
  have keys: "secure_key ` set ws = set (all_keys p shard0 shard1 stakes)"
    using arg_cong [OF r(1), of set] by simp
  show ?thesis
    by (intro conjI r(8)) (simp_all add: keys k r(1) sm summary_sums empty_summary_def)
qed

theorem merge_one_row_per_key_witness:
  "sorted_wrt (<) (map secure_key example_rows) \<and> row_count example_summary = 3"
proof -
  have "\<exists>p. load_pending_receipts example_report = Inr p"
    using example_merge by (auto simp: merge_refines_spec)
  then show ?thesis
    using merge_one_row_per_key [OF example_merge] by (auto simp: example_rows_def)
qed

end
