(* ===== verification/Trace.thy ===== *)
theory Trace
  imports Bech32
begin

section \<open>Transaction traces: the replay part of \<open>cx-source-audit.py\<close>\<close>

text \<open>
  A receipt of the cross-shard precompile is a rollback leak when the call that created it completed
  but ran inside a call that failed, so that the sender's debit was undone. The script decides this on
  the call tree of \<open>debug_traceTransaction\<close>: \<open>inspect_trace\<close> walks the tree and counts, \<open>classify_replay\<close>
  reads the counts. The tree is the JSON document the node returns. Its specification is in terms of
  the paths from the root to each call.
\<close>

subsection \<open>The code\<close>

definition CX_PRECOMPILE :: string where
  "CX_PRECOMPILE = ''0x00000000000000000000000000000000000000f9''"

definition CX_SELECTOR :: bytes where
  "CX_SELECTOR = [0x28, 0x48, 0x08, 0x00]"

definition CALL_TYPES :: "string list" where
  "CALL_TYPES = [''CALL'', ''CALLCODE'', ''DELEGATECALL'', ''STATICCALL'']"

record payload =
  payload_amount :: int
  payload_to :: string
  payload_shard :: int

definition parse_precompile_input :: "json \<Rightarrow> payload option" where
  "parse_precompile_input v = (case v of
     JStr s \<Rightarrow>
       if \<not> starts_with ''0x'' s then None
       else (case fromhex (drop 2 s) of Inl _ \<Rightarrow> None
         | Inr raw \<Rightarrow>
             if length raw < 100 \<or> take 4 raw \<noteq> CX_SELECTOR then None
             else let address_word = take 32 (drop 36 raw);
                      shard_word = take 32 (drop 68 raw)
                  in Some \<lparr>payload_amount = from_bytes_big (take 32 (drop 4 raw)),
                           payload_to = ''0x'' @ bytes_hex (drop 12 address_word),
                           payload_shard = from_bytes_big (drop 28 shard_word)\<rparr>)
   | _ \<Rightarrow> None)"

text \<open>\<open>receipt_identity\<close> returns these nine fields; \<open>evidence_key\<close> is the tuple of all of them.\<close>

record identity =
  id_source_shard :: int
  id_destination_shard :: int
  id_source_block :: int
  id_source_block_hash :: string
  id_receipt_index :: int
  id_tx_hash :: string
  id_from :: string
  id_to :: string
  id_amount :: int

record inspection =
  call_count :: int
  completed_count :: int
  match_count :: int
  completed_match_count :: int
  failed_path_count :: int
  failed_matching_count :: int

definition no_calls :: inspection where
  "no_calls = \<lparr>call_count = 0, completed_count = 0, match_count = 0, completed_match_count = 0,
     failed_path_count = 0, failed_matching_count = 0\<rparr>"

text \<open>\<open>str(node.get("type", "")).upper()\<close> and the like; \<open>bool(node.get("error"))\<close>.\<close>

definition call_type :: "json \<Rightarrow> string result" where
  "call_type node = rbind (get_default node ''type'' (JStr [])) (\<lambda>v. Inr (upper (str_of v)))"

definition call_address :: "json \<Rightarrow> string \<Rightarrow> string result" where
  "call_address node field = rbind (get_default node field (JStr [])) (\<lambda>v. Inr (lower (str_of v)))"

definition call_failed :: "json \<Rightarrow> bool result" where
  "call_failed node = rbind (get_default node ''error'' JNull) (\<lambda>v. Inr (truthy v))"

definition call_children :: "json \<Rightarrow> json list result" where
  "call_children node = rbind (get_default node ''calls'' (JList [])) iter"

definition is_precompile_call :: "json \<Rightarrow> bool result" where
  "is_precompile_call node =
     rbind (call_type node) (\<lambda>ct.
     rbind (call_address node ''to'') (\<lambda>to. Inr (to = CX_PRECOMPILE \<and> ct \<in> set CALL_TYPES)))"

definition payload_matches :: "identity \<Rightarrow> string \<Rightarrow> payload option \<Rightarrow> bool" where
  "payload_matches i context_sender p = (case p of None \<Rightarrow> False | Some q \<Rightarrow>
     payload_amount q = id_amount i \<and> context_sender = id_from i \<and> payload_to q = id_to i
     \<and> payload_shard q = id_destination_shard i)"

text \<open>The counters of one precompile call.\<close>

definition one_if :: "bool \<Rightarrow> int" where
  "one_if b = (if b then 1 else 0)"

definition count_call :: "inspection \<Rightarrow> bool \<Rightarrow> bool \<Rightarrow> bool \<Rightarrow> inspection" where
  "count_call r matches failed failed_nonroot_ancestor =
     \<lparr>call_count = call_count r + 1,
      completed_count = completed_count r + one_if (\<not> failed),
      match_count = match_count r + one_if matches,
      completed_match_count = completed_match_count r + one_if (\<not> failed \<and> matches),
      failed_path_count = failed_path_count r + one_if (\<not> failed \<and> failed_nonroot_ancestor),
      failed_matching_count = failed_matching_count r + one_if (\<not> failed \<and> failed_nonroot_ancestor \<and> matches)\<rparr>"

definition count_node :: "identity \<Rightarrow> inspection \<Rightarrow> json \<Rightarrow> bool \<Rightarrow> string \<Rightarrow> inspection result" where
  "count_node i r node failed_nonroot_ancestor context_sender =
     rbind (is_precompile_call node) (\<lambda>precompile.
       if precompile then
         rbind (get_default node ''input'' JNull) (\<lambda>input.
         rbind (call_failed node) (\<lambda>failed.
           Inr (count_call r (payload_matches i context_sender (parse_precompile_input input))
                  failed failed_nonroot_ancestor)))
       else Inr r)"

definition child_sender :: "string \<Rightarrow> json \<Rightarrow> string result" where
  "child_sender context_sender child =
     rbind (call_type child) (\<lambda>ct.
       if ct = ''DELEGATECALL'' then Inr context_sender else call_address child ''from'')"

lemma call_children_weight: "call_children v = Inr ws \<Longrightarrow> w \<in> set ws \<Longrightarrow> weight w < weight v"
  by (auto simp: call_children_def rbind_eq_Inr dest!: weight_get weight_iter)

function visit :: "identity \<Rightarrow> bool \<Rightarrow> string \<Rightarrow> bool \<Rightarrow> inspection \<Rightarrow> json \<Rightarrow> inspection result" where
  "visit i failed_nonroot_ancestor context_sender is_root r node =
     rbind (count_node i r node failed_nonroot_ancestor context_sender) (\<lambda>r'.
     rbind (if failed_nonroot_ancestor then Inr True
            else if is_root then Inr False else call_failed node) (\<lambda>failed_for_children.
     rbind (call_children node) (\<lambda>children.
       fold_r (\<lambda>r'' child. rbind (child_sender context_sender child) (\<lambda>sender.
         visit i failed_for_children sender False r'' child)) r' children)))"
  by pat_completeness auto
termination
  by (relation "measure (\<lambda>(i, f, s, b, r, node). weight node)") (auto dest: call_children_weight)

declare visit.simps [simp del]

text \<open>For evaluation: the walk by the form of the node. What is not a dictionary has no \<open>get\<close>.\<close>

lemma visit_code [code]:
  "visit i f s b r (JDict kvs) =
     rbind (count_node i r (JDict kvs) f s) (\<lambda>r'.
     rbind (if f then Inr True else if b then Inr False else call_failed (JDict kvs)) (\<lambda>f'.
     rbind (call_children (JDict kvs)) (\<lambda>children.
       fold_r (\<lambda>r'' child. rbind (child_sender s child) (\<lambda>t. visit i f' t False r'' child)) r' children)))"
  "visit i f s b r JNull = Inl (AttributeError ''get'')"
  "visit i f s b r (JBool x) = Inl (AttributeError ''get'')"
  "visit i f s b r (JInt n) = Inl (AttributeError ''get'')"
  "visit i f s b r (JStr v) = Inl (AttributeError ''get'')"
  "visit i f s b r (JList vs) = Inl (AttributeError ''get'')"
  by (subst visit.simps; simp add: count_node_def is_precompile_call_def call_type_def)+

definition inspect_trace :: "json \<Rightarrow> identity \<Rightarrow> inspection result" where
  "inspect_trace root i = rbind (call_address root ''from'') (\<lambda>sender. visit i False sender True no_calls root)"

text \<open>Classification, whether the replay is compatible, the issue and the status of the trace.\<close>

definition classify_replay :: "int \<Rightarrow> json \<Rightarrow> inspection \<Rightarrow> (string \<times> bool \<times> string \<times> int) result" where
  "classify_replay receipt_status trace inspection =
     rbind (call_failed trace) (\<lambda>failed.
       let trace_status = (if failed then 0 else 1) in
       Inr (if receipt_status \<noteq> 1
            then (''receipt_inconsistent'', False,
                  ''canonical outgoing receipt has a failed source transaction status'', trace_status)
            else if trace_status \<noteq> receipt_status
            then (''replay_incompatible'', False,
                  ''replay root outcome disagrees with the stored source receipt'', trace_status)
            else if completed_count inspection \<noteq> 1
            then (''unclassified'', True,
                  ''replay does not contain exactly one locally completed precompile call'', trace_status)
            else if completed_match_count inspection \<noteq> 1
            then (''unclassified'', True,
                  ''completed precompile call does not authenticate the canonical receipt'', trace_status)
            else if failed_matching_count inspection = 1
            then (''rollback_leak'', True, [], trace_status)
            else (''valid_source_debit'', True, [], trace_status)))"

subsection \<open>Paths through the call tree\<close>

text \<open>
  Every call of the tree is the end of one path from the root. A call that fails undoes what the
  calls below it did; the root is left out because its failure is the status of the transaction.
\<close>

definition children :: "json \<Rightarrow> json list" where
  "children node = (case call_children node of Inl _ \<Rightarrow> [] | Inr cs \<Rightarrow> cs)"

lemma children_weight: "child \<in> set (children node) \<Longrightarrow> weight child < weight node"
  by (cases "call_children node") (auto simp: children_def dest: call_children_weight)

function paths :: "json \<Rightarrow> json list list" where
  "paths node = [node] # concat (map (\<lambda>c. map ((#) node) (paths c)) (children node))"
  by pat_completeness auto
termination
  by (relation "measure weight") (auto dest: children_weight)

declare paths.simps [simp del]

definition failed :: "json \<Rightarrow> bool" where
  "failed node = (call_failed node = Inr True)"

definition invokes_precompile :: "json list \<Rightarrow> bool" where
  "invokes_precompile p = (is_precompile_call (last p) = Inr True)"

text \<open>Delegate calls keep the sender of their caller, every other call has its own.\<close>

definition sender_along :: "string \<Rightarrow> json list \<Rightarrow> string" where
  "sender_along s cs = foldl (\<lambda>s c. case child_sender s c of Inl _ \<Rightarrow> s | Inr t \<Rightarrow> t) s cs"

definition path_sender :: "json list \<Rightarrow> string" where
  "path_sender p = sender_along (case call_address (hd p) ''from'' of Inl _ \<Rightarrow> [] | Inr s \<Rightarrow> s) (tl p)"

definition call_input :: "json \<Rightarrow> json" where
  "call_input node = (case get_default node ''input'' JNull of Inl _ \<Rightarrow> JNull | Inr v \<Rightarrow> v)"

definition authenticates :: "identity \<Rightarrow> json list \<Rightarrow> bool" where
  "authenticates i p = payload_matches i (path_sender p) (parse_precompile_input (call_input (last p)))"

definition undone :: "json list \<Rightarrow> bool" where
  "undone p = list_ex failed (butlast (tl p))"

definition completed :: "json list \<Rightarrow> bool" where
  "completed p = (invokes_precompile p \<and> \<not> failed (last p))"

text \<open>The walk visits the paths in order; below a node its context stands for the path to it.\<close>

definition count_path :: "identity \<Rightarrow> bool \<Rightarrow> string \<Rightarrow> bool \<Rightarrow> inspection \<Rightarrow> json list \<Rightarrow> inspection" where
  "count_path i f s b r p =
     count_call r (payload_matches i (sender_along s (tl p)) (parse_precompile_input (call_input (last p))))
       (failed (last p)) (f \<or> list_ex failed (butlast (if b then tl p else p)))"

lemma paths_nonempty: "p \<in> set (paths node) \<Longrightarrow> p \<noteq> [] \<and> hd p = node"
  by (subst (asm) paths.simps) auto

lemma count_path_Cons:
  assumes "q \<noteq> []" and "child_sender s (hd q) = Inr s'" and "f' = (f \<or> \<not> b \<and> failed node)"
  shows "count_path i f s b r (node # q) = count_path i f' s' False r q"
  using assms by (cases q) (auto simp: count_path_def sender_along_def)

lemma foldl_cong_on: "(\<And>a x. x \<in> set xs \<Longrightarrow> f a x = g a x) \<Longrightarrow> foldl f a xs = foldl g a xs"
  by (induction xs arbitrary: a) auto

lemma foldl_paths_child:
  assumes "child_sender s child = Inr s'" and "f' = (f \<or> \<not> b \<and> failed node)"
  shows "foldl (count_path i f s b) r (filter invokes_precompile (map ((#) node) (paths child)))
    = foldl (count_path i f' s' False) r (filter invokes_precompile (paths child))"
proof -
  have "filter invokes_precompile (map ((#) node) (paths child))
      = map ((#) node) (filter invokes_precompile (paths child))"
    by (auto simp: filter_map invokes_precompile_def dest: paths_nonempty intro!: arg_cong [where f = "map _"] filter_cong)
  then show ?thesis
    using assms by (auto simp: foldl_map dest: paths_nonempty intro!: foldl_cong_on count_path_Cons)
qed

lemma count_node_path:
  "count_node i r node f s = Inr r' \<Longrightarrow>
     r' = foldl (count_path i f s b) r (filter invokes_precompile [[node]])"
  by (auto simp: count_node_def rbind_eq_Inr invokes_precompile_def count_path_def sender_along_def
      call_input_def failed_def split: if_splits)

lemma visit_paths:
  "visit i f s b r node = Inr r' \<Longrightarrow>
     r' = foldl (count_path i f s b) r (filter invokes_precompile (paths node))"
proof (induction i f s b r node arbitrary: r' rule: visit.induct)
  case (1 i f s b r node)
  from "1.prems" obtain r1 f' cs where r1: "count_node i r node f s = Inr r1"
    and f': "(if f then Inr True else if b then Inr False else call_failed node) = Inr f'"
    and cs: "call_children node = Inr cs"
    and rest: "fold_r (\<lambda>r'' child. rbind (child_sender s child) (\<lambda>t. visit i f' t False r'' child)) r1 cs = Inr r'"
    by (subst (asm) visit.simps) (auto simp: rbind_eq_Inr)
  have f'_eq: "f' = (f \<or> \<not> b \<and> failed node)"
    using f' by (auto simp: failed_def split: if_splits)
  have "foldl (count_path i f s b) r1 (filter invokes_precompile (concat (map (\<lambda>c. map ((#) node) (paths c)) ds)))
      = r'" if "set ds \<subseteq> set cs"
    and "fold_r (\<lambda>r'' child. rbind (child_sender s child) (\<lambda>t. visit i f' t False r'' child)) r1 ds = Inr r'" for ds r1
    using that
  proof (induction ds arbitrary: r1)
    case (Cons c ds)
    then obtain t r2 where t: "child_sender s c = Inr t" and r2: "visit i f' t False r1 c = Inr r2"
      and ds: "fold_r (\<lambda>r'' child. rbind (child_sender s child) (\<lambda>t. visit i f' t False r'' child)) r2 ds = Inr r'"
      by (auto simp: rbind_eq_Inr)
    have "c \<in> set cs" using Cons.prems(1) by simp
    from "1.IH" [OF r1 f' cs this t r2]
    have "r2 = foldl (count_path i f' t False) r1 (filter invokes_precompile (paths c))" .
    also have "\<dots> = foldl (count_path i f s b) r1 (filter invokes_precompile (map ((#) node) (paths c)))"
      using foldl_paths_child [OF t f'_eq] by simp
    finally show ?case using Cons.IH [of r2] Cons.prems(1) ds by simp
  qed simp
  from this [OF subset_refl rest]
  have "r' = foldl (count_path i f s b) r1 (filter invokes_precompile (concat (map (\<lambda>c. map ((#) node) (paths c)) cs)))"
    by simp
  also have "r1 = foldl (count_path i f s b) r (filter invokes_precompile [[node]])"
    by (rule count_node_path [OF r1])
  finally have "r' = foldl (count_path i f s b) r (filter invokes_precompile
      ([[node]] @ concat (map (\<lambda>c. map ((#) node) (paths c)) cs)))"
    by (simp only: filter_append foldl_append)
  moreover have "[[node]] @ concat (map (\<lambda>c. map ((#) node) (paths c)) cs) = paths node"
    by (subst (2) paths.simps) (simp add: children_def cs)
  ultimately show ?case by (simp only:)
qed

text \<open>The counters of a list of paths from the root.\<close>

lemma count_calls:
  fixes i ps
  defines "r \<equiv> foldl (\<lambda>r p. count_call r (authenticates i p) (failed (last p)) (undone p)) no_calls ps"
  shows "call_count r = int (length ps)"
    and "completed_count r = int (length (filter (\<lambda>p. \<not> failed (last p)) ps))"
    and "match_count r = int (length (filter (authenticates i) ps))"
    and "completed_match_count r = int (length (filter (\<lambda>p. \<not> failed (last p) \<and> authenticates i p) ps))"
    and "failed_path_count r = int (length (filter (\<lambda>p. \<not> failed (last p) \<and> undone p) ps))"
    and "failed_matching_count r
      = int (length (filter (\<lambda>p. \<not> failed (last p) \<and> undone p \<and> authenticates i p) ps))"
  unfolding r_def
  by (induction ps rule: rev_induct) (simp_all add: no_calls_def count_call_def one_if_def)

lemma inspect_trace_fold:
  assumes "inspect_trace root i = Inr r"
  shows "r = foldl (\<lambda>r p. count_call r (authenticates i p) (failed (last p)) (undone p)) no_calls
    (filter invokes_precompile (paths root))"
proof -
  from assms obtain s where s: "call_address root ''from'' = Inr s" and v: "visit i False s True no_calls root = Inr r"
    by (auto simp: inspect_trace_def rbind_eq_Inr)
  have "count_path i False s True r p = count_call r (authenticates i p) (failed (last p)) (undone p)"
    if "p \<in> set (paths root)" for r p
    using paths_nonempty [OF that] s by (simp add: count_path_def authenticates_def path_sender_def undone_def)
  then show ?thesis by (subst visit_paths [OF v]) (auto intro!: foldl_cong_on)
qed

text \<open>
  What the walk counts. The six counters of a trace are the numbers of paths from the root of the
  call tree to a call of the cross-shard precompile: all of them, those whose call completed, those
  whose sender and payload are the receipt's, and those with a failed call strictly between the root
  and the precompile.
\<close>

theorem inspect_trace_counts_paths:
  assumes "inspect_trace root i = Inr r"
  shows "call_count r = int (length (filter invokes_precompile (paths root)))
    \<and> completed_count r = int (length (filter completed (paths root)))
    \<and> match_count r = int (length (filter (\<lambda>p. invokes_precompile p \<and> authenticates i p) (paths root)))
    \<and> completed_match_count r = int (length (filter (\<lambda>p. completed p \<and> authenticates i p) (paths root)))
    \<and> failed_path_count r = int (length (filter (\<lambda>p. completed p \<and> undone p) (paths root)))
    \<and> failed_matching_count r = int (length (filter (\<lambda>p. completed p \<and> undone p \<and> authenticates i p) (paths root)))"
  using count_calls [where i = i and ps = "filter invokes_precompile (paths root)", folded inspect_trace_fold [OF assms]]
  by (simp add: completed_def [abs_def] conj_assoc)

text \<open>An incident in small: the root calls a contract that fails after its call of the precompile completed.\<close>

definition example_identity :: identity where
  "example_identity = \<lparr>id_source_shard = 1, id_destination_shard = 0, id_source_block = 5,
     id_source_block_hash = ''0x'' @ replicate 64 CHR ''a'', id_receipt_index = 0,
     id_tx_hash = ''0x'' @ replicate 64 CHR ''b'', id_from = ''0xcc'',
     id_to = ''0x1111111111111111111111111111111111111111'', id_amount = 7\<rparr>"

definition example_bytes :: bytes where
  "example_bytes = CX_SELECTOR @ replicate 31 0 @ [7] @ replicate 12 0 @ replicate 20 0x11 @ replicate 32 0"

definition example_input :: string where
  "example_input = ''0x'' @ bytes_hex example_bytes"

definition example_trace :: "json \<Rightarrow> json \<Rightarrow> json" where
  "example_trace failure input = JDict [(''type'', JStr ''CALL''), (''from'', JStr ''0xAA''), (''to'', JStr ''0xbb''), (''calls'', JList [
     JDict [(''type'', JStr ''CALL''), (''from'', JStr ''0xBB''), (''to'', JStr ''0xcc''), (''error'', failure), (''calls'', JList [
       JDict [(''type'', JStr ''CALL''), (''from'', JStr ''0xCC''), (''to'', JStr CX_PRECOMPILE), (''input'', input)]])]])]"

lemma example_payload: "parse_precompile_input (JStr example_input) = Some \<lparr>payload_amount = 7,
   payload_to = ''0x1111111111111111111111111111111111111111'', payload_shard = 0\<rparr>"
proof -
  have "is_bytes example_bytes" by code_simp
  then have *: "fromhex (bytes_hex example_bytes) = Inr example_bytes" by (rule fromhex_bytes_hex)
  have "\<not> length example_bytes < 100" "take 4 example_bytes = CX_SELECTOR"
    "from_bytes_big (take 32 (drop 4 example_bytes)) = 7"
    "''0x'' @ bytes_hex (drop 12 (take 32 (drop 36 example_bytes))) = ''0x1111111111111111111111111111111111111111''"
    "from_bytes_big (drop 28 (take 32 (drop 68 example_bytes))) = 0"
    by code_simp+
  moreover have "starts_with ''0x'' example_input" "drop 2 example_input = bytes_hex example_bytes"
    unfolding example_input_def by (simp_all only: starts_with_append) simp
  ultimately show ?thesis by (simp add: parse_precompile_input_def * Let_def)
qed
lemma example_texts: "upper ''CALL'' = ''CALL''" "lower ''0xAA'' = ''0xaa''" "lower ''0xBB'' = ''0xbb''" "lower ''0xCC'' = ''0xcc''"
  "lower CX_PRECOMPILE = CX_PRECOMPILE" "''0xbb'' \<noteq> CX_PRECOMPILE" "''0xcc'' \<noteq> CX_PRECOMPILE"  "lower ''0xbb'' = ''0xbb''" "lower ''0xcc'' = ''0xcc''"
  by code_simp+
lemma example_inspection:
  "inspect_trace (example_trace (JStr ''execution reverted'') (JStr example_input)) example_identity
     = Inr \<lparr>call_count = 1, completed_count = 1, match_count = 1, completed_match_count = 1,
            failed_path_count = 1, failed_matching_count = 1\<rparr>"
  by (simp add: inspect_trace_def example_trace_def visit_code count_node_def is_precompile_call_def call_type_def
     call_address_def call_failed_def call_children_def child_sender_def get_or_def example_texts CALL_TYPES_def
    example_payload payload_matches_def example_identity_def no_calls_def count_call_def one_if_def)
theorem inspect_trace_counts_paths_witness:
  "length (filter (\<lambda>p. completed p \<and> undone p \<and> authenticates example_identity p)
     (paths (example_trace (JStr ''execution reverted'') (JStr example_input)))) = 1"
  using inspect_trace_counts_paths [OF example_inspection] by simp

lemma one_filter: "length (filter P xs) = 1 \<longleftrightarrow> (\<exists>x. filter P xs = [x])"
  by (auto simp: length_Suc_conv)

lemma filter_within_one:
  assumes "filter P xs = [p]"
  shows "length (filter (\<lambda>x. P x \<and> Q x) xs) = (if Q p then 1 else 0)"
proof -
  have "filter (\<lambda>x. P x \<and> Q x) xs = filter Q (filter P xs)" by (simp add: conj_commute)
  then show ?thesis by (simp add: assms)
qed

lemma classify_replay_path:
  assumes "inspect_trace root i = Inr r" and "classify_replay status root r = Inr (c, compatible, issue, trace_status)"
  shows "(c = ''rollback_leak'' \<longleftrightarrow> status = 1 \<and> \<not> failed root
           \<and> (\<exists>p. filter completed (paths root) = [p] \<and> authenticates i p \<and> undone p))
    \<and> (c = ''valid_source_debit'' \<longleftrightarrow> status = 1 \<and> \<not> failed root
           \<and> (\<exists>p. filter completed (paths root) = [p] \<and> authenticates i p \<and> \<not> undone p))"
proof (cases "\<exists>p. filter completed (paths root) = [p]")
  case True
  then obtain p where p: "filter completed (paths root) = [p]" ..
  note counts = count_calls [where i = i and ps = "filter invokes_precompile (paths root)",
    folded inspect_trace_fold [OF assms(1)]]
  have "completed_count r = 1" using counts(2) p by (simp add: completed_def [abs_def])
  moreover have "completed_match_count r = one_if (authenticates i p)"
    using counts(4) filter_within_one [OF p, of "authenticates i"]
    by (simp add: completed_def [abs_def] conj_assoc one_if_def)
  moreover have "failed_matching_count r = one_if (undone p \<and> authenticates i p)"
    using counts(6) filter_within_one [OF p, of "\<lambda>p. undone p \<and> authenticates i p"]
    by (simp add: completed_def [abs_def] conj_assoc one_if_def)
  ultimately show ?thesis using assms(2) p
    by (auto simp: classify_replay_def failed_def rbind_eq_Inr Let_def one_if_def split: if_splits)
next
  case False
  have "completed_count r = int (length (filter completed (paths root)))"
    using count_calls(2) [where i = i and ps = "filter invokes_precompile (paths root)", folded inspect_trace_fold [OF assms(1)]]
    by (simp add: completed_def [abs_def])
  moreover have "length (filter completed (paths root)) \<noteq> 1" using False by (simp only: one_filter not_False_eq_True)
  ultimately have "completed_count r \<noteq> 1" by linarith
  then show ?thesis using assms(2) False
    by (auto simp: classify_replay_def rbind_eq_Inr Let_def split: if_splits)
qed

text \<open>
  C8. When a receipt is called a rollback leak. With a stored status of success, \<open>classify_replay\<close> answers
  \<open>rollback_leak\<close> exactly when the root call did not fail, the tree holds one completed call of the
  precompile, that call has the sender, amount, destination and shard of the receipt, and a call
  between it and the root failed; \<open>valid_source_debit\<close> exactly when no such call failed. With any other
  stored status it answers neither.
\<close>

theorem classify_replay_iff_path:
  assumes "inspect_trace root i = Inr r" and "classify_replay status root r = Inr (c, compatible, issue, trace_status)"
  shows "(c = ''rollback_leak'' \<longleftrightarrow> status = 1 \<and> \<not> failed root
           \<and> (\<exists>p. filter completed (paths root) = [p] \<and> authenticates i p \<and> undone p))
    \<and> (c = ''valid_source_debit'' \<longleftrightarrow> status = 1 \<and> \<not> failed root
           \<and> (\<exists>p. filter completed (paths root) = [p] \<and> authenticates i p \<and> \<not> undone p))"
  by (rule classify_replay_path [OF assms])

theorem classify_replay_iff_path_witness:
  "\<exists>p. filter completed (paths (example_trace (JStr ''execution reverted'') (JStr example_input))) = [p]
     \<and> authenticates example_identity p \<and> undone p"
proof -
  have "classify_replay 1 (example_trace (JStr ''execution reverted'') (JStr example_input)) \<lparr>call_count = 1, completed_count = 1,
      match_count = 1, completed_match_count = 1, failed_path_count = 1, failed_matching_count = 1\<rparr>
    = Inr (''rollback_leak'', True, [], 1)"
    by (simp add: classify_replay_def example_trace_def call_failed_def get_or_def)
  from classify_replay_iff_path [OF example_inspection this] show ?thesis by simp
qed

end
