(* ===== verification/Cells.thy ===== *)
theory Cells
  imports Pybase
begin

section \<open>Columns that go by several names\<close>

text \<open>
  The exports name the same column differently, and several scripts look a value up under the first name
  whose cell is not empty: \<open>row_integer\<close> and \<open>row_text\<close> of \<open>cx-source-audit.py\<close>, \<open>integer\<close> of
  \<open>historical-shard1-balance.py\<close>, \<open>required\<close> of \<open>summarize-cx-source-audit.py\<close> and of
  \<open>map-cx-receipt-destinations.py\<close>.
\<close>

definition nonempty_cell :: "row \<Rightarrow> string \<Rightarrow> bool" where
  "nonempty_cell r name = (case r name of None \<Rightarrow> False | Some s \<Rightarrow> s \<noteq> [])"

definition row_text :: "row \<Rightarrow> string list \<Rightarrow> string result" where
  "row_text r names = (case find (nonempty_cell r) names of
     None \<Rightarrow> Inl (KeyError ''expected one of the names'') | Some name \<Rightarrow> getitem r name)"

definition row_integer :: "row \<Rightarrow> string list \<Rightarrow> int result" where
  "row_integer r names = (case find (nonempty_cell r) names of
     None \<Rightarrow> Inl (KeyError ''expected one of the names'') | Some name \<Rightarrow> rbind (getitem r name) py_int)"

definition required :: "row \<Rightarrow> string list \<Rightarrow> string result" where
  "required r names = (case find (\<lambda>name. r name \<noteq> None \<and> r name \<noteq> Some []) names of
     None \<Rightarrow> Inl (KeyError ''expected one of the names'') | Some name \<Rightarrow> getitem r name)"

lemma row_integer_first:
  "nonempty_cell r n \<Longrightarrow> row_integer r (n # ns) = rbind (getitem r n) py_int"
  by (simp add: row_integer_def)

lemma nonempty_cell_iff: "nonempty_cell r n \<longleftrightarrow> r n \<noteq> None \<and> r n \<noteq> Some []"
  by (auto simp: nonempty_cell_def split: option.splits)

text \<open>Testing \<open>name in row and row[name] != ""\<close> or \<open>row.get(name) not in (None, "")\<close> is the same.\<close>

lemma nonempty_cell_fun: "nonempty_cell r = (\<lambda>n. r n \<noteq> None \<and> r n \<noteq> Some [])"
  by (simp add: fun_eq_iff nonempty_cell_iff)

lemma required_row_text: "required r names = row_text r names"
  by (simp only: required_def row_text_def nonempty_cell_fun)

lemma row_integer_required: "row_integer r names = rbind (required r names) py_int"
  unfolding required_def row_integer_def nonempty_cell_fun by (auto split: option.splits)

lemma required_cong:
  assumes "\<And>n. n \<in> set names \<Longrightarrow> r n = r' n"
  shows "required r names = required r' names"
proof -
  have "find (\<lambda>n. r n \<noteq> None \<and> r n \<noteq> Some []) names = find (\<lambda>n. r' n \<noteq> None \<and> r' n \<noteq> Some []) names"
    using assms by (induction names) auto
  moreover have "getitem r n = getitem r' n" if "find (\<lambda>n. r' n \<noteq> None \<and> r' n \<noteq> Some []) names = Some n" for n
    using that assms by (auto simp: find_Some_iff getitem_def)
  ultimately show ?thesis by (simp add: required_def split: option.splits)
qed

text \<open>\<open>int(row[name])\<close> and \<open>row[name].lower()\<close>, and the value they have when they have one.\<close>

definition int_cell :: "row \<Rightarrow> string \<Rightarrow> int result" where
  "int_cell r field = rbind (getitem r field) py_int"

definition cell_int :: "row \<Rightarrow> string \<Rightarrow> int" where
  "cell_int r field = (case int_cell r field of Inl _ \<Rightarrow> 0 | Inr n \<Rightarrow> n)"

definition address_cell :: "row \<Rightarrow> string \<Rightarrow> string" where
  "address_cell r field = lower (get_or r field [])"

lemma int_cell_Inr: "int_cell r field = Inr n \<Longrightarrow> cell_int r field = n"
  by (simp add: cell_int_def)

lemma address_cell_Inr: "getitem r field = Inr t \<Longrightarrow> address_cell r field = lower t"
  by (simp add: address_cell_def getitem_get_or)

end
