(* ===== verification/SourceAudit.thy ===== *)
theory SourceAudit
  imports Trace Cells
begin

section \<open>The source audit of cross-shard receipts: \<open>cx-source-audit.py\<close>\<close>

text \<open>
  The script selects receipt rows, asks the node for the source transaction, the stored receipt and,
  when the debit is not direct, the trace of each; classifies the receipt; and books its amount under
  the classification and under the replay classification. Independent evidence may resolve what the
  replay leaves open and may not contradict what it settles. The node is the record \<open>node\<close> of its
  three answers, and a file the evidence refers to is known by the digest \<open>digest_at\<close> gives it.
\<close>

subsection \<open>Rows and identities\<close>

definition receipt_identity :: "row \<Rightarrow> identity result" where
  "receipt_identity r =
     rbind (row_integer r [''audit_source_shard'', ''signed_source_shard'', ''source_shard'']) (\<lambda>source_shard.
     rbind (row_integer r [''audit_destination_shard'', ''destination_shard'', ''to_shard'']) (\<lambda>destination_shard.
     rbind (row_integer r [''audit_source_block'', ''signed_source_block'', ''source_block'']) (\<lambda>source_block.
     rbind (row_text r [''audit_source_block_hash'', ''signed_source_header_hash'', ''source_block_hash'',
                        ''claimed_source_block_hash'']) (\<lambda>block_hash.
     rbind (row_integer r [''receipt_index'']) (\<lambda>receipt_index.
     rbind (getitem r ''tx_hash'') (\<lambda>tx_hash.
     rbind (rbind (getitem r ''from'') (\<lambda>s. decode_address (Some s))) (\<lambda>from_address.
     rbind (rbind (getitem r ''to'') (\<lambda>s. decode_address (Some s))) (\<lambda>to_address.
     rbind (rbind (getitem r ''amount_atto'') py_int) (\<lambda>amount.
       if \<not> is_tx_hash (lower block_hash) then Inl (ValueError ''source block hash is not a 32-byte hash'')
       else if \<not> is_tx_hash (lower tx_hash)
       then Inl (ValueError ''receipt transaction hash is not a transaction hash'')
       else Inr \<lparr>id_source_shard = source_shard, id_destination_shard = destination_shard,
                 id_source_block = source_block, id_source_block_hash = lower block_hash,
                 id_receipt_index = receipt_index, id_tx_hash = lower tx_hash, id_from = from_address,
                 id_to = to_address, id_amount = amount\<rparr>)))))))))"

definition evidence_key ::
  "identity \<Rightarrow> int \<times> int \<times> int \<times> string \<times> int \<times> string \<times> string \<times> string \<times> int" where
  "evidence_key i = (id_source_shard i, id_destination_shard i, id_source_block i, id_source_block_hash i,
     id_receipt_index i, id_tx_hash i, id_from i, id_to i, id_amount i)"

type_synonym receipt_key = "int \<times> int \<times> int \<times> string \<times> int \<times> string \<times> string \<times> string \<times> int"

subsection \<open>Independent evidence\<close>

record evidence =
  ev_classification :: string
  ev_status :: string
  ev_type :: string
  ev_reference :: string
  ev_sha256 :: string

definition EVIDENCE_STATUS_CLASSIFICATION :: "string \<rightharpoonup> string" where
  "EVIDENCE_STATUS_CLASSIFICATION = [''absent'' \<mapsto> ''source_debit_absent'', ''persisted'' \<mapsto> ''valid_source_debit'']"

definition evidence_identity :: "row \<Rightarrow> identity result" where
  "evidence_identity r =
     rbind (row_integer r [''source_shard'']) (\<lambda>source_shard.
     rbind (row_integer r [''destination_shard'']) (\<lambda>destination_shard.
     rbind (row_integer r [''source_block'']) (\<lambda>source_block.
     rbind (getitem r ''source_block_hash'') (\<lambda>block_hash.
     rbind (row_integer r [''receipt_index'']) (\<lambda>receipt_index.
     rbind (getitem r ''receipt_tx_hash'') (\<lambda>tx_hash.
     rbind (rbind (getitem r ''from'') (\<lambda>s. decode_address (Some s))) (\<lambda>from_address.
     rbind (rbind (getitem r ''to'') (\<lambda>s. decode_address (Some s))) (\<lambda>to_address.
     rbind (rbind (getitem r ''amount_atto'') py_int) (\<lambda>amount.
       if \<not> is_tx_hash (lower block_hash) then Inl (ValueError ''source_block_hash is not a 32-byte hash'')
       else if \<not> is_tx_hash (lower tx_hash)
       then Inl (ValueError ''receipt_tx_hash is not a transaction hash'')
       else Inr \<lparr>id_source_shard = source_shard, id_destination_shard = destination_shard,
                 id_source_block = source_block, id_source_block_hash = lower block_hash,
                 id_receipt_index = receipt_index, id_tx_hash = lower tx_hash, id_from = from_address,
                 id_to = to_address, id_amount = amount\<rparr>)))))))))"

text \<open>A relative reference is resolved against the directory of the evidence file.\<close>

definition artifact_path :: "string \<Rightarrow> string \<Rightarrow> string" where
  "artifact_path directory reference =
     (if starts_with ''/'' reference then reference else directory @ ''/'' @ reference)"

definition check_artifact :: "(string \<Rightarrow> string option) \<Rightarrow> string \<Rightarrow> string \<Rightarrow> string \<Rightarrow> unit result" where
  "check_artifact digest_at directory reference digest =
     (if \<not> is_sha256 digest then Inl (ValueError ''evidence_sha256 is not a SHA-256 digest'')
      else (case digest_at (artifact_path directory reference) of
          None \<Rightarrow> Inl (ValueError ''evidence artifact does not exist'')
        | Some actual \<Rightarrow> raise_if (actual \<noteq> digest) (ValueError ''evidence SHA-256 mismatch'')))"

definition read_evidence :: "(string \<Rightarrow> string option) \<Rightarrow> string \<Rightarrow> row \<Rightarrow> evidence result" where
  "read_evidence digest_at directory r =
     rbind (getitem r ''source_debit_status'') (\<lambda>s.
       let status = lower s in
       case EVIDENCE_STATUS_CLASSIFICATION status of
         None \<Rightarrow> Inl (ValueError ''source_debit_status must be absent or persisted'')
       | Some classification \<Rightarrow>
           rbind (getitem r ''evidence_type'') (\<lambda>t.
           rbind (getitem r ''evidence_reference'') (\<lambda>ref.
           rbind (getitem r ''evidence_sha256'') (\<lambda>d.
             let evidence_type = strip t; reference = strip ref; digest = lower (strip d) in
             if evidence_type = [] \<or> reference = []
             then Inl (ValueError ''evidence type and reference are required'')
             else rbind (check_artifact digest_at directory reference digest) (\<lambda>_.
               Inr \<lparr>ev_classification = classification, ev_status = status, ev_type = evidence_type,
                    ev_reference = reference, ev_sha256 = digest\<rparr>)))))"

text \<open>The dictionary of evidence, its entries in the order they were added.\<close>

definition add_evidence ::
  "(string \<Rightarrow> string option) \<Rightarrow> string \<Rightarrow> (receipt_key \<times> evidence) list \<Rightarrow> row \<Rightarrow> (receipt_key \<times> evidence) list result" where
  "add_evidence digest_at directory evidence r =
     rbind (evidence_identity r) (\<lambda>i.
     rbind (read_evidence digest_at directory r) (\<lambda>e.
       if evidence_key i \<in> fst ` set evidence then Inl (ValueError ''duplicate evidence'')
       else Inr (evidence @ [(evidence_key i, e)])))"

definition load_independent_evidence ::
  "(string \<Rightarrow> string option) \<Rightarrow> (string \<times> row list) list \<Rightarrow> (receipt_key \<times> evidence) list result" where
  "load_independent_evidence digest_at files =
     fold_r (\<lambda>evidence (directory, rs). fold_r (add_evidence digest_at directory) evidence rs) [] files"

subsection \<open>Resolving a classification\<close>

definition FINAL_CLASSIFICATIONS :: "string list" where
  "FINAL_CLASSIFICATIONS = [''rollback_leak'', ''source_debit_absent'', ''valid_source_debit'']"

definition resolve_classification ::
  "string option \<Rightarrow> string \<Rightarrow> evidence option \<Rightarrow> (string \<times> string \<times> string) result" where
  "resolve_classification direct replay evidence =
     (let replay_final = (case direct of Some d \<Rightarrow> d | None \<Rightarrow> replay) in
      case evidence of
        Some e \<Rightarrow>
          if (replay_final = ''valid_source_debit'' \<and> ev_status e = ''absent'')
             \<or> (replay_final = ''rollback_leak'' \<and> ev_status e = ''persisted'')
          then Inl (ValueError ''independent source-debit evidence conflicts'')
          else if replay_final = ''rollback_leak'' \<or> replay_final = ''valid_source_debit''
          then Inr (replay_final,
                    (if direct \<noteq> None then ''direct_transaction_and_independent_evidence''
                     else ''compatible_replay_and_independent_evidence''),
                    ev_classification e)
          else Inr (ev_classification e, ''independent_source_debit_evidence'', ev_classification e)
      | None \<Rightarrow>
          if replay_final \<in> set FINAL_CLASSIFICATIONS
          then Inr (replay_final, (if direct \<noteq> None then ''direct_transaction'' else ''compatible_replay''), [])
          else Inr (''unclassified'', ''unresolved'', []))"

subsection \<open>Selecting the rows\<close>

record audit_args =
  min_source_block :: int
  max_source_block :: "int option"
  only_source_shard :: "int option"
  only_destination_shard :: "int option"
  only_addresses :: "string list"

text \<open>A shard column that is absent is replaced by the shard of the command line.\<close>

definition shard_or :: "int option \<Rightarrow> int result \<Rightarrow> int result" where
  "shard_or fallback r = (case r of
     Inl (KeyError k) \<Rightarrow> (case fallback of None \<Rightarrow> Inl (ValueError ''shard is absent'') | Some n \<Rightarrow> Inr n)
   | _ \<Rightarrow> r)"

definition wanted_address :: "audit_args \<Rightarrow> row \<Rightarrow> bool result" where
  "wanted_address args r = (if only_addresses args = [] then Inr True
     else rbind (getitem r ''from'') (\<lambda>s. Inr (lower s \<in> set (only_addresses args))))"

definition select_row :: "audit_args \<Rightarrow> string \<Rightarrow> row \<Rightarrow> row option result" where
  "select_row args path r =
     rbind (row_integer r [''signed_source_block'', ''source_block'']) (\<lambda>source_block.
     rbind (row_text r [''signed_source_header_hash'', ''source_block_hash'', ''claimed_source_block_hash'']) (\<lambda>block_hash.
     rbind (shard_or (only_source_shard args) (row_integer r [''signed_source_shard'', ''source_shard''])) (\<lambda>source_shard.
     rbind (shard_or (only_destination_shard args) (row_integer r [''destination_shard'', ''to_shard''])) (\<lambda>destination_shard.
       if source_block < min_source_block args then Inr None
       else if (case max_source_block args of None \<Rightarrow> False | Some m \<Rightarrow> m < source_block) then Inr None
       else if (case only_source_shard args of None \<Rightarrow> False | Some n \<Rightarrow> source_shard \<noteq> n) then Inr None
       else if (case only_destination_shard args of None \<Rightarrow> False | Some n \<Rightarrow> destination_shard \<noteq> n) then Inr None
       else rbind (wanted_address args r) (\<lambda>wanted.
         if \<not> wanted then Inr None
         else Inr (Some (r(''receipt_file'' \<mapsto> path, ''audit_source_block'' \<mapsto> py_str source_block,
                           ''audit_source_block_hash'' \<mapsto> lower block_hash,
                           ''audit_source_shard'' \<mapsto> py_str source_shard,
                           ''audit_destination_shard'' \<mapsto> py_str destination_shard))))))))"

definition select_rows :: "audit_args \<Rightarrow> (string \<times> row list) list \<Rightarrow> row list result" where
  "select_rows args files =
     rbind (map_r (\<lambda>(path, rs). rbind (map_r (select_row args path) rs) (\<lambda>xs. Inr (List.map_filter id xs))) files)
       (\<lambda>rss. Inr (concat rss))"

text \<open>\<open>rows.sort(key=lambda row: int(row["audit_source_block"]))\<close>; the column was written by \<open>str\<close>.\<close>

definition block_of :: "row \<Rightarrow> int" where
  "block_of r = (case rbind (getitem r ''audit_source_block'') py_int of Inl _ \<Rightarrow> 0 | Inr n \<Rightarrow> n)"

definition selected_receipts :: "audit_args \<Rightarrow> (string \<times> row list) list \<Rightarrow> row list result" where
  "selected_receipts args files =
     rbind (select_rows args files) (\<lambda>rs.
       let sorted_rows = sort_key block_of rs in
       rbind (map_r (\<lambda>r. rbind (receipt_identity r) (\<lambda>i. Inr (evidence_key i))) sorted_rows) (\<lambda>keys.
         if \<not> distinct keys then Inl (ValueError ''duplicate canonical receipt rows in selected inputs'')
         else Inr sorted_rows))"

subsection \<open>Auditing the selected receipts\<close>

text \<open>\<open>hmyv2_getTransactionByHash\<close>, \<open>hmyv2_getTransactionReceipt\<close> and \<open>debug_traceTransaction\<close>.\<close>

record node =
  get_transaction :: "string \<Rightarrow> json result"
  get_receipt :: "json \<Rightarrow> json result"
  trace_transaction :: "json \<Rightarrow> json result"

record audited =
  au_row :: row
  au_hash :: json
  au_from :: string
  au_to :: string
  au_value :: json
  au_status :: int
  au_selector :: json
  au_root_error :: json
  au_replay_status :: "int option"
  au_replay_compatible :: "bool option"
  au_replay_issue :: string
  au_inspection :: "inspection option"
  au_replay_classification :: string
  au_evidence_classification :: string
  au_evidence :: "evidence option"
  au_classification_source :: string
  au_classification :: string

record audit_state =
  totals :: "string \<rightharpoonup> int"
  replay_totals :: "string \<rightharpoonup> int"
  evidence_count :: int
  evidence_amount :: int
  used_evidence :: "receipt_key list"
  output_rows :: "audited list"

definition empty_audit :: audit_state where
  "empty_audit = \<lparr>
     totals = [''rollback_leak'' \<mapsto> 0, ''source_debit_absent'' \<mapsto> 0, ''valid_source_debit'' \<mapsto> 0, ''unclassified'' \<mapsto> 0],
     replay_totals = [''rollback_leak'' \<mapsto> 0, ''valid_source_debit'' \<mapsto> 0, ''replay_incompatible'' \<mapsto> 0,
       ''receipt_inconsistent'' \<mapsto> 0, ''unclassified'' \<mapsto> 0, ''not_traced'' \<mapsto> 0],
     evidence_count = 0, evidence_amount = 0, used_evidence = [], output_rows = []\<rparr>"

text \<open>\<open>totals[k] += amount\<close>: a name that is not in the dictionary raises.\<close>

definition add_at :: "(string \<rightharpoonup> int) \<Rightarrow> string \<Rightarrow> int \<Rightarrow> (string \<rightharpoonup> int) result" where
  "add_at m k amount = rbind (getitem m k) (\<lambda>n. Inr (m(k \<mapsto> n + amount)))"

definition json_address :: "json \<Rightarrow> string result" where
  "json_address v = (case v of JNull \<Rightarrow> decode_address None | JStr s \<Rightarrow> decode_address (Some s)
     | _ \<Rightarrow> Inl (AttributeError ''startswith''))"

text \<open>What the audit of the debit yields: the replay, and a classification when the debit is direct.\<close>

record replay =
  rp_trace :: json
  rp_inspection :: "inspection option"
  rp_classification :: string
  rp_compatible :: "bool option"
  rp_issue :: string
  rp_status :: "int option"
  rp_direct :: "string option"

definition direct_replay :: "int \<Rightarrow> replay" where
  "direct_replay receipt_status =
     (if receipt_status = 1
      then \<lparr>rp_trace = JDict [], rp_inspection = None, rp_classification = ''not_traced'', rp_compatible = None,
            rp_issue = [], rp_status = None, rp_direct = Some ''valid_source_debit''\<rparr>
      else \<lparr>rp_trace = JDict [], rp_inspection = None, rp_classification = ''receipt_inconsistent'',
            rp_compatible = Some False,
            rp_issue = ''canonical outgoing receipt has a failed direct source transaction status'',
            rp_status = None, rp_direct = None\<rparr>)"

definition traced_replay :: "node \<Rightarrow> json \<Rightarrow> identity \<Rightarrow> int \<Rightarrow> replay result" where
  "traced_replay nd hash i receipt_status =
     rbind (trace_transaction nd hash) (\<lambda>trace.
     rbind (inspect_trace trace i) (\<lambda>insp.
     rbind (classify_replay receipt_status trace insp) (\<lambda>(c, compatible, issue, trace_status).
       Inr \<lparr>rp_trace = trace, rp_inspection = Some insp, rp_classification = c, rp_compatible = Some compatible,
            rp_issue = issue, rp_status = Some trace_status, rp_direct = None\<rparr>)))"

definition source_transaction :: "node \<Rightarrow> row \<Rightarrow> json result" where
  "source_transaction nd r =
     rbind (getitem r ''tx_hash'') (\<lambda>h.
     rbind (get_transaction nd h) (\<lambda>transaction.
       if transaction = JNull then Inl (RuntimeError ''source transaction missing'')
       else rbind (rbind (subscript transaction ''hash'') text_of) (\<lambda>h1.
            rbind (rbind (subscript transaction ''ethHash'') text_of) (\<lambda>h2.
              if lower h \<noteq> lower h1 \<and> lower h \<noteq> lower h2
              then Inl (RuntimeError ''source transaction hash mismatch'')
              else Inr transaction))))"

definition source_status :: "node \<Rightarrow> json \<Rightarrow> int result" where
  "source_status nd hash =
     rbind (get_receipt nd hash) (\<lambda>receipt.
       if receipt = JNull then Inl (RuntimeError ''source transaction receipt missing'')
       else rbind (subscript receipt ''status'') int_of)"

definition is_direct_debit :: "json \<Rightarrow> string \<Rightarrow> bool result" where
  "is_direct_debit transaction source_to =
     (if source_to = CX_PRECOMPILE then Inr True
      else rbind (subscript transaction ''shardID'') (\<lambda>a.
           rbind (subscript transaction ''toShardID'') (\<lambda>b. Inr (\<not> py_eq a b))))"

text \<open>The end of the loop body: from the check of the evidence to the row of the output.\<close>

definition book_receipt ::
  "audit_state \<Rightarrow> row \<Rightarrow> identity \<Rightarrow> evidence option \<Rightarrow> json \<Rightarrow> json \<Rightarrow> string \<Rightarrow> int \<Rightarrow> replay \<Rightarrow> audit_state result" where
  "book_receipt st r i evidence transaction hash source_to status rp =
     (if evidence \<noteq> None \<and> status \<noteq> 1
      then Inl (ValueError ''independent evidence cannot override a failed stored source transaction receipt'')
      else
     rbind (resolve_classification (rp_direct rp) (rp_classification rp) evidence) (\<lambda>(c, c_source, c_evidence).
     rbind (add_at (totals st) c (id_amount i)) (\<lambda>totals'.
     rbind (add_at (replay_totals st) (rp_classification rp) (id_amount i)) (\<lambda>replay_totals'.
     rbind (rbind (subscript transaction ''from'') json_address) (\<lambda>source_from.
     rbind (subscript transaction ''value'') (\<lambda>v.
     rbind (rbind (subscript transaction ''input'') first_ten) (\<lambda>selector.
     rbind (get_default (rp_trace rp) ''error'' (JStr [])) (\<lambda>root_error.
       Inr \<lparr>totals = totals', replay_totals = replay_totals',
            evidence_count = (if evidence = None then evidence_count st else evidence_count st + 1),
            evidence_amount = (if evidence = None then evidence_amount st else evidence_amount st + id_amount i),
            used_evidence = (if evidence = None \<or> evidence_key i \<in> set (used_evidence st) then used_evidence st
              else used_evidence st @ [evidence_key i]),
            output_rows = output_rows st @ [\<lparr>au_row = r, au_hash = hash, au_from = source_from, au_to = source_to,
              au_value = v, au_status = status, au_selector = selector, au_root_error = root_error,
              au_replay_status = rp_status rp, au_replay_compatible = rp_compatible rp, au_replay_issue = rp_issue rp,
              au_inspection = rp_inspection rp, au_replay_classification = rp_classification rp,
              au_evidence_classification = c_evidence, au_evidence = evidence, au_classification_source = c_source,
              au_classification = c\<rparr>]\<rparr>))))))))"

definition audit_row :: "node \<Rightarrow> (receipt_key \<times> evidence) list \<Rightarrow> audit_state \<Rightarrow> row \<Rightarrow> audit_state result" where
  "audit_row nd independent st r =
     rbind (receipt_identity r) (\<lambda>i.
     rbind (source_transaction nd r) (\<lambda>transaction.
     rbind (rbind (get_default transaction ''to'' JNull) json_address) (\<lambda>source_to.
     rbind (subscript transaction ''hash'') (\<lambda>hash.
     rbind (source_status nd hash) (\<lambda>status.
     rbind (is_direct_debit transaction source_to) (\<lambda>direct.
     rbind (if direct then Inr (direct_replay status) else traced_replay nd hash i status) (\<lambda>rp.
       book_receipt st r i (map_of independent (evidence_key i)) transaction hash source_to status rp)))))))"

definition audit_receipts ::
  "node \<Rightarrow> (string \<Rightarrow> string option) \<Rightarrow> audit_args \<Rightarrow> (string \<times> row list) list \<Rightarrow> (string \<times> row list) list \<Rightarrow> audit_state result" where
  "audit_receipts nd digest_at args evidence_files receipt_files =
     rbind (load_independent_evidence digest_at evidence_files) (\<lambda>independent.
     rbind (selected_receipts args receipt_files) (\<lambda>rs.
     rbind (fold_r (audit_row nd independent) empty_audit rs) (\<lambda>st.
       if \<exists>k \<in> set (map fst independent). k \<notin> set (used_evidence st)
       then Inl (ValueError ''independent evidence rows did not match the selected canonical receipts'')
       else Inr st)))"

subsection \<open>The rows written\<close>

definition count_cell :: "(inspection \<Rightarrow> int) \<Rightarrow> string \<Rightarrow> audited \<Rightarrow> string" where
  "count_cell f direct a = (case au_inspection a of None \<Rightarrow> direct | Some insp \<Rightarrow> py_str (f insp))"

definition output_row :: "audited \<Rightarrow> row" where
  "output_row a = (au_row a)(
     ''source_transaction_hash'' \<mapsto> csv_text (au_hash a),
     ''source_transaction_from'' \<mapsto> au_from a,
     ''source_transaction_to'' \<mapsto> au_to a,
     ''source_transaction_value_atto'' \<mapsto> csv_text (au_value a),
     ''source_transaction_status'' \<mapsto> py_str (au_status a),
     ''source_input_selector'' \<mapsto> csv_text (au_selector a),
     ''trace_root_error'' \<mapsto> csv_text (au_root_error a),
     ''replay_status'' \<mapsto> (case au_replay_status a of None \<Rightarrow> [] | Some n \<Rightarrow> py_str n),
     ''replay_compatible'' \<mapsto> (case au_replay_compatible a of None \<Rightarrow> [] | Some b \<Rightarrow> str_of (JBool b)),
     ''replay_issue'' \<mapsto> au_replay_issue a,
     ''precompile_call_count'' \<mapsto> count_cell call_count (if au_to a = CX_PRECOMPILE then ''1'' else ''0'') a,
     ''completed_precompile_call_count'' \<mapsto> count_cell completed_count [] a,
     ''precompile_payload_match_count'' \<mapsto> count_cell match_count [] a,
     ''completed_precompile_payload_match_count'' \<mapsto> count_cell completed_match_count [] a,
     ''failed_precompile_path_count'' \<mapsto> count_cell failed_path_count ''0'' a,
     ''failed_matching_precompile_path_count'' \<mapsto> count_cell failed_matching_count ''0'' a,
     ''replay_classification'' \<mapsto> au_replay_classification a,
     ''independent_evidence_classification'' \<mapsto> au_evidence_classification a,
     ''independent_source_debit_status'' \<mapsto> (case au_evidence a of None \<Rightarrow> [] | Some e \<Rightarrow> ev_status e),
     ''independent_evidence_type'' \<mapsto> (case au_evidence a of None \<Rightarrow> [] | Some e \<Rightarrow> ev_type e),
     ''independent_evidence_reference'' \<mapsto> (case au_evidence a of None \<Rightarrow> [] | Some e \<Rightarrow> ev_reference e),
     ''independent_evidence_sha256'' \<mapsto> (case au_evidence a of None \<Rightarrow> [] | Some e \<Rightarrow> ev_sha256 e),
     ''classification_source'' \<mapsto> au_classification_source a,
     ''classification'' \<mapsto> au_classification a)"

end
