(* ===== verification/SourceAuditProofs.thy ===== *)
theory SourceAuditProofs
  imports SourceAudit
begin

section \<open>What the source audit guarantees\<close>

text \<open>
  One row of the audit is \<open>justified\<close> when its classification follows from the replay of its transaction
  and from the evidence for its identity. The loop over the receipts keeps two facts, each an
  interpretation of \<open>invariant_loop\<close>: every row booked so far is justified, and the totals are the
  sums of the amounts of those rows by classification. Evidence used once is evidence counted once,
  because the selected receipts have distinct identities.
\<close>

subsection \<open>One row\<close>

definition amount_of :: "audited \<Rightarrow> int" where
  "amount_of a = (case receipt_identity (au_row a) of Inl _ \<Rightarrow> 0 | Inr i \<Rightarrow> id_amount i)"

definition justified :: "node \<Rightarrow> (receipt_key \<times> evidence) list \<Rightarrow> audited \<Rightarrow> bool" where
  "justified nd independent a \<longleftrightarrow> (\<exists>i rp. receipt_identity (au_row a) = Inr i
     \<and> (rp = direct_replay (au_status a) \<or> traced_replay nd (au_hash a) i (au_status a) = Inr rp)
     \<and> au_replay_classification a = rp_classification rp
     \<and> au_evidence a = map_of independent (evidence_key i)
     \<and> (au_evidence a \<noteq> None \<longrightarrow> au_status a = 1)
     \<and> resolve_classification (rp_direct rp) (rp_classification rp) (au_evidence a)
         = Inr (au_classification a, au_classification_source a, au_evidence_classification a))"

lemma book_receipt_last:
  assumes "book_receipt st r i evidence transaction hash source_to status rp = Inr st'"
  defines "a \<equiv> last (output_rows st')"
  shows "output_rows st' = output_rows st @ [a]" and "au_row a = r" and "au_hash a = hash" and "au_status a = status"
    and "au_evidence a = evidence" and "au_replay_classification a = rp_classification rp"
    and "evidence \<noteq> None \<longrightarrow> status = 1"
    and "resolve_classification (rp_direct rp) (rp_classification rp) evidence
      = Inr (au_classification a, au_classification_source a, au_evidence_classification a)"
    and "add_at (totals st) (au_classification a) (id_amount i) = Inr (totals st')"
    and "add_at (replay_totals st) (au_replay_classification a) (id_amount i) = Inr (replay_totals st')"
    and "evidence_count st' = evidence_count st + (if evidence = None then 0 else 1)"
    and "evidence_amount st' = evidence_amount st + (if evidence = None then 0 else id_amount i)"
    and "used_evidence st' = (if evidence = None \<or> evidence_key i \<in> set (used_evidence st) then used_evidence st
      else used_evidence st @ [evidence_key i])"
  using assms by (auto simp: book_receipt_def rbind_eq_Inr split: if_splits)

text \<open>A successful step appends one justified row and books its amount.\<close>

lemma audit_row_book:
  assumes "audit_row nd independent st r = Inr st'"
  obtains i transaction hash source_to status rp where "receipt_identity r = Inr i"
    and "rp = direct_replay status \<or> traced_replay nd hash i status = Inr rp"
    and "book_receipt st r i (map_of independent (evidence_key i)) transaction hash source_to status rp = Inr st'"
  using assms unfolding audit_row_def
  by (elim rbind_E) (metis Inr_inject)

lemma audit_row_last:
  assumes "audit_row nd independent st r = Inr st'"
  defines "a \<equiv> last (output_rows st')"
  obtains i where "receipt_identity r = Inr i" and "au_row a = r" and "justified nd independent a"
    and "au_evidence a = map_of independent (evidence_key i)"
    and "output_rows st' = output_rows st @ [a]"
    and "add_at (totals st) (au_classification a) (id_amount i) = Inr (totals st')"
    and "add_at (replay_totals st) (au_replay_classification a) (id_amount i) = Inr (replay_totals st')"
    and "evidence_count st' = evidence_count st + (if au_evidence a = None then 0 else 1)"
    and "evidence_amount st' = evidence_amount st + (if au_evidence a = None then 0 else id_amount i)"
    and "used_evidence st' = (if au_evidence a = None \<or> evidence_key i \<in> set (used_evidence st) then used_evidence st
      else used_evidence st @ [evidence_key i])"
proof -
  obtain i transaction hash source_to status rp where i: "receipt_identity r = Inr i"
    and rp: "rp = direct_replay status \<or> traced_replay nd hash i status = Inr rp"
    and b: "book_receipt st r i (map_of independent (evidence_key i)) transaction hash source_to status rp = Inr st'"
    by (rule audit_row_book [OF assms(1)])
  note l = book_receipt_last [OF b, folded a_def]
  have "justified nd independent a"
    unfolding justified_def
    by (intro exI [of _ i] exI [of _ rp]) (use rp l(7,8) in \<open>simp add: i l(2-6)\<close>)
  from that [OF i l(2) this] show thesis using l(1,5,9-13) by simp
qed

subsection \<open>The loop over the receipts\<close>

definition tally :: "(audited \<Rightarrow> string) \<Rightarrow> string list \<Rightarrow> audited list \<Rightarrow> string \<rightharpoonup> int" where
  "tally f names rs = (\<lambda>k. if k \<in> set names then Some (sum_list (map amount_of (filter (\<lambda>a. f a = k) rs))) else None)"

definition classifications :: "string list" where
  "classifications = [''rollback_leak'', ''source_debit_absent'', ''valid_source_debit'', ''unclassified'']"

definition replay_classifications :: "string list" where
  "replay_classifications = [''rollback_leak'', ''valid_source_debit'', ''replay_incompatible'', ''receipt_inconsistent'',
     ''unclassified'', ''not_traced'']"

definition key_of :: "audited \<Rightarrow> receipt_key option" where
  "key_of a = (case receipt_identity (au_row a) of Inl _ \<Rightarrow> None | Inr i \<Rightarrow> Some (evidence_key i))"

definition booked_ok :: "node \<Rightarrow> (receipt_key \<times> evidence) list \<Rightarrow> audit_state \<Rightarrow> bool" where
  "booked_ok nd independent st \<longleftrightarrow>
     (\<forall>a \<in> set (output_rows st). justified nd independent a)
     \<and> totals st = tally au_classification classifications (output_rows st)
     \<and> replay_totals st = tally au_replay_classification replay_classifications (output_rows st)"

definition evidence_ok :: "(receipt_key \<times> evidence) list \<Rightarrow> audit_state \<Rightarrow> bool" where
  "evidence_ok independent st \<longleftrightarrow>
     set (used_evidence st) \<subseteq> fst ` set independent
     \<and> Some ` set (used_evidence st) \<subseteq> key_of ` set (output_rows st)
     \<and> (distinct (map key_of (output_rows st)) \<longrightarrow>
          distinct (used_evidence st) \<and> evidence_count st = int (length (used_evidence st)))"

lemma add_at_tally:
  assumes "add_at (tally f names rs) (f a) (amount_of a) = Inr m"
  shows "m = tally f names (rs @ [a])"
proof -
  have m: "m = (tally f names rs)(f a \<mapsto> sum_list (map amount_of (filter (\<lambda>b. f b = f a) rs)) + amount_of a)"
    and "f a \<in> set names"
    using assms by (auto simp: add_at_def tally_def getitem_def rbind_eq_Inr split: if_splits)
  then show ?thesis by (intro ext) (simp add: m tally_def)
qed

lemma tally_empty: "totals empty_audit = tally au_classification classifications []"
  "replay_totals empty_audit = tally au_replay_classification replay_classifications []"
  by (auto simp: empty_audit_def tally_def classifications_def replay_classifications_def fun_eq_iff)

lemma empty_audit_ok: "booked_ok nd independent empty_audit" "evidence_ok independent empty_audit"
  by (simp_all add: booked_ok_def tally_empty evidence_ok_def) (simp_all add: empty_audit_def)

lemma audit_row_booked:
  assumes "booked_ok nd independent st" and "audit_row nd independent st r = Inr st'"
  shows "booked_ok nd independent st'"
proof -
  define a where "a = last (output_rows st')"
  obtain i where i: "receipt_identity r = Inr i" "au_row a = r" and j: "justified nd independent a"
    and out: "output_rows st' = output_rows st @ [a]"
    and t: "add_at (totals st) (au_classification a) (id_amount i) = Inr (totals st')"
    and rt: "add_at (replay_totals st) (au_replay_classification a) (id_amount i) = Inr (replay_totals st')"
    unfolding a_def by (rule audit_row_last [OF assms(2)])
  have "id_amount i = amount_of a" by (simp add: amount_of_def i)
  then show ?thesis
    using assms(1) j t rt add_at_tally [of au_classification classifications "output_rows st" a]
      add_at_tally [of au_replay_classification replay_classifications "output_rows st" a]
    by (auto simp: booked_ok_def out)
qed

interpretation audit_loop: invariant_loop "audit_row nd independent" "booked_ok nd independent" for nd independent
  by unfold_locales (rule audit_row_booked)

lemma audit_row_evidence:
  assumes "evidence_ok independent st" and "audit_row nd independent st r = Inr st'"
  shows "evidence_ok independent st'"
proof -
  define a where "a = last (output_rows st')"
  obtain i where i: "receipt_identity r = Inr i" "au_row a = r"
    and ev: "au_evidence a = map_of independent (evidence_key i)"
    and out: "output_rows st' = output_rows st @ [a]"
    and n: "evidence_count st' = evidence_count st + (if au_evidence a = None then 0 else 1)"
    and used: "used_evidence st' = (if au_evidence a = None \<or> evidence_key i \<in> set (used_evidence st) then used_evidence st
      else used_evidence st @ [evidence_key i])"
    unfolding a_def by (rule audit_row_last [OF assms(2)])
  have k: "key_of a = Some (evidence_key i)" by (simp add: key_of_def i)
  show ?thesis
  proof (cases "au_evidence a")
    case None
    then show ?thesis using assms(1) by (auto simp: evidence_ok_def out n used)
  next
    case (Some e)
    then have "evidence_key i \<in> fst ` set independent" using ev by (metis map_of_eq_None_iff option.distinct(1))
    moreover have "evidence_key i \<notin> set (used_evidence st)" if "key_of a \<notin> key_of ` set (output_rows st)"
      using assms(1) that k by (auto simp: evidence_ok_def)
    ultimately show ?thesis using assms(1) Some k by (auto simp: evidence_ok_def out n used)
  qed
qed

interpretation evidence_loop: invariant_loop "audit_row nd independent" "evidence_ok independent" for nd independent
  by unfold_locales (rule audit_row_evidence)

lemma audit_rows_out:
  "fold_r (audit_row nd independent) st rs = Inr st' \<Longrightarrow> map au_row (output_rows st') = map au_row (output_rows st) @ rs"
proof (induction rs arbitrary: st)
  case (Cons r rs)
  then obtain t where t: "audit_row nd independent st r = Inr t" "fold_r (audit_row nd independent) t rs = Inr st'"
    by (auto simp: rbind_eq_Inr)
  have "map au_row (output_rows t) = map au_row (output_rows st) @ [r]"
    by (rule audit_row_last [OF t(1)]) (metis list.simps(8,9) map_append)
  then show ?case using Cons.IH [OF t(2)] by simp
qed simp

subsection \<open>The evidence and the selection\<close>

definition faithful :: "(string \<Rightarrow> string option) \<Rightarrow> evidence \<Rightarrow> bool" where
  "faithful digest_at e \<longleftrightarrow> EVIDENCE_STATUS_CLASSIFICATION (ev_status e) = Some (ev_classification e)
     \<and> is_sha256 (ev_sha256 e)
     \<and> (\<exists>directory. digest_at (artifact_path directory (ev_reference e)) = Some (ev_sha256 e))"

definition evidence_list_ok :: "(string \<Rightarrow> string option) \<Rightarrow> (receipt_key \<times> evidence) list \<Rightarrow> bool" where
  "evidence_list_ok digest_at es \<longleftrightarrow> distinct (map fst es) \<and> (\<forall>(k, e) \<in> set es. faithful digest_at e)"

lemma check_artifact_Inr:
  "check_artifact digest_at directory reference digest = Inr u \<longleftrightarrow>
     is_sha256 digest \<and> digest_at (artifact_path directory reference) = Some digest"
  by (auto simp: check_artifact_def split: option.splits)

lemma read_evidence_faithful: "read_evidence digest_at directory r = Inr e \<Longrightarrow> faithful digest_at e"
  by (auto simp: read_evidence_def faithful_def rbind_eq_Inr Let_def check_artifact_Inr split: option.splits if_splits)

lemma add_evidence_ok:
  "evidence_list_ok digest_at es \<Longrightarrow> add_evidence digest_at directory es r = Inr es' \<Longrightarrow> evidence_list_ok digest_at es'"
  by (auto simp: add_evidence_def evidence_list_ok_def rbind_eq_Inr dest: read_evidence_faithful split: if_splits)

interpretation evidence_file: invariant_loop "add_evidence digest_at directory" "evidence_list_ok digest_at" for digest_at directory
  by unfold_locales (rule add_evidence_ok)

interpretation evidence_files: invariant_loop
  "\<lambda>evidence (directory, rs). fold_r (add_evidence digest_at directory) evidence rs" "evidence_list_ok digest_at" for digest_at
  by unfold_locales (auto intro: evidence_file.run_inv)

lemma load_independent_evidence_ok: "load_independent_evidence digest_at files = Inr es \<Longrightarrow> evidence_list_ok digest_at es"
  unfolding load_independent_evidence_def by (erule evidence_files.run_inv [rotated]) (simp add: evidence_list_ok_def)

definition within :: "audit_args \<Rightarrow> identity \<Rightarrow> bool" where
  "within args i \<longleftrightarrow> min_source_block args \<le> id_source_block i
     \<and> (\<forall>m. max_source_block args = Some m \<longrightarrow> id_source_block i \<le> m)
     \<and> (\<forall>n. only_source_shard args = Some n \<longrightarrow> id_source_shard i = n)
     \<and> (\<forall>n. only_destination_shard args = Some n \<longrightarrow> id_destination_shard i = n)"

text \<open>The identity of a selected row is read from the columns that the selection wrote.\<close>

lemma select_row_identity:
  assumes "select_row args path r = Inr (Some r')" and "receipt_identity r' = Inr i"
  shows "within args i \<and> block_of r' = id_source_block i"
proof -
  from assms(1) obtain b h s d where
    r': "r' = r(''receipt_file'' \<mapsto> path, ''audit_source_block'' \<mapsto> py_str b, ''audit_source_block_hash'' \<mapsto> lower h,
      ''audit_source_shard'' \<mapsto> py_str s, ''audit_destination_shard'' \<mapsto> py_str d)"
    and bounds: "\<not> b < min_source_block args" "\<not> (case max_source_block args of None \<Rightarrow> False | Some m \<Rightarrow> m < b)"
      "\<not> (case only_source_shard args of None \<Rightarrow> False | Some n \<Rightarrow> s \<noteq> n)"
      "\<not> (case only_destination_shard args of None \<Rightarrow> False | Some n \<Rightarrow> d \<noteq> n)"
    by (auto simp: select_row_def rbind_eq_Inr split: if_splits)
  have "row_integer r' (''audit_source_shard'' # ns) = Inr s" "row_integer r' (''audit_destination_shard'' # ns) = Inr d"
    "row_integer r' (''audit_source_block'' # ns) = Inr b" for ns
    by (simp_all add: row_integer_def nonempty_cell_def r' getitem_def py_int_py_str)
  then have "id_source_shard i = s" "id_destination_shard i = d" "id_source_block i = b"
    using assms(2) by (auto simp: receipt_identity_def rbind_eq_Inr split: if_splits)
  moreover have "block_of r' = b" by (simp add: block_of_def r' getitem_def py_int_py_str)
  ultimately show ?thesis using bounds by (auto simp: within_def)
qed

lemma select_rows_member:
  assumes "select_rows args files = Inr rs" and "r' \<in> set rs"
  shows "\<exists>path r. select_row args path r = Inr (Some r')"
proof -
  from assms obtain rss where rss: "map_r (\<lambda>(path, rs). rbind (map_r (select_row args path) rs)
      (\<lambda>xs. Inr (List.map_filter id xs))) files = Inr rss" and "r' \<in> set (concat rss)"
    by (auto simp: select_rows_def rbind_eq_Inr)
  then obtain rs' where "rs' \<in> set rss" and r': "r' \<in> set rs'" by auto
  then obtain f where "(case f of (path, rs) \<Rightarrow> rbind (map_r (select_row args path) rs)
      (\<lambda>xs. Inr (List.map_filter id xs))) = Inr rs'"
    using map_r_elem [OF rss] by blast
  then obtain path xs ys where "map_r (select_row args path) xs = Inr ys" and "rs' = List.map_filter id ys"
    by (cases f) (auto simp: rbind_eq_Inr)
  moreover from this r' have "Some r' \<in> set ys" by (auto simp: List.map_filter_def)
  ultimately show ?thesis using map_r_elem by fastforce
qed

lemma selected_receipts_facts:
  assumes "selected_receipts args files = Inr rs"
  shows "sorted (map block_of rs)
    \<and> (\<exists>ids. map_r receipt_identity rs = Inr ids \<and> distinct (map evidence_key ids)
         \<and> (\<forall>i \<in> set ids. within args i) \<and> map block_of rs = map id_source_block ids)"
proof -
  from assms obtain rs0 keys where rs0: "select_rows args files = Inr rs0" and rs: "rs = sort_key block_of rs0"
    and keys: "map_r (\<lambda>r. rbind (receipt_identity r) (\<lambda>i. Inr (evidence_key i))) rs = Inr keys" and d: "distinct keys"
    by (auto simp: selected_receipts_def rbind_eq_Inr Let_def split: if_splits)
  have ids: "\<exists>ids. map_r receipt_identity ys = Inr ids \<and> map evidence_key ids = ks"
    if "map_r (\<lambda>r. rbind (receipt_identity r) (\<lambda>i. Inr (evidence_key i))) ys = Inr ks" for ys ks
    using that by (induction ys arbitrary: ks) (auto simp: rbind_eq_Inr)
  from ids [OF keys] obtain ids where ids: "map_r receipt_identity rs = Inr ids" and k: "map evidence_key ids = keys" by blast
  have member: "within args i \<and> block_of r = id_source_block i" if "r \<in> set rs" "receipt_identity r = Inr i" for r i
    using that select_rows_member [OF rs0, of r] select_row_identity by (auto simp: rs)
  have l: "list_all2 (\<lambda>r i. receipt_identity r = Inr i) rs ids" using ids by (simp add: map_r_eq_Inr)
  then have l': "list_all2 (\<lambda>r i. within args i \<and> block_of r = id_source_block i) rs ids"
    using member by (rule list.rel_mono_strong) auto
  have "\<forall>i \<in> set ids. within args i" using list_all2_right [OF l'] by blast
  moreover have "map id_source_block ids = map block_of rs"
    using l' by (rule list_all2_map_eq) simp
  ultimately show ?thesis using ids k d by (auto simp: rs intro!: exI [of _ ids])
qed

text \<open>
  Selection. The receipts that are audited have distinct identities, come in the order of their
  source blocks, and the identity of each lies within the block range and the shards asked for.
\<close>

theorem selected_receipts_within:
  assumes "selected_receipts args files = Inr rs"
  shows "sorted (map block_of rs)
    \<and> (\<exists>ids. map_r receipt_identity rs = Inr ids \<and> distinct (map evidence_key ids)
         \<and> (\<forall>i \<in> set ids. within args i) \<and> map block_of rs = map id_source_block ids)"
  by (rule selected_receipts_facts [OF assms])

subsection \<open>Classification\<close>

definition resolved_names :: "string option \<Rightarrow> string \<Rightarrow> bool" where
  "resolved_names direct replay \<longleftrightarrow> (direct = None \<or> direct = Some ''valid_source_debit'')
     \<and> replay \<in> set replay_classifications"

lemma classify_replay_name:
  "classify_replay status trace insp = Inr (c, compatible, issue, trace_status) \<Longrightarrow> c \<in> set replay_classifications"
  by (auto simp: classify_replay_def rbind_eq_Inr Let_def replay_classifications_def split: if_splits)

lemma justified_names: "justified nd independent a \<Longrightarrow> \<exists>direct. resolved_names direct (au_replay_classification a)
   \<and> resolve_classification direct (au_replay_classification a) (au_evidence a)
       = Inr (au_classification a, au_classification_source a, au_evidence_classification a)"
  unfolding justified_def
proof (elim exE conjE)
  fix i rp
  assume rp: "rp = direct_replay (au_status a) \<or> traced_replay nd (au_hash a) i (au_status a) = Inr rp"
    and c: "au_replay_classification a = rp_classification rp"
    and res: "resolve_classification (rp_direct rp) (rp_classification rp) (au_evidence a)
         = Inr (au_classification a, au_classification_source a, au_evidence_classification a)"
  have "resolved_names (rp_direct rp) (rp_classification rp)"
    using rp by (auto simp: direct_replay_def traced_replay_def resolved_names_def rbind_eq_Inr replay_classifications_def
      dest!: classify_replay_name split: if_splits)
  then show ?thesis using c res by auto
qed

lemma resolve_names:
  assumes "resolved_names direct replay" and "resolve_classification direct replay evidence = Inr (c, source, ec)"
    and "\<forall>e. evidence = Some e \<longrightarrow> EVIDENCE_STATUS_CLASSIFICATION (ev_status e) = Some (ev_classification e)"
  shows "c \<in> set classifications
    \<and> (c = ''source_debit_absent'' \<longrightarrow> (\<exists>e. evidence = Some e \<and> ev_status e = ''absent''))
    \<and> (c = ''rollback_leak'' \<longrightarrow> direct = None \<and> replay = ''rollback_leak''
         \<and> \<not> (\<exists>e. evidence = Some e \<and> ev_status e = ''persisted''))
    \<and> (c = ''valid_source_debit'' \<longrightarrow> \<not> (\<exists>e. evidence = Some e \<and> ev_status e = ''absent''))
    \<and> (c = ''unclassified'' \<longrightarrow> evidence = None)"
proof (cases evidence)
  case None
  then show ?thesis using assms(1,2)
    by (auto simp: resolve_classification_def resolved_names_def replay_classifications_def classifications_def
        FINAL_CLASSIFICATIONS_def Let_def split: if_splits)
next
  case (Some e)
  define f where "f = (case direct of Some d \<Rightarrow> d | None \<Rightarrow> replay)"
  have e: "ev_status e = ''absent'' \<and> ev_classification e = ''source_debit_absent''
      \<or> ev_status e = ''persisted'' \<and> ev_classification e = ''valid_source_debit''"
    using assms(3) Some by (auto simp: EVIDENCE_STATUS_CLASSIFICATION_def split: if_splits)
  have f: "f = ''rollback_leak'' \<longrightarrow> direct = None \<and> replay = ''rollback_leak''"
    using assms(1) by (auto simp: f_def resolved_names_def)
  have "f = ''valid_source_debit'' \<and> ev_status e \<noteq> ''absent'' \<and> c = f
      \<or> f = ''rollback_leak'' \<and> ev_status e \<noteq> ''persisted'' \<and> c = f \<or> c = ev_classification e"
    using assms(2) unfolding resolve_classification_def f_def [symmetric] Let_def Some
    by (simp split: if_splits) metis+
  then show ?thesis using e f Some by (elim disjE conjE) (simp_all add: classifications_def)
qed

text \<open>The shape of a run of the audit.\<close>

lemma audit_receipts_E:
  assumes "audit_receipts nd digest_at args evidence_files receipt_files = Inr st"
  obtains es rs where "load_independent_evidence digest_at evidence_files = Inr es" and "evidence_list_ok digest_at es"
    and "selected_receipts args receipt_files = Inr rs" and "map au_row (output_rows st) = rs"
    and "booked_ok nd es st" and "evidence_ok es st" and "fst ` set es \<subseteq> set (used_evidence st)"
proof -
  from assms obtain es rs where es: "load_independent_evidence digest_at evidence_files = Inr es"
    and rs: "selected_receipts args receipt_files = Inr rs"
    and run: "fold_r (audit_row nd es) empty_audit rs = Inr st"
    and used: "\<not> (\<exists>k \<in> set (map fst es). k \<notin> set (used_evidence st))"
    by (auto simp: audit_receipts_def rbind_eq_Inr split: if_splits)
  show thesis
  proof (rule that [OF es load_independent_evidence_ok [OF es] rs])
    show "map au_row (output_rows st) = rs" using audit_rows_out [OF run] by (simp add: empty_audit_def)
    show "booked_ok nd es st" by (rule audit_loop.run_inv [OF empty_audit_ok(1) run])
    show "evidence_ok es st" by (rule evidence_loop.run_inv [OF empty_audit_ok(2) run])
    show "fst ` set es \<subseteq> set (used_evidence st)" using used by auto
  qed
qed

lemma justified_evidence:
  assumes "justified nd es a" and "evidence_list_ok digest_at es"
  shows "\<forall>e. au_evidence a = Some e \<longrightarrow> faithful digest_at e"
  using assms by (auto simp: justified_def evidence_list_ok_def dest!: map_of_SomeD)

lemma justified_resolved:
  assumes "justified nd es a" and "evidence_list_ok digest_at es"
  shows "au_classification a \<in> set classifications \<and> au_replay_classification a \<in> set replay_classifications
    \<and> (au_classification a = ''source_debit_absent'' \<longrightarrow> (\<exists>e. au_evidence a = Some e \<and> ev_status e = ''absent''))
    \<and> (au_classification a = ''valid_source_debit'' \<longrightarrow> \<not> (\<exists>e. au_evidence a = Some e \<and> ev_status e = ''absent''))
    \<and> (au_classification a = ''rollback_leak'' \<longrightarrow> \<not> (\<exists>e. au_evidence a = Some e \<and> ev_status e = ''persisted''))
    \<and> (au_classification a = ''unclassified'' \<longrightarrow> au_evidence a = None)"
proof -
  obtain direct where d: "resolved_names direct (au_replay_classification a)"
    and res: "resolve_classification direct (au_replay_classification a) (au_evidence a)
       = Inr (au_classification a, au_classification_source a, au_evidence_classification a)"
    using justified_names [OF assms(1)] by blast
  have "\<forall>e. au_evidence a = Some e \<longrightarrow> EVIDENCE_STATUS_CLASSIFICATION (ev_status e) = Some (ev_classification e)"
    using justified_evidence [OF assms] by (simp add: faithful_def)
  from resolve_names [OF d res this] d show ?thesis by (simp add: resolved_names_def)
qed

lemma sum_over_classes:
  assumes "distinct names" and "\<forall>a \<in> set rs. f a \<in> set names"
  shows "sum_list (map (\<lambda>k. sum_list (map amount_of (filter (\<lambda>a. f a = k) rs))) names) = sum_list (map amount_of rs)"
  using assms(2)
proof (induction rs)
  case (Cons a rs)
  have "sum_list (map (\<lambda>k. sum_list (map amount_of (filter (\<lambda>b. f b = k) (a # rs)))) names)
      = sum_list (map (\<lambda>k. (if f a = k then amount_of a else 0)
          + sum_list (map amount_of (filter (\<lambda>b. f b = k) rs))) names)"
    by (intro arg_cong [where f = sum_list] map_cong) auto
  also have "\<dots> = sum_list (map (\<lambda>k. if f a = k then amount_of a else 0) names)
      + sum_list (map (\<lambda>k. sum_list (map amount_of (filter (\<lambda>b. f b = k) rs))) names)"
    by (simp add: sum_list_addf)
  also have "sum_list (map (\<lambda>k. if f a = k then amount_of a else 0) names) = amount_of a"
    using assms(1) Cons.prems by (simp add: sum_list_distinct_conv_sum_set sum.delta)
  finally show ?case using Cons by simp
qed simp

lemma audit_facts:
  assumes "audit_receipts nd digest_at args evidence_files receipt_files = Inr st"
  shows "totals st = tally au_classification classifications (output_rows st)"
    and "replay_totals st = tally au_replay_classification replay_classifications (output_rows st)"
    and "\<forall>a \<in> set (output_rows st). au_classification a \<in> set classifications
      \<and> au_replay_classification a \<in> set replay_classifications \<and> (\<exists>i. receipt_identity (au_row a) = Inr i)"
proof -
  obtain es where es: "evidence_list_ok digest_at es" and ok: "booked_ok nd es st"
    by (rule audit_receipts_E [OF assms])
  then show "totals st = tally au_classification classifications (output_rows st)"
    and "replay_totals st = tally au_replay_classification replay_classifications (output_rows st)"
    by (simp_all add: booked_ok_def)
  show "\<forall>a \<in> set (output_rows st). au_classification a \<in> set classifications
      \<and> au_replay_classification a \<in> set replay_classifications \<and> (\<exists>i. receipt_identity (au_row a) = Inr i)"
  proof
    fix a
    assume "a \<in> set (output_rows st)"
    then have j: "justified nd es a" using ok by (simp add: booked_ok_def)
    then have "\<exists>i. receipt_identity (au_row a) = Inr i" unfolding justified_def by blast
    then show "au_classification a \<in> set classifications
      \<and> au_replay_classification a \<in> set replay_classifications \<and> (\<exists>i. receipt_identity (au_row a) = Inr i)"
      using justified_resolved [OF j es] by simp
  qed
qed

text \<open>
  C7. Every amount is booked once. When the audit succeeds, its rows are the selected receipts in order;
  the total of each classification and of each replay classification is the sum of the amounts of the
  receipts with it, and each of the two families of totals adds up to the sum of all the amounts.
\<close>

theorem audit_totals_partition:
  assumes "audit_receipts nd digest_at args evidence_files receipt_files = Inr st"
  shows "selected_receipts args receipt_files = Inr (map au_row (output_rows st))
    \<and> totals st = tally au_classification classifications (output_rows st)
    \<and> replay_totals st = tally au_replay_classification replay_classifications (output_rows st)
    \<and> sum_list (map (\<lambda>c. the (totals st c)) classifications) = sum_list (map amount_of (output_rows st))
    \<and> sum_list (map (\<lambda>c. the (replay_totals st c)) replay_classifications) = sum_list (map amount_of (output_rows st))"
proof -
  obtain es rs where es: "evidence_list_ok digest_at es" and sel: "selected_receipts args receipt_files = Inr rs"
    and out: "map au_row (output_rows st) = rs" and ok: "booked_ok nd es st"
    by (rule audit_receipts_E [OF assms])
  have names: "\<forall>a \<in> set (output_rows st). au_classification a \<in> set classifications"
    "\<forall>a \<in> set (output_rows st). au_replay_classification a \<in> set replay_classifications"
    using ok justified_resolved [OF _ es] by (auto simp: booked_ok_def)
  have "distinct classifications" "distinct replay_classifications"
    by (simp_all add: classifications_def replay_classifications_def)
  from sum_over_classes [OF this(1) names(1)] sum_over_classes [OF this(2) names(2)]
  have "sum_list (map (\<lambda>c. the (tally au_classification classifications (output_rows st) c)) classifications)
      = sum_list (map amount_of (output_rows st))"
    "sum_list (map (\<lambda>c. the (tally au_replay_classification replay_classifications (output_rows st) c)) replay_classifications)
      = sum_list (map amount_of (output_rows st))"
    by (simp_all add: tally_def cong: map_cong)
  then show ?thesis using ok sel out by (simp add: booked_ok_def)
qed

text \<open>
  C6. A reported rollback leak happened. For every row the audit classifies as \<open>rollback_leak\<close>, the
  stored receipt succeeded, the node's trace of that transaction did not fail at the root and holds
  exactly one completed call of the precompile, with the sender, amount, destination and shard of the
  receipt, below a failed call; and no evidence says that the debit persisted.
\<close>

theorem audited_rollback_leak_sound:
  assumes "audit_receipts nd digest_at args evidence_files receipt_files = Inr st"
    and "a \<in> set (output_rows st)" and "au_classification a = ''rollback_leak''"
  shows "au_status a = 1 \<and> \<not> (\<exists>e. au_evidence a = Some e \<and> ev_status e = ''persisted'')
    \<and> (\<exists>i trace p. receipt_identity (au_row a) = Inr i \<and> trace_transaction nd (au_hash a) = Inr trace
         \<and> \<not> failed trace \<and> filter completed (paths trace) = [p] \<and> authenticates i p \<and> undone p)"
proof -
  obtain es where es: "evidence_list_ok digest_at es" and ok: "booked_ok nd es st"
    by (rule audit_receipts_E [OF assms(1)])
  then have j: "justified nd es a" using assms(2) by (simp add: booked_ok_def)
  then obtain i rp where i: "receipt_identity (au_row a) = Inr i"
    and rp: "rp = direct_replay (au_status a) \<or> traced_replay nd (au_hash a) i (au_status a) = Inr rp"
    and res: "resolve_classification (rp_direct rp) (rp_classification rp) (au_evidence a)
         = Inr (au_classification a, au_classification_source a, au_evidence_classification a)"
    unfolding justified_def by blast
  have names: "resolved_names (rp_direct rp) (rp_classification rp)"
    using rp by (auto simp: direct_replay_def traced_replay_def resolved_names_def rbind_eq_Inr replay_classifications_def
      dest!: classify_replay_name split: if_splits)
  have "\<forall>e. au_evidence a = Some e \<longrightarrow> EVIDENCE_STATUS_CLASSIFICATION (ev_status e) = Some (ev_classification e)"
    using justified_evidence [OF j es] by (simp add: faithful_def)
  from resolve_names [OF names res this] assms(3)
  have leak: "rp_direct rp = None" "rp_classification rp = ''rollback_leak''"
    and no: "\<not> (\<exists>e. au_evidence a = Some e \<and> ev_status e = ''persisted'')" by auto
  have "rp \<noteq> direct_replay (au_status a)" using leak by (auto simp: direct_replay_def split: if_splits)
  with rp leak obtain trace insp compatible issue ts where trace: "trace_transaction nd (au_hash a) = Inr trace"
    and insp: "inspect_trace trace i = Inr insp"
    and c: "classify_replay (au_status a) trace insp = Inr (''rollback_leak'', compatible, issue, ts)"
    by (auto simp: traced_replay_def rbind_eq_Inr)
  from classify_replay_path [OF insp c] show ?thesis using i trace no by auto
qed

text \<open>
  Evidence is used completely and once. When the audit succeeds, the number of receipts that were
  resolved with evidence is the number of evidence rows, every evidence row belongs to a selected
  receipt that was successful on chain, its artifact had the digest it states, and no receipt is
  classified against it.
\<close>

theorem audited_evidence_used_once:
  assumes "audit_receipts nd digest_at args evidence_files receipt_files = Inr st"
    and "load_independent_evidence digest_at evidence_files = Inr es"
  shows "evidence_count st = int (length es)
    \<and> (\<forall>(k, e) \<in> set es. \<exists>a \<in> set (output_rows st). key_of a = Some k \<and> au_evidence a = Some e \<and> au_status a = 1
        \<and> (\<exists>directory. digest_at (artifact_path directory (ev_reference e)) = Some (ev_sha256 e))
        \<and> (ev_status e = ''absent'' \<longrightarrow> au_classification a \<noteq> ''valid_source_debit'')
        \<and> (ev_status e = ''persisted'' \<longrightarrow> au_classification a \<noteq> ''rollback_leak'')
        \<and> au_classification a \<noteq> ''unclassified'')"
proof -
  obtain rs where es: "evidence_list_ok digest_at es" and sel: "selected_receipts args receipt_files = Inr rs"
    and out: "map au_row (output_rows st) = rs" and ok: "booked_ok nd es st" and ev: "evidence_ok es st"
    and used: "fst ` set es \<subseteq> set (used_evidence st)"
    using assms(2) by (auto intro: audit_receipts_E [OF assms(1)])
  obtain ids where ids: "map_r receipt_identity rs = Inr ids" and d: "distinct (map evidence_key ids)"
    using selected_receipts_facts [OF sel] by blast
  have "list_all2 (\<lambda>r i. receipt_identity r = Inr i) rs ids" using ids by (simp add: map_r_eq_Inr)
  then have "map (\<lambda>i. Some (evidence_key i)) ids
      = map (\<lambda>r. case receipt_identity r of Inl _ \<Rightarrow> None | Inr i \<Rightarrow> Some (evidence_key i)) rs"
    by (rule list_all2_map_eq) simp
  also have "\<dots> = map key_of (output_rows st)" by (simp add: key_of_def out [symmetric])
  finally have "map key_of (output_rows st) = map (\<lambda>i. Some (evidence_key i)) ids" ..
  moreover have "distinct (map (\<lambda>i. Some (evidence_key i)) ids)"
    using d by (auto simp: distinct_map inj_on_def)
  ultimately have "distinct (map key_of (output_rows st))" by simp
  then have "distinct (used_evidence st)" and n: "evidence_count st = int (length (used_evidence st))"
    and keys: "set (used_evidence st) = fst ` set es"
    using ev used by (auto simp: evidence_ok_def)
  then have count: "evidence_count st = int (length es)"
    using es distinct_card [of "used_evidence st"] distinct_card [of "map fst es"] by (simp add: evidence_list_ok_def)
  have "\<exists>a \<in> set (output_rows st). key_of a = Some k \<and> au_evidence a = Some e" if "(k, e) \<in> set es" for k e
  proof -
    have "Some k \<in> key_of ` set (output_rows st)" using ev that keys by (force simp: evidence_ok_def)
    then obtain a where a: "a \<in> set (output_rows st)" "key_of a = Some k" by force
    then have "justified nd es a" using ok by (simp add: booked_ok_def)
    then have "au_evidence a = map_of es k" using a(2) by (auto simp: justified_def key_of_def)
    also have "map_of es k = Some e" using es that by (simp add: evidence_list_ok_def)
    finally show ?thesis using a by blast
  qed
  moreover have "au_status a = 1
        \<and> (\<exists>directory. digest_at (artifact_path directory (ev_reference e)) = Some (ev_sha256 e))
        \<and> (ev_status e = ''absent'' \<longrightarrow> au_classification a \<noteq> ''valid_source_debit'')
        \<and> (ev_status e = ''persisted'' \<longrightarrow> au_classification a \<noteq> ''rollback_leak'')
        \<and> au_classification a \<noteq> ''unclassified''"
    if "a \<in> set (output_rows st)" and "au_evidence a = Some e" for a e
  proof -
    have j: "justified nd es a" using ok that(1) by (simp add: booked_ok_def)
    then show ?thesis using justified_resolved [OF j es] justified_evidence [OF j es] that(2)
      by (auto simp: faithful_def justified_def)
  qed
  ultimately show ?thesis using count by (auto, blast)
qed

subsection \<open>An instance\<close>

text \<open>One receipt whose replay shows a leak, and evidence of the absent debit with its artifact.\<close>

definition example_row :: row where
  "example_row = [''source_block'' \<mapsto> ''5'', ''source_block_hash'' \<mapsto> ''0x'' @ replicate 64 CHR ''A'',
     ''source_shard'' \<mapsto> ''1'', ''destination_shard'' \<mapsto> ''0'', ''receipt_index'' \<mapsto> ''0'',
     ''tx_hash'' \<mapsto> ''0x'' @ replicate 64 CHR ''b'', ''from'' \<mapsto> ''0xCC'',
     ''to'' \<mapsto> ''0x1111111111111111111111111111111111111111'', ''amount_atto'' \<mapsto> ''7'']"

definition example_selected :: row where
  "example_selected = example_row(''receipt_file'' \<mapsto> ''r.csv'', ''audit_source_block'' \<mapsto> ''5'',
     ''audit_source_block_hash'' \<mapsto> ''0x'' @ replicate 64 CHR ''a'', ''audit_source_shard'' \<mapsto> ''1'',
     ''audit_destination_shard'' \<mapsto> ''0'')"

definition example_args :: audit_args where
  "example_args = \<lparr>min_source_block = 3, max_source_block = Some 9, only_source_shard = Some 1,
     only_destination_shard = None, only_addresses = [''0xcc'']\<rparr>"

definition example_evidence_row :: row where
  "example_evidence_row = [''source_block'' \<mapsto> ''5'', ''source_block_hash'' \<mapsto> ''0x'' @ replicate 64 CHR ''a'',
     ''source_shard'' \<mapsto> ''1'', ''destination_shard'' \<mapsto> ''0'', ''receipt_index'' \<mapsto> ''0'',
     ''receipt_tx_hash'' \<mapsto> ''0x'' @ replicate 64 CHR ''b'', ''from'' \<mapsto> ''0xcc'',
     ''to'' \<mapsto> ''0x1111111111111111111111111111111111111111'', ''amount_atto'' \<mapsto> ''7'',
     ''source_debit_status'' \<mapsto> ''Absent'', ''evidence_type'' \<mapsto> ''state diff'', ''evidence_reference'' \<mapsto> ''proof.txt'',
     ''evidence_sha256'' \<mapsto> replicate 64 CHR ''c'']"

definition example_digest :: "string \<Rightarrow> string option" where
  "example_digest path = (if path = ''d/proof.txt'' then Some (replicate 64 CHR ''c'') else None)"

definition example_evidence :: "(receipt_key \<times> evidence) list" where
  "example_evidence = [(evidence_key example_identity,
     \<lparr>ev_classification = ''source_debit_absent'', ev_status = ''absent'', ev_type = ''state diff'',
      ev_reference = ''proof.txt'', ev_sha256 = replicate 64 CHR ''c''\<rparr>)]"

definition example_node :: node where
  "example_node = \<lparr>get_transaction = (\<lambda>_. Inr (JDict [(''hash'', JStr (''0x'' @ replicate 64 CHR ''b'')),
       (''ethHash'', JStr []), (''from'', JStr ''0xAA''), (''to'', JStr ''0xbb''), (''value'', JInt 0), (''input'', JStr ''0x''),
       (''shardID'', JInt 1), (''toShardID'', JInt 1)])),
     get_receipt = (\<lambda>_. Inr (JDict [(''status'', JInt 1)])),
     trace_transaction = (\<lambda>_. Inr (example_trace (JStr ''execution reverted'') (JStr example_input)))\<rparr>"

lemma example_load: "load_independent_evidence example_digest [(''d'', [example_evidence_row])] = Inr example_evidence"
  by code_simp

lemma example_cells:
  "row_integer example_row [''signed_source_block'', ''source_block''] = Inr 5"
  "row_text example_row [''signed_source_header_hash'', ''source_block_hash'', ''claimed_source_block_hash'']
     = Inr (''0x'' @ replicate 64 CHR ''A'')"
  "row_integer example_row [''signed_source_shard'', ''source_shard''] = Inr 1"
  "row_integer example_row [''destination_shard'', ''to_shard''] = Inr 0"
  "getitem example_row ''from'' = Inr ''0xCC''" 
  "lower ''0xCC'' = ''0xcc''" "py_str 0 = ''0''" "py_str 1 = ''1''" "py_str 5 = ''5''"
  "lower (''0x'' @ replicate 64 CHR ''A'') = ''0x'' @ replicate 64 CHR ''a''"
  by code_simp+

lemma example_receipt: "receipt_identity example_selected = Inr example_identity"
  by code_simp

lemma example_select_row: "select_row example_args ''r.csv'' example_row = Inr (Some example_selected)"
  unfolding select_row_def example_cells(1-4) 
  by (simp only: rbind_Inr shard_or_def sum.case example_args_def audit_args.simps option.case wanted_address_def example_cells) 
    (simp add: example_selected_def example_args_def wanted_address_def example_cells)

lemma example_selection: "selected_receipts example_args [(''r.csv'', [example_row])] = Inr [example_selected]"
  by (simp add: selected_receipts_def select_rows_def example_select_row List.map_filter_def example_receipt)

lemma example_run_row:
  "\<exists>st a. audit_row example_node example_evidence empty_audit example_selected = Inr st
     \<and> output_rows st = [a] \<and> au_classification a = ''rollback_leak'' \<and> used_evidence st = [evidence_key example_identity]"
proof -
  let ?h = "''0x'' @ replicate 64 CHR ''b''"
  have h: "getitem example_selected ''tx_hash'' = Inr ?h" by code_simp
  have low: "lower ?h = ?h" by code_simp
  have t: "source_transaction example_node example_selected = get_transaction example_node ?h"
    by (simp add: source_transaction_def h example_node_def low)
  have to: "json_address (JStr ''0xbb'') = Inr ''0xbb''" "json_address (JStr ''0xAA'') = Inr ''0xaa''" by code_simp+
  have c: "classify_replay 1 (example_trace (JStr ''execution reverted'') (JStr example_input)) \<lparr>call_count = 1, completed_count = 1,
      match_count = 1, completed_match_count = 1, failed_path_count = 1, failed_matching_count = 1\<rparr>
    = Inr (''rollback_leak'', True, [], 1)"
    by (simp add: classify_replay_def example_trace_def call_failed_def get_or_def)
  have ne: "''0xbb'' \<noteq> CX_PRECOMPILE" by code_simp
  show ?thesis
    unfolding audit_row_def example_receipt t
    by (simp add: example_node_def get_or_def to source_status_def is_direct_debit_def ne py_eq_def as_number_def
      traced_replay_def example_inspection c book_receipt_def example_evidence_def resolve_classification_def
      add_at_def empty_audit_def getitem_def first_ten_def)
       (simp add: example_trace_def get_or_def)
qed

lemma example_audit:
  "\<exists>st a. audit_receipts example_node example_digest example_args [(''d'', [example_evidence_row])] [(''r.csv'', [example_row])]
     = Inr st \<and> output_rows st = [a] \<and> au_classification a = ''rollback_leak''"
proof -
  obtain st a where "audit_row example_node example_evidence empty_audit example_selected = Inr st"
    and "output_rows st = [a]" "au_classification a = ''rollback_leak''" "used_evidence st = [evidence_key example_identity]"
    using example_run_row by blast
  then show ?thesis
    by (simp add: audit_receipts_def example_load example_selection example_evidence_def)
qed

theorem selected_receipts_within_witness:
  "\<exists>ids. map_r receipt_identity [example_selected] = Inr ids \<and> (\<forall>i \<in> set ids. within example_args i)"
  using selected_receipts_within [OF example_selection] by blast

theorem audit_totals_partition_witness:
  "\<exists>st :: audit_state. totals st = tally au_classification classifications (output_rows st) \<and> length (output_rows st) = 1"
proof -
  obtain st a where "audit_receipts example_node example_digest example_args [(''d'', [example_evidence_row])]
      [(''r.csv'', [example_row])] = Inr st" and "output_rows st = [a]" using example_audit by blast
  with audit_totals_partition [OF this(1)] show ?thesis by (intro exI [of _ st]) simp
qed

theorem audited_rollback_leak_sound_witness:
  "\<exists>p. filter completed (paths (example_trace (JStr ''execution reverted'') (JStr example_input))) = [p] \<and> undone p"
proof -
  obtain st a where st: "audit_receipts example_node example_digest example_args [(''d'', [example_evidence_row])]
      [(''r.csv'', [example_row])] = Inr st" and "output_rows st = [a]" and leak: "au_classification a = ''rollback_leak''"
    using example_audit by blast
  then have "a \<in> set (output_rows st)" by simp
  from audited_rollback_leak_sound [OF st this leak] show ?thesis by (auto simp: example_node_def)
qed

theorem audited_evidence_used_once_witness:
  "\<exists>st. audit_receipts example_node example_digest example_args [(''d'', [example_evidence_row])] [(''r.csv'', [example_row])]
     = Inr st \<and> evidence_count st = 1"
proof -
  obtain st where st: "audit_receipts example_node example_digest example_args [(''d'', [example_evidence_row])]
      [(''r.csv'', [example_row])] = Inr st" using example_audit by blast
  from audited_evidence_used_once [OF st example_load] show ?thesis using st by (auto simp: example_evidence_def)
qed

end
