(* ===== verification/SourceSummary.thy ===== *)
theory SourceSummary
  imports SourceAuditProofs
begin

section \<open>Summarising source audits: \<open>summarize-cx-source-audit.py\<close>\<close>

text \<open>
  \<open>classify\<close> reads the CSV files the source audit wrote, refuses a receipt that appears twice and books
  every row in three tables: by final classification, by replay classification and by source shard. A
  table is a dictionary of counters that start at zero. The hash of each input is not part of the model.
\<close>

subsection \<open>The code\<close>

record bucket =
  bucket_count :: int
  bucket_amount :: int

definition zero_bucket :: bucket where
  "zero_bucket = \<lparr>bucket_count = 0, bucket_amount = 0\<rparr>"

text \<open>\<open>table[name]["count"] += 1\<close> and \<open>table[name]["amount_atto"] += amount\<close> on a \<open>defaultdict\<close>.\<close>

definition bump :: "('k \<rightharpoonup> bucket) \<Rightarrow> 'k \<Rightarrow> int \<Rightarrow> ('k \<rightharpoonup> bucket)" where
  "bump m k amount = (let b = get_or m k zero_bucket in
     m(k \<mapsto> \<lparr>bucket_count = bucket_count b + 1, bucket_amount = bucket_amount b + amount\<rparr>))"

type_synonym summary_key = "int \<times> int \<times> int \<times> string \<times> int \<times> string"

definition summary_key_of :: "row \<Rightarrow> summary_key result" where
  "summary_key_of r =
     rbind (rbind (required r [''audit_source_shard'', ''signed_source_shard'', ''source_shard'']) py_int) (\<lambda>source_shard.
     rbind (rbind (required r [''audit_destination_shard'', ''destination_shard'', ''to_shard'']) py_int) (\<lambda>destination_shard.
     rbind (rbind (required r [''audit_source_block'', ''signed_source_block'', ''source_block'']) py_int) (\<lambda>source_block.
     rbind (required r [''audit_source_block_hash'', ''signed_source_header_hash'', ''source_block_hash'',
                        ''claimed_source_block_hash'']) (\<lambda>block_hash.
     rbind (rbind (required r [''receipt_index'']) py_int) (\<lambda>receipt_index.
     rbind (required r [''tx_hash'']) (\<lambda>tx_hash.
       Inr (source_shard, destination_shard, source_block, lower block_hash, receipt_index, lower tx_hash)))))))"

record source_summary =
  seen :: "summary_key list"
  by_final :: "string \<rightharpoonup> bucket"
  by_replay :: "string \<rightharpoonup> bucket"
  by_source_shard :: "int \<rightharpoonup> (string \<rightharpoonup> bucket)"
  rows_per_input :: "int list"

definition empty_source_summary :: source_summary where
  "empty_source_summary = \<lparr>seen = [],
     by_final = (\<lambda>c. if c \<in> set classifications then Some zero_bucket else None),
     by_replay = Map.empty, by_source_shard = Map.empty, rows_per_input = []\<rparr>"

text \<open>\<open>row.get("replay_classification") or "legacy"\<close>.\<close>

definition replay_name :: "row \<Rightarrow> string" where
  "replay_name r = (case r ''replay_classification'' of None \<Rightarrow> ''legacy'' | Some s \<Rightarrow> if s = [] then ''legacy'' else s)"

definition summarize_row :: "source_summary \<Rightarrow> row \<Rightarrow> source_summary result" where
  "summarize_row s r =
     rbind (summary_key_of r) (\<lambda>key.
       if key \<in> set (seen s) then Inl (ValueError ''duplicate canonical receipt'')
       else rbind (rbind (required r [''amount_atto'']) py_int) (\<lambda>amount.
            rbind (required r [''classification'']) (\<lambda>classification.
              if classification \<notin> set classifications then Inl (ValueError ''unsupported final classification'')
              else Inr (s\<lparr>seen := seen s @ [key],
                          by_final := bump (by_final s) classification amount,
                          by_replay := bump (by_replay s) (replay_name r) amount,
                          by_source_shard := (by_source_shard s)(fst key \<mapsto>
                            bump (get_or (by_source_shard s) (fst key) Map.empty) classification amount)\<rparr>))))"

definition summarize_file :: "source_summary \<Rightarrow> row list \<Rightarrow> source_summary result" where
  "summarize_file s rs =
     rbind (fold_r summarize_row s rs) (\<lambda>s'. Inr (s'\<lparr>rows_per_input := rows_per_input s' @ [int (length rs)]\<rparr>))"

definition final_amount :: "source_summary \<Rightarrow> string \<Rightarrow> int" where
  "final_amount s c = bucket_amount (get_or (by_final s) c zero_bucket)"

record source_report =
  report_tables :: source_summary
  receipts_counted :: int
  trace_proven_leakage :: int
  proven_absence :: int
  unbacked_credit :: int
  unclassified_amount :: int

definition classify :: "row list list \<Rightarrow> source_report result" where
  "classify files =
     rbind (fold_r summarize_file empty_source_summary files) (\<lambda>s.
       Inr \<lparr>report_tables = s, receipts_counted = int (length (seen s)),
            trace_proven_leakage = final_amount s ''rollback_leak'',
            proven_absence = final_amount s ''source_debit_absent'',
            unbacked_credit = final_amount s ''rollback_leak'' + final_amount s ''source_debit_absent'',
            unclassified_amount = final_amount s ''unclassified''\<rparr>)"

subsection \<open>What the tables hold\<close>

text \<open>The counters of a table after booking a list of rows by a name.\<close>

definition row_amount :: "row \<Rightarrow> int" where
  "row_amount r = (case rbind (required r [''amount_atto'']) py_int of Inl _ \<Rightarrow> 0 | Inr n \<Rightarrow> n)"

definition row_class :: "row \<Rightarrow> string" where
  "row_class r = (case required r [''classification''] of Inl _ \<Rightarrow> [] | Inr c \<Rightarrow> c)"

definition row_shard :: "row \<Rightarrow> int" where
  "row_shard r = (case summary_key_of r of Inl _ \<Rightarrow> 0 | Inr key \<Rightarrow> fst key)"

definition bucket_of :: "row list \<Rightarrow> bucket" where
  "bucket_of rs = \<lparr>bucket_count = int (length rs), bucket_amount = sum_list (map row_amount rs)\<rparr>"

definition table_holds :: "('k \<rightharpoonup> bucket) \<Rightarrow> (row \<Rightarrow> 'k) \<Rightarrow> row list \<Rightarrow> bool" where
  "table_holds m f rs \<longleftrightarrow> (\<forall>k. get_or m k zero_bucket = bucket_of (filter (\<lambda>r. f r = k) rs))"

definition tables_hold :: "source_summary \<Rightarrow> row list \<Rightarrow> bool" where
  "tables_hold s rs \<longleftrightarrow> map_r summary_key_of rs = Inr (seen s) \<and> distinct (seen s)
     \<and> table_holds (by_final s) row_class rs
     \<and> table_holds (by_replay s) replay_name rs
     \<and> (\<forall>n. table_holds (get_or (by_source_shard s) n Map.empty) row_class (filter (\<lambda>r. row_shard r = n) rs))
     \<and> (\<forall>r \<in> set rs. row_class r \<in> set classifications)"

lemma bucket_of_snoc: "bucket_of (rs @ [r])
    = \<lparr>bucket_count = bucket_count (bucket_of rs) + 1, bucket_amount = bucket_amount (bucket_of rs) + row_amount r\<rparr>"
  by (simp add: bucket_of_def)

lemma bump_holds:
  assumes "table_holds m f rs"
  shows "table_holds (bump m (f r) (row_amount r)) f (rs @ [r])"
  using assms by (auto simp: table_holds_def bump_def Let_def bucket_of_snoc get_or_def)

lemma summarize_row_holds:
  assumes "tables_hold s rs" and "summarize_row s r = Inr s'"
  shows "tables_hold s' (rs @ [r]) \<and> rows_per_input s' = rows_per_input s"
proof -
  from assms(2) obtain key amount c where key: "summary_key_of r = Inr key" "key \<notin> set (seen s)"
    and "rbind (required r [''amount_atto'']) py_int = Inr amount" and "required r [''classification''] = Inr c"
    and c: "c \<in> set classifications"
    and s': "s' = s\<lparr>seen := seen s @ [key], by_final := bump (by_final s) c amount,
        by_replay := bump (by_replay s) (replay_name r) amount,
        by_source_shard := (by_source_shard s)(fst key \<mapsto> bump (get_or (by_source_shard s) (fst key) Map.empty) c amount)\<rparr>"
    by (auto simp: summarize_row_def rbind_eq_Inr split: if_splits)
  then have r: "row_amount r = amount" "row_class r = c" "row_shard r = fst key"
    by (simp_all add: row_amount_def row_class_def row_shard_def)
  have shard: "table_holds (get_or (by_source_shard s') n Map.empty) row_class (filter (\<lambda>r. row_shard r = n) (rs @ [r]))" for n
  proof (cases "n = fst key")
    case True
    have "table_holds (bump (get_or (by_source_shard s) n Map.empty) (row_class r) (row_amount r)) row_class
        (filter (\<lambda>r. row_shard r = n) rs @ [r])"
      using assms(1) by (intro bump_holds) (simp add: tables_hold_def)
    then show ?thesis using True by (simp add: s' r)
  next
    case False
    then show ?thesis using assms(1) by (simp add: s' r tables_hold_def)
  qed
  have "table_holds (by_final s') row_class (rs @ [r])" "table_holds (by_replay s') replay_name (rs @ [r])"
    using assms(1) bump_holds [of "by_final s" row_class rs r] bump_holds [of "by_replay s" replay_name rs r]
    by (simp_all add: s' r tables_hold_def)
  moreover have "map_r summary_key_of (rs @ [r]) = Inr (seen s')" "distinct (seen s')"
    using assms(1) key by (simp_all add: s' tables_hold_def map_r_append)
  moreover have "\<forall>q \<in> set (rs @ [r]). row_class q \<in> set classifications"
    using assms(1) c r by (simp add: tables_hold_def)
  ultimately show ?thesis using shard by (simp add: tables_hold_def s')
qed

lemma summarize_rows_hold:
  "tables_hold s rs \<Longrightarrow> fold_r summarize_row s qs = Inr s' \<Longrightarrow> tables_hold s' (rs @ qs) \<and> rows_per_input s' = rows_per_input s"
proof (induction qs arbitrary: s rs)
  case (Cons q qs)
  then obtain t where "summarize_row s q = Inr t" and t: "fold_r summarize_row t qs = Inr s'" by (auto simp: rbind_eq_Inr)
  then have h: "tables_hold t (rs @ [q])" "rows_per_input t = rows_per_input s"
    using summarize_row_holds [OF Cons.prems(1)] by blast+
  from Cons.IH [OF h(1) t] show ?case by (simp add: h(2))
qed simp

lemma summarize_files_hold:
  "tables_hold s rs \<Longrightarrow> fold_r summarize_file s files = Inr s' \<Longrightarrow>
     tables_hold s' (rs @ concat files) \<and> rows_per_input s' = rows_per_input s @ map (int \<circ> length) files"
proof (induction files arbitrary: s rs)
  case (Cons f files)
  then obtain u where u: "summarize_file s f = Inr u" and rest: "fold_r summarize_file u files = Inr s'"
    by (auto simp: rbind_eq_Inr)
  then obtain t where t: "fold_r summarize_row s f = Inr t"
    and u_eq: "u = t\<lparr>rows_per_input := rows_per_input t @ [int (length f)]\<rparr>"
    by (auto simp: summarize_file_def rbind_eq_Inr)
  note h = summarize_rows_hold [OF Cons.prems(1) t]
  then have "tables_hold u (rs @ f)" by (simp add: tables_hold_def u_eq)
  from Cons.IH [OF this rest] h show ?case by (simp add: u_eq)
qed simp

lemma empty_source_summary_holds: "tables_hold empty_source_summary []"
  by (auto simp: tables_hold_def table_holds_def empty_source_summary_def get_or_def zero_bucket_def bucket_of_def)

lemma classify_holds:
  assumes "classify files = Inr rep"
  shows "tables_hold (report_tables rep) (concat files) \<and> rows_per_input (report_tables rep) = map (int \<circ> length) files"
  using assms summarize_files_hold [OF empty_source_summary_holds]
  by (auto simp: classify_def rbind_eq_Inr empty_source_summary_def)

lemma bucket_of_split:
  assumes "distinct names" and "\<forall>r \<in> set rs. f r \<in> set names"
  shows "sum_list (map (\<lambda>k. bucket_amount (bucket_of (filter (\<lambda>r. f r = k) rs))) names) = sum_list (map row_amount rs)"
    and "sum_list (map (\<lambda>k. bucket_count (bucket_of (filter (\<lambda>r. f r = k) rs))) names) = int (length rs)"
proof -
  have gen: "sum_list (map (\<lambda>k. sum_list (map g (filter (\<lambda>r. f r = k) rs))) names) = sum_list (map g rs)" for g :: "row \<Rightarrow> int"
    using assms(2)
  proof (induction rs)
    case (Cons r rs)
    have "sum_list (map (\<lambda>k. sum_list (map g (filter (\<lambda>q. f q = k) (r # rs)))) names)
        = sum_list (map (\<lambda>k. (if f r = k then g r else 0) + sum_list (map g (filter (\<lambda>q. f q = k) rs))) names)"
      by (intro arg_cong [where f = sum_list] map_cong) auto
    also have "\<dots> = g r + sum_list (map (\<lambda>k. sum_list (map g (filter (\<lambda>q. f q = k) rs))) names)"
      using assms(1) Cons.prems by (simp add: sum_list_addf sum_list_distinct_conv_sum_set sum.delta)
    finally show ?case using Cons by simp
  qed simp
  from gen [of row_amount] show "sum_list (map (\<lambda>k. bucket_amount (bucket_of (filter (\<lambda>r. f r = k) rs))) names)
      = sum_list (map row_amount rs)" by (simp add: bucket_of_def)
  have len: "int (length qs) = sum_list (map (\<lambda>_. 1) qs)" for qs :: "row list" by (induction qs) simp_all
  from gen [of "\<lambda>_. 1"] show "sum_list (map (\<lambda>k. bucket_count (bucket_of (filter (\<lambda>r. f r = k) rs))) names)
      = int (length rs)" by (simp add: bucket_of_def len)
qed

lemma distinct_classifications: "distinct classifications"
  by (simp add: classifications_def)

text \<open>
  The summary is the audit, counted. When the summary succeeds, every receipt of the input files is
  counted exactly once: the receipts have pairwise different keys, each class holds the number and the
  sum of the amounts of the rows with that classification, the four classes add up to all of them, each
  shard's table to the rows of that shard, and the unbacked credit is the leaked plus the absent amount.
\<close>

theorem summary_counts_every_receipt:
  assumes "classify files = Inr rep"
  defines "rs \<equiv> concat files" and "s \<equiv> report_tables rep"
  shows "map_r summary_key_of rs = Inr (seen s) \<and> distinct (seen s) \<and> receipts_counted rep = int (length rs)
    \<and> (\<forall>c. get_or (by_final s) c zero_bucket = bucket_of (filter (\<lambda>r. row_class r = c) rs))
    \<and> (\<forall>c. get_or (by_replay s) c zero_bucket = bucket_of (filter (\<lambda>r. replay_name r = c) rs))
    \<and> (\<forall>n c. get_or (get_or (by_source_shard s) n Map.empty) c zero_bucket
         = bucket_of (filter (\<lambda>r. row_shard r = n \<and> row_class r = c) rs))
    \<and> sum_list (map (final_amount s) classifications) = sum_list (map row_amount rs)
    \<and> unbacked_credit rep = sum_list (map row_amount
         (filter (\<lambda>r. row_class r = ''rollback_leak'' \<or> row_class r = ''source_debit_absent'') rs))"
proof -
  have h: "tables_hold s rs" using classify_holds [OF assms(1)] by (simp add: rs_def s_def)
  have final: "get_or (by_final s) c zero_bucket = bucket_of (filter (\<lambda>r. row_class r = c) rs)" for c
    using h by (simp add: tables_hold_def table_holds_def)
  have amounts: "final_amount s = (\<lambda>c. bucket_amount (bucket_of (filter (\<lambda>r. row_class r = c) rs)))"
    by (simp add: fun_eq_iff final_amount_def final)
  have unbacked: "unbacked_credit rep = final_amount s ''rollback_leak'' + final_amount s ''source_debit_absent''"
    and count: "receipts_counted rep = int (length (seen s))"
    using assms(1) by (auto simp: classify_def rbind_eq_Inr s_def)
  have two: "sum_list (map row_amount (filter (\<lambda>r. row_class r = a) qs)) + sum_list (map row_amount (filter (\<lambda>r. row_class r = b) qs))
      = sum_list (map row_amount (filter (\<lambda>r. row_class r = a \<or> row_class r = b) qs))" if "a \<noteq> b" for a b qs
    using that by (induction qs) auto
  have "sum_list (map (final_amount s) classifications) = sum_list (map row_amount rs)"
    unfolding amounts using h by (intro bucket_of_split(1) distinct_classifications) (simp add: tables_hold_def)
  moreover have "length (seen s) = length rs" using h by (auto simp: tables_hold_def dest: map_r_length)
  moreover have "get_or (get_or (by_source_shard s) n Map.empty) c zero_bucket
         = bucket_of (filter (\<lambda>r. row_shard r = n \<and> row_class r = c) rs)" for n c
    using h by (simp add: tables_hold_def table_holds_def filter_filter)
  moreover have "unbacked_credit rep = sum_list (map row_amount
         (filter (\<lambda>r. row_class r = ''rollback_leak'' \<or> row_class r = ''source_debit_absent'') rs))"
    unfolding unbacked amounts by (simp add: bucket_of_def two)
  ultimately show ?thesis using h count final by (simp add: tables_hold_def table_holds_def)
qed

text \<open>An input of two receipts.\<close>

definition example_audit_row :: "string \<Rightarrow> string \<Rightarrow> string \<Rightarrow> row" where
  "example_audit_row index amount c = [''source_shard'' \<mapsto> ''1'', ''to_shard'' \<mapsto> ''0'', ''source_block'' \<mapsto> ''5'',
     ''source_block_hash'' \<mapsto> ''0xAB'', ''receipt_index'' \<mapsto> index, ''tx_hash'' \<mapsto> ''0xcd'', ''amount_atto'' \<mapsto> amount,
     ''classification'' \<mapsto> c]"

theorem summary_counts_every_receipt_witness:
  "\<exists>rep. classify [[example_audit_row ''0'' ''7'' ''rollback_leak''], [example_audit_row ''1'' ''4'' ''source_debit_absent'']]
     = Inr rep \<and> receipts_counted rep = 2"
proof -
  have "is_ok (classify [[example_audit_row ''0'' ''7'' ''rollback_leak''],
      [example_audit_row ''1'' ''4'' ''source_debit_absent'']])"
    by code_simp
  then obtain rep where rep: "classify [[example_audit_row ''0'' ''7'' ''rollback_leak''],
      [example_audit_row ''1'' ''4'' ''source_debit_absent'']] = Inr rep"
    by (auto simp: is_ok_iff)
  from summary_counts_every_receipt [OF this] show ?thesis using rep by simp
qed

subsection \<open>From the audit to its summary\<close>

lemma output_row_cells:
  assumes "receipt_identity (au_row a) = Inr i" and "au_classification a \<noteq> []" and "au_replay_classification a \<noteq> []"
  shows "row_amount (output_row a) = amount_of a" and "row_class (output_row a) = au_classification a"
    and "replay_name (output_row a) = au_replay_classification a"
proof -
  from assms(1) obtain s where s: "au_row a ''amount_atto'' = Some s" "py_int s = Inr (id_amount i)"
    by (auto simp: receipt_identity_def rbind_eq_Inr getitem_eq_Inr split: if_splits)
  have "py_int [] = Inl (ValueError ''invalid literal for int()'')" by code_simp
  then have "s \<noteq> []" using s(2) by auto
  then show "row_amount (output_row a) = amount_of a"
    by (simp add: row_amount_def required_def output_row_def getitem_def s amount_of_def assms(1))
  show "row_class (output_row a) = au_classification a"
    using assms(2) by (simp add: row_class_def required_def output_row_def)
  show "replay_name (output_row a) = au_replay_classification a"
    using assms(3) by (simp add: replay_name_def output_row_def)
qed

lemma filter_map_sum:
  assumes "\<forall>a \<in> set as. g (f a) = h a \<and> v (f a) = w a"
  shows "sum_list (map v (filter (\<lambda>r. g r = c) (map f as))) = sum_list (map w (filter (\<lambda>a. h a = c) as))"
    and "length (filter (\<lambda>r. g r = c) (map f as)) = length (filter (\<lambda>a. h a = c) as)"
  using assms by (induction as) auto

text \<open>
  C9. The two scripts agree. When the summary accepts the rows that the audit wrote, the amount it
  reports for every final classification is the audit's own total for it, and the amount it reports for
  every replay classification is the audit's replay total; in particular the unbacked credit it reports
  is the audit's leaked plus absent total.
\<close>

theorem summary_agrees_with_audit:
  assumes "audit_receipts nd digest_at args evidence_files receipt_files = Inr st"
    and "classify [map output_row (output_rows st)] = Inr rep"
  shows "(\<forall>c \<in> set classifications. totals st c = Some (final_amount (report_tables rep) c))
    \<and> (\<forall>c \<in> set replay_classifications.
         replay_totals st c = Some (bucket_amount (get_or (by_replay (report_tables rep)) c zero_bucket)))
    \<and> totals st ''rollback_leak'' = Some (trace_proven_leakage rep)
    \<and> unbacked_credit rep = the (totals st ''rollback_leak'') + the (totals st ''source_debit_absent'')"
proof -
  let ?rs = "map output_row (output_rows st)"
  note f = audit_facts [OF assms(1)]
  have "au_classification a \<noteq> [] \<and> au_replay_classification a \<noteq> []" if "a \<in> set (output_rows st)" for a
    using f(3) that by (auto simp: classifications_def replay_classifications_def)
  then have cells: "\<forall>a \<in> set (output_rows st). row_class (output_row a) = au_classification a \<and> row_amount (output_row a) = amount_of a"
    "\<forall>a \<in> set (output_rows st). replay_name (output_row a) = au_replay_classification a \<and> row_amount (output_row a) = amount_of a"
    using f(3) output_row_cells by blast+
  have h: "tables_hold (report_tables rep) ?rs" using classify_holds [OF assms(2)] by simp
  have final: "totals st c = Some (final_amount (report_tables rep) c)" if "c \<in> set classifications" for c
  proof -
    have "get_or (by_final (report_tables rep)) c zero_bucket = bucket_of (filter (\<lambda>r. row_class r = c) ?rs)"
      using h by (simp only: tables_hold_def table_holds_def)
    then show ?thesis using that filter_map_sum(1) [where f = output_row, OF cells(1), of c]
      by (simp only: final_amount_def bucket_of_def f(1) tally_def bucket.simps if_True)
  qed
  have replay: "replay_totals st c = Some (bucket_amount (get_or (by_replay (report_tables rep)) c zero_bucket))"
    if "c \<in> set replay_classifications" for c
  proof -
    have "get_or (by_replay (report_tables rep)) c zero_bucket = bucket_of (filter (\<lambda>r. replay_name r = c) ?rs)"
      using h by (simp only: tables_hold_def table_holds_def)
    then show ?thesis using that filter_map_sum(1) [where f = output_row, OF cells(2), of c]
      by (simp only: bucket_of_def f(2) tally_def bucket.simps if_True)
  qed
  have "trace_proven_leakage rep = final_amount (report_tables rep) ''rollback_leak''"
    and "unbacked_credit rep = final_amount (report_tables rep) ''rollback_leak''
      + final_amount (report_tables rep) ''source_debit_absent''"
    using assms(2) by (auto simp: classify_def rbind_eq_Inr)
  then show ?thesis using final replay final [of "''rollback_leak''"] final [of "''source_debit_absent''"]
    by (simp add: classifications_def)
qed

text \<open>The columns the audit adds leave the input columns alone.\<close>

definition written_columns :: "string list" where
  "written_columns = [''source_transaction_hash'', ''source_transaction_from'', ''source_transaction_to'',
     ''source_transaction_value_atto'', ''source_transaction_status'', ''source_input_selector'', ''trace_root_error'',
     ''replay_status'', ''replay_compatible'', ''replay_issue'', ''precompile_call_count'',
     ''completed_precompile_call_count'', ''precompile_payload_match_count'',
     ''completed_precompile_payload_match_count'', ''failed_precompile_path_count'',
     ''failed_matching_precompile_path_count'', ''replay_classification'', ''independent_evidence_classification'',
     ''independent_source_debit_status'', ''independent_evidence_type'', ''independent_evidence_reference'',
     ''independent_evidence_sha256'', ''classification_source'', ''classification'']"

lemma output_row_other: "n \<notin> set written_columns \<Longrightarrow> output_row a n = au_row a n"
  by (simp add: output_row_def written_columns_def)

theorem summary_agrees_with_audit_witness:
  "\<exists>st rep. audit_receipts example_node example_digest example_args [(''d'', [example_evidence_row])]
       [(''r.csv'', [example_row])] = Inr st
     \<and> classify [map output_row (output_rows st)] = Inr rep \<and> totals st ''rollback_leak'' = Some (trace_proven_leakage rep)"
proof -
  obtain st a where st: "audit_receipts example_node example_digest example_args [(''d'', [example_evidence_row])]
      [(''r.csv'', [example_row])] = Inr st" and out: "output_rows st = [a]" and leak: "au_classification a = ''rollback_leak''"
    using example_audit by blast
  have "selected_receipts example_args [(''r.csv'', [example_row])] = Inr (map au_row (output_rows st))"
    by (rule audit_receipts_E [OF st]) simp
  then have a: "au_row a = example_selected" by (simp add: example_selection out)
  have "is_ok (summary_key_of example_selected)"
    and amount: "rbind (required example_selected [''amount_atto'']) py_int = Inr 7" by code_simp+
  then obtain key where key: "summary_key_of example_selected = Inr key" by (auto simp: is_ok_iff)
  have same: "required (output_row a) names = required example_selected names"
    if "\<forall>n \<in> set names. n \<notin> set written_columns" for names
    using that by (intro required_cong) (simp add: output_row_other a)
  have "summary_key_of (output_row a) = summary_key_of example_selected"
    by (simp add: summary_key_of_def same written_columns_def)
  moreover have "required (output_row a) [''amount_atto''] = required example_selected [''amount_atto'']"
    by (simp add: same written_columns_def)
  moreover have "required (output_row a) [''classification''] = Inr ''rollback_leak''"
    by (simp add: required_def output_row_def leak)
  ultimately have "\<exists>s. summarize_row empty_source_summary (output_row a) = Inr s"
    using key amount by (simp add: summarize_row_def empty_source_summary_def classifications_def)
  then obtain rep where rep: "classify [map output_row (output_rows st)] = Inr rep"
    by (auto simp: classify_def summarize_file_def out)
  from summary_agrees_with_audit [OF st rep] show ?thesis using st rep by blast
qed

end
