(* ===== verification/Closure.thy ===== *)
theory Closure
  imports Pybase
begin

section \<open>Formula and closure of the supply: \<open>reconstruct-cutoff-formula.py\<close>, \<open>historical-closure.py\<close>\<close>

text \<open>
  The first script derives the reward accumulator at the cutoff from a base checkpoint and the increase
  of the validators' lifetime rewards. The second compares, at every checkpoint, the claims that exist
  with the formula for what was issued, and follows the residual from checkpoint to checkpoint. A value
  is an integer, a text, or a field of another JSON document, which the parameter \<open>document\<close> reads.
  Amounts are in atto; \<open>display_one\<close> prints them in ONE.
\<close>

subsection \<open>Printing amounts\<close>

definition ATTO :: int where
  "ATTO = 10 ^ 18"

definition display_one :: "int \<Rightarrow> string" where
  "display_one v =
     (let sign = (if v < 0 then ''-'' else []); a = \<bar>v\<bar>
      in sign @ py_str (a div ATTO) @ ''.'' @ zero_padded 18 (a mod ATTO))"

text \<open>The variant of \<open>blacklisted-address-audit.py\<close>, written for amounts that are not negative.\<close>

definition one_floor :: "int \<Rightarrow> string" where
  "one_floor atto = py_str (atto div ATTO) @ ''.'' @ zero_padded 18 (atto mod ATTO)"

subsection \<open>The reconstructed formula\<close>

record reconstruction =
  rc_genesis :: int
  rc_pre_staking :: int
  rc_base_accumulator :: int
  rc_base_wrapper :: int
  rc_cutoff_wrapper :: int
  rc_wrapper_delta :: int
  rc_accumulator :: int
  rc_formula :: int

definition load_integer :: "json \<Rightarrow> string \<Rightarrow> int result" where
  "load_integer v field = rbind (subscript v field) int_of"

definition reconstruct :: "int \<Rightarrow> int \<Rightarrow> int \<Rightarrow> int \<Rightarrow> int \<Rightarrow> reconstruction result" where
  "reconstruct genesis pre_staking base_accumulator base_wrapper cutoff_wrapper =
     (let wrapper_delta = cutoff_wrapper - base_wrapper in
      if wrapper_delta < 0 then Inl (ValueError ''cutoff wrapper rewards are below the base checkpoint'')
      else let accumulator = base_accumulator + wrapper_delta
           in Inr \<lparr>rc_genesis = genesis, rc_pre_staking = pre_staking, rc_base_accumulator = base_accumulator,
                   rc_base_wrapper = base_wrapper, rc_cutoff_wrapper = cutoff_wrapper,
                   rc_wrapper_delta = wrapper_delta, rc_accumulator = accumulator,
                   rc_formula = genesis + pre_staking + accumulator\<rparr>)"

text \<open>\<open>main\<close>, on the parsed documents.\<close>

definition reconstruct_cutoff :: "int \<Rightarrow> int \<Rightarrow> json \<Rightarrow> json \<Rightarrow> json \<Rightarrow> reconstruction result" where
  "reconstruct_cutoff genesis pre_staking base_accumulator base_supply cutoff_supply =
     rbind (load_integer base_accumulator ''reward_atto'') (\<lambda>acc.
     rbind (load_integer base_supply ''validator_lifetime_block_reward_atto'') (\<lambda>w0.
     rbind (load_integer cutoff_supply ''validator_lifetime_block_reward_atto'') (\<lambda>w1.
       reconstruct genesis pre_staking acc w0 w1)))"

subsection \<open>Resolving a value\<close>

definition nested :: "json \<Rightarrow> string \<Rightarrow> json result" where
  "nested v field = fold_r subscript v (split_on CHR ''.'' [] field)"

definition resolve :: "(string \<Rightarrow> json result) \<Rightarrow> json \<Rightarrow> int result" where
  "resolve document specification = (case specification of
     JInt n \<Rightarrow> Inr n
   | JBool b \<Rightarrow> Inr (if b then 1 else 0)
   | JStr s \<Rightarrow> py_int s
   | JDict kvs \<Rightarrow>
       rbind (rbind (subscript specification ''path'') text_of) (\<lambda>path.
       rbind (document path) (\<lambda>v.
       rbind (rbind (subscript specification ''field'') text_of) (\<lambda>field.
       rbind (nested v field) int_of)))
   | _ \<Rightarrow> Inl (TypeError ''invalid value specification''))"

subsection \<open>Checkpoints\<close>

record checkpoint =
  cp_name :: json
  cp_block :: json
  cp_shard0 :: int
  cp_shard1 :: int
  cp_state :: int
  cp_accumulator :: int
  cp_formula :: int
  cp_gap :: int
  cp_adjustments :: "(string \<times> int) list"
  cp_residual :: int
  cp_change :: "int option"

definition items :: "json \<Rightarrow> (string \<times> json) list result" where
  "items v = (case v of JDict kvs \<Rightarrow> Inr kvs | _ \<Rightarrow> Inl (AttributeError ''items''))"

definition resolve_adjustments :: "(string \<Rightarrow> json result) \<Rightarrow> json \<Rightarrow> (string \<times> int) list result" where
  "resolve_adjustments document point =
     rbind (rbind (get_default point ''adjustments_atto'' (JDict [])) items)
       (map_r (\<lambda>(name, v). rbind (resolve document v) (\<lambda>n. Inr (name, n))))"

text \<open>\<open>if "expected_..." in point and actual != int(point["expected_..."])\<close>.\<close>

definition check_expected :: "json \<Rightarrow> string \<Rightarrow> int option \<Rightarrow> unit result" where
  "check_expected point field actual =
     rbind (get_default point field JNull) (\<lambda>_.
       case subscript point field of
         Inl _ \<Rightarrow> Inr ()
       | Inr v \<Rightarrow> rbind (int_of v) (\<lambda>n. raise_if (actual \<noteq> Some n) (ValueError field)))"

definition measure_point :: "(string \<Rightarrow> json result) \<Rightarrow> int \<Rightarrow> int option \<Rightarrow> json \<Rightarrow> checkpoint result" where
  "measure_point document formula_base previous point =
     rbind (rbind (subscript point ''shard0_claims_atto'') (resolve document)) (\<lambda>shard0.
     rbind (rbind (subscript point ''shard1_claims_atto'') (resolve document)) (\<lambda>shard1.
     rbind (rbind (subscript point ''block_reward_accumulator_atto'') (resolve document)) (\<lambda>accumulator.
     rbind (resolve_adjustments document point) (\<lambda>adjustments.
       let state = shard0 + shard1;
           formula = formula_base + accumulator;
           gap = state - formula;
           residual = gap - sum_list (map snd adjustments);
           change = map_option (\<lambda>p. residual - p) previous
       in rbind (check_expected point ''expected_residual_atto'' (Some residual)) (\<lambda>_.
          rbind (check_expected point ''expected_change_atto'' change) (\<lambda>_.
          rbind (subscript point ''name'') (\<lambda>name.
          rbind (get_default point ''block'' JNull) (\<lambda>block.
            Inr \<lparr>cp_name = name, cp_block = block, cp_shard0 = shard0, cp_shard1 = shard1, cp_state = state,
                 cp_accumulator = accumulator, cp_formula = formula, cp_gap = gap, cp_adjustments = adjustments,
                 cp_residual = residual, cp_change = change\<rparr>))))))))"

definition next_checkpoint ::
  "(string \<Rightarrow> json result) \<Rightarrow> int \<Rightarrow> int option \<times> checkpoint list \<Rightarrow> json \<Rightarrow> (int option \<times> checkpoint list) result" where
  "next_checkpoint document formula_base st point =
     rbind (measure_point document formula_base (fst st) point) (\<lambda>c. Inr (Some (cp_residual c), snd st @ [c]))"

record closure =
  cl_genesis :: int
  cl_pre_staking :: int
  cl_checkpoints :: "checkpoint list"

definition calculate :: "(string \<Rightarrow> json result) \<Rightarrow> json \<Rightarrow> closure result" where
  "calculate document configuration =
     rbind (rbind (subscript configuration ''genesis_atto'') (resolve document)) (\<lambda>genesis.
     rbind (rbind (subscript configuration ''pre_staking_rewards_atto'') (resolve document)) (\<lambda>pre_staking.
     rbind (rbind (subscript configuration ''checkpoints'') iter) (\<lambda>points.
     rbind (fold_r (next_checkpoint document (genesis + pre_staking)) (None, []) points) (\<lambda>st.
       Inr \<lparr>cl_genesis = genesis, cl_pre_staking = pre_staking, cl_checkpoints = snd st\<rparr>))))"

subsection \<open>The residual\<close>

definition balanced :: "int \<Rightarrow> checkpoint \<Rightarrow> bool" where
  "balanced base c \<longleftrightarrow> cp_shard0 c + cp_shard1 c
     = base + cp_accumulator c + sum_list (map snd (cp_adjustments c)) + cp_residual c"

text \<open>Each change is the step from the residual before; the last residual is carried along.\<close>

fun chained :: "int option \<Rightarrow> checkpoint list \<Rightarrow> bool" where
  "chained p [] = True"
| "chained p (c # cs) = (cp_change c = map_option (\<lambda>r. cp_residual c - r) p \<and> chained (Some (cp_residual c)) cs)"

lemma chained_snoc:
  "chained p (cs @ [c]) \<longleftrightarrow> chained p cs
     \<and> cp_change c = map_option (\<lambda>r. cp_residual c - r) (if cs = [] then p else Some (cp_residual (last cs)))"
  by (induction cs arbitrary: p) auto

definition closure_ok :: "int \<Rightarrow> int option \<times> checkpoint list \<Rightarrow> bool" where
  "closure_ok base st \<longleftrightarrow> (\<forall>c \<in> set (snd st). balanced base c) \<and> chained None (snd st)
     \<and> fst st = (if snd st = [] then None else Some (cp_residual (last (snd st))))"

lemma measure_point_ok:
  "measure_point document base previous point = Inr c \<Longrightarrow>
     balanced base c \<and> cp_change c = map_option (\<lambda>r. cp_residual c - r) previous"
  by (auto simp: measure_point_def balanced_def rbind_eq_Inr Let_def)

lemma next_checkpoint_ok: "closure_ok base st \<Longrightarrow> next_checkpoint document base st point = Inr st' \<Longrightarrow> closure_ok base st'"
  by (auto simp: next_checkpoint_def closure_ok_def rbind_eq_Inr chained_snoc dest!: measure_point_ok split: if_splits)

interpretation checkpoint_loop: invariant_loop "next_checkpoint document base" "closure_ok base" for document base
  by unfold_locales (rule next_checkpoint_ok)

lemma calculate_ok:
  assumes "calculate document configuration = Inr cl"
  shows "closure_ok (cl_genesis cl + cl_pre_staking cl)
    (if cl_checkpoints cl = [] then None else Some (cp_residual (last (cl_checkpoints cl))), cl_checkpoints cl)"
proof -
  have "\<exists>points st. fold_r (next_checkpoint document (cl_genesis cl + cl_pre_staking cl)) (None, []) points = Inr st
      \<and> cl_checkpoints cl = snd st"
    using assms unfolding calculate_def by (elim rbind_E) force
  then obtain points st where
    run: "fold_r (next_checkpoint document (cl_genesis cl + cl_pre_staking cl)) (None, []) points = Inr st"
    and st: "cl_checkpoints cl = snd st"
    by blast
  have "closure_ok (cl_genesis cl + cl_pre_staking cl) st"
    by (rule checkpoint_loop.run_inv [OF _ run]) (simp add: closure_ok_def)
  then show ?thesis by (simp add: closure_ok_def st)
qed

lemma chained_sum:
  "chained (Some r) cs \<Longrightarrow> sum_list (map (\<lambda>c. the (cp_change c)) cs) = (if cs = [] then r else cp_residual (last cs)) - r"
  by (induction cs arbitrary: r) auto

text \<open>
  The closure closes. At every checkpoint the claims of the two shards are exactly genesis, pre-staking
  rewards, the reward accumulator, the named adjustments and the reported residual; the first checkpoint
  has no change, and the changes of the later ones add up to the last residual less the first.
\<close>

theorem closure_residual_telescopes:
  assumes "calculate document configuration = Inr cl" and "cl_checkpoints cl = c # cs"
  shows "(\<forall>d \<in> set (cl_checkpoints cl). cp_shard0 d + cp_shard1 d = cl_genesis cl + cl_pre_staking cl
        + cp_accumulator d + sum_list (map snd (cp_adjustments d)) + cp_residual d)
    \<and> cp_change c = None
    \<and> sum_list (map (\<lambda>d. the (cp_change d)) cs) = cp_residual (last (c # cs)) - cp_residual c"
  using calculate_ok [OF assms(1)] chained_sum [of "cp_residual c" cs] assms(2)
  by (auto simp: closure_ok_def balanced_def)

definition example_configuration :: json where
  "example_configuration = JDict [(''genesis_atto'', JInt 100), (''pre_staking_rewards_atto'', JStr ''10''), (''checkpoints'', JList [
     JDict [(''name'', JStr ''a''), (''shard0_claims_atto'', JInt 90), (''shard1_claims_atto'', JInt 31),
       (''block_reward_accumulator_atto'', JInt 5), (''expected_residual_atto'', JStr ''6'')],
     JDict [(''name'', JStr ''b''), (''shard0_claims_atto'', JInt 95), (''shard1_claims_atto'', JInt 40),
       (''block_reward_accumulator_atto'', JDict [(''path'', JStr ''s.json''), (''field'', JStr ''r.x'')]),
       (''adjustments_atto'', JDict [(''lost'', JInt 2)]), (''expected_change_atto'', JInt 10)]])]"

definition example_document :: "string \<Rightarrow> json result" where
  "example_document path = (if path = ''s.json'' then Inr (JDict [(''r'', JDict [(''x'', JInt 7)])])
     else Inl (FileNotFoundError path))"

theorem closure_residual_telescopes_witness:
  "\<exists>cl c d. calculate example_document example_configuration = Inr cl \<and> cl_checkpoints cl = [c, d]
     \<and> the (cp_change d) = cp_residual d - cp_residual c"
proof -
  have "\<exists>cl c d. calculate example_document example_configuration = Inr cl \<and> cl_checkpoints cl = [c, d]"
  proof -
    have "(case calculate example_document example_configuration of Inl _ \<Rightarrow> 0 | Inr cl \<Rightarrow> length (cl_checkpoints cl)) = 2"
      by code_simp
    then show ?thesis
      by (cases "calculate example_document example_configuration") (auto simp: length_Suc_conv numeral_2_eq_2)
  qed
  then obtain cl c d where cl: "calculate example_document example_configuration = Inr cl" "cl_checkpoints cl = [c, d]" by blast
  from closure_residual_telescopes [OF this] show ?thesis using cl by auto
qed

subsection \<open>Reading a printed amount back\<close>

text \<open>\<open>zero_padded\<close> writes a number below \<open>10 ^ w\<close> with exactly \<open>w\<close> digits.\<close>

lemma length_nat_str_bound: "0 < w \<Longrightarrow> n < 10 ^ w \<Longrightarrow> length (nat_str 10 n) \<le> w"
proof (induction w arbitrary: n)
  case (Suc w)
  show ?case
  proof (cases "n < 10")
    case True
    then show ?thesis by (subst nat_str.simps) simp
  next
    case False
    then have w: "0 < w" using Suc.prems(2) by (cases w) auto
    have "n div 10 < 10 ^ w" using Suc.prems(2) by (simp add: less_mult_imp_div_less)
    from Suc.IH [OF w this] False show ?thesis by (subst nat_str.simps) simp
  qed
qed simp

lemma length_zero_padded:
  assumes "0 < w" and "0 \<le> n" and "n < 10 ^ w"
  shows "length (zero_padded w n) = w"
proof -
  have "nat n < 10 ^ w" using assms(2,3) by (simp add: nat_less_iff)
  from length_nat_str_bound [OF assms(1) this] show ?thesis
    using assms(2) by (simp add: zero_padded_def py_str_def Let_def)
qed

lemma digits_value_zeros:
  "s \<noteq> [] \<Longrightarrow> digits_value 10 b 0 (replicate k CHR ''0'' @ s) = digits_value 10 (b \<or> 0 < k) 0 s"
proof (induction k arbitrary: b)
  case (Suc k)
  have "digit_value 10 CHR ''0'' = Some 0" by code_simp
  then show ?case using Suc by simp
qed simp

text \<open>
  The amount a printed value stands for: its sign, the digits before the point and the digits after it.
  The point is the nineteenth character from the end.
\<close>

definition read_one :: "string \<Rightarrow> int result" where
  "read_one s =
     (let neg = starts_with ''-'' s; body = (if neg then drop 1 s else s); w = length body - 19
      in rbind (py_int (take w body)) (\<lambda>whole. rbind (py_int (drop (w + 1) body)) (\<lambda>frac.
           Inr (if neg then - (whole * ATTO + frac) else whole * ATTO + frac))))"

lemma digits_value_flag: "s \<noteq> [] \<Longrightarrow> hd s \<noteq> CHR ''_'' \<Longrightarrow> digits_value base b acc s = digits_value base c acc s"
  by (cases s) auto

lemma py_int_zero_padded:
  assumes "0 \<le> n"
  shows "py_int (zero_padded w n) = Inr n"
proof -
  define z where "z = replicate (w - length (nat_str 10 (nat n))) CHR ''0''"
  have zp: "zero_padded w n = z @ nat_str 10 (nat n)"
    using assms by (simp add: zero_padded_def py_str_def Let_def z_def)
  have chars: "\<forall>c \<in> set (z @ nat_str 10 (nat n)). \<not> is_space c \<and> c \<noteq> CHR ''-'' \<and> c \<noteq> CHR ''+''"
  proof
    fix c
    assume "c \<in> set (z @ nat_str 10 (nat n))"
    then have "c = CHR ''0'' \<or> c \<in> set (nat_str 10 (nat n))" by (auto simp: z_def)
    moreover have "\<not> is_space CHR ''0''" by code_simp
    ultimately show "\<not> is_space c \<and> c \<noteq> CHR ''-'' \<and> c \<noteq> CHR ''+''"
      using nat_str_ordinary [of "nat n"] by auto
  qed
  then have sign: "\<not> starts_with ''-'' (z @ nat_str 10 (nat n))" "\<not> starts_with ''+'' (z @ nat_str 10 (nat n))"
    by (cases "z @ nat_str 10 (nat n)"; simp add: starts_with_def)+
  have hd: "hd (nat_str 10 (nat n)) \<noteq> CHR ''_''"
    using nat_str_ordinary [of "nat n"] nat_str_nonempty [of 10 "nat n"] by (metis hd_in_set)
  have "digits_value 10 False 0 (z @ nat_str 10 (nat n)) = Some (nat n)"
    unfolding z_def digits_value_zeros [OF nat_str_nonempty]
    by (subst digits_value_flag [OF nat_str_nonempty hd, where c = False], rule digits_value_nat_str) simp_all
  moreover have "strip (z @ nat_str 10 (nat n)) = z @ nat_str 10 (nat n)"
    using chars by (intro strip_ordinary) blast
  ultimately show ?thesis
    using assms sign by (simp add: zp py_int_def int_base_def Let_def strip_base_prefix_def)
qed

lemma ATTO_pos: "0 < ATTO"
  by (simp add: ATTO_def)

lemma read_display_one: "read_one (display_one v) = Inr v"
proof -
  define a where "a = \<bar>v\<bar>"
  have "a mod ATTO < ATTO" "0 \<le> a mod ATTO" using ATTO_pos by simp_all
  then have len: "length (zero_padded 18 (a mod ATTO)) = 18"
    by (intro length_zero_padded) (simp_all add: ATTO_def)
  have nonneg: "0 \<le> a div ATTO" using ATTO_pos by (simp add: a_def pos_imp_zdiv_nonneg_iff)
  then have whole: "py_str (a div ATTO) = nat_str 10 (nat (a div ATTO))" by (simp add: py_str_def)
  let ?body = "py_str (a div ATTO) @ ''.'' @ zero_padded 18 (a mod ATTO)"
  have no: "\<not> starts_with ''-'' ?body"
    using sign_of_nat_str(1) [of "nat (a div ATTO)"] nat_str_nonempty [of 10 "nat (a div ATTO)"]
    by (cases "nat_str 10 (nat (a div ATTO))") (auto simp: whole starts_with_def)
  have neg: "starts_with ''-'' (display_one v) \<longleftrightarrow> v < 0"
    using no by (auto simp: display_one_def Let_def a_def starts_with_def)
  have body: "(if v < 0 then drop 1 (display_one v) else display_one v) = ?body"
    by (simp add: display_one_def Let_def a_def)
  have w: "length ?body - 19 = length (py_str (a div ATTO))" using len by simp
  have "take (length ?body - 19) ?body = py_str (a div ATTO)"
    and "drop (length ?body - 19 + 1) ?body = zero_padded 18 (a mod ATTO)" unfolding w by simp_all
  then have "read_one (display_one v) = Inr (if v < 0 then - a else a)"
    unfolding read_one_def Let_def neg body
    using \<open>0 \<le> a mod ATTO\<close> by (simp add: py_int_py_str py_int_zero_padded)
  then show ?thesis by (simp add: a_def)
qed

text \<open>
  Printed amounts lose nothing. What \<open>display_one\<close> prints for an amount, positive or negative,
  reads back as that amount: the sign, the whole ONE and eighteen decimal digits.
\<close>

theorem display_one_round_trip: "read_one (display_one v) = Inr v"
  by (rule read_display_one)

lemma one_floor_nonneg: "0 \<le> v \<Longrightarrow> one_floor v = display_one v"
  by (simp add: one_floor_def display_one_def Let_def)

subsection \<open>Reconstruction in steps\<close>

lemma reconstruct_Inr:
  "reconstruct g p a w0 w1 = Inr x \<longleftrightarrow> w0 \<le> w1
     \<and> x = \<lparr>rc_genesis = g, rc_pre_staking = p, rc_base_accumulator = a, rc_base_wrapper = w0, rc_cutoff_wrapper = w1,
            rc_wrapper_delta = w1 - w0, rc_accumulator = a + (w1 - w0), rc_formula = g + p + (a + (w1 - w0))\<rparr>"
  by (auto simp: reconstruct_def Let_def)

text \<open>
  Reconstruction can be done in steps. Reconstructing at an intermediate checkpoint and again from its
  accumulator to the cutoff gives the formula that a single reconstruction from the base gives, and the
  two steps succeed exactly when the rewards never decrease.
\<close>

theorem reconstruct_in_steps:
  "rbind (reconstruct g p a w0 w1) (\<lambda>x. rbind (reconstruct g p (rc_accumulator x) w1 w2) (\<lambda>y.
       Inr (rc_accumulator y, rc_formula y)))
     = (if w0 \<le> w1 \<and> w1 \<le> w2
        then rbind (reconstruct g p a w0 w2) (\<lambda>z. Inr (rc_accumulator z, rc_formula z))
        else Inl (ValueError ''cutoff wrapper rewards are below the base checkpoint''))"
  by (auto simp: reconstruct_def Let_def)

end
