(* ===== verification/ShardBalance.thy ===== *)
theory ShardBalance
  imports Cells
begin

section \<open>A historical balance of shard 1: \<open>historical-shard1-balance.py\<close>\<close>

text \<open>
  The balance at a checkpoint is derived from the balance at the cutoff: the credits that arrived after
  the checkpoint are taken away and the valid debits that left after it are put back. The two inputs
  are the destination map of the receipts and the source audit.
\<close>

subsection \<open>The code\<close>

definition in_window :: "int \<Rightarrow> int \<Rightarrow> int \<Rightarrow> bool" where
  "in_window checkpoint cutoff b \<longleftrightarrow> checkpoint < b \<and> b \<le> cutoff"

definition add_amount :: "int \<times> int \<Rightarrow> row \<Rightarrow> (int \<times> int) result" where
  "add_amount st r = rbind (row_integer r [''amount_atto'', ''value_atto'']) (\<lambda>a. Inr (fst st + 1, snd st + a))"

definition later_credit :: "int \<Rightarrow> int \<Rightarrow> int \<times> int \<Rightarrow> row \<Rightarrow> (int \<times> int) result" where
  "later_credit checkpoint cutoff st r =
     (if r ''destination_status'' = Some ''not_found'' then Inr st
      else rbind (row_integer r [''destination_shard'', ''to_shard'']) (\<lambda>shard.
        if shard \<noteq> 1 then Inr st
        else rbind (row_integer r [''destination_block'']) (\<lambda>b.
          if in_window checkpoint cutoff b then add_amount st r else Inr st)))"

definition sum_later_credits :: "row list \<Rightarrow> int \<Rightarrow> int \<Rightarrow> (int \<times> int) result" where
  "sum_later_credits rs checkpoint cutoff = fold_r (later_credit checkpoint cutoff) (0, 0) rs"

definition later_debit :: "int \<Rightarrow> int \<Rightarrow> int \<times> int \<Rightarrow> row \<Rightarrow> (int \<times> int) result" where
  "later_debit checkpoint cutoff st r =
     rbind (row_integer r [''audit_source_shard'', ''signed_source_shard'', ''source_shard'']) (\<lambda>shard.
       if shard \<noteq> 1 \<or> r ''classification'' \<noteq> Some ''valid_source_debit'' then Inr st
       else rbind (row_integer r [''audit_source_block'', ''signed_source_block'', ''source_block'']) (\<lambda>b.
         if in_window checkpoint cutoff b then add_amount st r else Inr st))"

definition sum_later_valid_debits :: "row list \<Rightarrow> int \<Rightarrow> int \<Rightarrow> (int \<times> int) result" where
  "sum_later_valid_debits rs checkpoint cutoff = fold_r (later_debit checkpoint cutoff) (0, 0) rs"

definition derive :: "int \<Rightarrow> int \<Rightarrow> int \<Rightarrow> int result" where
  "derive cutoff_balance credits debits =
     (let result = cutoff_balance - credits + debits
      in if result < 0 then Inl (ValueError ''derived historical balance is negative'') else Inr result)"

record shard1_report =
  credit_count :: int
  credit_amount :: int
  debit_count :: int
  debit_amount :: int
  historical_balance :: int

definition shard1_balance ::
  "row list \<Rightarrow> row list \<Rightarrow> int \<Rightarrow> int \<Rightarrow> int option \<Rightarrow> int \<Rightarrow> shard1_report result" where
  "shard1_balance credit_rows debit_rows checkpoint cutoff expected cutoff_balance =
     (if cutoff \<le> checkpoint then Inl (ValueError ''checkpoint block must be below cutoff block'')
      else rbind (sum_later_credits credit_rows checkpoint cutoff) (\<lambda>c.
           rbind (sum_later_valid_debits debit_rows checkpoint cutoff) (\<lambda>d.
           rbind (derive cutoff_balance (snd c) (snd d)) (\<lambda>historical.
             if expected \<noteq> None \<and> expected \<noteq> Some historical
             then Inl (ValueError ''derived balance differs from the expected one'')
             else Inr \<lparr>credit_count = fst c, credit_amount = snd c, debit_count = fst d, debit_amount = snd d,
                       historical_balance = historical\<rparr>))))"

subsection \<open>The sums\<close>

text \<open>The rows that count, whatever the window, with their block and amount.\<close>

definition cell_int :: "row \<Rightarrow> string list \<Rightarrow> int" where
  "cell_int r names = (case row_integer r names of Inl _ \<Rightarrow> 0 | Inr n \<Rightarrow> n)"

definition is_credit :: "row \<Rightarrow> bool" where
  "is_credit r \<longleftrightarrow> r ''destination_status'' \<noteq> Some ''not_found'' \<and> cell_int r [''destination_shard'', ''to_shard''] = 1"

definition credit_block :: "row \<Rightarrow> int" where
  "credit_block r = cell_int r [''destination_block'']"

definition is_debit :: "row \<Rightarrow> bool" where
  "is_debit r \<longleftrightarrow> cell_int r [''audit_source_shard'', ''signed_source_shard'', ''source_shard''] = 1
     \<and> r ''classification'' = Some ''valid_source_debit''"

definition debit_block :: "row \<Rightarrow> int" where
  "debit_block r = cell_int r [''audit_source_block'', ''signed_source_block'', ''source_block'']"

definition moved :: "row \<Rightarrow> int" where
  "moved r = cell_int r [''amount_atto'', ''value_atto'']"

definition later :: "(row \<Rightarrow> bool) \<Rightarrow> (row \<Rightarrow> int) \<Rightarrow> int \<Rightarrow> int \<Rightarrow> row list \<Rightarrow> row list" where
  "later P b checkpoint cutoff rs = filter (\<lambda>r. P r \<and> in_window checkpoint cutoff (b r)) rs"

lemma later_credit_step:
  "later_credit checkpoint cutoff st r = Inr st' \<Longrightarrow>
     st' = (if is_credit r \<and> in_window checkpoint cutoff (credit_block r) then (fst st + 1, snd st + moved r) else st)"
  by (auto simp: later_credit_def add_amount_def is_credit_def credit_block_def moved_def cell_int_def rbind_eq_Inr
      split: if_splits)

lemma later_debit_step:
  "later_debit checkpoint cutoff st r = Inr st' \<Longrightarrow>
     st' = (if is_debit r \<and> in_window checkpoint cutoff (debit_block r) then (fst st + 1, snd st + moved r) else st)"
  by (auto simp: later_debit_def add_amount_def is_debit_def debit_block_def moved_def cell_int_def rbind_eq_Inr
      split: if_splits)

text \<open>Both loops conserve: the pair of counters grows by what the row contributes.\<close>

definition contribution :: "(row \<Rightarrow> bool) \<Rightarrow> (row \<Rightarrow> int) \<Rightarrow> int \<Rightarrow> int \<Rightarrow> row \<Rightarrow> int" where
  "contribution P b checkpoint cutoff r = (if P r \<and> in_window checkpoint cutoff (b r) then moved r else 0)"

definition presence :: "(row \<Rightarrow> bool) \<Rightarrow> (row \<Rightarrow> int) \<Rightarrow> int \<Rightarrow> int \<Rightarrow> row \<Rightarrow> int" where
  "presence P b checkpoint cutoff r = (if P r \<and> in_window checkpoint cutoff (b r) then 1 else 0)"

interpretation credit_amounts: conserving_loop "later_credit checkpoint cutoff" snd
  "contribution is_credit credit_block checkpoint cutoff" for checkpoint cutoff
  by unfold_locales (auto simp: contribution_def dest!: later_credit_step)

interpretation credit_counts: conserving_loop "later_credit checkpoint cutoff" fst
  "presence is_credit credit_block checkpoint cutoff" for checkpoint cutoff
  by unfold_locales (auto simp: presence_def dest!: later_credit_step)

interpretation debit_amounts: conserving_loop "later_debit checkpoint cutoff" snd
  "contribution is_debit debit_block checkpoint cutoff" for checkpoint cutoff
  by unfold_locales (auto simp: contribution_def dest!: later_debit_step)

interpretation debit_counts: conserving_loop "later_debit checkpoint cutoff" fst
  "presence is_debit debit_block checkpoint cutoff" for checkpoint cutoff
  by unfold_locales (auto simp: presence_def dest!: later_debit_step)

lemma sum_contributions:
  "sum_list (map (contribution P b checkpoint cutoff) rs) = sum_list (map moved (later P b checkpoint cutoff rs))"
  "sum_list (map (presence P b checkpoint cutoff) rs) = int (length (later P b checkpoint cutoff rs))"
  by (induction rs) (simp_all add: contribution_def presence_def later_def)

lemma sum_later_credits_eq:
  "sum_later_credits rs checkpoint cutoff = Inr c \<Longrightarrow>
     c = (int (length (later is_credit credit_block checkpoint cutoff rs)),
          sum_list (map moved (later is_credit credit_block checkpoint cutoff rs)))"
  using credit_amounts.run_total_from_zero [of "(0, 0)" checkpoint cutoff rs c]
    credit_counts.run_total_from_zero [of "(0, 0)" checkpoint cutoff rs c]
  by (simp add: sum_later_credits_def sum_contributions prod_eq_iff)

lemma sum_later_valid_debits_eq:
  "sum_later_valid_debits rs checkpoint cutoff = Inr d \<Longrightarrow>
     d = (int (length (later is_debit debit_block checkpoint cutoff rs)),
          sum_list (map moved (later is_debit debit_block checkpoint cutoff rs)))"
  using debit_amounts.run_total_from_zero [of "(0, 0)" checkpoint cutoff rs d]
    debit_counts.run_total_from_zero [of "(0, 0)" checkpoint cutoff rs d]
  by (simp add: sum_later_valid_debits_def sum_contributions prod_eq_iff)

lemma shard1_balance_eq:
  assumes "shard1_balance cs ds checkpoint cutoff expected balance = Inr rep"
  shows "historical_balance rep = balance - sum_list (map moved (later is_credit credit_block checkpoint cutoff cs))
      + sum_list (map moved (later is_debit debit_block checkpoint cutoff ds))"
    and "0 \<le> historical_balance rep" and "checkpoint < cutoff"
    and "\<forall>e. expected = Some e \<longrightarrow> historical_balance rep = e"
  using assms
  by (auto simp: shard1_balance_def derive_def rbind_eq_Inr Let_def split: if_splits
      dest!: sum_later_credits_eq sum_later_valid_debits_eq)

text \<open>
  The derived balance. When the script succeeds, the balance it reports is not negative, is the
  expected one when one was given, and replaying the later movements from it gives the cutoff balance:
  adding every later credit and taking every later valid debit of the window after the checkpoint.
\<close>

theorem shard1_balance_replays:
  assumes "shard1_balance cs ds checkpoint cutoff expected balance = Inr rep"
  shows "0 \<le> historical_balance rep \<and> (\<forall>e. expected = Some e \<longrightarrow> historical_balance rep = e)
    \<and> historical_balance rep + sum_list (map moved (later is_credit credit_block checkpoint cutoff cs))
        - sum_list (map moved (later is_debit debit_block checkpoint cutoff ds)) = balance"
  using shard1_balance_eq [OF assms] by simp

text \<open>Adjacent windows.\<close>

lemma later_split:
  assumes "a \<le> b" and "b \<le> c"
  shows "sum_list (map moved (later P f a c rs))
    = sum_list (map moved (later P f a b rs)) + sum_list (map moved (later P f b c rs))"
  using assms by (induction rs) (auto simp: later_def in_window_def)

text \<open>The sum over the larger window succeeds when the sums over its two parts do.\<close>

lemma fold_counters_ok:
  assumes "\<And>st st' r. is_ok (step st r) \<longleftrightarrow> is_ok (step st' r)"
  shows "is_ok (fold_r step st rs) \<longleftrightarrow> (\<forall>r \<in> set rs. is_ok (step (0, 0) r))"
proof (induction rs arbitrary: st)
  case (Cons r rs)
  show ?case
  proof (cases "step st r")
    case (Inl e)
    then have "\<not> is_ok (step (0, 0) r)" using assms [of st r "(0, 0)"] by simp
    then show ?thesis using Inl by simp
  next
    case (Inr t)
    then have "is_ok (step (0, 0) r)" using assms [of st r "(0, 0)"] by simp
    then show ?thesis using Inr Cons.IH by simp
  qed
qed simp

lemma later_credit_ok: "is_ok (later_credit p q st r) \<longleftrightarrow> is_ok (later_credit p q st' r)"
  by (auto simp: later_credit_def add_amount_def is_ok_rbind split: sum.splits)

lemma later_debit_ok: "is_ok (later_debit p q st r) \<longleftrightarrow> is_ok (later_debit p q st' r)"
  by (auto simp: later_debit_def add_amount_def is_ok_rbind split: sum.splits)

lemma in_window_split: "a \<le> b \<Longrightarrow> b \<le> c \<Longrightarrow> in_window a c n \<longleftrightarrow> in_window a b n \<or> in_window b c n"
  by (auto simp: in_window_def)

lemma later_credit_join:
  assumes "a \<le> b" and "b \<le> c" and "is_ok (later_credit a b st r)" and "is_ok (later_credit b c st r)"
  shows "is_ok (later_credit a c st r)"
  using assms(3,4) in_window_split [OF assms(1,2)]
  by (auto simp: later_credit_def is_ok_rbind split: sum.splits if_splits)

lemma later_debit_join:
  assumes "a \<le> b" and "b \<le> c" and "is_ok (later_debit a b st r)" and "is_ok (later_debit b c st r)"
  shows "is_ok (later_debit a c st r)"
  using assms(3,4) in_window_split [OF assms(1,2)]
  by (auto simp: later_debit_def is_ok_rbind split: sum.splits if_splits)

lemma sums_join:
  assumes "a \<le> b" and "b \<le> c"
  shows "is_ok (sum_later_credits rs a b) \<Longrightarrow> is_ok (sum_later_credits rs b c) \<Longrightarrow> is_ok (sum_later_credits rs a c)"
    and "is_ok (sum_later_valid_debits rs a b) \<Longrightarrow> is_ok (sum_later_valid_debits rs b c) \<Longrightarrow>
      is_ok (sum_later_valid_debits rs a c)"
  unfolding sum_later_credits_def sum_later_valid_debits_def
    fold_counters_ok [of "later_credit x y" for x y, OF later_credit_ok]
    fold_counters_ok [of "later_debit x y" for x y, OF later_debit_ok]
  using later_credit_join [OF assms] later_debit_join [OF assms] by blast+

text \<open>
  Balances can be derived in steps. Deriving the balance at a middle checkpoint from the cutoff, and
  from it the balance at an earlier one, gives what the direct derivation over the whole window gives;
  and the direct derivation succeeds whenever the two steps do.
\<close>

theorem shard1_balance_in_steps:
  assumes "shard1_balance cs ds middle cutoff None balance = Inr later_report"
    and "shard1_balance cs ds checkpoint middle None (historical_balance later_report) = Inr earlier_report"
  shows "\<exists>direct. shard1_balance cs ds checkpoint cutoff None balance = Inr direct
    \<and> historical_balance direct = historical_balance earlier_report"
proof -
  note l = shard1_balance_eq [OF assms(1)] and e = shard1_balance_eq [OF assms(2)]
  have le: "checkpoint \<le> middle" "middle \<le> cutoff" using l(3) e(3) by simp_all
  have "is_ok (sum_later_credits cs checkpoint middle)" "is_ok (sum_later_credits cs middle cutoff)"
    "is_ok (sum_later_valid_debits ds checkpoint middle)" "is_ok (sum_later_valid_debits ds middle cutoff)"
    using assms by (auto simp: shard1_balance_def rbind_eq_Inr split: if_splits)
  then have "is_ok (sum_later_credits cs checkpoint cutoff)" "is_ok (sum_later_valid_debits ds checkpoint cutoff)"
    using sums_join [OF le] by blast+
  then obtain c d where c: "sum_later_credits cs checkpoint cutoff = Inr c" and d: "sum_later_valid_debits ds checkpoint cutoff = Inr d"
    by (auto simp: is_ok_iff)
  have "balance - snd c + snd d = historical_balance earlier_report"
    using e(1) l(1) later_split [OF le, of is_credit credit_block cs] later_split [OF le, of is_debit debit_block ds]
    by (simp add: sum_later_credits_eq [OF c] sum_later_valid_debits_eq [OF d])
  then show ?thesis using e(2,3) l(3) c d by (simp add: shard1_balance_def derive_def)
qed

definition example_credit :: row where
  "example_credit = [''destination_shard'' \<mapsto> ''1'', ''destination_block'' \<mapsto> ''15'', ''amount_atto'' \<mapsto> ''30'']"

definition example_debit :: row where
  "example_debit = [''source_shard'' \<mapsto> ''1'', ''classification'' \<mapsto> ''valid_source_debit'', ''source_block'' \<mapsto> ''8'',
     ''value_atto'' \<mapsto> ''12'']"

lemma example_shard1:
  "shard1_balance [example_credit] [example_debit] 10 20 None 100 = Inr \<lparr>credit_count = 1, credit_amount = 30,
     debit_count = 0, debit_amount = 0, historical_balance = 70\<rparr>"
  "shard1_balance [example_credit] [example_debit] 5 10 None 70 = Inr \<lparr>credit_count = 0, credit_amount = 0,
     debit_count = 1, debit_amount = 12, historical_balance = 82\<rparr>"
  by code_simp+

theorem shard1_balance_replays_witness:
  "sum_list (map moved (later is_credit credit_block 10 20 [example_credit])) = 30
     + sum_list (map moved (later is_debit debit_block 10 20 [example_debit]))"
  using shard1_balance_replays [OF example_shard1(1)] by simp

theorem shard1_balance_in_steps_witness:
  "\<exists>direct. shard1_balance [example_credit] [example_debit] 5 20 None 100 = Inr direct \<and> historical_balance direct = 82"
  using shard1_balance_in_steps [OF example_shard1(1), of 5] example_shard1(2) by auto

end
