(* ===== verification/Defaultdict.thy ===== *)
theory Defaultdict
  imports Prelude "HOL-Library.AList"
begin

section \<open>Dictionaries of running totals\<close>

text \<open>
  A \<open>defaultdict\<close> or \<open>Counter\<close> whose values are summed, counted or iterated over later is an
  association list in the order its keys were added, as a Python dictionary is. \<open>adjust z k f d\<close> is
  \<open>d[k] = f(d[k])\<close> with the default \<open>z\<close>. The lemmas say what one entry is afterwards and what the sum
  of a counter over all entries is.
\<close>

type_synonym ('k, 'v) dict = "('k \<times> 'v) list"

definition entry :: "'v \<Rightarrow> ('k, 'v) dict \<Rightarrow> 'k \<Rightarrow> 'v" where
  "entry z d k = get_or (map_of d) k z"

definition adjust :: "'v \<Rightarrow> 'k \<Rightarrow> ('v \<Rightarrow> 'v) \<Rightarrow> ('k, 'v) dict \<Rightarrow> ('k, 'v) dict" where
  "adjust z k f d = AList.update k (f (entry z d k)) d"

text \<open>\<open>labels.add(l)\<close> on a set, kept as the list of its elements.\<close>

definition add_label :: "'a \<Rightarrow> 'a list \<Rightarrow> 'a list" where
  "add_label l ls = (if l \<in> set ls then ls else ls @ [l])"

abbreviation keys :: "('k, 'v) dict \<Rightarrow> 'k list" where
  "keys d \<equiv> map fst d"

definition total_of :: "('v \<Rightarrow> int) \<Rightarrow> ('k, 'v) dict \<Rightarrow> int" where
  "total_of g d = sum_list (map (\<lambda>kv. g (snd kv)) d)"

named_theorems dict_simps \<open>entries and totals of dictionaries after an update\<close>

lemma entry_Nil [dict_simps]: "entry z [] k = z"
  and total_of_Nil [dict_simps]: "total_of g [] = 0"
  by (simp_all add: entry_def total_of_def get_or_def)

lemma entry_adjust [dict_simps]: "entry z (adjust z k f d) j = (if j = k then f (entry z d k) else entry z d j)"
  by (simp add: adjust_def entry_def get_or_def update_conv' fun_upd_def)

lemma keys_adjust: "set (keys (adjust z k f d)) = insert k (set (keys d))"
proof -
  have "dom (map_of (adjust z k f d)) = insert k (dom (map_of d))"
    unfolding adjust_def by (simp add: update_conv')
  then show ?thesis by (simp add: dom_map_of_conv_image_fst)
qed

lemma distinct_adjust: "distinct (keys d) \<Longrightarrow> distinct (keys (adjust z k f d))"
  unfolding adjust_def by (rule distinct_update)

lemma total_of_update:
  assumes "distinct (keys d)"
  shows "total_of g (AList.update k v d) = total_of g d + g v - (case map_of d k of None \<Rightarrow> 0 | Some w \<Rightarrow> g w)"
  using assms
proof (induction d)
  case (Cons kv d)
  show ?case
  proof (cases "fst kv = k")
    case True
    then show ?thesis by (simp add: total_of_def)
  next
    case False
    then show ?thesis using Cons by (auto simp: total_of_def)
  qed
qed (simp add: total_of_def)

lemma total_of_adjust:
  assumes "distinct (keys d)" and "g z = 0"
  shows "total_of g (adjust z k f d) = total_of g d + g (f (entry z d k)) - g (entry z d k)"
  using assms by (simp add: adjust_def total_of_update entry_def get_or_def split: option.split)

lemma entry_absent: "k \<notin> set (keys d) \<Longrightarrow> entry z d k = z"
proof -
  assume "k \<notin> set (keys d)"
  then have "map_of d k = None" by (simp only: map_of_eq_None_iff set_map not_False_eq_True)
  then show ?thesis by (simp add: entry_def get_or_def)
qed

lemma total_of_entries:
  assumes "distinct (keys d)"
  shows "total_of g d = (\<Sum>k \<in> set (keys d). g (entry z d k))"
  using assms
proof (induction d)
  case (Cons kv d)
  have "(\<Sum>k \<in> set (keys d). g (entry z (kv # d) k)) = (\<Sum>k \<in> set (keys d). g (entry z d k))"
    using Cons.prems by (intro sum.cong refl) (metis (no_types, lifting) distinct.simps(2) entry_def get_or_def list.map(2) map_of_Cons_code(2) prod.collapse)
  then show ?case using Cons by (simp add: total_of_def entry_def get_or_def)
qed (simp add: total_of_def)

lemma entries_sum:
  fixes g :: "'v \<Rightarrow> int"
  assumes "distinct (keys d)" and "distinct as" and "set (keys d) \<subseteq> set as" and "g z = 0"
  shows "(\<Sum>a\<leftarrow>as. g (entry z d a)) = total_of g d"
proof -
  have "(\<Sum>a\<leftarrow>as. g (entry z d a)) = (\<Sum>a \<in> set as. g (entry z d a))"
    using assms(2) by (simp add: sum_list_distinct_conv_sum_set)
  also have "\<dots> = (\<Sum>a \<in> set (keys d). g (entry z d a))"
    using assms(3,4) by (intro sum.mono_neutral_right) (auto simp: entry_absent simp del: set_map)
  finally show ?thesis using total_of_entries [OF assms(1)] by simp
qed

text \<open>
  The interface of a loop that keeps one dictionary of statistics, as most of the scripts do: the body adjusts
  the entry under the key of its item by a function of the item, or leaves the dictionary alone. The client proves the
  value of each entry and of every total once.
\<close>

locale tallying_loop =
  fixes step :: "'s \<Rightarrow> 'x \<Rightarrow> 's result"
    and table :: "'s \<Rightarrow> ('k, 'v) dict"
    and zero :: 'v
    and key :: "'x \<Rightarrow> 'k"
    and counted :: "'x \<Rightarrow> bool"
    and counter :: "'v \<Rightarrow> int"
    and amount :: "'x \<Rightarrow> int"
  assumes counter_zero: "counter zero = 0"
    and step_counted: "step s x = Inr s' \<Longrightarrow> counted x \<Longrightarrow>
      \<exists>f. table s' = adjust zero (key x) f (table s) \<and> (\<forall>v. counter (f v) = counter v + amount x)"
    and step_skipped: "step s x = Inr s' \<Longrightarrow> \<not> counted x \<Longrightarrow> table s' = table s"
begin

lemma step_distinct: "step s x = Inr s' \<Longrightarrow> distinct (keys (table s)) \<Longrightarrow> distinct (keys (table s'))"
  by (cases "counted x") (use step_counted step_skipped in \<open>force intro: distinct_adjust\<close>)+

lemma step_total:
  assumes "step s x = Inr s'" and "distinct (keys (table s))"
  shows "total_of counter (table s') = total_of counter (table s) + (if counted x then amount x else 0)"
proof (cases "counted x")
  case True
  then obtain f where "table s' = adjust zero (key x) f (table s)" "\<forall>v. counter (f v) = counter v + amount x"
    using step_counted [OF assms(1)] by blast
  then show ?thesis using True assms(2) counter_zero by (simp add: total_of_adjust)
qed (use assms step_skipped in simp)

lemma step_entry:
  assumes "step s x = Inr s'"
  shows "counter (entry zero (table s') k) = counter (entry zero (table s) k) + (if counted x \<and> key x = k then amount x else 0)"
proof (cases "counted x")
  case True
  then obtain f where "table s' = adjust zero (key x) f (table s)" "\<forall>v. counter (f v) = counter v + amount x"
    using step_counted [OF assms(1)] by blast
  then show ?thesis using True by (simp add: dict_simps)
qed (use assms step_skipped in simp)

lemma run_total:
  "fold_r step s xs = Inr s' \<Longrightarrow> distinct (keys (table s)) \<Longrightarrow>
     total_of counter (table s') = total_of counter (table s) + sum_list (map amount (filter counted xs))
     \<and> distinct (keys (table s'))"
proof (induction xs arbitrary: s)
  case (Cons x xs)
  from Cons.prems(1) obtain t where t: "step s x = Inr t" and rest: "fold_r step t xs = Inr s'"
    by (auto simp: rbind_eq_Inr)
  from Cons.IH [OF rest step_distinct [OF t Cons.prems(2)]] step_total [OF t Cons.prems(2)]
  show ?case by simp
qed simp

lemma run_entry:
  "fold_r step s xs = Inr s' \<Longrightarrow>
     counter (entry zero (table s') k) = counter (entry zero (table s) k)
       + sum_list (map amount (filter (\<lambda>x. counted x \<and> key x = k) xs))"
proof (induction xs arbitrary: s)
  case (Cons x xs)
  from Cons.prems(1) obtain t where t: "step s x = Inr t" and rest: "fold_r step t xs = Inr s'"
    by (auto simp: rbind_eq_Inr)
  from Cons.IH [OF rest] step_entry [OF t, of k] show ?case by auto
qed simp

lemma run_keys:
  "fold_r step s xs = Inr s' \<Longrightarrow> set (keys (table s')) = set (keys (table s)) \<union> key ` set (filter counted xs)"
proof (induction xs arbitrary: s)
  case (Cons x xs)
  from Cons.prems(1) obtain t where t: "step s x = Inr t" and rest: "fold_r step t xs = Inr s'"
    by (auto simp: rbind_eq_Inr)
  show ?case
  proof (cases "counted x")
    case True
    then obtain f where "table t = adjust zero (key x) f (table s)" using step_counted [OF t] by blast
    then have "set (keys (table t)) = insert (key x) (set (keys (table s)))" by (simp only: keys_adjust)
    then show ?thesis using Cons.IH [OF rest] True by (simp del: set_map)
  next
    case False
    then show ?thesis using Cons.IH [OF rest] step_skipped [OF t] by simp
  qed
qed simp

end

end
