(* ===== verification/RevertLeak.thy ===== *)
theory RevertLeak
  imports Address Closure Defaultdict
begin

section \<open>Withholding leaked credits: \<open>build-revert-leak-retention.py\<close>\<close>

text \<open>
  Every destination of a proven leak is credited with the amounts of its leaked receipts, each receipt
  counted once however many audit files repeat it. What is withheld from a destination is its leaked
  credit, but not more than what its cutoff claim leaves after earlier withholdings. The result is one row per
  destination from which something is withheld, and statistics by incident.
\<close>

subsection \<open>The code\<close>

definition LEAK_CLASSIFICATIONS :: "string list" where
  "LEAK_CLASSIFICATIONS = [''rollback_leak'', ''source_debit_absent'']"

definition INCIDENT_LABELS :: "string \<rightharpoonup> string" where
  "INCIDENT_LABELS = [''may-2025'' \<mapsto> ''may-2025'', ''april-2026'' \<mapsto> ''april-2026'', ''smaller-2026'' \<mapsto> ''june-july-2026'']"

type_synonym leak_key = "string \<times> string \<times> string"

text \<open>The dictionaries share their keys: \<open>recipients\<close> lists them in the order they were added.\<close>

record leaks =
  recipients :: "string list"
  leak_credit :: "string \<rightharpoonup> int"
  leak_receipts :: "string \<rightharpoonup> int"
  leak_incidents :: "string \<rightharpoonup> string list"
  seen_leaks :: "leak_key list"

definition no_leaks :: leaks where
  "no_leaks = \<lparr>recipients = [], leak_credit = Map.empty, leak_receipts = Map.empty, leak_incidents = Map.empty, seen_leaks = []\<rparr>"

definition is_leak_row :: "row \<Rightarrow> bool" where
  "is_leak_row r = (case r ''classification'' of None \<Rightarrow> False | Some c \<Rightarrow> c \<in> set LEAK_CLASSIFICATIONS)"

definition leak_key_of :: "row \<Rightarrow> leak_key result" where
  "leak_key_of r = rbind (getitem r ''tx_hash'') (\<lambda>h.
     Inr (lower h, get_or r ''receipt_index'' [], get_or r ''destination_block'' []))"

definition credit_leak :: "leaks \<Rightarrow> leak_key \<Rightarrow> string \<Rightarrow> int \<Rightarrow> string \<Rightarrow> leaks" where
  "credit_leak s key a amount incident =
     \<lparr>recipients = (if a \<in> set (recipients s) then recipients s else recipients s @ [a]),
      leak_credit = (leak_credit s)(a \<mapsto> get_or (leak_credit s) a 0 + amount),
      leak_receipts = (leak_receipts s)(a \<mapsto> get_or (leak_receipts s) a 0 + 1),
      leak_incidents = (leak_incidents s)(a \<mapsto> add_label incident (get_or (leak_incidents s) a [])),
      seen_leaks = seen_leaks s @ [key]\<rparr>"

definition load_leak :: "(string \<rightharpoonup> string) \<Rightarrow> leaks \<Rightarrow> row \<Rightarrow> leaks result" where
  "load_leak incident_by_tx s r =
     (if \<not> is_leak_row r then Inr s
      else rbind (leak_key_of r) (\<lambda>key.
        if key \<in> set (seen_leaks s) then Inr s
        else rbind (getitem r ''to'') (\<lambda>to.
             rbind (rbind (getitem r ''amount_atto'') py_int) (\<lambda>amount.
               if amount \<le> 0 then Inl (ValueError ''non-positive leak receipt'')
               else Inr (credit_leak s key (lower to) amount
                 (get_or incident_by_tx (lower (get_or r ''source_transaction_hash'' [])) ''unattributed''))))))"

definition load_leaks :: "(string \<rightharpoonup> string) \<Rightarrow> row list list \<Rightarrow> leaks result" where
  "load_leaks incident_by_tx files = fold_r (load_leak incident_by_tx) no_leaks (concat files)"

definition add_prior :: "string \<Rightarrow> (string \<rightharpoonup> int) \<Rightarrow> row \<Rightarrow> (string \<rightharpoonup> int) result" where
  "add_prior field m r =
     rbind (getitem r ''address_hex'') (\<lambda>a.
     rbind (rbind (getitem r field) py_int) (\<lambda>n. Inr (m(lower a \<mapsto> get_or m (lower a) 0 + n))))"

definition load_prior :: "string \<Rightarrow> row list list \<Rightarrow> (string \<rightharpoonup> int) result" where
  "load_prior field files = fold_r (add_prior field) Map.empty (concat files)"

text \<open>\<open>prior[address] += amount\<close> for every entry of the second dictionary.\<close>

definition merge_prior :: "(string \<rightharpoonup> int) \<Rightarrow> (string \<rightharpoonup> int) \<Rightarrow> (string \<rightharpoonup> int)" where
  "merge_prior m n = (\<lambda>a. case n a of None \<Rightarrow> m a | Some x \<Rightarrow> Some (get_or m a 0 + x))"

definition add_claim :: "string list \<Rightarrow> (string \<rightharpoonup> int) \<Rightarrow> row \<Rightarrow> (string \<rightharpoonup> int) result" where
  "add_claim wanted m r =
     rbind (getitem r ''address'') (\<lambda>s. let a = lower s in
       if a \<notin> set wanted then Inr m
       else if m a \<noteq> None then Inl (ValueError ''duplicate claim row'')
       else rbind (rbind (getitem r ''native_total_claim_atto'') py_int) (\<lambda>n. Inr (m(a \<mapsto> n))))"

definition load_claims :: "row list \<Rightarrow> string list \<Rightarrow> (string \<rightharpoonup> int) result" where
  "load_claims rs wanted = fold_r (add_claim wanted) Map.empty rs"

definition add_incident :: "(string \<rightharpoonup> string) \<Rightarrow> row \<Rightarrow> (string \<rightharpoonup> string) result" where
  "add_incident m r = rbind (getitem r ''transaction_hash'') (\<lambda>h. rbind (getitem r ''incident'') (\<lambda>i. Inr (m(lower h \<mapsto> i))))"

record incident_stats =
  st_recipients :: int
  st_credit :: int
  st_positive_rows :: int
  st_not_issued :: int

definition no_stats :: incident_stats where
  "no_stats = \<lparr>st_recipients = 0, st_credit = 0, st_positive_rows = 0, st_not_issued = 0\<rparr>"

record retention_row =
  rt_bech32 :: string
  rt_hex :: string
  rt_incident :: string
  rt_credit :: int
  rt_receipts :: int
  rt_claim :: int
  rt_prior :: int
  rt_withheld :: int
  rt_withheld_one :: string

definition incident_of :: "leaks \<Rightarrow> string \<Rightarrow> string" where
  "incident_of s a = join ''+'' (sort (map (\<lambda>l. get_or INCIDENT_LABELS l l) (get_or (leak_incidents s) a [])))"

definition withheld_from :: "leaks \<Rightarrow> (string \<rightharpoonup> int) \<Rightarrow> (string \<rightharpoonup> int) \<Rightarrow> string \<Rightarrow> int" where
  "withheld_from s prior claims a =
     (let remaining = max (get_or claims a 0 - get_or prior a 0) 0 in min (get_or (leak_credit s) a 0) remaining)"

definition retain_address ::
  "leaks \<Rightarrow> (string \<rightharpoonup> int) \<Rightarrow> (string \<rightharpoonup> int) \<Rightarrow> (string \<rightharpoonup> incident_stats) \<times> retention_row list \<Rightarrow> string
     \<Rightarrow> ((string \<rightharpoonup> incident_stats) \<times> retention_row list) result" where
  "retain_address s prior claims st a =
     (let incident = incident_of s a;
          claim = get_or claims a 0;
          withheld = withheld_from s prior claims a;
          amount = get_or (leak_credit s) a 0;
          stats = get_or (fst st) incident no_stats;
          stats' = stats\<lparr>st_recipients := st_recipients stats + 1, st_credit := st_credit stats + amount\<rparr>
      in if withheld = 0 then Inr ((fst st)(incident \<mapsto> stats'), snd st)
         else rbind (to_bech32 a) (\<lambda>bech32.
           Inr ((fst st)(incident \<mapsto> stats'\<lparr>st_positive_rows := st_positive_rows stats' + 1,
                                           st_not_issued := st_not_issued stats' + withheld\<rparr>),
                snd st @ [\<lparr>rt_bech32 = bech32, rt_hex = a, rt_incident = incident, rt_credit = amount,
                  rt_receipts = get_or (leak_receipts s) a 0, rt_claim = claim, rt_prior = get_or prior a 0,
                  rt_withheld = withheld, rt_withheld_one = display_one withheld\<rparr>])))"

record retention =
  retention_leaks :: leaks
  retention_prior :: "string \<rightharpoonup> int"
  retention_claims :: "string \<rightharpoonup> int"
  retention_rows :: "retention_row list"
  by_incident :: "string \<rightharpoonup> incident_stats"
  total_credit :: int
  total_withheld :: int

definition build_retention ::
  "row list \<Rightarrow> row list list \<Rightarrow> row list list \<Rightarrow> row list list \<Rightarrow> row list \<Rightarrow> retention result" where
  "build_retention exploit_rows audits prior_retention prior_non_issuance claim_rows =
     rbind (fold_r add_incident Map.empty exploit_rows) (\<lambda>incident_by_tx.
     rbind (load_leaks incident_by_tx audits) (\<lambda>s.
     rbind (load_prior ''retained_cap_atto'' prior_retention) (\<lambda>p1.
     rbind (load_prior ''not_issued_atto'' prior_non_issuance) (\<lambda>p2.
     rbind (load_claims claim_rows (recipients s)) (\<lambda>claims.
       let prior = merge_prior p1 p2 in
       rbind (fold_r (retain_address s prior claims) (Map.empty, []) (sort (recipients s))) (\<lambda>st.
         Inr \<lparr>retention_leaks = s, retention_prior = prior, retention_claims = claims, retention_rows = snd st,
              by_incident = fst st,
              total_credit = sum_list (map (\<lambda>a. get_or (leak_credit s) a 0) (recipients s)),
              total_withheld = sum_list (map rt_withheld (snd st))\<rparr>))))))"

text \<open>The row written for a destination, and the summary; the digests of the inputs are a parameter.\<close>

definition retention_output :: "int \<Rightarrow> retention_row \<Rightarrow> row" where
  "retention_output cutoff_block w =
     [''address_bech32'' \<mapsto> rt_bech32 w, ''address_hex'' \<mapsto> rt_hex w, ''incident'' \<mapsto> rt_incident w,
      ''unbacked_credit_atto'' \<mapsto> py_str (rt_credit w), ''leak_receipts'' \<mapsto> py_str (rt_receipts w),
      ''cutoff_native_claim_atto'' \<mapsto> py_str (rt_claim w), ''prior_non_issuance_atto'' \<mapsto> py_str (rt_prior w),
      ''retained_cap_atto'' \<mapsto> py_str (rt_withheld w), ''retained_cap_one'' \<mapsto> rt_withheld_one w,
      ''cutoff_block'' \<mapsto> py_str cutoff_block,
      ''source_evidence'' \<mapsto> ''proven revert-leak receipts (cx-source-audit classification)'',
      ''migration_treatment'' \<mapsto> ''not_issued'']"

definition incident_json :: "incident_stats \<Rightarrow> json" where
  "incident_json v = JDict [(''recipients'', JInt (st_recipients v)),
     (''unbacked_credit_atto'', JStr (py_str (st_credit v))), (''unbacked_credit_one'', JStr (display_one (st_credit v))),
     (''positive_rows'', JInt (st_positive_rows v)),
     (''not_issued_atto'', JStr (py_str (st_not_issued v))), (''not_issued_one'', JStr (display_one (st_not_issued v)))]"

definition retention_summary :: "retention \<Rightarrow> int \<Rightarrow> string \<Rightarrow> string \<Rightarrow> json \<Rightarrow> json" where
  "retention_summary ret cutoff_block csv_name csv_digest sources =
     (let s = retention_leaks ret in JDict
      [(''status'', JStr ''passed''),
       (''_provenance'', JDict [(''classification'', JStr ''policy scenario''),
          (''factual_input'', JStr ''proven revert-leak receipts and cutoff-pinned native claims''),
          (''note'', JStr ''the credited amounts are factual; not issuing them is a migration policy'')]),
       (''rule'', JStr (''for each destination credited by a proven revert-leak receipt, do not issue ''
          @ ''min(total credited, native cutoff claim minus earlier non-issuance)'')),
       (''leak_classifications'', JList (map JStr (sort LEAK_CLASSIFICATIONS))),
       (''leak_receipts'', JInt (int (length (seen_leaks s)))),
       (''credited_recipients'', JInt (int (length (recipients s)))),
       (''unbacked_credit_atto'', JStr (py_str (total_credit ret))),
       (''unbacked_credit_one'', JStr (display_one (total_credit ret))),
       (''positive_rows'', JInt (int (length (retention_rows ret)))),
       (''not_issued_atto'', JStr (py_str (total_withheld ret))),
       (''not_issued_one'', JStr (display_one (total_withheld ret))),
       (''addresses_with_earlier_non_issuance'',
          JList (map JStr (sort (filter (\<lambda>a. get_or (retention_prior ret) a 0 \<noteq> 0) (recipients s))))),
       (''by_incident'', JDict (map (\<lambda>l. (l, incident_json (get_or (by_incident ret) l no_stats)))
          (sort (remdups (map (incident_of s) (recipients s)))))),
       (''cutoff_block'', JInt cutoff_block),
       (''sources'', sources),
       (''outputs'', JDict [(''csv'', JStr csv_name), (''csv_sha256'', JStr csv_digest),
          (''rows'', JInt (int (length (retention_rows ret))))])])"

subsection \<open>Each receipt once\<close>

definition key_of_row :: "row \<Rightarrow> leak_key" where
  "key_of_row r = (case leak_key_of r of Inl _ \<Rightarrow> ([], [], []) | Inr k \<Rightarrow> k)"

definition leak_amount :: "row \<Rightarrow> int" where
  "leak_amount r = (case rbind (getitem r ''amount_atto'') py_int of Inl _ \<Rightarrow> 0 | Inr n \<Rightarrow> n)"

definition leak_to :: "row \<Rightarrow> string" where
  "leak_to r = lower (get_or r ''to'' [])"

text \<open>The leak rows that come first with their key.\<close>

fun firsts :: "leak_key set \<Rightarrow> row list \<Rightarrow> row list" where
  "firsts known [] = []"
| "firsts known (r # rs) = (if is_leak_row r \<and> key_of_row r \<notin> known then r # firsts (insert (key_of_row r) known) rs
     else firsts known rs)"

definition credited :: "row list \<Rightarrow> string \<Rightarrow> int" where
  "credited rs a = sum_list (map leak_amount (filter (\<lambda>r. leak_to r = a) rs))"

lemma load_leak_cases:
  assumes "load_leak tx s r = Inr s'"
  shows "if is_leak_row r \<and> key_of_row r \<notin> set (seen_leaks s)
    then 0 < leak_amount r \<and> (\<exists>incident. s' = credit_leak s (key_of_row r) (leak_to r) (leak_amount r) incident)
    else s' = s"
proof (cases "is_leak_row r")
  case True
  then obtain key where key: "leak_key_of r = Inr key" using assms by (auto simp: load_leak_def rbind_eq_Inr)
  then have k: "key_of_row r = key" by (simp add: key_of_row_def)
  show ?thesis
  proof (cases "key \<in> set (seen_leaks s)")
    case False
    with assms True key obtain to m n where to: "getitem r ''to'' = Inr to"
      and n: "getitem r ''amount_atto'' = Inr m" "py_int m = Inr n" "0 < n"
      and s': "s' = credit_leak s key (lower to) n
        (get_or tx (lower (get_or r ''source_transaction_hash'' [])) ''unattributed'')"
      by (auto simp: load_leak_def rbind_eq_Inr not_le split: if_splits)
    have "leak_to r = lower to" "leak_amount r = n" using to n by (simp_all add: leak_to_def leak_amount_def getitem_get_or)
    then show ?thesis using True False n s' k by auto
  qed (use assms True key k in \<open>simp add: load_leak_def\<close>)
qed (use assms in \<open>simp add: load_leak_def\<close>)

lemma load_leak_lower:
  assumes "\<forall>a \<in> set (recipients s). lower a = a" and "load_leak tx s r = Inr s'"
  shows "\<forall>a \<in> set (recipients s'). lower a = a"
  using load_leak_cases [OF assms(2)] assms(1)
  by (auto simp: credit_leak_def leak_to_def split: if_splits)

interpretation lower_loop: invariant_loop "load_leak tx" "\<lambda>s. \<forall>a \<in> set (recipients s). lower a = a" for tx
  by unfold_locales (rule load_leak_lower)

definition leaks_ok :: "leaks \<Rightarrow> bool" where
  "leaks_ok s \<longleftrightarrow> distinct (recipients s) \<and> set (recipients s) = dom (leak_credit s) \<and> dom (leak_receipts s) = dom (leak_credit s)
     \<and> distinct (seen_leaks s) \<and> (\<forall>a \<in> dom (leak_credit s). 0 < get_or (leak_credit s) a 0)"

lemma load_leak_ok: "leaks_ok s \<Longrightarrow> load_leak tx s r = Inr s' \<Longrightarrow> leaks_ok s'"
proof -
  assume ok: "leaks_ok s" and step: "load_leak tx s r = Inr s'"
  have nonneg: "0 \<le> get_or (leak_credit s) a 0" for a
    using ok by (cases "a \<in> dom (leak_credit s)") (auto simp: leaks_ok_def get_or_def domIff intro: less_imp_le)
  show "leaks_ok s'"
  proof (cases "is_leak_row r \<and> key_of_row r \<notin> set (seen_leaks s)")
    case True
    then obtain incident where pos: "0 < leak_amount r"
      and s': "s' = credit_leak s (key_of_row r) (leak_to r) (leak_amount r) incident"
      using load_leak_cases [OF step] by auto
    show ?thesis using ok True pos nonneg [of "leak_to r"]
      by (auto simp: leaks_ok_def s' credit_leak_def get_or_def split: if_splits)
  next
    case False
    then show ?thesis using load_leak_cases [OF step] ok by simp
  qed
qed

interpretation leak_loop: invariant_loop "load_leak tx" leaks_ok for tx
  by unfold_locales (rule load_leak_ok)

lemma no_leaks_ok: "leaks_ok no_leaks"
  by (simp add: leaks_ok_def no_leaks_def)

lemma load_leaks_firsts:
  assumes "fold_r (load_leak tx) s rs = Inr s'"
  defines "new \<equiv> firsts (set (seen_leaks s)) rs"
  shows "get_or (leak_credit s') a 0 = get_or (leak_credit s) a 0 + credited new a
    \<and> get_or (leak_receipts s') a 0 = get_or (leak_receipts s) a 0 + int (length (filter (\<lambda>r. leak_to r = a) new))
    \<and> seen_leaks s' = seen_leaks s @ map key_of_row new"
  using assms(1) unfolding new_def
proof (induction rs arbitrary: s)
  case (Cons r rs)
  then obtain t where t: "load_leak tx s r = Inr t" and rest: "fold_r (load_leak tx) t rs = Inr s'"
    by (auto simp: rbind_eq_Inr)
  show ?case
  proof (cases "is_leak_row r \<and> key_of_row r \<notin> set (seen_leaks s)")
    case True
    then obtain incident where "t = credit_leak s (key_of_row r) (leak_to r) (leak_amount r) incident"
      using load_leak_cases [OF t] by auto
    then have t': "get_or (leak_credit t) a 0 = get_or (leak_credit s) a 0 + (if leak_to r = a then leak_amount r else 0)"
      "get_or (leak_receipts t) a 0 = get_or (leak_receipts s) a 0 + (if leak_to r = a then 1 else 0)"
      "seen_leaks t = seen_leaks s @ [key_of_row r]"
      by (simp_all add: credit_leak_def)
    show ?thesis using Cons.IH [OF rest] True by (simp add: t' credited_def)
  next
    case False
    then have "t = s" using load_leak_cases [OF t] by simp
    then show ?thesis using Cons.IH [OF rest] False by auto
  qed
qed (simp add: credited_def)

lemma firsts_known:
  "set (map key_of_row (firsts known rs)) \<union> known = key_of_row ` set (filter is_leak_row rs) \<union> known"
proof (induction rs arbitrary: known)
  case (Cons r rs)
  show ?case
  proof (cases "is_leak_row r \<and> key_of_row r \<notin> known")
    case True
    then show ?thesis using Cons.IH [of "insert (key_of_row r) known"] by simp
  next
    case False
    then show ?thesis using Cons.IH [of known] by auto
  qed
qed simp

lemma load_repeated:
  assumes "\<forall>r \<in> set rs. is_leak_row r \<longrightarrow> (\<exists>k. leak_key_of r = Inr k) \<and> key_of_row r \<in> set (seen_leaks s)"
  shows "fold_r (load_leak tx) s rs = Inr s"
  using assms by (induction rs) (auto simp: load_leak_def key_of_row_def)

text \<open>
  A receipt is credited once. The credit of a destination is the sum of the amounts of the leaked
  receipts to it, each counted only the first time its transaction, index and destination block appear;
  every destination with a credit has a positive one.
\<close>

theorem leaks_credit_each_receipt_once:
  assumes "load_leaks tx files = Inr s"
  shows "get_or (leak_credit s) a 0 = credited (firsts {} (concat files)) a
    \<and> get_or (leak_receipts s) a 0 = int (length (filter (\<lambda>r. leak_to r = a) (firsts {} (concat files))))
    \<and> seen_leaks s = map key_of_row (firsts {} (concat files)) \<and> distinct (seen_leaks s)
    \<and> (a \<in> set (recipients s) \<longleftrightarrow> 0 < get_or (leak_credit s) a 0)"
proof -
  have run: "fold_r (load_leak tx) no_leaks (concat files) = Inr s" using assms by (simp add: load_leaks_def)
  have ok: "leaks_ok s" by (rule leak_loop.run_inv [OF no_leaks_ok run])
  have "a \<in> set (recipients s) \<longleftrightarrow> 0 < get_or (leak_credit s) a 0"
    using ok by (cases "a \<in> dom (leak_credit s)") (auto simp: leaks_ok_def get_or_def domIff)
  then show ?thesis using load_leaks_firsts [OF run, of a] ok by (simp add: leaks_ok_def no_leaks_def)
qed

lemma load_leak_keyed:
  "fold_r (load_leak tx) s rs = Inr s' \<Longrightarrow> r \<in> set rs \<Longrightarrow> is_leak_row r \<Longrightarrow> \<exists>k. leak_key_of r = Inr k"
proof (induction rs arbitrary: s)
  case (Cons q rs)
  then obtain t where t: "load_leak tx s q = Inr t" "fold_r (load_leak tx) t rs = Inr s'" by (auto simp: rbind_eq_Inr)
  show ?case
  proof (cases "r = q")
    case True
    then show ?thesis using t(1) Cons.prems(3) by (auto simp: load_leak_def rbind_eq_Inr)
  next
    case False
    then show ?thesis using Cons.IH [OF t(2)] Cons.prems(2,3) by simp
  qed
qed simp

text \<open>
  Overlapping exports. Loading further audit files whose rows all occur in the files already loaded
  changes nothing: no receipt is credited twice because two exports repeat it.
\<close>

theorem leaks_ignore_repeated_rows:
  assumes "load_leaks tx files = Inr s" and "set (concat again) \<subseteq> set (concat files)"
  shows "load_leaks tx (files @ again) = Inr s"
proof -
  have run: "fold_r (load_leak tx) no_leaks (concat files) = Inr s" using assms(1) by (simp add: load_leaks_def)
  have "seen_leaks s = map key_of_row (firsts {} (concat files))"
    using load_leaks_firsts [OF run] by (simp add: no_leaks_def)
  then have "set (seen_leaks s) = key_of_row ` set (filter is_leak_row (concat files))"
    using firsts_known [of "{}" "concat files"] by simp
  then have "fold_r (load_leak tx) s (concat again) = Inr s"
    using assms(2) load_leak_keyed [OF run] by (intro load_repeated) (auto simp del: set_concat)
  then show ?thesis using run by (simp add: load_leaks_def fold_r_append)
qed

subsection \<open>What is withheld\<close>

definition prior_of :: "retention \<Rightarrow> string \<Rightarrow> int" where
  "prior_of ret a = get_or (retention_prior ret) a 0"

definition claim_of :: "retention \<Rightarrow> string \<Rightarrow> int" where
  "claim_of ret a = get_or (retention_claims ret) a 0"

definition row_ok :: "leaks \<Rightarrow> (string \<rightharpoonup> int) \<Rightarrow> (string \<rightharpoonup> int) \<Rightarrow> retention_row \<Rightarrow> bool" where
  "row_ok s prior claims w \<longleftrightarrow> to_bech32 (rt_hex w) = Inr (rt_bech32 w)
     \<and> rt_credit w = get_or (leak_credit s) (rt_hex w) 0 \<and> rt_claim w = get_or claims (rt_hex w) 0
     \<and> rt_prior w = get_or prior (rt_hex w) 0 \<and> rt_withheld w = withheld_from s prior claims (rt_hex w)
     \<and> rt_withheld w \<noteq> 0 \<and> rt_incident w = incident_of s (rt_hex w) \<and> rt_withheld_one w = display_one (rt_withheld w)"

lemma retain_address_rows:
  assumes "retain_address s prior claims st a = Inr st'"
  shows "if withheld_from s prior claims a = 0 then snd st' = snd st
    else \<exists>w. snd st' = snd st @ [w] \<and> rt_hex w = a \<and> row_ok s prior claims w"
  using assms by (auto simp: retain_address_def Let_def rbind_eq_Inr row_ok_def)

lemma retain_rows:
  "fold_r (retain_address s prior claims) st as = Inr st' \<Longrightarrow>
     \<exists>ws. snd st' = snd st @ ws \<and> map rt_hex ws = filter (\<lambda>a. withheld_from s prior claims a \<noteq> 0) as
       \<and> (\<forall>w \<in> set ws. row_ok s prior claims w)"
proof (induction as arbitrary: st)
  case (Cons a as)
  then obtain t where t: "retain_address s prior claims st a = Inr t"
    and rest: "fold_r (retain_address s prior claims) t as = Inr st'" by (auto simp: rbind_eq_Inr)
  from Cons.IH [OF rest] obtain ws where ws: "snd st' = snd t @ ws"
    "map rt_hex ws = filter (\<lambda>a. withheld_from s prior claims a \<noteq> 0) as" "\<forall>w \<in> set ws. row_ok s prior claims w" by blast
  show ?case
  proof (cases "withheld_from s prior claims a = 0")
    case True
    then show ?thesis using retain_address_rows [OF t] ws by auto
  next
    case False
    then obtain w where "snd t = snd st @ [w]" "rt_hex w = a" "row_ok s prior claims w"
      using retain_address_rows [OF t] by auto
    then show ?thesis using ws False by (intro exI [of _ "w # ws"]) simp
  qed
qed simp

text \<open>The statistics of one incident, each a running total of the loop.\<close>

definition stats_of :: "(string \<rightharpoonup> incident_stats) \<times> retention_row list \<Rightarrow> string \<Rightarrow> incident_stats" where
  "stats_of st l = get_or (fst st) l no_stats"

lemma retain_address_stats:
  assumes "retain_address s prior claims st a = Inr st'"
  shows "stats_of st' l = (if l = incident_of s a
    then \<lparr>st_recipients = st_recipients (stats_of st l) + 1,
          st_credit = st_credit (stats_of st l) + get_or (leak_credit s) a 0,
          st_positive_rows = st_positive_rows (stats_of st l) + (if withheld_from s prior claims a = 0 then 0 else 1),
          st_not_issued = st_not_issued (stats_of st l) + withheld_from s prior claims a\<rparr>
    else stats_of st l)"
  using assms by (auto simp: retain_address_def Let_def rbind_eq_Inr stats_of_def)

interpretation incident_recipients: conserving_loop "retain_address s prior claims" "\<lambda>st. st_recipients (stats_of st l)"
  "\<lambda>a. if incident_of s a = l then 1 else 0" for s prior claims l
  by unfold_locales (simp add: retain_address_stats)

interpretation incident_credit: conserving_loop "retain_address s prior claims" "\<lambda>st. st_credit (stats_of st l)"
  "\<lambda>a. if incident_of s a = l then get_or (leak_credit s) a 0 else 0" for s prior claims l
  by unfold_locales (simp add: retain_address_stats)

interpretation incident_withheld: conserving_loop "retain_address s prior claims" "\<lambda>st. st_not_issued (stats_of st l)"
  "\<lambda>a. if incident_of s a = l then withheld_from s prior claims a else 0" for s prior claims l
  by unfold_locales (simp add: retain_address_stats)

lemma build_retention_E:
  assumes "build_retention exploit_rows audits prior_retention prior_non_issuance claim_rows = Inr ret"
  shows "\<exists>tx st. load_leaks tx audits = Inr (retention_leaks ret)
    \<and> fold_r (retain_address (retention_leaks ret) (retention_prior ret) (retention_claims ret)) (Map.empty, [])
        (sort (recipients (retention_leaks ret))) = Inr st
    \<and> retention_rows ret = snd st \<and> by_incident ret = fst st
    \<and> total_credit ret = sum_list (map (\<lambda>a. get_or (leak_credit (retention_leaks ret)) a 0) (recipients (retention_leaks ret)))
    \<and> total_withheld ret = sum_list (map rt_withheld (retention_rows ret)) \<and> leaks_ok (retention_leaks ret)"
proof -
  from assms obtain tx s prior claims st where s: "load_leaks tx audits = Inr s"
    and "fold_r (retain_address s prior claims) (Map.empty, []) (sort (recipients s)) = Inr st"
    and "ret = \<lparr>retention_leaks = s, retention_prior = prior, retention_claims = claims, retention_rows = snd st,
              by_incident = fst st, total_credit = sum_list (map (\<lambda>a. get_or (leak_credit s) a 0) (recipients s)),
              total_withheld = sum_list (map rt_withheld (snd st))\<rparr>"
    unfolding build_retention_def Let_def by (elim rbind_E) (metis Inr_inject)
  moreover have "leaks_ok s" using s leak_loop.run_inv [OF no_leaks_ok] by (auto simp: load_leaks_def)
  ultimately show ?thesis by auto
qed

lemma withheld_bounds:
  assumes "withheld_from s prior claims a \<noteq> 0" and "0 \<le> get_or (leak_credit s) a 0"
  shows "0 < withheld_from s prior claims a" and "withheld_from s prior claims a \<le> get_or (leak_credit s) a 0"
    and "withheld_from s prior claims a + get_or prior a 0 \<le> get_or claims a 0"
  using assms by (auto simp: withheld_from_def Let_def min_def max_def split: if_splits)

text \<open>
  C10. What may be withheld. Every row withholds a positive amount, the lesser of the destination's leaked
  credit and of what its claim leaves after earlier withholdings, so that withheld and earlier amounts
  never exceed the claim; the rows are in strictly increasing order of the address, and the Bech32 address of a
  row decodes to its hexadecimal address. The total withheld is the sum over all recipients and is at
  most the total credit.
\<close>

theorem retention_within_credit_and_claim:
  assumes "build_retention exploit_rows audits prior_retention prior_non_issuance claim_rows = Inr ret"
  shows "(\<forall>w \<in> set (retention_rows ret). 0 < rt_withheld w \<and> rt_withheld w \<le> rt_credit w
        \<and> rt_withheld w + prior_of ret (rt_hex w) \<le> claim_of ret (rt_hex w)
        \<and> rt_withheld w = min (rt_credit w) (max (claim_of ret (rt_hex w) - prior_of ret (rt_hex w)) 0)
        \<and> decode_one (rt_bech32 w) = canonical_hex (rt_hex w))
    \<and> sorted_wrt (<) (map rt_hex (retention_rows ret))
    \<and> total_withheld ret = sum_list (map (withheld_from (retention_leaks ret) (retention_prior ret) (retention_claims ret))
         (recipients (retention_leaks ret)))
    \<and> total_withheld ret \<le> total_credit ret"
proof -
  define s where "s = retention_leaks ret"
  define W where "W = withheld_from s (retention_prior ret) (retention_claims ret)"
  obtain st where run: "fold_r (retain_address s (retention_prior ret) (retention_claims ret)) (Map.empty, [])
      (sort (recipients s)) = Inr st" and rows: "retention_rows ret = snd st"
    and tc: "total_credit ret = sum_list (map (\<lambda>a. get_or (leak_credit s) a 0) (recipients s))"
    and tw: "total_withheld ret = sum_list (map rt_withheld (retention_rows ret))" and ok: "leaks_ok s"
    using build_retention_E [OF assms] by (auto simp: s_def)
  obtain ws where "snd st = ws" and hex: "map rt_hex ws = filter (\<lambda>a. W a \<noteq> 0) (sort (recipients s))"
    and ws: "\<forall>w \<in> set ws. row_ok s (retention_prior ret) (retention_claims ret) w"
    using retain_rows [OF run] by (auto simp: W_def)
  then have rows: "retention_rows ret = ws" using rows by simp
  have pos: "0 \<le> get_or (leak_credit s) a 0" for a
    using ok by (cases "a \<in> dom (leak_credit s)") (auto simp: leaks_ok_def get_or_def domIff intro: less_imp_le)
  have row: "0 < rt_withheld w \<and> rt_withheld w \<le> rt_credit w
        \<and> rt_withheld w + prior_of ret (rt_hex w) \<le> claim_of ret (rt_hex w)
        \<and> rt_withheld w = min (rt_credit w) (max (claim_of ret (rt_hex w) - prior_of ret (rt_hex w)) 0)
        \<and> decode_one (rt_bech32 w) = canonical_hex (rt_hex w)" if "w \<in> set ws" for w
  proof -
    from ws that have r: "row_ok s (retention_prior ret) (retention_claims ret) w" by blast
    then obtain b where "canonical_hex (rt_hex w) = Inr b" "decode_one (rt_bech32 w) = Inr b"
      using one_codec.decode_encode by (auto simp: row_ok_def)
    then show ?thesis
      using r withheld_bounds [OF _ pos, where prior = "retention_prior ret" and claims = "retention_claims ret" and a = "rt_hex w"]
      by (simp add: row_ok_def prior_of_def claim_of_def) (simp add: withheld_from_def Let_def)
  qed
  have "sorted_wrt (<) (sort (recipients s))" using ok by (simp add: leaks_ok_def strict_sorted_iff)
  then have "sorted_wrt (<) (map rt_hex ws)" unfolding hex by (rule sorted_wrt_filter)
  moreover have "sum_list (map rt_withheld ws) = sum_list (map W (map rt_hex ws))"
    unfolding map_map by (intro arg_cong [where f = sum_list] map_cong refl) (use ws in \<open>auto simp: row_ok_def W_def\<close>)
  then have "total_withheld ret = sum_list (map W (sort (recipients s)))"
    unfolding tw rows hex by (simp add: sum_list_filter_nonzero)
  then have total: "total_withheld ret = sum_list (map W (recipients s))" by (simp only: sum_list_sort)
  moreover have "W a \<le> get_or (leak_credit s) a 0" for a
    by (simp add: W_def withheld_from_def Let_def)
  then have "sum_list (map W (recipients s)) \<le> total_credit ret"
    unfolding tc by (intro sum_list_nonneg_le)
  ultimately have "sorted_wrt (<) (map rt_hex (retention_rows ret))
    \<and> total_withheld ret = sum_list (map W (recipients s)) \<and> total_withheld ret \<le> total_credit ret"
    by (simp add: rows)
  moreover have "\<forall>w \<in> set (retention_rows ret). 0 < rt_withheld w \<and> rt_withheld w \<le> rt_credit w
        \<and> rt_withheld w + prior_of ret (rt_hex w) \<le> claim_of ret (rt_hex w)
        \<and> rt_withheld w = min (rt_credit w) (max (claim_of ret (rt_hex w) - prior_of ret (rt_hex w)) 0)
        \<and> decode_one (rt_bech32 w) = canonical_hex (rt_hex w)"
    using row unfolding rows by blast
  ultimately show ?thesis unfolding W_def s_def by (intro conjI) blast+
qed

text \<open>
  The statistics by incident. For every label the number of recipients, their credit and what is
  withheld from them are the sums over the recipients with that label; the labels together cover all
  of the credit.
\<close>

theorem retention_statistics:
  assumes "build_retention exploit_rows audits prior_retention prior_non_issuance claim_rows = Inr ret"
  defines "s \<equiv> retention_leaks ret"
  defines "with_label \<equiv> \<lambda>l. filter (\<lambda>a. incident_of s a = l) (recipients s)"
  shows "st_recipients (get_or (by_incident ret) l no_stats) = int (length (with_label l))
    \<and> st_credit (get_or (by_incident ret) l no_stats) = sum_list (map (\<lambda>a. get_or (leak_credit s) a 0) (with_label l))
    \<and> st_not_issued (get_or (by_incident ret) l no_stats)
        = sum_list (map (withheld_from s (retention_prior ret) (retention_claims ret)) (with_label l))"
proof -
  obtain st where run: "fold_r (retain_address s (retention_prior ret) (retention_claims ret)) (Map.empty, [])
      (sort (recipients s)) = Inr st" and st: "by_incident ret = fst st"
    using build_retention_E [OF assms(1)] by (auto simp: s_def)
  have zero: "stats_of (Map.empty, []) l = no_stats" by (simp add: stats_of_def)
  have sum: "sum_list (map (\<lambda>a. if incident_of s a = l then g a else 0) (recipients s)) = sum_list (map g (with_label l))"
    for g :: "string \<Rightarrow> int"
    by (simp add: with_label_def sum_list_map_filter')
  have len: "int (length as) = sum_list (map (\<lambda>_. 1) as)" for as :: "string list"
    by (induction as) simp_all
  show ?thesis
    using incident_recipients.run_total [OF run, of l] incident_credit.run_total [OF run, of l]
      incident_withheld.run_total [OF run, of l]
    by (simp add: sum_list_sort zero no_stats_def sum len st stats_of_def)
qed

text \<open>Two leaked receipts to one destination, one of them repeated by a second file.\<close>

definition example_leak :: "string \<Rightarrow> string \<Rightarrow> row" where
  "example_leak index amount = [''classification'' \<mapsto> ''rollback_leak'', ''tx_hash'' \<mapsto> ''0xAB'', ''receipt_index'' \<mapsto> index,
     ''to'' \<mapsto> ''0x8A908dbf6833575f9f2be34b9a204161c3041a2f'', ''amount_atto'' \<mapsto> amount,
     ''source_transaction_hash'' \<mapsto> ''0xAB'']"

definition example_leak_files :: "row list list" where
  "example_leak_files = [[example_leak ''0'' ''50'', example_leak ''1'' ''30''], [example_leak ''0'' ''50'']]"

definition example_native_claim :: row where
  "example_native_claim = [''address'' \<mapsto> ''0x8a908dbf6833575f9f2be34b9a204161c3041a2f'', ''native_total_claim_atto'' \<mapsto> ''90'']"

definition example_prior :: row where
  "example_prior = [''address_hex'' \<mapsto> ''0x8a908dbf6833575f9f2be34b9a204161c3041a2f'', ''retained_cap_atto'' \<mapsto> ''25'']"

definition example_exploit :: row where
  "example_exploit = [''transaction_hash'' \<mapsto> ''0xab'', ''incident'' \<mapsto> ''smaller-2026'']"

lemma example_load_leaks:
  "\<exists>s. load_leaks [''0xab'' \<mapsto> ''smaller-2026''] example_leak_files = Inr s \<and> get_or (leak_credit s)
     ''0x8a908dbf6833575f9f2be34b9a204161c3041a2f'' 0 = 80"
proof -
  have "(case load_leaks [''0xab'' \<mapsto> ''smaller-2026''] example_leak_files of Inl _ \<Rightarrow> 0
    | Inr s \<Rightarrow> get_or (leak_credit s) ''0x8a908dbf6833575f9f2be34b9a204161c3041a2f'' 0) = 80"
    by code_simp
  then show ?thesis by (auto split: sum.splits)
qed

theorem leaks_credit_each_receipt_once_witness:
  "credited (firsts {} (concat example_leak_files)) ''0x8a908dbf6833575f9f2be34b9a204161c3041a2f'' = 80"
  using example_load_leaks leaks_credit_each_receipt_once by fastforce

theorem leaks_ignore_repeated_rows_witness:
  "load_leaks [''0xab'' \<mapsto> ''smaller-2026''] (example_leak_files @ example_leak_files)
     = load_leaks [''0xab'' \<mapsto> ''smaller-2026''] example_leak_files"
proof -
  obtain s where "load_leaks [''0xab'' \<mapsto> ''smaller-2026''] example_leak_files = Inr s" using example_load_leaks by blast
  from leaks_ignore_repeated_rows [OF this subset_refl] this show ?thesis by simp
qed

lemma example_retention:
  "\<exists>ret. build_retention [example_exploit] example_leak_files [[example_prior]] [] [example_native_claim] = Inr ret
     \<and> total_withheld ret = 65 \<and> total_credit ret = 80"
proof -
  have "(case build_retention [example_exploit] example_leak_files [[example_prior]] [] [example_native_claim] of
    Inl _ \<Rightarrow> (0, 0) | Inr ret \<Rightarrow> (total_withheld ret, total_credit ret)) = (65, 80)"
    by code_simp
  then show ?thesis by (auto split: sum.splits)
qed

theorem retention_within_credit_and_claim_witness:
  "\<exists>ret. build_retention [example_exploit] example_leak_files [[example_prior]] [] [example_native_claim] = Inr ret
     \<and> total_withheld ret = 65 \<and> 65 \<le> total_credit ret"
proof -
  obtain ret where ret: "build_retention [example_exploit] example_leak_files [[example_prior]] [] [example_native_claim] = Inr ret"
    and w: "total_withheld ret = 65" using example_retention by blast
  from retention_within_credit_and_claim [OF ret] show ?thesis using ret w by auto
qed

theorem retention_statistics_witness:
  "\<exists>ret. build_retention [example_exploit] example_leak_files [[example_prior]] [] [example_native_claim] = Inr ret
     \<and> st_recipients (get_or (by_incident ret) ''april-2026'' no_stats)
       = int (length (filter (\<lambda>a. incident_of (retention_leaks ret) a = ''april-2026'') (recipients (retention_leaks ret))))"
proof -
  obtain ret where ret: "build_retention [example_exploit] example_leak_files [[example_prior]] [] [example_native_claim] = Inr ret"
    using example_retention by blast
  from retention_statistics [OF ret, of "''april-2026''"] show ?thesis using ret by blast
qed

end
