(* ===== verification/NonIssuance.thy ===== *)
theory NonIssuance
  imports RevertLeak Defaultdict Cells
begin

section \<open>The non-issuance inventory: \<open>build-non-issuance-audit.py\<close>\<close>

text \<open>
  Three lists of amounts that are not issued are combined: reviewed inventories, balances that initial
  recipients of historical exploits still hold, and the withheld revert-leak credits, which are checked
  again row by row. Each loader is one loop over CSV rows with its dictionaries; the main program adds the
  three totals and refuses a sum above the gross claim. What the file system and the digests answer is a
  parameter.
\<close>

subsection \<open>Reviewed inventories\<close>

record category_stats =
  cs_rows :: int
  cs_positive :: int
  cs_atto :: int

definition no_category :: category_stats where
  "no_category = \<lparr>cs_rows = 0, cs_positive = 0, cs_atto = 0\<rparr>"

record existing =
  ex_rows :: "row list"
  ex_seen :: "string list"
  ex_categories :: "(string, category_stats) dict"

definition no_existing :: existing where
  "no_existing = \<lparr>ex_rows = [], ex_seen = [], ex_categories = []\<rparr>"

definition count_category :: "int \<Rightarrow> category_stats \<Rightarrow> category_stats" where
  "count_category amount v = \<lparr>cs_rows = cs_rows v + 1, cs_positive = cs_positive v + (if amount > 0 then 1 else 0),
     cs_atto = cs_atto v + amount\<rparr>"

definition existing_amount :: "row \<Rightarrow> int result" where
  "existing_amount r =
     rbind (int_cell r ''not_issued_atto'') (\<lambda>amount.
       if amount < 0 then Inl (ValueError ''invalid not-issued amount'')
       else rbind (int_cell r ''cutoff_claim_atto'') (\<lambda>claim.
         if amount > claim then Inl (ValueError ''invalid not-issued amount'') else Inr amount))"

definition add_existing :: "existing \<Rightarrow> row \<Rightarrow> existing result" where
  "add_existing s r =
     rbind (getitem r ''address_hex'') (\<lambda>text. let address = lower text in
       if address \<in> set (ex_seen s) then Inl (ValueError ''duplicate address'')
       else rbind (existing_amount r) (\<lambda>amount.
            rbind (getitem r ''category'') (\<lambda>category.
              Inr \<lparr>ex_rows = ex_rows s @ [r], ex_seen = ex_seen s @ [address],
                   ex_categories = adjust no_category category (count_category amount) (ex_categories s)\<rparr>)))"

definition load_existing :: "row list \<Rightarrow> existing result" where
  "load_existing rs = fold_r add_existing no_existing rs"

text \<open>Several inventories: an address may be in only one, and the categories are added up.\<close>

definition add_category :: "category_stats \<Rightarrow> category_stats \<Rightarrow> category_stats" where
  "add_category v w = \<lparr>cs_rows = cs_rows w + cs_rows v, cs_positive = cs_positive w + cs_positive v,
     cs_atto = cs_atto w + cs_atto v\<rparr>"

definition merge_categories ::
  "(string, category_stats) dict \<Rightarrow> (string, category_stats) dict \<Rightarrow> (string, category_stats) dict" where
  "merge_categories d new = foldl (\<lambda>d kv. adjust no_category (fst kv) (add_category (snd kv)) d) d new"

definition add_inventory :: "existing \<Rightarrow> row list \<Rightarrow> existing result" where
  "add_inventory s rs =
     rbind (load_existing rs) (\<lambda>new.
       if \<exists>a \<in> set (ex_seen new). a \<in> set (ex_seen s) then Inl (ValueError ''addresses already in another inventory'')
       else Inr \<lparr>ex_rows = ex_rows s @ ex_rows new, ex_seen = ex_seen s @ ex_seen new,
                 ex_categories = merge_categories (ex_categories s) (ex_categories new)\<rparr>)"

subsection \<open>Retained balances\<close>

definition false_value :: "string \<Rightarrow> bool" where
  "false_value v = (lower (strip v) \<in> set [[], ''0'', ''false'', ''no''])"

record retained_stats =
  rs_input :: int
  rs_positive :: int
  rs_retained :: int
  rs_large :: int

definition no_retained_stats :: retained_stats where
  "no_retained_stats = \<lparr>rs_input = 0, rs_positive = 0, rs_retained = 0, rs_large = 0\<rparr>"

record retained_row =
  nr_bech32 :: string
  nr_hex :: string
  nr_incident :: string
  nr_initial :: int
  nr_cutoff_balance :: int
  nr_retained :: int
  nr_retained_one :: string
  nr_cutoff_block :: string
  nr_verification_block :: string
  nr_evidence :: string

text \<open>The cells that are written for it.\<close>

definition retained_csv_row :: "retained_row \<Rightarrow> row" where
  "retained_csv_row w =
     [''address_bech32'' \<mapsto> nr_bech32 w, ''address_hex'' \<mapsto> nr_hex w, ''incident'' \<mapsto> nr_incident w,
      ''initial_distribution_atto'' \<mapsto> py_str (nr_initial w), ''cutoff_balance_atto'' \<mapsto> py_str (nr_cutoff_balance w),
      ''retained_cap_atto'' \<mapsto> py_str (nr_retained w), ''retained_cap_one'' \<mapsto> nr_retained_one w,
      ''cutoff_block'' \<mapsto> nr_cutoff_block w, ''verification_block'' \<mapsto> nr_verification_block w,
      ''source_evidence'' \<mapsto> nr_evidence w, ''migration_treatment'' \<mapsto> ''not_issued'']"

record retained =
  rd_rows :: "retained_row list"
  rd_seen :: "string list"
  rd_incidents :: "(string, retained_stats) dict"
  rd_blocks :: "(int, int) dict"

definition no_retained :: retained where
  "no_retained = \<lparr>rd_rows = [], rd_seen = [], rd_incidents = [], rd_blocks = []\<rparr>"

text \<open>What the checks of one row leave: the initial amount, the balance at the cutoff, the retained amount.\<close>

definition retained_amounts :: "row \<Rightarrow> (int \<times> int \<times> int) result" where
  "retained_amounts r =
     rbind (int_cell r ''initial_amount_atto'') (\<lambda>initial.
     rbind (int_cell r ''cutoff_balance_atto'') (\<lambda>cutoff_balance.
     rbind (int_cell r ''rpc_balance_atto'') (\<lambda>rpc_balance.
     rbind (int_cell r ''rpc_retained_cap_atto'') (\<lambda>kept.
       if kept \<noteq> min initial rpc_balance then Inl (ValueError ''retained cap does not match inputs'')
       else if cutoff_balance \<noteq> rpc_balance then Inl (ValueError ''balance changed after cutoff'')
       else rbind (getitem r ''balance_changed_from_sep10'') (\<lambda>changed.
         if \<not> false_value changed then Inl (ValueError ''balance changed after cutoff'')
         else Inr (initial, cutoff_balance, kept))))))"

text \<open>The row of the output; \<open>relative_path\<close> is the evidence path relative to the output directory.\<close>

definition retained_output :: "(string \<Rightarrow> string) \<Rightarrow> row \<Rightarrow> string \<Rightarrow> string \<Rightarrow> int \<times> int \<times> int \<Rightarrow> retained_row result" where
  "retained_output relative_path r address incident amounts =
     rbind (to_bech32 address) (\<lambda>bech32.
     rbind (getitem r ''cutoff_block'') (\<lambda>cutoff_block.
     rbind (getitem r ''rpc_block'') (\<lambda>rpc_block.
     rbind (getitem r ''raw_file'') (\<lambda>raw_file.
       Inr \<lparr>nr_bech32 = bech32, nr_hex = address, nr_incident = incident, nr_initial = fst amounts,
            nr_cutoff_balance = fst (snd amounts), nr_retained = snd (snd amounts),
            nr_retained_one = display_one (snd (snd amounts)), nr_cutoff_block = cutoff_block,
            nr_verification_block = rpc_block, nr_evidence = relative_path raw_file\<rparr>))))"

definition count_retained :: "int \<Rightarrow> retained_stats \<Rightarrow> retained_stats" where
  "count_retained kept v =
     (if kept > 0
      then \<lparr>rs_input = rs_input v + 1, rs_positive = rs_positive v + 1, rs_retained = rs_retained v + kept,
            rs_large = rs_large v + (if kept > 1000 * ATTO then 1 else 0)\<rparr>
      else v\<lparr>rs_input := rs_input v + 1\<rparr>)"

definition add_retained :: "(string \<Rightarrow> bool) \<Rightarrow> (string \<Rightarrow> string) \<Rightarrow> retained \<Rightarrow> row \<Rightarrow> retained result" where
  "add_retained is_file relative_path s r =
     rbind (getitem r ''address'') (\<lambda>text. let address = lower text in
       if address \<in> set (rd_seen s) then Inl (ValueError ''duplicate address'')
       else rbind (getitem r ''incident'') (\<lambda>incident.
            rbind (retained_amounts r) (\<lambda>amounts.
            rbind (getitem r ''raw_file'') (\<lambda>raw_file.
              if \<not> is_file raw_file then Inl (FileNotFoundError raw_file)
              else rbind (int_cell r ''rpc_block'') (\<lambda>block.
                   rbind (if snd (snd amounts) > 0
                          then rbind (retained_output relative_path r address incident amounts) (\<lambda>w. Inr [w])
                          else Inr []) (\<lambda>new.
                     Inr \<lparr>rd_rows = rd_rows s @ new, rd_seen = rd_seen s @ [address],
                          rd_incidents = adjust no_retained_stats incident (count_retained (snd (snd amounts))) (rd_incidents s),
                          rd_blocks = adjust 0 block (\<lambda>n. n + 1) (rd_blocks s)\<rparr>))))))"

definition load_retained :: "(string \<Rightarrow> bool) \<Rightarrow> (string \<Rightarrow> string) \<Rightarrow> row list \<Rightarrow> (retained \<times> int) result" where
  "load_retained is_file relative_path rs =
     rbind (fold_r (add_retained is_file relative_path) no_retained rs) (\<lambda>s.
       case rd_blocks s of
         [(block, _)] \<Rightarrow> Inr (s, block)
       | _ \<Rightarrow> Inl (ValueError ''retained balances use multiple RPC blocks''))"

subsection \<open>Withheld revert-leak credits\<close>

record leak_stats =
  ls_positive :: int
  ls_credit :: int
  ls_not_issued :: int

definition no_leak_stats :: leak_stats where
  "no_leak_stats = \<lparr>ls_positive = 0, ls_credit = 0, ls_not_issued = 0\<rparr>"

definition count_leak :: "int \<Rightarrow> int \<Rightarrow> leak_stats \<Rightarrow> leak_stats" where
  "count_leak credit withheld v =
     \<lparr>ls_positive = ls_positive v + 1, ls_credit = ls_credit v + credit, ls_not_issued = ls_not_issued v + withheld\<rparr>"

record withheld_leaks =
  wl_seen :: "string list"
  wl_incidents :: "(string, leak_stats) dict"
  wl_overlap :: "string list"

definition no_withheld :: withheld_leaks where
  "no_withheld = \<lparr>wl_seen = [], wl_incidents = [], wl_overlap = []\<rparr>"

text \<open>The credit and the withheld amount of a row that follows the rule; the claim as well.\<close>

definition withheld_amounts :: "row \<Rightarrow> int \<Rightarrow> (int \<times> int \<times> int) result" where
  "withheld_amounts r prior =
     rbind (int_cell r ''prior_non_issuance_atto'') (\<lambda>recorded.
       if recorded \<noteq> prior then Inl (ValueError ''earlier non-issuance does not match the inventories'')
       else rbind (int_cell r ''retained_cap_atto'') (\<lambda>withheld.
            rbind (int_cell r ''unbacked_credit_atto'') (\<lambda>credit.
            rbind (int_cell r ''cutoff_native_claim_atto'') (\<lambda>claim.
              if withheld \<noteq> min credit (max (claim - prior) 0) \<or> withheld \<le> 0
              then Inl (ValueError ''withheld amount does not follow the rule'')
              else rbind (getitem r ''migration_treatment'') (\<lambda>treatment.
                   if treatment \<noteq> ''not_issued'' then Inl (ValueError ''withheld amount does not follow the rule'')
                   else Inr (credit, withheld, claim))))))"

definition prior_amount :: "(string \<rightharpoonup> int) \<Rightarrow> (string \<rightharpoonup> int) \<Rightarrow> string \<Rightarrow> int" where
  "prior_amount retained_caps existing_amounts a = get_or retained_caps a 0 + get_or existing_amounts a 0"

definition check_leak_row ::
  "(string \<rightharpoonup> int) \<Rightarrow> (string \<rightharpoonup> int) \<Rightarrow> withheld_leaks \<Rightarrow> row \<Rightarrow> withheld_leaks result" where
  "check_leak_row retained_caps existing_amounts s r =
     rbind (getitem r ''address_hex'') (\<lambda>text. let address = lower text in
       if address \<in> set (wl_seen s) then Inl (ValueError ''duplicate address'')
       else rbind (withheld_amounts r (prior_amount retained_caps existing_amounts address)) (\<lambda>amounts.
            rbind (getitem r ''incident'') (\<lambda>incident.
              Inr \<lparr>wl_seen = wl_seen s @ [address],
                   wl_incidents = adjust no_leak_stats incident (count_leak (fst amounts) (fst (snd amounts))) (wl_incidents s),
                   wl_overlap = (if retained_caps address \<noteq> None then wl_overlap s @ [address] else wl_overlap s)\<rparr>)))"

definition check_leak_summary :: "json \<Rightarrow> string \<Rightarrow> unit result" where
  "check_leak_summary leak_summary csv_digest =
     rbind (get_default leak_summary ''status'' JNull) (\<lambda>status.
     rbind (raise_if (status \<noteq> JStr ''passed'') (ValueError ''did not pass'')) (\<lambda>_.
     rbind (subscript leak_summary ''outputs'') (\<lambda>outputs.
     rbind (subscript outputs ''csv_sha256'') (\<lambda>recorded.
       raise_if (recorded \<noteq> JStr csv_digest) (ValueError ''SHA-256 differs'')))))"

definition check_leak_totals :: "json \<Rightarrow> withheld_leaks \<Rightarrow> unit result" where
  "check_leak_totals leak_summary s =
     rbind (subscript leak_summary ''not_issued_atto'') (\<lambda>recorded.
       if recorded \<noteq> JStr (py_str (total_of ls_not_issued (wl_incidents s))) then Inl (ValueError ''totals differ'')
       else rbind (subscript leak_summary ''positive_rows'') (\<lambda>rows.
         raise_if (\<not> py_eq rows (JInt (int (length (wl_seen s))))) (ValueError ''totals differ'')))"

text \<open>The result is the loop's dictionaries, the total and the sorted overlap.\<close>

definition load_revert_leak ::
  "row list \<Rightarrow> string \<Rightarrow> json \<Rightarrow> (string \<rightharpoonup> int) \<Rightarrow> (string \<rightharpoonup> int) \<Rightarrow> (withheld_leaks \<times> int \<times> string list) result" where
  "load_revert_leak rs csv_digest leak_summary retained_caps existing_amounts =
     rbind (check_leak_summary leak_summary csv_digest) (\<lambda>_.
     rbind (fold_r (check_leak_row retained_caps existing_amounts) no_withheld rs) (\<lambda>s.
     rbind (check_leak_totals leak_summary s) (\<lambda>_.
       Inr (s, total_of ls_not_issued (wl_incidents s), sort (wl_overlap s)))))"

subsection \<open>The main program\<close>

text \<open>The checks against the summary of the retained balances.\<close>

definition check_incident :: "json \<Rightarrow> string \<times> retained_stats \<Rightarrow> unit result" where
  "check_incident retained_summary kv =
     rbind (rbind (subscript retained_summary ''incidents'') (\<lambda>v. subscript v (fst kv))) (\<lambda>expected.
     rbind (subscript expected ''addresses'') (\<lambda>addresses.
     rbind (raise_if (\<not> py_eq (JInt (rs_input (snd kv))) addresses) (ValueError ''input address count mismatch'')) (\<lambda>_.
     rbind (subscript expected ''retained_cap_atto'') (\<lambda>cap.
     rbind (raise_if (JStr (py_str (rs_retained (snd kv))) \<noteq> cap) (ValueError ''retained cap mismatch'')) (\<lambda>_.
     rbind (subscript expected ''above_1000_one'') (\<lambda>large.
       raise_if (\<not> py_eq (JInt (rs_large (snd kv))) large) (ValueError ''large-address count mismatch'')))))))"

definition check_retained_summary :: "json \<Rightarrow> retained \<Rightarrow> int \<Rightarrow> unit result" where
  "check_retained_summary retained_summary s block =
     rbind (subscript retained_summary ''block'') (\<lambda>recorded.
     rbind (raise_if (\<not> py_eq recorded (JInt block)) (ValueError ''retained summary block does not match balance rows'')) (\<lambda>_.
     rbind (subscript retained_summary ''changed_from_sep10'') (\<lambda>changed.
     rbind (raise_if (\<not> py_eq changed (JInt 0)) (ValueError ''retained summary reports post-cutoff balance changes'')) (\<lambda>_.
     rbind (map_r (check_incident retained_summary) (rd_incidents s)) (\<lambda>_. Inr ())))))"

text \<open>The dictionary comprehensions passed to \<open>load_revert_leak\<close>.\<close>

definition retained_caps_of :: "retained_row list \<Rightarrow> (string \<rightharpoonup> int)" where
  "retained_caps_of ws = foldl (\<lambda>m w. m(nr_hex w \<mapsto> nr_retained w)) Map.empty ws"

definition add_existing_amount :: "(string \<rightharpoonup> int) \<Rightarrow> row \<Rightarrow> (string \<rightharpoonup> int) result" where
  "add_existing_amount m r =
     rbind (getitem r ''address_hex'') (\<lambda>a. rbind (int_cell r ''not_issued_atto'') (\<lambda>n. Inr (m(lower a \<mapsto> n))))"

definition existing_amounts_of :: "row list \<Rightarrow> (string \<rightharpoonup> int) result" where
  "existing_amounts_of rs = fold_r add_existing_amount Map.empty rs"

record leak_section =
  sec_leaks :: withheld_leaks
  sec_total :: int
  sec_overlap :: "string list"
  sec_quoted :: "json list"

text \<open>
  The optional revert-leak inputs: the rows with the digest of their file, and the summary. Without the first the
  section is absent; with it the second is required.
\<close>

definition build_leak_section ::
  "(row list \<times> string) option \<Rightarrow> json option \<Rightarrow> retained_row list \<Rightarrow> row list \<Rightarrow> leak_section option result" where
  "build_leak_section retention_file summary_file retained_rows existing_rows =
     (case retention_file of
        None \<Rightarrow> Inr None
      | Some (rs, csv_digest) \<Rightarrow>
          (case summary_file of
             None \<Rightarrow> Inl (ValueError ''--revert-leak-retention needs --revert-leak-summary'')
           | Some leak_summary \<Rightarrow>
               rbind (existing_amounts_of existing_rows) (\<lambda>amounts.
               rbind (load_revert_leak rs csv_digest leak_summary (retained_caps_of retained_rows) amounts) (\<lambda>result.
               rbind (map_r (subscript leak_summary) [''rule'', ''leak_receipts'', ''credited_recipients'',
                  ''unbacked_credit_atto'', ''unbacked_credit_one'']) (\<lambda>quoted.
                 Inr (Some \<lparr>sec_leaks = fst result, sec_total = fst (snd result), sec_overlap = snd (snd result),
                            sec_quoted = quoted\<rparr>))))))"

record non_issuance =
  ni_existing :: existing
  ni_retained :: retained
  ni_output :: "retained_row list"
  ni_leaks :: "leak_section option"
  ni_existing_total :: int
  ni_retained_total :: int
  ni_leak_total :: int
  ni_combined :: int
  ni_gross :: int
  ni_remaining :: int
  ni_existing_positive :: int
  ni_claim_block :: int
  ni_verification_block :: int
  ni_verification :: "json list"

definition combine ::
  "existing \<Rightarrow> retained \<times> int \<Rightarrow> json \<Rightarrow> int \<Rightarrow> leak_section option \<Rightarrow> non_issuance result" where
  "combine inventories balances retained_summary gross leaks =
      (let existing_total = total_of cs_atto (ex_categories inventories);
           retained_total = total_of rs_retained (rd_incidents (fst balances));
           leak_total = (case leaks of None \<Rightarrow> 0 | Some s \<Rightarrow> sec_total s);
           combined = existing_total + retained_total + leak_total
       in if combined > gross then Inl (ValueError ''combined non-issuance exceeds the gross cutoff claim'')
          else case rd_rows (fst balances) of
                 [] \<Rightarrow> Inl IndexError
               | w # _ \<Rightarrow>
                 rbind (py_int (nr_cutoff_block w)) (\<lambda>claim_block.
                 rbind (map_r (subscript retained_summary) [''block_hash'', ''block_utc'', ''queried_at_utc'']) (\<lambda>verification.
                   Inr \<lparr>ni_existing = inventories, ni_retained = fst balances,
                        ni_output = sort_key nr_hex (rd_rows (fst balances)), ni_leaks = leaks,
                        ni_existing_total = existing_total, ni_retained_total = retained_total, ni_leak_total = leak_total,
                        ni_combined = combined, ni_gross = gross, ni_remaining = gross - combined,
                        ni_existing_positive = total_of cs_positive (ex_categories inventories),
                        ni_claim_block = claim_block, ni_verification_block = snd balances,
                        ni_verification = verification\<rparr>)))"

definition build_non_issuance ::
  "(string \<Rightarrow> bool) \<Rightarrow> (string \<Rightarrow> string) \<Rightarrow> row list list \<Rightarrow> row list \<Rightarrow> json \<Rightarrow> json
     \<Rightarrow> (row list \<times> string) option \<Rightarrow> json option \<Rightarrow> non_issuance result" where
  "build_non_issuance is_file relative_path inventory_files balance_rows retained_summary claim_summary
       retention_file summary_file =
     rbind (fold_r add_inventory no_existing inventory_files) (\<lambda>inventories.
     rbind (load_retained is_file relative_path balance_rows) (\<lambda>balances.
       if \<exists>w \<in> set (rd_rows (fst balances)). nr_hex w \<in> set (ex_seen inventories)
       then Inl (ValueError ''retained historical-hack addresses overlap the existing non-issuance inventory'')
       else rbind (check_retained_summary retained_summary (fst balances) (snd balances)) (\<lambda>_.
            rbind (rbind (subscript claim_summary ''total_claim_atto'') int_of) (\<lambda>gross.
            rbind (build_leak_section retention_file summary_file (rd_rows (fst balances)) (ex_rows inventories)) (\<lambda>leaks.
              combine inventories balances retained_summary gross leaks)))))"

text \<open>
  The summary, its sections in the order of the code. The digest and the name of the CSV file and the block on the
  sources are parameters.
\<close>

definition amounts_json :: "int \<Rightarrow> (string \<times> json) list" where
  "amounts_json n = [(''not_issued_atto'', JStr (py_str n)), (''not_issued_one'', JStr (display_one n))]"

definition category_json :: "category_stats \<Rightarrow> json" where
  "category_json v = JDict ([(''inventory_rows'', JInt (cs_rows v)), (''positive_addresses'', JInt (cs_positive v))]
     @ amounts_json (cs_atto v))"

definition retained_json :: "retained_stats \<Rightarrow> json" where
  "retained_json v = JDict ([(''input_addresses'', JInt (rs_input v)), (''positive_addresses'', JInt (rs_positive v)),
     (''above_1000_one'', JInt (rs_large v))] @ amounts_json (rs_retained v))"

definition leak_json :: "leak_stats \<Rightarrow> json" where
  "leak_json v = JDict ([(''positive_addresses'', JInt (ls_positive v)), (''unbacked_credit_atto'', JStr (py_str (ls_credit v))),
     (''unbacked_credit_one'', JStr (display_one (ls_credit v)))] @ amounts_json (ls_not_issued v))"

definition leak_section_json :: "leak_section \<Rightarrow> json" where
  "leak_section_json sec = JDict
     (zip [''rule'', ''leak_receipts'', ''credited_recipients'', ''unbacked_credit_atto'', ''unbacked_credit_one''] (sec_quoted sec)
      @ [(''positive_addresses'', JInt (int (length (wl_seen (sec_leaks sec))))),
         (''by_incident'', JDict (map (\<lambda>(l, v). (l, leak_json v)) (sort_key fst (wl_incidents (sec_leaks sec)))))]
      @ amounts_json (sec_total sec)
      @ [(''addresses_also_in_retained_initial_addresses'', JList (map JStr (sec_overlap sec))),
         (''overlap_note'', JStr (''an address in both lists loses its retained cap first and then ''
            @ ''the revert-leak amount from what remains''))])"

definition provenance_json :: json where
  "provenance_json = JDict [(''classification'', JStr ''policy scenario''),
     (''factual_input'', JStr (''RPC-derived fixed-block balances capped by incident-contract ''
        @ ''distribution amounts'')),
     (''note'', JStr (''The retained-balance measurement is factual; treating the ''
        @ ''capped amount as not issued is a migration policy.''))]"

definition policy_json :: "leak_section option \<Rightarrow> json" where
  "policy_json leaks = JDict
     ([(''scope'', JStr (''incident and retained-fund non-issuance component; not the ''
          @ ''complete staged migration policy'')),
       (''migration_treatment'', JStr ''not_issued''), (''old_chain_gross_claim_changed'', JBool False),
       (''migration_allocation_reduced'', JBool True), (''fixed_erc20_total_supply_changed'', JBool False),
       (''treasury_destination'', JNull), (''available_for_other_use'', JBool False),
       (''composite_policy_summary'', JStr ''results/2026-09-17/migration-policy-reconciliation.json''),
       (''retained_historical_hack_rule'', JStr (''for each initial recipient, omit min(initial incident-contract ''
          @ ''distribution, cutoff balance)'')),
       (''extra_mint_partial_rows'', JStr (''only the reviewed extra-mint portion is omitted; a legitimate ''
          @ ''remainder stays eligible under the separate migration policy''))]
      @ (case leaks of None \<Rightarrow> [] | Some sec \<Rightarrow> zip [''revert_leak_credit_rule''] (sec_quoted sec)))"

definition evidence_limits_json :: json where
  "evidence_limits_json = JList
     [JStr (''retained cap is balance-supported incident provenance, not ''
        @ ''proof that every address is controlled by one person''),
      JStr (''the incident-contract distribution included some seed or ''
        @ ''pre-existing value, so the cap is a migration-policy amount ''
        @ ''rather than a claim that every retained unit was newly created''),
      JStr (''exchange reserves and downstream mixed-fund balances are not ''
        @ ''added to the retained initial-recipient amount''),
      JStr (''reported victims are not omitted merely because they appear ''
        @ ''in an investigation report'')]"

definition non_issuance_summary :: "non_issuance \<Rightarrow> string \<Rightarrow> string \<Rightarrow> json \<Rightarrow> json" where
  "non_issuance_summary r csv_name csv_digest sources = JDict
     ([(''_provenance'', provenance_json), (''schema_version'', JInt 1), (''status'', JStr ''passed''),
       (''cutoff'', JDict ([(''claim_block_shard0'', JInt (ni_claim_block r)),
          (''balance_verification_block'', JInt (ni_verification_block r))]
          @ zip [''balance_verification_hash'', ''balance_verification_utc'', ''queried_at_utc''] (ni_verification r)
          @ [(''all_balances_unchanged_from_cutoff'', JBool True)])),
       (''policy'', policy_json (ni_leaks r)),
       (''existing_non_issuance'', JDict ([(''inventory_rows'', JInt (int (length (ex_rows (ni_existing r))))),
          (''positive_addresses'', JInt (ni_existing_positive r)),
          (''categories'', JDict (map (\<lambda>(c, v). (c, category_json v)) (sort_key fst (ex_categories (ni_existing r)))))]
          @ amounts_json (ni_existing_total r))),
       (''historical_hack_retained_initial_addresses'', JDict ([(''positive_addresses'', JInt (int (length (ni_output r)))),
          (''by_incident'', JDict (map (\<lambda>(l, v). (l, retained_json v)) (sort_key fst (rd_incidents (ni_retained r)))))]
          @ amounts_json (ni_retained_total r) @ [(''overlap_with_existing_non_issuance_addresses'', JInt 0)]))]
      @ (case ni_leaks r of None \<Rightarrow> [] | Some sec \<Rightarrow> [(''revert_leak_credited_recipients'', leak_section_json sec)])
      @ [(''totals'', JDict ([(''gross_cutoff_claim_atto'', JStr (py_str (ni_gross r))),
          (''gross_cutoff_claim_one'', JStr (display_one (ni_gross r)))] @ amounts_json (ni_combined r)
          @ [(''remaining_full_claim_after_non_issuance_atto'', JStr (py_str (ni_remaining r))),
             (''remaining_full_claim_after_non_issuance_one'', JStr (display_one (ni_remaining r)))])),
         (''evidence_limits'', evidence_limits_json),
         (''outputs'', JDict [(''retained_not_issued_csv'', JStr csv_name), (''retained_not_issued_csv_sha256'', JStr csv_digest),
            (''retained_not_issued_rows'', JInt (int (length (ni_output r))))]),
         (''sources'', sources)])"

subsection \<open>The loops keep their totals\<close>

lemma existing_amount_Inr:
  "existing_amount r = Inr n \<Longrightarrow> n = cell_int r ''not_issued_atto'' \<and> 0 \<le> n \<and> n \<le> cell_int r ''cutoff_claim_atto''"
  by (auto simp: existing_amount_def rbind_eq_Inr int_cell_Inr split: if_splits)

lemma add_existing_Inr:
  assumes "add_existing s r = Inr s'"
  shows "ex_rows s' = ex_rows s @ [r] \<and> ex_seen s' = ex_seen s @ [address_cell r ''address_hex'']
    \<and> address_cell r ''address_hex'' \<notin> set (ex_seen s) \<and> 0 \<le> cell_int r ''not_issued_atto''
    \<and> cell_int r ''not_issued_atto'' \<le> cell_int r ''cutoff_claim_atto''
    \<and> ex_categories s' = adjust no_category (get_or r ''category'' []) (count_category (cell_int r ''not_issued_atto'')) (ex_categories s)"
  using assms existing_amount_Inr
  by (auto simp: add_existing_def rbind_eq_Inr Let_def address_cell_Inr getitem_get_or split: if_splits)

lemma no_category_atto: "cs_atto no_category = 0"
  by (simp add: no_category_def)

lemma existing_categories:
  assumes "add_existing s r = Inr s'"
  shows "\<exists>f. ex_categories s' = adjust no_category (get_or r ''category'' []) f (ex_categories s)
    \<and> (\<forall>v. cs_atto (f v) = cs_atto v + cell_int r ''not_issued_atto'')"
  using add_existing_Inr [OF assms]
  by (intro exI [of _ "count_category (cell_int r ''not_issued_atto'')"]) (simp add: count_category_def)

interpretation existing_atto: tallying_loop add_existing ex_categories no_category "\<lambda>r. get_or r ''category'' []"
  "\<lambda>_. True" cs_atto "\<lambda>r. cell_int r ''not_issued_atto''"
  by unfold_locales (simp_all add: no_category_atto existing_categories)

definition existing_ok :: "existing \<Rightarrow> bool" where
  "existing_ok s \<longleftrightarrow> distinct (ex_seen s) \<and> ex_seen s = map (\<lambda>r. address_cell r ''address_hex'') (ex_rows s)
     \<and> (\<forall>r \<in> set (ex_rows s). 0 \<le> cell_int r ''not_issued_atto'' \<and> cell_int r ''not_issued_atto'' \<le> cell_int r ''cutoff_claim_atto'')
     \<and> distinct (keys (ex_categories s))
     \<and> total_of cs_atto (ex_categories s) = sum_list (map (\<lambda>r. cell_int r ''not_issued_atto'') (ex_rows s))"

lemma no_existing_ok: "existing_ok no_existing"
  by (simp add: existing_ok_def no_existing_def dict_simps)

lemma add_existing_ok: "existing_ok s \<Longrightarrow> add_existing s r = Inr s' \<Longrightarrow> existing_ok s'"
  using add_existing_Inr [of s r s'] existing_atto.step_total [of s r s'] existing_atto.step_distinct [of s r s']
  by (auto simp: existing_ok_def)

interpretation existing_loop: invariant_loop add_existing existing_ok
  by unfold_locales (rule add_existing_ok)

lemma load_existing_ok: "load_existing rs = Inr s \<Longrightarrow> existing_ok s \<and> ex_rows s = rs"
proof -
  have "fold_r add_existing t rs = Inr s \<Longrightarrow> ex_rows s = ex_rows t @ rs" for t
    by (induction rs arbitrary: t) (auto simp: rbind_eq_Inr dest: add_existing_Inr)
  moreover assume "load_existing rs = Inr s"
  then have run: "fold_r add_existing no_existing rs = Inr s" by (simp only: load_existing_def)
  ultimately show ?thesis using existing_loop.run_inv [OF no_existing_ok run] by (simp add: no_existing_def)
qed

lemma merge_categories_total:
  "distinct (keys d) \<Longrightarrow> total_of cs_atto (merge_categories d new) = total_of cs_atto d + total_of cs_atto new
     \<and> distinct (keys (merge_categories d new))"
proof (induction new arbitrary: d)
  case (Cons kv new)
  define e where "e = adjust no_category (fst kv) (add_category (snd kv)) d"
  have "total_of cs_atto e = total_of cs_atto d + cs_atto (snd kv)"
    using Cons.prems by (simp add: e_def total_of_adjust no_category_def add_category_def)
  moreover have "distinct (keys e)" unfolding e_def by (rule distinct_adjust [OF Cons.prems])
  moreover have "merge_categories d (kv # new) = merge_categories e new" by (simp add: merge_categories_def e_def)
  ultimately show ?case using Cons.IH [of e] by (simp add: total_of_def)
qed (simp add: merge_categories_def total_of_def)

lemma add_inventory_Inr:
  assumes "existing_ok s" and "add_inventory s rs = Inr s'"
  shows "existing_ok s' \<and> ex_rows s' = ex_rows s @ rs"
proof -
  from assms(2) obtain new where new: "load_existing rs = Inr new" "\<forall>a \<in> set (ex_seen new). a \<notin> set (ex_seen s)"
    and s': "s' = \<lparr>ex_rows = ex_rows s @ ex_rows new, ex_seen = ex_seen s @ ex_seen new,
                 ex_categories = merge_categories (ex_categories s) (ex_categories new)\<rparr>"
    by (auto simp: add_inventory_def rbind_eq_Inr split: if_splits)
  from load_existing_ok [OF new(1)] have ok: "existing_ok new" and rows: "ex_rows new = rs" by auto
  have "total_of cs_atto (ex_categories s') = total_of cs_atto (ex_categories s) + total_of cs_atto (ex_categories new)"
    and "distinct (keys (ex_categories s'))"
    using merge_categories_total [of "ex_categories s" "ex_categories new"] assms(1) by (auto simp: s' existing_ok_def)
  moreover have "distinct (ex_seen s @ ex_seen new)"
    using assms(1) ok new(2) unfolding existing_ok_def distinct_append by blast
  ultimately show ?thesis using assms(1) ok rows by (auto simp: existing_ok_def s')
qed

interpretation inventory_loop: invariant_loop add_inventory existing_ok
  by unfold_locales (use add_inventory_Inr in blast)

lemma inventory_rows: "existing_ok t \<Longrightarrow> fold_r add_inventory t files = Inr s \<Longrightarrow> ex_rows s = ex_rows t @ concat files"
proof (induction files arbitrary: t)
  case (Cons f files)
  then obtain u where u: "add_inventory t f = Inr u" and rest: "fold_r add_inventory u files = Inr s"
    by (auto simp: rbind_eq_Inr)
  from Cons.IH [OF _ rest] add_inventory_Inr [OF Cons.prems(1) u] show ?case by simp
qed simp

text \<open>The rows of the retained balances.\<close>

definition kept_cell :: "row \<Rightarrow> int" where
  "kept_cell r = (if 0 < cell_int r ''rpc_retained_cap_atto'' then cell_int r ''rpc_retained_cap_atto'' else 0)"

definition retained_row_ok :: "retained_row \<Rightarrow> bool" where
  "retained_row_ok w \<longleftrightarrow> to_bech32 (nr_hex w) = Inr (nr_bech32 w) \<and> 0 < nr_retained w
     \<and> nr_retained w = min (nr_initial w) (nr_cutoff_balance w) \<and> nr_retained_one w = display_one (nr_retained w)"

lemma retained_amounts_Inr:
  "retained_amounts r = Inr (initial, balance, kept) \<Longrightarrow>
     kept = cell_int r ''rpc_retained_cap_atto'' \<and> kept = min initial balance
     \<and> initial = cell_int r ''initial_amount_atto'' \<and> balance = cell_int r ''cutoff_balance_atto''"
  by (auto simp: retained_amounts_def rbind_eq_Inr int_cell_Inr split: if_splits)

lemma retained_output_Inr:
  "retained_output rel r address incident amounts = Inr w \<Longrightarrow>
     to_bech32 (nr_hex w) = Inr (nr_bech32 w) \<and> nr_hex w = address \<and> nr_incident w = incident \<and> nr_initial w = fst amounts
     \<and> nr_cutoff_balance w = fst (snd amounts) \<and> nr_retained w = snd (snd amounts)
     \<and> nr_retained_one w = display_one (snd (snd amounts))"
  by (auto simp: retained_output_def rbind_eq_Inr)

lemma add_retained_Inr:
  assumes "add_retained is_file rel s r = Inr s'"
  defines "kept \<equiv> cell_int r ''rpc_retained_cap_atto''"
  shows "rd_seen s' = rd_seen s @ [address_cell r ''address''] \<and> address_cell r ''address'' \<notin> set (rd_seen s)"
    and "rd_incidents s' = adjust no_retained_stats (get_or r ''incident'' []) (count_retained kept) (rd_incidents s)"
    and "if 0 < kept then \<exists>w. rd_rows s' = rd_rows s @ [w] \<and> retained_row_ok w
        \<and> nr_hex w = address_cell r ''address'' \<and> nr_retained w = kept
      else rd_rows s' = rd_rows s"
proof -
  from assms(1) obtain t incident initial balance kept' raw block new
    where c: "getitem r ''address'' = Inr t" "lower t \<notin> set (rd_seen s)" "getitem r ''incident'' = Inr incident"
      "retained_amounts r = Inr (initial, balance, kept')"
    and new: "(if kept' > 0 then rbind (retained_output rel r (lower t) incident (initial, balance, kept')) (\<lambda>w. Inr [w])
        else Inr []) = Inr new"
    and s': "s' = \<lparr>rd_rows = rd_rows s @ new, rd_seen = rd_seen s @ [lower t],
        rd_incidents = adjust no_retained_stats incident (count_retained kept') (rd_incidents s),
        rd_blocks = adjust 0 block (\<lambda>n. n + 1) (rd_blocks s)\<rparr>"
    unfolding add_retained_def Let_def
    by (elim rbind_E) (auto simp: rbind_eq_Inr split: if_splits)
  have k: "kept' = kept" and m: "kept = min initial balance"
    using retained_amounts_Inr [OF c(4)] by (auto simp: kept_def)
  have t: "lower t = address_cell r ''address''" "incident = get_or r ''incident'' []"
    using c by (simp_all add: address_cell_Inr getitem_get_or)
  show "rd_seen s' = rd_seen s @ [address_cell r ''address''] \<and> address_cell r ''address'' \<notin> set (rd_seen s)"
    and "rd_incidents s' = adjust no_retained_stats (get_or r ''incident'' []) (count_retained kept) (rd_incidents s)"
    using c(2) by (simp_all add: s' t k)
  show "if 0 < kept then \<exists>w. rd_rows s' = rd_rows s @ [w] \<and> retained_row_ok w
        \<and> nr_hex w = address_cell r ''address'' \<and> nr_retained w = kept
      else rd_rows s' = rd_rows s"
    using new retained_output_Inr [of rel r "lower t" incident "(initial, balance, kept')"]
    by (auto simp: s' k m retained_row_ok_def t rbind_eq_Inr split: if_splits)
qed

lemma retained_incidents:
  assumes "add_retained is_file rel s r = Inr s'"
  shows "\<exists>f. rd_incidents s' = adjust no_retained_stats (get_or r ''incident'' []) f (rd_incidents s)
    \<and> (\<forall>v. rs_retained (f v) = rs_retained v + kept_cell r)"
  using add_retained_Inr(2) [OF assms]
  by (intro exI [of _ "count_retained (cell_int r ''rpc_retained_cap_atto'')"]) (simp add: count_retained_def kept_cell_def)

interpretation retained_atto: tallying_loop "add_retained is_file rel" rd_incidents no_retained_stats
  "\<lambda>r. get_or r ''incident'' []" "\<lambda>_. True" rs_retained kept_cell for is_file rel
  by unfold_locales (simp_all add: no_retained_stats_def [THEN arg_cong, of rs_retained] retained_incidents)

definition retained_ok :: "retained \<Rightarrow> bool" where
  "retained_ok s \<longleftrightarrow> distinct (rd_seen s) \<and> distinct (map nr_hex (rd_rows s)) \<and> set (map nr_hex (rd_rows s)) \<subseteq> set (rd_seen s)
     \<and> (\<forall>w \<in> set (rd_rows s). retained_row_ok w) \<and> distinct (keys (rd_incidents s))
     \<and> total_of rs_retained (rd_incidents s) = sum_list (map nr_retained (rd_rows s))"

lemma add_retained_ok:
  assumes "retained_ok s" and "add_retained is_file rel s r = Inr s'"
  shows "retained_ok s'"
proof -
  have tot: "total_of rs_retained (rd_incidents s') = total_of rs_retained (rd_incidents s) + kept_cell r"
    and d: "distinct (keys (rd_incidents s'))"
    using assms retained_atto.step_total [OF assms(2)] retained_atto.step_distinct [OF assms(2)]
    by (auto simp: retained_ok_def)
  note f = add_retained_Inr [OF assms(2)]
  show ?thesis
  proof (cases "0 < cell_int r ''rpc_retained_cap_atto''")
    case True
    then obtain w where "rd_rows s' = rd_rows s @ [w]" "retained_row_ok w" "nr_hex w = address_cell r ''address''"
      "nr_retained w = kept_cell r" using f(3) by (auto simp: kept_cell_def)
    then show ?thesis using assms(1) f(1) tot d by (auto simp: retained_ok_def)
  next
    case False
    then show ?thesis using assms(1) f(1,3) tot d by (auto simp: retained_ok_def kept_cell_def)
  qed
qed

interpretation retained_loop: invariant_loop "add_retained is_file rel" retained_ok for is_file rel
  by unfold_locales (rule add_retained_ok)

lemma load_retained_ok: "load_retained is_file rel rs = Inr (s, block) \<Longrightarrow> retained_ok s"
proof -
  assume "load_retained is_file rel rs = Inr (s, block)"
  then have "fold_r (add_retained is_file rel) no_retained rs = Inr s"
    unfolding load_retained_def by (elim rbind_E) (auto split: list.split_asm prod.split_asm)
  moreover have "retained_ok no_retained" by (simp add: retained_ok_def no_retained_def dict_simps)
  ultimately show ?thesis using retained_loop.run_inv by blast
qed

text \<open>The rows of the withheld leaks.\<close>

lemma withheld_amounts_Inr:
  "withheld_amounts r prior = Inr (credit, withheld, claim) \<Longrightarrow>
     credit = cell_int r ''unbacked_credit_atto'' \<and> withheld = cell_int r ''retained_cap_atto''
     \<and> claim = cell_int r ''cutoff_native_claim_atto'' \<and> 0 < withheld \<and> withheld = min credit (max (claim - prior) 0)
     \<and> cell_int r ''prior_non_issuance_atto'' = prior"
  by (auto simp: withheld_amounts_def rbind_eq_Inr int_cell_Inr split: if_splits)

definition leak_row_ok :: "(string \<rightharpoonup> int) \<Rightarrow> (string \<rightharpoonup> int) \<Rightarrow> row \<Rightarrow> bool" where
  "leak_row_ok caps amounts r \<longleftrightarrow>
     (let withheld = cell_int r ''retained_cap_atto''; prior = prior_amount caps amounts (address_cell r ''address_hex'');
          claim = cell_int r ''cutoff_native_claim_atto'' in
      0 < withheld \<and> withheld = min (cell_int r ''unbacked_credit_atto'') (max (claim - prior) 0)
      \<and> cell_int r ''prior_non_issuance_atto'' = prior)"

lemma check_leak_row_Inr:
  assumes "check_leak_row caps amounts s r = Inr s'"
  shows "wl_seen s' = wl_seen s @ [address_cell r ''address_hex''] \<and> address_cell r ''address_hex'' \<notin> set (wl_seen s)
    \<and> leak_row_ok caps amounts r
    \<and> wl_incidents s' = adjust no_leak_stats (get_or r ''incident'' [])
        (count_leak (cell_int r ''unbacked_credit_atto'') (cell_int r ''retained_cap_atto'')) (wl_incidents s)"
proof -
  from assms obtain t credit withheld claim incident
    where "getitem r ''address_hex'' = Inr t" "lower t \<notin> set (wl_seen s)"
      "withheld_amounts r (prior_amount caps amounts (lower t)) = Inr (credit, withheld, claim)"
      "getitem r ''incident'' = Inr incident"
      and s': "s' = \<lparr>wl_seen = wl_seen s @ [lower t],
        wl_incidents = adjust no_leak_stats incident (count_leak credit withheld) (wl_incidents s),
        wl_overlap = (if caps (lower t) \<noteq> None then wl_overlap s @ [lower t] else wl_overlap s)\<rparr>"
    unfolding check_leak_row_def Let_def by (elim rbind_E) (auto simp: rbind_eq_Inr split: if_split_asm)
  then show ?thesis
    by (auto simp: leak_row_ok_def Let_def address_cell_Inr getitem_get_or dest!: withheld_amounts_Inr)
qed

lemma leak_incidents_adjusted:
  assumes "check_leak_row caps amounts s r = Inr s'"
  shows "\<exists>f. wl_incidents s' = adjust no_leak_stats (get_or r ''incident'' []) f (wl_incidents s)
    \<and> (\<forall>v. ls_not_issued (f v) = ls_not_issued v + cell_int r ''retained_cap_atto'')"
  using check_leak_row_Inr [OF assms]
  by (intro exI [of _ "count_leak (cell_int r ''unbacked_credit_atto'') (cell_int r ''retained_cap_atto'')"])
     (simp add: count_leak_def)

interpretation leak_atto: tallying_loop "check_leak_row caps amounts" wl_incidents no_leak_stats
  "\<lambda>r. get_or r ''incident'' []" "\<lambda>_. True" ls_not_issued "\<lambda>r. cell_int r ''retained_cap_atto''" for caps amounts
  by unfold_locales (simp_all add: no_leak_stats_def [THEN arg_cong, of ls_not_issued] leak_incidents_adjusted)

lemma check_leak_rows:
  "fold_r (check_leak_row caps amounts) s rs = Inr s' \<Longrightarrow> distinct (wl_seen s) \<Longrightarrow>
     wl_seen s' = wl_seen s @ map (\<lambda>r. address_cell r ''address_hex'') rs \<and> distinct (wl_seen s')
     \<and> (\<forall>r \<in> set rs. leak_row_ok caps amounts r)"
proof (induction rs arbitrary: s)
  case (Cons r rs)
  then obtain t where t: "check_leak_row caps amounts s r = Inr t" and rest: "fold_r (check_leak_row caps amounts) t rs = Inr s'"
    by (auto simp: rbind_eq_Inr)
  note row = check_leak_row_Inr [OF t]
  with Cons.prems(2) have "distinct (wl_seen t)" by simp
  from Cons.IH [OF rest this] have "distinct (wl_seen s')" and "\<forall>r \<in> set rs. leak_row_ok caps amounts r"
    and "wl_seen s' = wl_seen t @ map (\<lambda>r. address_cell r ''address_hex'') rs" by blast+
  then show ?case using row by (intro conjI) simp_all
qed simp

lemma load_revert_leak_facts:
  assumes "load_revert_leak rs digest summary_json caps amounts = Inr (s, tot, overlap)"
  shows "tot = sum_list (map (\<lambda>r. cell_int r ''retained_cap_atto'') rs)
    \<and> wl_seen s = map (\<lambda>r. address_cell r ''address_hex'') rs \<and> distinct (wl_seen s)
    \<and> (\<forall>r \<in> set rs. leak_row_ok caps amounts r)"
proof -
  have run: "fold_r (check_leak_row caps amounts) no_withheld rs = Inr s" and
    t: "tot = total_of ls_not_issued (wl_incidents s)"
    using assms by (auto simp: load_revert_leak_def rbind_eq_Inr)
  have empty: "distinct (wl_seen no_withheld)" by (simp add: no_withheld_def)
  have "distinct (wl_seen s)" and "wl_seen s = map (\<lambda>r. address_cell r ''address_hex'') rs"
    and "\<forall>r \<in> set rs. leak_row_ok caps amounts r"
    using check_leak_rows [OF run empty] unfolding no_withheld_def withheld_leaks.simps append_Nil by blast+
  moreover have "tot = sum_list (map (\<lambda>r. cell_int r ''retained_cap_atto'') rs)"
    using leak_atto.run_total [OF run] by (simp add: t no_withheld_def dict_simps)
  ultimately show ?thesis by (intro conjI)
qed

subsection \<open>What the result says\<close>

lemma retained_row_pos: "retained_row_ok w \<Longrightarrow> 0 < nr_retained w"
  unfolding retained_row_ok_def by (elim conjE)

text \<open>The amounts that two of the lists hold against an address.\<close>

definition inventory_amount :: "row list \<Rightarrow> string \<Rightarrow> int" where
  "inventory_amount rs a =
     sum_list (map (\<lambda>r. cell_int r ''not_issued_atto'') (filter (\<lambda>r. address_cell r ''address_hex'' = a) rs))"

definition retained_amount :: "retained_row list \<Rightarrow> string \<Rightarrow> int" where
  "retained_amount ws a = sum_list (map nr_retained (filter (\<lambda>w. nr_hex w = a) ws))"

lemma existing_amounts_run:
  "fold_r add_existing_amount m rs = Inr m' \<Longrightarrow> distinct (map (\<lambda>r. address_cell r ''address_hex'') rs) \<Longrightarrow>
     \<forall>r \<in> set rs. m (address_cell r ''address_hex'') = None \<Longrightarrow>
     get_or m' a 0 = get_or m a 0 + inventory_amount rs a"
proof (induction rs arbitrary: m)
  case (Cons r rs)
  then obtain t n where t: "getitem r ''address_hex'' = Inr t" "int_cell r ''not_issued_atto'' = Inr n"
    and rest: "fold_r add_existing_amount (m(lower t \<mapsto> n)) rs = Inr m'"
    unfolding fold_r.simps add_existing_amount_def by (elim rbind_E) simp
  have c: "lower t = address_cell r ''address_hex''" "n = cell_int r ''not_issued_atto''"
    using t by (simp_all add: address_cell_Inr int_cell_Inr)
  have new: "\<forall>q \<in> set rs. (m(lower t \<mapsto> n)) (address_cell q ''address_hex'') = None"
    using Cons.prems(2,3) by (auto simp: c image_iff)
  have "get_or (m(lower t \<mapsto> n)) a 0 = get_or m a 0 + (if a = lower t then n else 0)"
    using Cons.prems(3) by (simp add: get_or_def c)
  moreover have "get_or m' a 0 = get_or (m(lower t \<mapsto> n)) a 0 + inventory_amount rs a"
    using Cons.prems(2) by (intro Cons.IH [OF rest _ new]) simp
  ultimately show ?case by (simp add: inventory_amount_def c)
qed (simp add: inventory_amount_def)

lemma retained_caps_run:
  "distinct (map nr_hex ws) \<Longrightarrow> \<forall>w \<in> set ws. m (nr_hex w) = None \<Longrightarrow>
     get_or (foldl (\<lambda>m w. m(nr_hex w \<mapsto> nr_retained w)) m ws) a 0 = get_or m a 0 + retained_amount ws a"
proof (induction ws arbitrary: m)
  case (Cons w ws)
  have "get_or (foldl (\<lambda>m w. m(nr_hex w \<mapsto> nr_retained w)) (m(nr_hex w \<mapsto> nr_retained w)) ws) a 0
      = get_or (m(nr_hex w \<mapsto> nr_retained w)) a 0 + retained_amount ws a"
    using Cons.prems by (intro Cons.IH) (auto simp: image_iff)
  moreover have "get_or (m(nr_hex w \<mapsto> nr_retained w)) a 0 = get_or m a 0 + (if a = nr_hex w then nr_retained w else 0)"
    using Cons.prems(2) by (simp add: get_or_def)
  ultimately show ?case by (auto simp: retained_amount_def simp del: fun_upd_apply)
qed (simp add: retained_amount_def)

lemma retained_caps_amount: "retained_ok s \<Longrightarrow> get_or (retained_caps_of (rd_rows s)) a 0 = retained_amount (rd_rows s) a"
  using retained_caps_run [of "rd_rows s" Map.empty a] by (simp add: retained_caps_of_def retained_ok_def)

lemma prior_amount_eq:
  assumes "existing_ok e" and "retained_ok d" and "existing_amounts_of (ex_rows e) = Inr amounts"
  shows "prior_amount (retained_caps_of (rd_rows d)) amounts a
    = retained_amount (rd_rows d) a + inventory_amount (ex_rows e) a"
proof -
  have "distinct (map (\<lambda>r. address_cell r ''address_hex'') (ex_rows e))"
    using assms(1) unfolding existing_ok_def by metis
  then have "get_or amounts a 0 = inventory_amount (ex_rows e) a"
    using existing_amounts_run [of Map.empty "ex_rows e" amounts a] assms(3) by (simp add: existing_amounts_of_def)
  then show ?thesis using retained_caps_amount [OF assms(2)] by (simp add: prior_amount_def)
qed

definition leak_rows :: "(row list \<times> string) option \<Rightarrow> row list" where
  "leak_rows retention_file = (case retention_file of None \<Rightarrow> [] | Some f \<Rightarrow> fst f)"

lemma build_leak_section_Inr:
  assumes "build_leak_section leak_file summary_file ws rs = Inr leaks"
  shows "case leaks of None \<Rightarrow> leak_rows leak_file = []
    | Some sec \<Rightarrow> \<exists>amounts. existing_amounts_of rs = Inr amounts
        \<and> sec_total sec = sum_list (map (\<lambda>r. cell_int r ''retained_cap_atto'') (leak_rows leak_file))
        \<and> wl_seen (sec_leaks sec) = map (\<lambda>r. address_cell r ''address_hex'') (leak_rows leak_file) \<and> distinct (wl_seen (sec_leaks sec))
        \<and> (\<forall>r \<in> set (leak_rows leak_file). leak_row_ok (retained_caps_of ws) amounts r)"
proof (cases leak_file)
  case (Some f)
  obtain frs digest where f: "f = (frs, digest)" by (cases f)
  with assms Some obtain j amounts s tot overlap quoted where
    a: "existing_amounts_of rs = Inr amounts"
    and l: "load_revert_leak frs digest j (retained_caps_of ws) amounts = Inr (s, tot, overlap)"
    and leaks: "leaks = Some \<lparr>sec_leaks = s, sec_total = tot, sec_overlap = overlap, sec_quoted = quoted\<rparr>"
    unfolding build_leak_section_def by (auto simp: rbind_eq_Inr split: option.split_asm)
  show ?thesis using a load_revert_leak_facts [OF l] unfolding leaks leak_rows_def Some f by simp metis
qed (use assms in \<open>simp add: build_leak_section_def leak_rows_def\<close>)

lemma build_non_issuance_facts:
  assumes "build_non_issuance is_file rel files balance_rows rsum csum leak_file summary_file = Inr r"
  shows "existing_ok (ni_existing r)" and "ex_rows (ni_existing r) = concat files" and "retained_ok (ni_retained r)"
    and "\<forall>w \<in> set (rd_rows (ni_retained r)). nr_hex w \<notin> set (ex_seen (ni_existing r))"
    and "build_leak_section leak_file summary_file (rd_rows (ni_retained r)) (concat files) = Inr (ni_leaks r)"
    and "ni_output r = sort_key nr_hex (rd_rows (ni_retained r))"
    and "ni_existing_total r = total_of cs_atto (ex_categories (ni_existing r))"
    and "ni_retained_total r = total_of rs_retained (rd_incidents (ni_retained r))"
    and "ni_leak_total r = (case ni_leaks r of None \<Rightarrow> 0 | Some s \<Rightarrow> sec_total s)"
    and "ni_combined r = ni_existing_total r + ni_retained_total r + ni_leak_total r"
    and "ni_remaining r = ni_gross r - ni_combined r" and "ni_combined r \<le> ni_gross r"
proof -
  from assms obtain e d block gross leaks where e: "fold_r add_inventory no_existing files = Inr e"
    and d: "load_retained is_file rel balance_rows = Inr (d, block)"
    and disjoint: "\<forall>w \<in> set (rd_rows d). nr_hex w \<notin> set (ex_seen e)"
    and leaks: "build_leak_section leak_file summary_file (rd_rows d) (ex_rows e) = Inr leaks"
    and c: "combine e (d, block) rsum gross leaks = Inr r"
    unfolding build_non_issuance_def by (elim rbind_E) (auto simp: rbind_eq_Inr split: if_split_asm)
  have r: "ni_existing r = e" "ni_retained r = d" "ni_leaks r = leaks"
    and tot: "ni_output r = sort_key nr_hex (rd_rows d)"
      "ni_existing_total r = total_of cs_atto (ex_categories e)"
      "ni_retained_total r = total_of rs_retained (rd_incidents d)"
      "ni_leak_total r = (case leaks of None \<Rightarrow> 0 | Some s \<Rightarrow> sec_total s)"
      "ni_combined r = ni_existing_total r + ni_retained_total r + ni_leak_total r"
      "ni_remaining r = ni_gross r - ni_combined r" "ni_combined r \<le> ni_gross r"
    using c unfolding combine_def Let_def by (auto simp: rbind_eq_Inr split: if_split_asm list.split_asm)
  have rows: "ex_rows e = concat files"
    using inventory_rows [OF no_existing_ok e] by (simp add: no_existing_def)
  show "existing_ok (ni_existing r)" unfolding r by (rule inventory_loop.run_inv [OF no_existing_ok e])
  show "retained_ok (ni_retained r)" unfolding r by (rule load_retained_ok [OF d])
  show "build_leak_section leak_file summary_file (rd_rows (ni_retained r)) (concat files) = Inr (ni_leaks r)"
    using leaks by (simp only: r rows)
  show "\<forall>w \<in> set (rd_rows (ni_retained r)). nr_hex w \<notin> set (ex_seen (ni_existing r))"
    using disjoint by (simp only: r not_False_eq_True)
  show "ex_rows (ni_existing r) = concat files"
    and "ni_output r = sort_key nr_hex (rd_rows (ni_retained r))"
    and "ni_existing_total r = total_of cs_atto (ex_categories (ni_existing r))"
    and "ni_retained_total r = total_of rs_retained (rd_incidents (ni_retained r))"
    and "ni_leak_total r = (case ni_leaks r of None \<Rightarrow> 0 | Some s \<Rightarrow> sec_total s)"
    and "ni_combined r = ni_existing_total r + ni_retained_total r + ni_leak_total r"
    and "ni_remaining r = ni_gross r - ni_combined r" and "ni_combined r \<le> ni_gross r"
    using tot by (simp_all only: r rows)
qed

text \<open>
  C11. The totals. What the inventories hold back is the sum of their rows, what the initial recipients retain the sum of
  the rows written, what is withheld from revert leaks the sum of the checked rows; none of the three is
  negative, their sum is the combined amount, and together with what remains it is the gross claim, which it
  never exceeds.
\<close>

theorem non_issuance_totals:
  assumes "build_non_issuance is_file relative_path inventory_files balance_rows retained_summary claim_summary
      leak_file summary_file = Inr r"
  shows "ni_existing_total r = sum_list (map (\<lambda>q. cell_int q ''not_issued_atto'') (concat inventory_files))
    \<and> ni_retained_total r = sum_list (map nr_retained (ni_output r))
    \<and> ni_leak_total r = sum_list (map (\<lambda>q. cell_int q ''retained_cap_atto'') (leak_rows leak_file))
    \<and> 0 \<le> ni_existing_total r \<and> 0 \<le> ni_retained_total r \<and> 0 \<le> ni_leak_total r
    \<and> ni_existing_total r + ni_retained_total r + ni_leak_total r + ni_remaining r = ni_gross r
    \<and> 0 \<le> ni_remaining r"
proof -
  note f = build_non_issuance_facts [OF assms]
  have e: "ni_existing_total r = sum_list (map (\<lambda>q. cell_int q ''not_issued_atto'') (concat inventory_files))"
    and "0 \<le> ni_existing_total r"
    using f(1) by (auto simp: existing_ok_def f(2,7) intro!: sum_list_nonneg)
  moreover have d: "ni_retained_total r = sum_list (map nr_retained (rd_rows (ni_retained r)))"
    and "0 \<le> ni_retained_total r"
    using f(3) by (auto simp: retained_ok_def f(8) intro!: sum_list_nonneg less_imp_le [OF retained_row_pos])
  moreover have "ni_retained_total r = sum_list (map nr_retained (ni_output r))"
    unfolding d f(6) sum_list_sort_key by (rule refl)
  moreover have l: "ni_leak_total r = sum_list (map (\<lambda>q. cell_int q ''retained_cap_atto'') (leak_rows leak_file))"
    using build_leak_section_Inr [OF f(5)] by (auto simp: f(9) split: option.splits)
  moreover have "0 \<le> ni_leak_total r"
    using build_leak_section_Inr [OF f(5)] unfolding l
    by (intro sum_list_nonneg) (auto simp: leak_row_ok_def Let_def split: option.splits)
  ultimately show ?thesis using f(10,11,12) by simp
qed

text \<open>
  No address is counted twice. The addresses of all inventories are different; the written rows are in
  strictly increasing order of the address, which is in no inventory; each row retains the smaller of the initial
  amount and the balance, a positive amount, printed exactly in ONE, and its Bech32 address decodes to the
  same account; the withheld leaks have one row per address.
\<close>

theorem non_issuance_addresses:
  assumes "build_non_issuance is_file relative_path inventory_files balance_rows retained_summary claim_summary
      leak_file summary_file = Inr r"
  shows "distinct (map (\<lambda>q. address_cell q ''address_hex'') (concat inventory_files))
    \<and> sorted_wrt (<) (map nr_hex (ni_output r))
    \<and> set (map nr_hex (ni_output r)) \<inter> set (map (\<lambda>q. address_cell q ''address_hex'') (concat inventory_files)) = {}
    \<and> (\<forall>w \<in> set (ni_output r). nr_retained w = min (nr_initial w) (nr_cutoff_balance w) \<and> 0 < nr_retained w
        \<and> read_one (nr_retained_one w) = Inr (nr_retained w) \<and> decode_one (nr_bech32 w) = canonical_hex (nr_hex w))
    \<and> distinct (map (\<lambda>q. address_cell q ''address_hex'') (leak_rows leak_file))"
proof -
  note f = build_non_issuance_facts [OF assms]
  have seen: "ex_seen (ni_existing r) = map (\<lambda>q. address_cell q ''address_hex'') (concat inventory_files)"
    and d: "distinct (ex_seen (ni_existing r))"
    using f(1) unfolding existing_ok_def f(2) by blast+
  have "distinct (map nr_hex (rd_rows (ni_retained r)))" using f(3) by (simp add: retained_ok_def)
  then have "distinct (map nr_hex (ni_output r))"
    unfolding f(6) by (simp add: distinct_map)
  moreover have "sorted (map nr_hex (ni_output r))" unfolding f(6) by (rule sorted_sort_key)
  ultimately have s: "sorted_wrt (<) (map nr_hex (ni_output r))" by (simp only: strict_sorted_iff)
  have rows: "set (ni_output r) = set (rd_rows (ni_retained r))" unfolding f(6) by simp
  have disjoint: "set (map nr_hex (ni_output r)) \<inter> set (ex_seen (ni_existing r)) = {}"
    using f(4) unfolding set_map rows by blast
  have row: "nr_retained w = min (nr_initial w) (nr_cutoff_balance w) \<and> 0 < nr_retained w
        \<and> read_one (nr_retained_one w) = Inr (nr_retained w) \<and> decode_one (nr_bech32 w) = canonical_hex (nr_hex w)"
    if "w \<in> set (ni_output r)" for w
  proof -
    have ok: "retained_row_ok w" using f(3) that by (simp add: retained_ok_def rows)
    then obtain b where "canonical_hex (nr_hex w) = Inr b" "decode_one (nr_bech32 w) = Inr b"
      using one_codec.decode_encode by (auto simp: retained_row_ok_def)
    then show ?thesis using ok read_display_one [of "nr_retained w"] unfolding retained_row_ok_def by metis
  qed
  have leaks: "distinct (map (\<lambda>q. address_cell q ''address_hex'') (leak_rows leak_file))"
    using build_leak_section_Inr [OF f(5)] by (cases "ni_leaks r") auto
  show ?thesis using d s disjoint leaks unfolding seen by (intro conjI ballI row) 
qed

text \<open>
  Nothing is withheld beyond the claim. For every revert-leak row the amounts that the inventories and the
  retained balances already hold against its address, together with what is withheld for the leak, are at most the
  native claim of the row; what is withheld is positive and at most the leaked credit.
\<close>

theorem leaks_within_claim:
  assumes "build_non_issuance is_file relative_path inventory_files balance_rows retained_summary claim_summary
      leak_file summary_file = Inr r"
    and "q \<in> set (leak_rows leak_file)"
  defines "a \<equiv> address_cell q ''address_hex''" and "withheld \<equiv> cell_int q ''retained_cap_atto''"
  shows "inventory_amount (concat inventory_files) a + retained_amount (ni_output r) a + withheld
      \<le> cell_int q ''cutoff_native_claim_atto''
    \<and> 0 < withheld \<and> withheld \<le> cell_int q ''unbacked_credit_atto''"
proof -
  note f = build_non_issuance_facts [OF assms(1)]
  obtain amounts where amounts: "existing_amounts_of (concat inventory_files) = Inr amounts"
    and ok: "leak_row_ok (retained_caps_of (rd_rows (ni_retained r))) amounts q"
    using build_leak_section_Inr [OF f(5)] assms(2) by (auto split: option.splits)
  have "retained_amount (ni_output r) a = retained_amount (rd_rows (ni_retained r)) a"
    unfolding retained_amount_def f(6) filter_sort sum_list_sort_key by (rule refl)
  moreover have "prior_amount (retained_caps_of (rd_rows (ni_retained r))) amounts a
      = retained_amount (rd_rows (ni_retained r)) a + inventory_amount (concat inventory_files) a"
    using prior_amount_eq [OF f(1,3)] amounts unfolding f(2) by blast
  ultimately show ?thesis using ok by (auto simp: leak_row_ok_def Let_def a_def withheld_def)
qed

subsection \<open>The two scripts agree\<close>

lemma int_cell_output: "r f = Some (py_str n) \<Longrightarrow> int_cell r f = Inr n"
  by (simp add: int_cell_def getitem_def codec_simps)

lemma retention_rows_facts:
  assumes "build_retention exploit_rows audits prior_retention prior_non_issuance claim_rows = Inr ret"
  shows "distinct (map rt_hex (retention_rows ret))" and "w \<in> set (retention_rows ret) \<Longrightarrow> lower (rt_hex w) = rt_hex w"
    and "w \<in> set (retention_rows ret) \<Longrightarrow> rt_prior w = get_or (retention_prior ret) (rt_hex w) 0"
    and "w \<in> set (retention_rows ret) \<Longrightarrow> 0 < rt_withheld w \<and> rt_withheld w = min (rt_credit w) (max (rt_claim w - rt_prior w) 0)"
    and "total_withheld ret = sum_list (map rt_withheld (retention_rows ret))"
proof -
  define s where "s = retention_leaks ret"
  obtain tx st where load: "load_leaks tx audits = Inr s" and
    run: "fold_r (retain_address s (retention_prior ret) (retention_claims ret)) (Map.empty, []) (sort (recipients s)) = Inr st"
    and rows: "retention_rows ret = snd st" and ok: "leaks_ok s"
    and tot: "total_withheld ret = sum_list (map rt_withheld (retention_rows ret))"
    using build_retention_E [OF assms] by (auto simp: s_def)
  show "total_withheld ret = sum_list (map rt_withheld (retention_rows ret))" by (rule tot)
  obtain ws where ws: "snd st = ws" "map rt_hex ws = filter (\<lambda>a. withheld_from s (retention_prior ret) (retention_claims ret) a \<noteq> 0)
      (sort (recipients s))" "\<forall>w \<in> set ws. row_ok s (retention_prior ret) (retention_claims ret) w"
    using retain_rows [OF run] by auto
  show "distinct (map rt_hex (retention_rows ret))"
    using ok by (simp add: rows ws leaks_ok_def)
  show "lower (rt_hex w) = rt_hex w" if "w \<in> set (retention_rows ret)"
  proof -
    have "rt_hex w \<in> set (map rt_hex ws)" using that by (simp add: rows ws(1))
    then have "rt_hex w \<in> set (recipients s)" unfolding ws(2) by simp
    moreover have "\<forall>a \<in> set (recipients no_leaks). lower a = a" by (simp add: no_leaks_def)
    ultimately show ?thesis using lower_loop.run_inv load unfolding load_leaks_def by blast
  qed
  show "rt_prior w = get_or (retention_prior ret) (rt_hex w) 0" if "w \<in> set (retention_rows ret)"
    using that ws(3) by (simp add: rows ws(1) row_ok_def)
  show "0 < rt_withheld w \<and> rt_withheld w = min (rt_credit w) (max (rt_claim w - rt_prior w) 0)"
    if "w \<in> set (retention_rows ret)"
  proof -
    have r: "row_ok s (retention_prior ret) (retention_claims ret) w" using that ws(3) by (simp add: rows ws(1))
    have pos: "0 \<le> get_or (leak_credit s) (rt_hex w) 0"
      using ok by (cases "rt_hex w \<in> dom (leak_credit s)") (auto simp: leaks_ok_def get_or_def domIff intro: less_imp_le)
    show ?thesis using r withheld_bounds(1) [OF _ pos, of "retention_prior ret" "retention_claims ret"]
      by (simp add: row_ok_def) (simp add: withheld_from_def Let_def)
  qed
qed

lemma check_output_row:
  assumes "lower (rt_hex w) = rt_hex w" and "rt_prior w = prior_amount caps amounts (rt_hex w)"
    and "0 < rt_withheld w \<and> rt_withheld w = min (rt_credit w) (max (rt_claim w - rt_prior w) 0)"
    and "rt_hex w \<notin> set (wl_seen s)"
  shows "check_leak_row caps amounts s (retention_output block w) = Inr
    \<lparr>wl_seen = wl_seen s @ [rt_hex w],
     wl_incidents = adjust no_leak_stats (rt_incident w) (count_leak (rt_credit w) (rt_withheld w)) (wl_incidents s),
     wl_overlap = wl_overlap s @ (if caps (rt_hex w) \<noteq> None then [rt_hex w] else [])\<rparr>"
proof -
  let ?r = "retention_output block w"
  have cells: "getitem ?r ''address_hex'' = Inr (rt_hex w)" "getitem ?r ''incident'' = Inr (rt_incident w)"
    "getitem ?r ''migration_treatment'' = Inr ''not_issued''"
    "int_cell ?r ''prior_non_issuance_atto'' = Inr (rt_prior w)" "int_cell ?r ''retained_cap_atto'' = Inr (rt_withheld w)"
    "int_cell ?r ''unbacked_credit_atto'' = Inr (rt_credit w)" "int_cell ?r ''cutoff_native_claim_atto'' = Inr (rt_claim w)"
    by (simp_all add: retention_output_def getitem_def int_cell_def codec_simps)
  have "withheld_amounts ?r (prior_amount caps amounts (rt_hex w)) = Inr (rt_credit w, rt_withheld w, rt_claim w)"
    using assms(2,3) unfolding withheld_amounts_def cells rbind_Inr by auto
  then show ?thesis using assms(1,4) unfolding check_leak_row_def cells rbind_Inr Let_def by simp
qed

lemma check_output_rows:
  assumes "\<forall>w \<in> set ws. lower (rt_hex w) = rt_hex w \<and> rt_prior w = prior_amount caps amounts (rt_hex w)
      \<and> 0 < rt_withheld w \<and> rt_withheld w = min (rt_credit w) (max (rt_claim w - rt_prior w) 0)"
    and "distinct (map rt_hex ws)" and "set (map rt_hex ws) \<inter> set (wl_seen s) = {}"
  shows "\<exists>s'. fold_r (check_leak_row caps amounts) s (map (retention_output block) ws) = Inr s'
    \<and> wl_seen s' = wl_seen s @ map rt_hex ws
    \<and> wl_overlap s' = wl_overlap s @ filter (\<lambda>a. caps a \<noteq> None) (map rt_hex ws)"
  using assms
proof (induction ws arbitrary: s)
  case (Cons w ws)
  define t where "t = \<lparr>wl_seen = wl_seen s @ [rt_hex w],
     wl_incidents = adjust no_leak_stats (rt_incident w) (count_leak (rt_credit w) (rt_withheld w)) (wl_incidents s),
     wl_overlap = wl_overlap s @ (if caps (rt_hex w) \<noteq> None then [rt_hex w] else [])\<rparr>"
  have "check_leak_row caps amounts s (retention_output block w) = Inr t"
    unfolding t_def by (rule check_output_row) (use Cons.prems in auto)
  moreover have "\<exists>s'. fold_r (check_leak_row caps amounts) t (map (retention_output block) ws) = Inr s'
    \<and> wl_seen s' = wl_seen t @ map rt_hex ws
    \<and> wl_overlap s' = wl_overlap t @ filter (\<lambda>a. caps a \<noteq> None) (map rt_hex ws)"
    by (rule Cons.IH) (use Cons.prems in \<open>auto simp: t_def\<close>)
  ultimately show ?case by (auto simp: t_def)
qed simp

lemma retention_output_int: "cell_int (retention_output block w) ''retained_cap_atto'' = rt_withheld w"
  by (rule int_cell_Inr, rule int_cell_output) (simp add: retention_output_def)

lemma retention_summary_fields:
  "subscript (retention_summary ret block name digest sources) ''not_issued_atto'' = Inr (JStr (py_str (total_withheld ret)))"
  "subscript (retention_summary ret block name digest sources) ''positive_rows'' = Inr (JInt (int (length (retention_rows ret))))"
  "check_leak_summary (retention_summary ret block name digest sources) digest = Inr ()"
  by (simp_all add: retention_summary_def Let_def getitem_def check_leak_summary_def get_or_def raise_if_def)

text \<open>
  The rows and the summary of the revert-leak script pass \<open>load_revert_leak\<close> when both scripts count the same
  earlier amounts.
\<close>

lemma written_rows_pass:
  assumes "build_retention exploit_rows audits prior_retention prior_non_issuance claim_rows = Inr ret"
    and "\<forall>a. get_or (retention_prior ret) a 0 = prior_amount retained_caps existing_amounts a"
  shows "\<exists>s. load_revert_leak (map (retention_output cutoff_block) (retention_rows ret)) digest
      (retention_summary ret cutoff_block csv_name digest sources) retained_caps existing_amounts
    = Inr (s, total_withheld ret, sort (filter (\<lambda>a. retained_caps a \<noteq> None) (map rt_hex (retention_rows ret))))"
proof -
  note f = retention_rows_facts [OF assms(1)]
  let ?rs = "map (retention_output cutoff_block) (retention_rows ret)"
  have pre: "\<forall>w \<in> set (retention_rows ret). lower (rt_hex w) = rt_hex w
      \<and> rt_prior w = prior_amount retained_caps existing_amounts (rt_hex w)
      \<and> 0 < rt_withheld w \<and> rt_withheld w = min (rt_credit w) (max (rt_claim w - rt_prior w) 0)"
    using f(2-4) assms(2) by metis
  have "set (map rt_hex (retention_rows ret)) \<inter> set (wl_seen no_withheld) = {}" by (simp add: no_withheld_def)
  from check_output_rows [OF pre f(1) this, of cutoff_block]
  obtain s where run: "fold_r (check_leak_row retained_caps existing_amounts) no_withheld ?rs = Inr s"
    and seen: "wl_seen s = map rt_hex (retention_rows ret)"
    and over: "wl_overlap s = filter (\<lambda>a. retained_caps a \<noteq> None) (map rt_hex (retention_rows ret))"
    unfolding no_withheld_def withheld_leaks.simps append_Nil by blast
  have "total_of ls_not_issued (wl_incidents s) = total_withheld ret"
    using leak_atto.run_total [OF run] by (simp add: no_withheld_def dict_simps f(5) retention_output_int comp_def)
  moreover from this have "check_leak_totals (retention_summary ret cutoff_block csv_name digest sources) s = Inr ()"
    using arg_cong [OF seen, of length]
    by (simp add: check_leak_totals_def retention_summary_fields raise_if_def py_eq_def as_number_def)
  ultimately show ?thesis using run over by (simp add: load_revert_leak_def retention_summary_fields)
qed

text \<open>
  Both scripts count the same earlier amounts: one adds up the cells of the files, the other the dictionaries
  it keeps while it writes one of them.
\<close>

lemma load_prior_run:
  assumes "fold_r (add_prior field) m rs = Inr m'"
  shows "get_or m' a 0 = get_or m a 0
      + sum_list (map (\<lambda>r. cell_int r field) (filter (\<lambda>r. address_cell r ''address_hex'' = a) rs))
    \<and> (\<forall>r \<in> set rs. is_ok (getitem r ''address_hex'') \<and> is_ok (int_cell r field))"
  using assms
proof (induction rs arbitrary: m)
  case (Cons r rs)
  then obtain t n where t: "getitem r ''address_hex'' = Inr t" "int_cell r field = Inr n"
    and rest: "fold_r (add_prior field) (m(lower t \<mapsto> get_or m (lower t) 0 + n)) rs = Inr m'"
    unfolding fold_r.simps add_prior_def int_cell_def by (elim rbind_E) (auto simp: rbind_eq_Inr)
  have "lower t = address_cell r ''address_hex''" "n = cell_int r field"
    using t by (simp_all add: address_cell_Inr int_cell_Inr)
  with Cons.IH [OF rest] t show ?case by (auto simp: is_ok_iff get_or_def)
qed simp

lemma get_or_merge_prior: "get_or (merge_prior m n) a 0 = get_or m a 0 + get_or n a 0"
  by (simp add: merge_prior_def get_or_def split: option.splits)

lemma retention_prior_sums:
  assumes "build_retention exploit_rows audits prior_retention prior_non_issuance claim_rows = Inr ret"
  shows "get_or (retention_prior ret) a 0
      = sum_list (map (\<lambda>r. cell_int r ''retained_cap_atto'') (filter (\<lambda>r. address_cell r ''address_hex'' = a) (concat prior_retention)))
        + inventory_amount (concat prior_non_issuance) a"
    and "\<forall>r \<in> set (concat prior_non_issuance). is_ok (getitem r ''address_hex'') \<and> is_ok (int_cell r ''not_issued_atto'')"
proof -
  from assms obtain p q where p: "load_prior ''retained_cap_atto'' prior_retention = Inr p"
    and q: "load_prior ''not_issued_atto'' prior_non_issuance = Inr q" and prior: "retention_prior ret = merge_prior p q"
    unfolding build_retention_def Let_def by (elim rbind_E) (metis Inr_inject retention.simps(2))
  note load_prior_run [of _ Map.empty, folded load_prior_def]
  show "get_or (retention_prior ret) a 0
      = sum_list (map (\<lambda>r. cell_int r ''retained_cap_atto'') (filter (\<lambda>r. address_cell r ''address_hex'' = a) (concat prior_retention)))
        + inventory_amount (concat prior_non_issuance) a"
    using load_prior_run [OF p [unfolded load_prior_def], of a] load_prior_run [OF q [unfolded load_prior_def], of a]
    by (simp add: prior get_or_merge_prior inventory_amount_def)
  show "\<forall>r \<in> set (concat prior_non_issuance). is_ok (getitem r ''address_hex'') \<and> is_ok (int_cell r ''not_issued_atto'')"
    using load_prior_run [OF q [unfolded load_prior_def]] by blast
qed

lemma existing_amounts_ok:
  "\<forall>r \<in> set rs. is_ok (getitem r ''address_hex'') \<and> is_ok (int_cell r ''not_issued_atto'') \<Longrightarrow>
     \<exists>m'. fold_r add_existing_amount m rs = Inr m'"
  by (induction rs arbitrary: m) (auto simp: is_ok_iff add_existing_amount_def)

definition lower_rows :: "retained \<Rightarrow> bool" where
  "lower_rows s \<longleftrightarrow> (\<forall>w \<in> set (rd_rows s). lower (nr_hex w) = nr_hex w)"

lemma add_retained_lower: "lower_rows s \<Longrightarrow> add_retained is_file rel s r = Inr s' \<Longrightarrow> lower_rows s'"
  using add_retained_Inr(3) [of is_file rel s r s'] by (auto simp: lower_rows_def address_cell_def split: if_splits)

interpretation lower_rows_loop: invariant_loop "add_retained is_file rel" lower_rows for is_file rel
  by unfold_locales (rule add_retained_lower)

lemma retained_lower:
  assumes "build_non_issuance is_file rel files balance_rows rsum csum leak_file summary_file = Inr r"
  shows "lower_rows (ni_retained r)"
proof -
  from assms obtain block where "load_retained is_file rel balance_rows = Inr (ni_retained r, block)"
    unfolding build_non_issuance_def combine_def Let_def
    by (elim rbind_E) (auto simp: rbind_eq_Inr split: if_split_asm list.split_asm)
  then have "fold_r (add_retained is_file rel) no_retained balance_rows = Inr (ni_retained r)"
    unfolding load_retained_def by (elim rbind_E) (auto split: list.split_asm prod.split_asm)
  moreover have "lower_rows no_retained" by (simp add: lower_rows_def no_retained_def)
  ultimately show ?thesis using lower_rows_loop.run_inv by blast
qed

lemma retained_csv_cells:
  "lower (nr_hex w) = nr_hex w \<Longrightarrow> address_cell (retained_csv_row w) ''address_hex'' = nr_hex w"
  "cell_int (retained_csv_row w) ''retained_cap_atto'' = nr_retained w"
  by (simp_all add: retained_csv_row_def address_cell_def get_or_def int_cell_Inr int_cell_output)

lemma retained_csv_sum:
  assumes "\<forall>w \<in> set ws. lower (nr_hex w) = nr_hex w"
  shows "sum_list (map (\<lambda>r. cell_int r ''retained_cap_atto'')
      (filter (\<lambda>r. address_cell r ''address_hex'' = a) (map retained_csv_row ws))) = retained_amount ws a"
  using assms by (induction ws) (auto simp: retained_amount_def retained_csv_cells)

lemma retained_caps_dom: "(retained_caps_of ws a \<noteq> None) = (a \<in> set (map nr_hex ws))"
proof -
  have "(foldl (\<lambda>m w. m(nr_hex w \<mapsto> nr_retained w)) m ws a \<noteq> None) = (m a \<noteq> None \<or> a \<in> set (map nr_hex ws))" for m
    by (induction ws arbitrary: m) auto
  then show ?thesis by (simp add: retained_caps_of_def)
qed

text \<open>What a passed run leaves for another run over the same files with other revert-leak inputs.\<close>

lemma build_non_issuance_again:
  assumes "build_non_issuance is_file rel files balance_rows rsum csum leak_file summary_file = Inr r"
    and "build_leak_section leak_file' summary_file' (rd_rows (ni_retained r)) (concat files) = Inr leaks"
  defines "n \<equiv> case leaks of None \<Rightarrow> 0 | Some s \<Rightarrow> sec_total s"
  shows "build_non_issuance is_file rel files balance_rows rsum csum leak_file' summary_file'
    = (if ni_existing_total r + ni_retained_total r + n > ni_gross r
       then Inl (ValueError ''combined non-issuance exceeds the gross cutoff claim'')
       else Inr (r\<lparr>ni_leaks := leaks, ni_leak_total := n, ni_combined := ni_existing_total r + ni_retained_total r + n,
         ni_remaining := ni_gross r - (ni_existing_total r + ni_retained_total r + n)\<rparr>))"
proof -
  from assms(1) obtain e d block gross old where e: "fold_r add_inventory no_existing files = Inr e"
    and d: "load_retained is_file rel balance_rows = Inr (d, block)"
    and disjoint: "\<forall>w \<in> set (rd_rows d). nr_hex w \<notin> set (ex_seen e)"
    and checked: "check_retained_summary rsum d block = Inr ()"
    and gross: "rbind (subscript csum ''total_claim_atto'') int_of = Inr gross"
    and c: "combine e (d, block) rsum gross old = Inr r"
    unfolding build_non_issuance_def by (elim rbind_E) (auto simp: rbind_eq_Inr split: if_split_asm)
  have rows: "ex_rows e = concat files"
    using inventory_rows [OF no_existing_ok e] by (simp add: no_existing_def)
  have "ni_retained r = d" using c unfolding combine_def Let_def by (auto simp: rbind_eq_Inr split: if_split_asm list.split_asm)
  then have "build_leak_section leak_file' summary_file' (rd_rows d) (ex_rows e) = Inr leaks" using assms(2) by (simp add: rows)
  then have "build_non_issuance is_file rel files balance_rows rsum csum leak_file' summary_file' = combine e (d, block) rsum gross leaks"
    unfolding build_non_issuance_def e d gross rbind_Inr using disjoint checked by simp
  moreover have "combine e (d, block) rsum gross leaks
    = (if ni_existing_total r + ni_retained_total r + n > ni_gross r
       then Inl (ValueError ''combined non-issuance exceeds the gross cutoff claim'')
       else Inr (r\<lparr>ni_leaks := leaks, ni_leak_total := n, ni_combined := ni_existing_total r + ni_retained_total r + n,
         ni_remaining := ni_gross r - (ni_existing_total r + ni_retained_total r + n)\<rparr>))"
    using c unfolding combine_def Let_def n_def by (auto simp: rbind_eq_Inr split: if_split_asm list.split_asm)
  ultimately show ?thesis by (rule trans)
qed

lemma retention_section:
  assumes "build_non_issuance is_file rel files balance_rows rsum csum leak_file summary_file = Inr r"
    and "build_retention exploit_rows audits [map retained_csv_row (ni_output r)] files claim_rows = Inr ret"
  shows "\<exists>sec. build_leak_section (Some (map (retention_output block) (retention_rows ret), digest))
      (Some (retention_summary ret block name digest sources)) (rd_rows (ni_retained r)) (concat files) = Inr (Some sec)
    \<and> sec_total sec = total_withheld ret
    \<and> sec_overlap sec = sort (filter (\<lambda>a. a \<in> set (map nr_hex (ni_output r))) (map rt_hex (retention_rows ret)))"
proof -
  note f = build_non_issuance_facts [OF assms(1)]
  have low: "\<forall>w \<in> set (ni_output r). lower (nr_hex w) = nr_hex w"
    using retained_lower [OF assms(1)] by (simp add: f(6) lower_rows_def)
  note prior = retention_prior_sums [OF assms(2)]
  obtain amounts where amounts: "existing_amounts_of (concat files) = Inr amounts"
    using existing_amounts_ok [OF prior(2)] unfolding existing_amounts_of_def by blast
  have "retained_amount (ni_output r) a = retained_amount (rd_rows (ni_retained r)) a" for a
    unfolding retained_amount_def f(6) filter_sort sum_list_sort_key by (rule refl)
  then have "\<forall>a. get_or (retention_prior ret) a 0 = prior_amount (retained_caps_of (rd_rows (ni_retained r))) amounts a"
    using prior_amount_eq [OF f(1,3)] amounts unfolding f(2) by (simp add: prior(1) retained_csv_sum [OF low])
  from written_rows_pass [OF assms(2) this, unfolded retained_caps_dom] obtain s where
    "load_revert_leak (map (retention_output block) (retention_rows ret)) digest (retention_summary ret block name digest sources)
      (retained_caps_of (rd_rows (ni_retained r))) amounts = Inr (s, total_withheld ret,
        sort (filter (\<lambda>a. a \<in> set (map nr_hex (rd_rows (ni_retained r)))) (map rt_hex (retention_rows ret))))"
    by blast
  moreover have "\<exists>quoted. map_r (subscript (retention_summary ret block name digest sources)) [''rule'', ''leak_receipts'',
      ''credited_recipients'', ''unbacked_credit_atto'', ''unbacked_credit_one''] = Inr quoted"
    by (simp add: retention_summary_def Let_def getitem_def)
  ultimately show ?thesis
    unfolding build_leak_section_def by (auto simp: amounts f(6) simp del: map_r.simps)
qed

text \<open>
  C12. The two scripts, one after the other. Let a run of \<open>build-non-issuance-audit.py\<close> have passed, let
  \<open>build-revert-leak-retention.py\<close> read the CSV file it wrote and the same inventories as earlier amounts, and let
  the first script run again with the rows and the summary that the second one wrote. Then every check of those
  rows passes, and the second run either succeeds, with exactly the withheld total as the revert-leak amount, the
  same other amounts, and as overlap the withheld addresses that also have a retained row, or it is refused because
  the combined amount exceeds the gross claim, and for no other reason.
\<close>

theorem retention_accepted:
  fixes cutoff_block :: int and digest csv_name :: string and sources :: json
  assumes "build_non_issuance is_file relative_path inventory_files balance_rows retained_summary claim_summary
      leak_file summary_file = Inr r"
    and "build_retention exploit_rows audits [map retained_csv_row (ni_output r)] inventory_files claim_rows = Inr ret"
  defines "again \<equiv> build_non_issuance is_file relative_path inventory_files balance_rows retained_summary claim_summary
      (Some (map (retention_output cutoff_block) (retention_rows ret), digest))
      (Some (retention_summary ret cutoff_block csv_name digest sources))"
  shows "if ni_existing_total r + ni_retained_total r + total_withheld ret > ni_gross r
    then again = Inl (ValueError ''combined non-issuance exceeds the gross cutoff claim'')
    else \<exists>r' sec. again = Inr r' \<and> ni_leaks r' = Some sec \<and> ni_leak_total r' = total_withheld ret
      \<and> sec_overlap sec = sort (filter (\<lambda>a. a \<in> set (map nr_hex (ni_output r))) (map rt_hex (retention_rows ret)))
      \<and> ni_output r' = ni_output r \<and> ni_existing_total r' = ni_existing_total r \<and> ni_retained_total r' = ni_retained_total r
      \<and> ni_remaining r' = ni_gross r - (ni_existing_total r + ni_retained_total r + total_withheld ret)"
proof -
  obtain sec where sec: "build_leak_section (Some (map (retention_output cutoff_block) (retention_rows ret), digest))
      (Some (retention_summary ret cutoff_block csv_name digest sources)) (rd_rows (ni_retained r)) (concat inventory_files)
        = Inr (Some sec)"
    and "sec_total sec = total_withheld ret"
    "sec_overlap sec = sort (filter (\<lambda>a. a \<in> set (map nr_hex (ni_output r))) (map rt_hex (retention_rows ret)))"
    using retention_section [OF assms(1,2)] by blast
  then show ?thesis using build_non_issuance_again [OF assms(1) sec] unfolding again_def by simp
qed

text \<open>One reviewed address, one retained balance, and a leak credited to the retained address.\<close>

definition example_inventory_row :: row where
  "example_inventory_row = [''address_hex'' \<mapsto> ''0x0000000000000000000000000000000000000001'', ''category'' \<mapsto> ''inaccessible'',
     ''not_issued_atto'' \<mapsto> ''10'', ''cutoff_claim_atto'' \<mapsto> ''10'']"

definition example_balance_row :: row where
  "example_balance_row = [''incident'' \<mapsto> ''april-2026'', ''address'' \<mapsto> ''0x0000000000000000000000000000000000000002'',
     ''initial_amount_atto'' \<mapsto> ''100'', ''cutoff_block'' \<mapsto> ''50'', ''cutoff_balance_atto'' \<mapsto> ''80'', ''rpc_block'' \<mapsto> ''51'',
     ''rpc_balance_atto'' \<mapsto> ''80'', ''rpc_retained_cap_atto'' \<mapsto> ''80'', ''balance_changed_from_sep10'' \<mapsto> ''false'',
     ''raw_file'' \<mapsto> ''raw/example.json'']"

definition example_withheld_row :: row where
  "example_withheld_row = [''address_hex'' \<mapsto> ''0x0000000000000000000000000000000000000002'', ''incident'' \<mapsto> ''may-2025'',
     ''unbacked_credit_atto'' \<mapsto> ''50'', ''cutoff_native_claim_atto'' \<mapsto> ''100'', ''prior_non_issuance_atto'' \<mapsto> ''80'',
     ''retained_cap_atto'' \<mapsto> ''20'', ''migration_treatment'' \<mapsto> ''not_issued'']"

definition example_balance_summary :: json where
  "example_balance_summary = JDict [(''block'', JInt 51), (''block_hash'', JStr ''0xabc''), (''block_utc'', JStr ''example''),
     (''queried_at_utc'', JStr ''example''), (''changed_from_sep10'', JInt 0),
     (''incidents'', JDict [(''april-2026'', JDict [(''addresses'', JInt 1), (''retained_cap_atto'', JStr ''80''),
        (''above_1000_one'', JInt 0)])])]"

definition example_leak_summary :: json where
  "example_leak_summary = JDict [(''status'', JStr ''passed''), (''rule'', JStr ''rule''), (''leak_receipts'', JInt 1),
     (''credited_recipients'', JInt 1), (''unbacked_credit_atto'', JStr ''50''), (''unbacked_credit_one'', JStr ''50''),
     (''positive_rows'', JInt 1), (''not_issued_atto'', JStr ''20''), (''outputs'', JDict [(''csv_sha256'', JStr ''d'')])]"

definition example_non_issuance :: "non_issuance result" where
  "example_non_issuance = build_non_issuance (\<lambda>_. True) (\<lambda>p. p) [[example_inventory_row]] [example_balance_row]
     example_balance_summary (JDict [(''total_claim_atto'', JStr ''200'')]) (Some ([example_withheld_row], ''d''))
     (Some example_leak_summary)"

lemma example_non_issuance_ok: "\<exists>r. example_non_issuance = Inr r"
proof -
  have "is_ok example_non_issuance" unfolding example_non_issuance_def by code_simp
  then show ?thesis by (simp only: is_ok_iff)
qed

theorem non_issuance_totals_witness:
  "\<exists>r. example_non_issuance = Inr r \<and> ni_existing_total r = 10 \<and> ni_leak_total r = 20
     \<and> 10 + ni_retained_total r + 20 + ni_remaining r = ni_gross r"
proof -
  obtain r where r: "example_non_issuance = Inr r" using example_non_issuance_ok by blast
  have "sum_list (map (\<lambda>q. cell_int q ''not_issued_atto'') (concat [[example_inventory_row]])) = 10"
    and "sum_list (map (\<lambda>q. cell_int q ''retained_cap_atto'') (leak_rows (Some ([example_withheld_row], ''d'')))) = 20"
    by code_simp+
  then show ?thesis using non_issuance_totals [OF r [unfolded example_non_issuance_def]] r
    by (intro exI [of _ r]) auto
qed

theorem non_issuance_addresses_witness: "\<exists>r. example_non_issuance = Inr r \<and> sorted_wrt (<) (map nr_hex (ni_output r))"
proof -
  obtain r where r: "example_non_issuance = Inr r" using example_non_issuance_ok by blast
  then show ?thesis using non_issuance_addresses [OF r [unfolded example_non_issuance_def]] by blast
qed

theorem leaks_within_claim_witness:
  "\<exists>r. example_non_issuance = Inr r
     \<and> retained_amount (ni_output r) ''0x0000000000000000000000000000000000000002'' + 20 \<le> 100"
proof -
  obtain r where r: "example_non_issuance = Inr r" using example_non_issuance_ok by blast
  have cells: "address_cell example_withheld_row ''address_hex'' = ''0x0000000000000000000000000000000000000002''"
    "cell_int example_withheld_row ''retained_cap_atto'' = 20"
    "cell_int example_withheld_row ''cutoff_native_claim_atto'' = 100"
    "inventory_amount (concat [[example_inventory_row]]) ''0x0000000000000000000000000000000000000002'' = 0" by code_simp+
  have "example_withheld_row \<in> set (leak_rows (Some ([example_withheld_row], ''d'')))" by (simp add: leak_rows_def)
  from leaks_within_claim [OF r [unfolded example_non_issuance_def] this] show ?thesis
    unfolding cells using r by auto
qed

text \<open>A leak credited to the address with the retained balance: its claim of 100 leaves 20 after the 80 retained.\<close>

definition example_credit :: row where
  "example_credit = (example_leak ''0'' ''50'')(''to'' \<mapsto> ''0x0000000000000000000000000000000000000002'')"

definition example_cutoff_claim :: row where
  "example_cutoff_claim = [''address'' \<mapsto> ''0x0000000000000000000000000000000000000002'', ''native_total_claim_atto'' \<mapsto> ''100'']"

theorem retention_accepted_witness:
  "\<exists>r r' ret. example_non_issuance = Inr r
     \<and> build_retention [] [[example_credit]] [map retained_csv_row (ni_output r)] [[example_inventory_row]] [example_cutoff_claim] = Inr ret
     \<and> build_non_issuance (\<lambda>_. True) (\<lambda>p. p) [[example_inventory_row]] [example_balance_row] example_balance_summary
         (JDict [(''total_claim_atto'', JStr ''200'')]) (Some (map (retention_output 50) (retention_rows ret), ''d''))
         (Some (retention_summary ret 50 ''out.csv'' ''d'' (JDict []))) = Inr r'
     \<and> ni_leak_total r' = 20 \<and> ni_remaining r' = 90"
proof -
  have "(case example_non_issuance of Inl _ \<Rightarrow> False | Inr r \<Rightarrow>
      ni_existing_total r = 10 \<and> ni_retained_total r = 80 \<and> ni_gross r = 200 \<and>
      (case build_retention [] [[example_credit]] [map retained_csv_row (ni_output r)] [[example_inventory_row]] [example_cutoff_claim] of
         Inl _ \<Rightarrow> False | Inr ret \<Rightarrow> total_withheld ret = 20))"
    unfolding example_non_issuance_def by code_simp
  then obtain r ret where r: "example_non_issuance = Inr r" "ni_existing_total r = 10" "ni_retained_total r = 80" "ni_gross r = 200"
    and ret: "build_retention [] [[example_credit]] [map retained_csv_row (ni_output r)] [[example_inventory_row]] [example_cutoff_claim] = Inr ret"
      "total_withheld ret = 20"
    by (auto split: sum.splits)
  from retention_accepted [OF r(1) [unfolded example_non_issuance_def] ret(1), of 50 "''d''" "''out.csv''" "JDict []"]
  show ?thesis using r ret by auto
qed

end
