(* ===== verification/Timestamps.thy ===== *)
theory Timestamps
  imports Pybase
begin

section \<open>UTC timestamps: \<open>parse_utc\<close> of \<open>migration-policy-reconciliation.py\<close>\<close>

text \<open>
  A timestamp ends in Z. What stands before it goes to \<open>datetime.fromisoformat\<close> with "+00:00" appended. Modelled are the
  formats every Python 3 accepts, those \<open>isoformat\<close> prints: a date, one separator character, hours,
  optionally minutes, seconds, and 3 or 6 digits of a fraction. Without a time the appended offset is read as the
  time and the result has no zone. A parsed timestamp is the list of its components,
  which compares as \<open>datetime\<close> values of the same zone do.
\<close>

type_synonym instant = "int list"

definition digits_of :: "string \<Rightarrow> int option" where
  "digits_of s = map_option int (fold (\<lambda>c acc. case (acc, digit_value 10 c) of
     (Some n, Some d) \<Rightarrow> Some (10 * n + d) | _ \<Rightarrow> None) s (Some 0))"

definition bad_format :: error where
  "bad_format = ValueError ''Invalid isoformat string''"

definition field_of :: "nat \<Rightarrow> int \<Rightarrow> int \<Rightarrow> string \<Rightarrow> int result" where
  "field_of width lower_bound upper_bound s =
     (if length s \<noteq> width then Inl bad_format
      else case digits_of s of
             None \<Rightarrow> Inl bad_format
           | Some n \<Rightarrow> if lower_bound \<le> n \<and> n \<le> upper_bound then Inr n else Inl (ValueError ''out of range''))"

definition leap_year :: "int \<Rightarrow> bool" where
  "leap_year y \<longleftrightarrow> y mod 4 = 0 \<and> (y mod 100 \<noteq> 0 \<or> y mod 400 = 0)"

definition days_in_month :: "int \<Rightarrow> int \<Rightarrow> int" where
  "days_in_month y m = (if m = 2 then (if leap_year y then 29 else 28) else if m \<in> set [4, 6, 9, 11] then 30 else 31)"

definition parse_date :: "string \<Rightarrow> instant result" where
  "parse_date s =
     (if length s \<noteq> 10 \<or> s ! 4 \<noteq> CHR ''-'' \<or> s ! 7 \<noteq> CHR ''-'' then Inl bad_format
      else rbind (field_of 4 1 9999 (take 4 s)) (\<lambda>y.
           rbind (field_of 2 1 12 (take 2 (drop 5 s))) (\<lambda>m.
           rbind (field_of 2 1 (days_in_month y m) (drop 8 s)) (\<lambda>d. Inr [y, m, d]))))"

text \<open>The fraction is in microseconds.\<close>

definition parse_fraction :: "string \<Rightarrow> int result" where
  "parse_fraction s =
     (case s of
        [] \<Rightarrow> Inr 0
      | c # ds \<Rightarrow> if c \<noteq> CHR ''.'' then Inl bad_format
                  else if length ds = 3 then rbind (field_of 3 0 999 ds) (\<lambda>n. Inr (1000 * n))
                  else field_of 6 0 999999 ds)"

definition parse_seconds :: "string \<Rightarrow> instant result" where
  "parse_seconds s =
     (case s of
        [] \<Rightarrow> Inr [0, 0]
      | c # ds \<Rightarrow> if c \<noteq> CHR '':'' then Inl bad_format
                  else rbind (field_of 2 0 59 (take 2 ds)) (\<lambda>sec.
                       rbind (parse_fraction (drop 2 ds)) (\<lambda>micro. Inr [sec, micro])))"

definition parse_clock :: "string \<Rightarrow> instant result" where
  "parse_clock s =
     rbind (field_of 2 0 23 (take 2 s)) (\<lambda>h.
       case drop 2 s of
         [] \<Rightarrow> Inr [h, 0, 0, 0]
       | c # ds \<Rightarrow> if c \<noteq> CHR '':'' then Inl bad_format
                   else rbind (field_of 2 0 59 (take 2 ds)) (\<lambda>m.
                        rbind (parse_seconds (drop 2 ds)) (\<lambda>rest. Inr ([h, m] @ rest))))"

definition parse_utc :: "string \<Rightarrow> instant result" where
  "parse_utc v =
     (if \<not> ends_with ''Z'' v then Inl (ValueError ''UTC timestamp must end in Z'')
      else let s = butlast v in
           rbind (parse_date (take 10 s)) (\<lambda>date.
             if length s = 10 then Inl (ValueError ''timestamp is not UTC'')
             else rbind (parse_clock (drop 11 s)) (\<lambda>time. Inr (date @ time))))"

subsection \<open>What is accepted\<close>

text \<open>Every parsed timestamp has seven components in the ranges of the calendar.\<close>

definition calendar_ok :: "instant \<Rightarrow> bool" where
  "calendar_ok t \<longleftrightarrow> (case t of [y, m, d, h, mi, s, u] \<Rightarrow>
     1 \<le> y \<and> y \<le> 9999 \<and> 1 \<le> m \<and> m \<le> 12 \<and> 1 \<le> d \<and> d \<le> days_in_month y m
     \<and> 0 \<le> h \<and> h < 24 \<and> 0 \<le> mi \<and> mi < 60 \<and> 0 \<le> s \<and> s < 60 \<and> 0 \<le> u \<and> u < 1000000 | _ \<Rightarrow> False)"

lemma field_of_Inr: "field_of w lo hi s = Inr n \<Longrightarrow> lo \<le> n \<and> n \<le> hi"
  by (auto simp: field_of_def split: if_splits option.splits)

lemma parse_date_Inr: "parse_date s = Inr t \<Longrightarrow>
    \<exists>y m d. t = [y, m, d] \<and> 1 \<le> y \<and> y \<le> 9999 \<and> 1 \<le> m \<and> m \<le> 12 \<and> 1 \<le> d \<and> d \<le> days_in_month y m"
  by (auto simp: parse_date_def rbind_eq_Inr dest!: field_of_Inr split: if_splits)

lemma parse_fraction_Inr: "parse_fraction s = Inr u \<Longrightarrow> 0 \<le> u \<and> u < 1000000"
  by (auto simp: parse_fraction_def rbind_eq_Inr dest!: field_of_Inr split: if_splits list.splits)

lemma parse_seconds_Inr: "parse_seconds r = Inr t \<Longrightarrow> \<exists>s u. t = [s, u] \<and> 0 \<le> s \<and> s < 60 \<and> 0 \<le> u \<and> u < 1000000"
  by (auto simp: parse_seconds_def rbind_eq_Inr dest!: field_of_Inr parse_fraction_Inr split: if_splits list.splits)

lemma parse_clock_Inr: "parse_clock r = Inr t \<Longrightarrow>
    \<exists>h m s u. t = [h, m, s, u] \<and> 0 \<le> h \<and> h < 24 \<and> 0 \<le> m \<and> m < 60 \<and> 0 \<le> s \<and> s < 60 \<and> 0 \<le> u \<and> u < 1000000"
  unfolding parse_clock_def
  by (elim rbind_E)
     (auto simp: rbind_eq_Inr dest!: field_of_Inr parse_seconds_Inr split: if_split_asm list.split_asm)

lemma parse_utc_calendar: "parse_utc v = Inr t \<Longrightarrow> calendar_ok t"
  by (auto simp: parse_utc_def Let_def rbind_eq_Inr calendar_ok_def dest!: parse_date_Inr parse_clock_Inr split: if_splits)

end
