(* ===== verification/StagePolicy.thy ===== *)
theory StagePolicy
  imports NonIssuance Timestamps
begin

section \<open>The staged migration policy: \<open>migration-policy-reconciliation.py\<close>\<close>

text \<open>
  The script sums the address-level stage policy again and compares the sums with the summaries of three other
  programs. A row is read and checked by itself (\<open>admit\<close>) and then booked into the totals (\<open>book_stage\<close>); the
  comparisons follow in the order of the code. JSON documents and file digests are parameters.
\<close>

subsection \<open>One row\<close>

text \<open>The keys of the dictionary \<open>values\<close>, and their columns.\<close>

datatype stage_field = Gross | Existing | Historical | Wone | Contract | Contract_Wallet | Contract_Staked
  | Wallet_Part | Staked_Part | Migration

definition stage_fields :: "(stage_field \<times> string) list" where
  "stage_fields = [(Gross, ''gross_allocation_atto''), (Existing, ''existing_non_issuance_atto''),
     (Historical, ''historical_retained_cap_atto''), (Wone, ''wone_source_offset_atto''),
     (Contract, ''reviewed_contract_non_issuance_atto''), (Contract_Wallet, ''reviewed_contract_wallet_non_issuance_atto''),
     (Contract_Staked, ''reviewed_contract_staked_non_issuance_atto''), (Wallet_Part, ''migration_wallet_allocation_atto''),
     (Staked_Part, ''migration_staked_to_vault_atto''), (Migration, ''migration_allocation_atto'')]"

definition required_columns :: "string list" where
  "required_columns = [''address'', ''account_classification'', ''policy_group'', ''routing_category'', ''migration_stage'',
     ''issuance_treatment'', ''qualification_total_atto''] @ map snd stage_fields @ [''last_activity_time_utc'']"

type_synonym stage_values = "(stage_field, int) dict"

definition read_values :: "row \<Rightarrow> stage_values result" where
  "read_values r = map_r (\<lambda>(f, column). rbind (int_cell r column) (\<lambda>n. Inr (f, n))) stage_fields"

abbreviation val :: "stage_values \<Rightarrow> stage_field \<Rightarrow> int" where
  "val vs f \<equiv> entry 0 vs f"

definition ATTO_PER_ONE :: int where
  "ATTO_PER_ONE = 10 ^ 18"

definition check_values :: "row \<Rightarrow> stage_values \<Rightarrow> int result" where
  "check_values r vs =
     (if \<exists>kv \<in> set vs. snd kv < 0 then Inl (ValueError ''negative stage amount'')
      else rbind (int_cell r ''qualification_total_atto'') (\<lambda>qualification.
           if qualification < 1000 * ATTO_PER_ONE then Inl (ValueError ''below-threshold stage row'')
           else if val vs Gross - val vs Existing - val vs Historical - val vs Wone - val vs Contract \<noteq> val vs Migration
           then Inl (ValueError ''stage row does not close'')
           else if val vs Wallet_Part + val vs Staked_Part \<noteq> val vs Migration
           then Inl (ValueError ''final components do not close'')
           else if val vs Contract_Wallet + val vs Contract_Staked \<noteq> val vs Contract
           then Inl (ValueError ''contract non-issuance components do not close'')
           else Inr qualification))"

definition check_treatment :: "string \<Rightarrow> string \<Rightarrow> int \<Rightarrow> unit result" where
  "check_treatment treatment stage migration =
     (if treatment = ''issue'' then raise_if (stage = [] \<or> migration \<le> 0) (ValueError ''issued row has no stage or amount'')
      else if treatment = ''not_issued'' then raise_if (stage \<noteq> [] \<or> migration \<noteq> 0) (ValueError ''not-issued row has stage or amount'')
      else Inl (ValueError ''invalid issuance treatment''))"

definition is_wallet :: "string \<Rightarrow> bool" where
  "is_wallet c \<longleftrightarrow> c = ''wallet'' \<or> c = ''validator_wallet''"

record stage_row =
  sr_values :: stage_values
  sr_stage :: string
  sr_treatment :: string
  sr_class :: string
  sr_policy_group :: string
  sr_routing :: string
  sr_meets :: bool
  sr_activity :: "instant option"

definition sr_amount :: "stage_row \<Rightarrow> int" where
  "sr_amount w = val (sr_values w) Migration"

definition read_activity :: "row \<Rightarrow> instant option result" where
  "read_activity r = rbind (getitem r ''last_activity_time_utc'') (\<lambda>t.
     if t = [] then Inr None else rbind (parse_utc t) (\<lambda>a. Inr (Some a)))"

text \<open>The checks on where a row may be placed; \<open>since\<close> is the start of the activity window.\<close>

definition check_placement :: "instant \<Rightarrow> stage_row \<Rightarrow> unit result" where
  "check_placement since w =
     (let wallet = is_wallet (sr_class w); issued = sr_amount w > 0 in
      if wallet \<and> issued \<and> \<not> sr_meets w \<and> sr_stage w \<noteq> ''deferred''
      then Inl (ValueError ''wallet below threshold after incident deductions is not deferred'')
      else if sr_stage w = ''initial'' \<and>
        (\<not> wallet \<or> \<not> issued \<or> \<not> sr_meets w \<or> (case sr_activity w of None \<Rightarrow> True | Some t \<Rightarrow> t < since))
      then Inl (ValueError ''invalid initial-stage row'')
      else if sr_stage w = ''deferred'' \<and> wallet \<and> issued \<and> sr_meets w
        \<and> (case sr_activity w of None \<Rightarrow> False | Some t \<Rightarrow> since \<le> t)
      then Inl (ValueError ''active wallet incorrectly deferred'')
      else if sr_class w = ''genuine_contract'' \<and> sr_stage w = ''initial''
      then Inl (ValueError ''genuine contract entered initial stage'')
      else Inr ())"

definition read_stage_row :: "row \<Rightarrow> stage_row result" where
  "read_stage_row r =
     rbind (read_values r) (\<lambda>vs.
     rbind (check_values r vs) (\<lambda>qualification.
     rbind (getitem r ''migration_stage'') (\<lambda>stage.
     rbind (getitem r ''issuance_treatment'') (\<lambda>treatment.
     rbind (check_treatment treatment stage (val vs Migration)) (\<lambda>_.
     rbind (read_activity r) (\<lambda>activity.
     rbind (getitem r ''account_classification'') (\<lambda>classification.
     rbind (getitem r ''routing_category'') (\<lambda>routing.
     rbind (getitem r ''policy_group'') (\<lambda>policy_group.
       Inr \<lparr>sr_values = vs, sr_stage = stage, sr_treatment = treatment, sr_class = classification,
            sr_policy_group = policy_group, sr_routing = routing,
            sr_meets = qualification - val vs Existing - val vs Historical \<ge> 1000 * ATTO_PER_ONE,
            sr_activity = activity\<rparr>)))))))))"

definition admit :: "instant \<Rightarrow> row \<Rightarrow> stage_row result" where
  "admit since r = rbind (read_stage_row r) (\<lambda>w. rbind (check_placement since w) (\<lambda>_. Inr w))"

subsection \<open>The totals\<close>

record stage_stats =
  st_addresses :: int
  st_allocation :: int

record contract_stats =
  ct_addresses :: int
  ct_allocation :: int
  ct_wallet :: int
  ct_staked :: int
  ct_not_issued :: int
  ct_not_issued_wallet :: int
  ct_not_issued_staked :: int

definition no_stage :: stage_stats where
  "no_stage = \<lparr>st_addresses = 0, st_allocation = 0\<rparr>"

definition no_contract :: contract_stats where
  "no_contract = \<lparr>ct_addresses = 0, ct_allocation = 0, ct_wallet = 0, ct_staked = 0, ct_not_issued = 0,
     ct_not_issued_wallet = 0, ct_not_issued_staked = 0\<rparr>"

record stage_state =
  ss_seen :: "string list"
  ss_stages :: "(string, stage_stats) dict"
  ss_treatments :: "(string, int) dict"
  ss_contracts :: "(string, contract_stats) dict"
  ss_totals :: "stage_field \<Rightarrow> int"
  ss_routing :: "(string, int) dict"
  ss_validators :: int
  ss_below :: stage_stats

definition no_rows :: stage_state where
  "no_rows = \<lparr>ss_seen = [], ss_stages = [], ss_treatments = [], ss_contracts = [], ss_totals = (\<lambda>_. 0),
     ss_routing = [], ss_validators = 0, ss_below = no_stage\<rparr>"

definition count_stage :: "int \<Rightarrow> stage_stats \<Rightarrow> stage_stats" where
  "count_stage n v = \<lparr>st_addresses = st_addresses v + 1, st_allocation = st_allocation v + n\<rparr>"

definition count_contract :: "stage_values \<Rightarrow> contract_stats \<Rightarrow> contract_stats" where
  "count_contract vs v = \<lparr>ct_addresses = ct_addresses v + 1, ct_allocation = ct_allocation v + val vs Migration,
     ct_wallet = ct_wallet v + val vs Wallet_Part, ct_staked = ct_staked v + val vs Staked_Part,
     ct_not_issued = ct_not_issued v + val vs Contract, ct_not_issued_wallet = ct_not_issued_wallet v + val vs Contract_Wallet,
     ct_not_issued_staked = ct_not_issued_staked v + val vs Contract_Staked\<rparr>"

definition below_deductions :: "stage_row \<Rightarrow> bool" where
  "below_deductions w \<longleftrightarrow> is_wallet (sr_class w) \<and> sr_amount w > 0 \<and> \<not> sr_meets w"

definition book_stage :: "stage_state \<Rightarrow> stage_row \<Rightarrow> stage_state" where
  "book_stage s w = s\<lparr>
     ss_stages := (if sr_stage w = [] then ss_stages s
                   else adjust no_stage (sr_stage w) (count_stage (sr_amount w)) (ss_stages s)),
     ss_treatments := adjust 0 (sr_treatment w) (\<lambda>n. n + 1) (ss_treatments s),
     ss_totals := (\<lambda>f. ss_totals s f + val (sr_values w) f),
     ss_below := (if below_deductions w then count_stage (sr_amount w) (ss_below s) else ss_below s),
     ss_routing := (if sr_stage w = ''initial'' then adjust 0 (sr_routing w) (\<lambda>n. n + 1) (ss_routing s) else ss_routing s),
     ss_validators := ss_validators s + (if sr_stage w = ''initial'' \<and> sr_class w = ''validator_wallet'' then 1 else 0),
     ss_contracts := (if sr_class w = ''genuine_contract''
                      then adjust no_contract (sr_policy_group w) (count_contract (sr_values w)) (ss_contracts s)
                      else ss_contracts s)\<rparr>"

definition stage_step :: "instant \<Rightarrow> stage_state \<Rightarrow> row \<Rightarrow> stage_state result" where
  "stage_step since s r =
     rbind (getitem r ''address'') (\<lambda>text.
       if lower text \<in> set (ss_seen s) then Inl (ValueError ''duplicate stage address'')
       else rbind (admit since r) (\<lambda>w. Inr (book_stage (s\<lparr>ss_seen := ss_seen s @ [lower text]\<rparr>) w)))"

definition stage_totals :: "instant \<Rightarrow> string list \<Rightarrow> row list \<Rightarrow> stage_state result" where
  "stage_totals since header rs =
     (if \<exists>c \<in> set required_columns. c \<notin> set header then Inl (ValueError ''stage policy is missing fields'')
      else fold_r (stage_step since) no_rows rs)"

subsection \<open>The comparisons\<close>

text \<open>\<open>actual != recorded\<close> with an integer on the left, and with \<open>int(recorded)\<close>.\<close>

definition same_number :: "int \<Rightarrow> json \<Rightarrow> string list \<Rightarrow> string \<Rightarrow> unit result" where
  "same_number actual document path message =
     rbind (at_path document path) (\<lambda>v. raise_if (\<not> py_eq (JInt actual) v) (ValueError message))"

definition same_int :: "int \<Rightarrow> json \<Rightarrow> string list \<Rightarrow> string \<Rightarrow> unit result" where
  "same_int actual document path message = rbind (int_at document path) (\<lambda>n. raise_if (actual \<noteq> n) (ValueError message))"

text \<open>A dictionary of counts against a JSON object.\<close>

definition same_counts :: "(string, int) dict \<Rightarrow> json \<Rightarrow> bool" where
  "same_counts d v = (case v of
     JDict kvs \<Rightarrow> set (keys d) = set (map fst kvs)
       \<and> (\<forall>kv \<in> set d. case map_of kvs (fst kv) of None \<Rightarrow> False | Some w \<Rightarrow> py_eq (JInt (snd kv)) w)
   | _ \<Rightarrow> False)"

definition check_stage_rows :: "json \<Rightarrow> stage_state \<Rightarrow> unit result" where
  "check_stage_rows stage_summary s =
     rbind (same_int (int (length (ss_seen s))) stage_summary [''qualified_rows''] ''stage row count mismatch'') (\<lambda>_.
     rbind (rbind (subscript stage_summary ''stage_rows'') iter) (\<lambda>labels.
     rbind (raise_if (set (map JStr (keys (ss_stages s))) \<noteq> set labels) (ValueError ''stage labels do not match summary'')) (\<lambda>_.
     rbind (map_r (\<lambda>kv. same_number (st_addresses (snd kv)) stage_summary [''stage_rows'', fst kv] ''address count mismatch'')
       (ss_stages s)) (\<lambda>_.
     rbind (subscript stage_summary ''issuance_treatment_rows'') (\<lambda>v.
       raise_if (\<not> same_counts (ss_treatments s) v) (ValueError ''issuance-treatment counts do not match summary''))))))"

definition contract_columns :: "contract_stats \<Rightarrow> (string \<times> int) list" where
  "contract_columns v = [(''addresses'', ct_addresses v), (''allocation_atto'', ct_allocation v),
     (''wallet_allocation_atto'', ct_wallet v), (''staked_allocation_atto'', ct_staked v),
     (''not_issued_atto'', ct_not_issued v), (''not_issued_wallet_atto'', ct_not_issued_wallet v),
     (''not_issued_staked_atto'', ct_not_issued_staked v)]"

definition check_contract :: "json \<Rightarrow> string \<times> contract_stats \<Rightarrow> unit result" where
  "check_contract stage_summary kv =
     rbind (at_path stage_summary [''contracts'', ''groups'', fst kv]) (\<lambda>expected.
     rbind (map_r (\<lambda>(column, n). same_number n expected [column] ''contract totals mismatch'') (contract_columns (snd kv))) (\<lambda>_.
       Inr ()))"

record supply_part =
  sp_existing :: int
  sp_historical :: int
  sp_retained :: int
  sp_leak :: int

text \<open>\<open>supply_non_issuance.get("revert_leak_credited_recipients", {}).get("not_issued_atto", 0)\<close>.\<close>

definition supply_leak :: "json \<Rightarrow> int result" where
  "supply_leak supply = rbind (get_default supply ''revert_leak_credited_recipients'' (JDict [])) (\<lambda>section.
     rbind (get_default section ''not_issued_atto'' (JInt 0)) int_of)"

definition check_supply :: "json \<Rightarrow> json \<Rightarrow> supply_part result" where
  "check_supply stage_summary supply =
     rbind (subscript stage_summary ''allocation'') (\<lambda>allocation.
     rbind (int_at allocation [''existing_non_issuance_atto'']) (\<lambda>existing_total.
     rbind (int_at allocation [''historical_retained_caps_atto'']) (\<lambda>historical_total.
     rbind (same_int existing_total supply [''existing_non_issuance'', ''not_issued_atto''] ''existing non-issuance total mismatch'') (\<lambda>_.
     rbind (int_at supply [''historical_hack_retained_initial_addresses'', ''not_issued_atto'']) (\<lambda>supply_retained.
     rbind (supply_leak supply) (\<lambda>supply_revert_leak.
     rbind (raise_if (historical_total \<noteq> supply_retained + supply_revert_leak)
       (ValueError ''historical retained-cap total mismatch'')) (\<lambda>_.
     rbind (same_int (existing_total + historical_total) supply [''totals'', ''not_issued_atto'']
       ''supply non-issuance total does not close'') (\<lambda>_.
       Inr \<lparr>sp_existing = existing_total, sp_historical = historical_total, sp_retained = supply_retained,
            sp_leak = supply_revert_leak\<rparr>))))))))"

record allocation =
  al_gross :: int
  al_supply :: supply_part
  al_wone :: int
  al_contract :: int
  al_migration :: int
  al_initial :: int
  al_next_stage :: int
  al_deferred :: int

definition stage_allocation :: "stage_state \<Rightarrow> string \<Rightarrow> int" where
  "stage_allocation s stage = st_allocation (entry no_stage (ss_stages s) stage)"

definition check_initial :: "json \<Rightarrow> stage_state \<Rightarrow> unit result" where
  "check_initial stage_summary s =
     rbind (same_number (entry 0 (ss_routing s) ''automatic_policy'') stage_summary
       [''initial_wallets'', ''automatic_policy_addresses''] ''initial wallet composition mismatch'') (\<lambda>_.
     rbind (same_number (entry 0 (ss_routing s) ''exchange_or_manual'') stage_summary
       [''initial_wallets'', ''manual_routing_addresses''] ''initial wallet composition mismatch'') (\<lambda>_.
     rbind (same_number (ss_validators s) stage_summary [''validator_wrappers'', ''initial_addresses'']
       ''initial wallet composition mismatch'') (\<lambda>_.
     rbind (subscript stage_summary ''deferred_wallets'') (\<lambda>deferred.
     rbind (same_int (st_addresses (ss_below s)) deferred [''below_threshold_after_incident_deductions_addresses'']
       ''below-threshold-after-deductions wallets mismatch'') (\<lambda>_.
       same_int (st_allocation (ss_below s)) deferred [''below_threshold_after_incident_deductions_atto'']
         ''below-threshold-after-deductions wallets mismatch'')))))"

definition check_allocation :: "json \<Rightarrow> json \<Rightarrow> stage_state \<Rightarrow> supply_part \<Rightarrow> allocation result" where
  "check_allocation stage_summary migration s part =
     rbind (int_at migration [''native_total_claim_atto'']) (\<lambda>gross.
     rbind (int_at migration [''wone_retained_not_issued_atto'']) (\<lambda>wone.
     let contract = ss_totals s Contract;
         total_migration = gross - sp_existing part - sp_historical part - wone - contract in
     rbind (same_int gross stage_summary [''allocation'', ''gross_native_snapshot_atto''] ''gross native snapshot mismatch'') (\<lambda>_.
     rbind (same_int total_migration stage_summary [''allocation'', ''total_migration_atto''] ''total migration allocation mismatch'') (\<lambda>_.
     rbind (same_int (ss_totals s Wone) migration [''wone_reserve_atto''] ''WONE source offset mismatch'') (\<lambda>_.
     rbind (same_int contract stage_summary [''allocation'', ''reviewed_contract_non_issuance_atto'']
       ''reviewed-contract non-issuance mismatch'') (\<lambda>_.
     rbind (same_int (stage_allocation s ''initial'') stage_summary [''allocation'', ''initial_wallets_atto'']
       ''initial wallet allocation mismatch'') (\<lambda>_.
     rbind (check_initial stage_summary s) (\<lambda>_.
     rbind (same_int (stage_allocation s ''next_stage'') stage_summary [''allocation'', ''next_stage_contracts_atto'']
       ''next-stage allocation mismatch'') (\<lambda>_.
     rbind (int_at stage_summary [''allocation'', ''deferred_wallets_atto'']) (\<lambda>deferred.
     rbind (raise_if (stage_allocation s ''initial'' + stage_allocation s ''next_stage'' + deferred \<noteq> total_migration)
       (ValueError ''stage allocation does not close'')) (\<lambda>_.
       Inr \<lparr>al_gross = gross, al_supply = part, al_wone = wone, al_contract = contract, al_migration = total_migration,
            al_initial = stage_allocation s ''initial'', al_next_stage = stage_allocation s ''next_stage'',
            al_deferred = deferred\<rparr>)))))))))))"

text \<open>The digests of the inputs, compared with those the summary records.\<close>

record input_digests =
  dg_policy :: string
  dg_migration :: string
  dg_existing :: "string list"
  dg_historical :: "string list"

definition recorded_digests :: "json \<Rightarrow> string \<Rightarrow> json list result" where
  "recorded_digests stage_summary name =
     rbind (at_path stage_summary [''sources'', name]) (\<lambda>recorded.
       map_r (\<lambda>record. subscript record ''sha256'') (case recorded of JList vs \<Rightarrow> vs | v \<Rightarrow> [v]))"

definition check_digests :: "json \<Rightarrow> input_digests \<Rightarrow> unit result" where
  "check_digests stage_summary d =
     rbind (subscript stage_summary ''output_sha256'') (\<lambda>policy.
     rbind (raise_if (JStr (dg_policy d) \<noteq> policy) (ValueError ''stage-policy hash mismatch'')) (\<lambda>_.
     rbind (at_path stage_summary [''sources'', ''migration_summary'', ''sha256'']) (\<lambda>summary_digest.
     rbind (raise_if (JStr (dg_migration d) \<noteq> summary_digest) (ValueError ''migration_summary hash mismatch'')) (\<lambda>_.
     rbind (recorded_digests stage_summary ''existing_non_issuance'') (\<lambda>existing.
     rbind (raise_if (map JStr (dg_existing d) \<noteq> existing) (ValueError ''existing_non_issuance hash mismatch'')) (\<lambda>_.
     rbind (recorded_digests stage_summary ''historical_retention'') (\<lambda>historical.
       raise_if (map JStr (dg_historical d) \<noteq> historical) (ValueError ''historical_retention hash mismatch''))))))))"

definition passed :: "json \<Rightarrow> string \<Rightarrow> unit result" where
  "passed v label = rbind (get_default v ''status'' JNull) (\<lambda>status.
     raise_if (status \<noteq> JStr ''passed'') (ValueError (label @ '' did not pass'')))"

definition verify_policy ::
  "json \<Rightarrow> json \<Rightarrow> json \<Rightarrow> input_digests \<Rightarrow> string list \<Rightarrow> row list \<Rightarrow> (stage_state \<times> allocation) result" where
  "verify_policy stage_summary migration supply digests header rs =
     rbind (passed stage_summary ''stage summary'') (\<lambda>_.
     rbind (passed migration ''migration summary'') (\<lambda>_.
     rbind (passed supply ''supply non-issuance summary'') (\<lambda>_.
     rbind (check_digests stage_summary digests) (\<lambda>_.
     rbind (rbind (at_path stage_summary [''initial_window'', ''since_time_utc'']) text_of) (\<lambda>text.
     rbind (parse_utc text) (\<lambda>since.
     rbind (stage_totals since header rs) (\<lambda>s.
     rbind (check_stage_rows stage_summary s) (\<lambda>_.
     rbind (map_r (check_contract stage_summary) (ss_contracts s)) (\<lambda>_.
     rbind (check_supply stage_summary supply) (\<lambda>part.
     rbind (check_allocation stage_summary migration s part) (\<lambda>a. Inr (s, a))))))))))))"

subsection \<open>What an admitted row satisfies\<close>

definition stage_cell :: "row \<Rightarrow> stage_field \<Rightarrow> int" where
  "stage_cell r f = cell_int r (get_or (map_of stage_fields) f [])"

lemma read_columns: "map_r (\<lambda>(f, column). rbind (int_cell r column) (\<lambda>n. Inr (f, n))) cs = Inr vs \<Longrightarrow>
    vs = map (\<lambda>(f, column). (f, cell_int r column)) cs"
  by (induction cs arbitrary: vs) (auto simp: rbind_eq_Inr int_cell_Inr)

lemma read_values_val: "read_values r = Inr vs \<Longrightarrow> val vs f = stage_cell r f"
proof -
  assume "read_values r = Inr vs"
  then have "vs = map (\<lambda>(f, column). (f, cell_int r column)) stage_fields"
    unfolding read_values_def by (rule read_columns)
  then show ?thesis by (cases f) (simp_all add: stage_fields_def entry_def get_or_def stage_cell_def)
qed

lemma read_values_nonneg: "read_values r = Inr vs \<Longrightarrow> \<not> (\<exists>kv \<in> set vs. snd kv < 0) \<Longrightarrow> 0 \<le> stage_cell r f"
proof -
  assume vs: "read_values r = Inr vs" and pos: "\<not> (\<exists>kv \<in> set vs. snd kv < 0)"
  have "0 \<le> val vs f"
  proof (cases "map_of vs f")
    case (Some n)
    then have "(f, n) \<in> set vs" by (rule map_of_SomeD)
    then show ?thesis using pos by (auto simp: entry_def get_or_def Some)
  qed (simp add: entry_def get_or_def)
  then show ?thesis by (simp add: read_values_val [OF vs])
qed

definition closes :: "row \<Rightarrow> bool" where
  "closes r \<longleftrightarrow>
     stage_cell r Gross = stage_cell r Existing + stage_cell r Historical + stage_cell r Wone + stage_cell r Contract
       + stage_cell r Migration
     \<and> stage_cell r Wallet_Part + stage_cell r Staked_Part = stage_cell r Migration
     \<and> stage_cell r Contract_Wallet + stage_cell r Contract_Staked = stage_cell r Contract
     \<and> (\<forall>f. 0 \<le> stage_cell r f)"

lemma check_values_closes:
  assumes "read_values r = Inr vs" and "check_values r vs = Inr q"
  shows "closes r \<and> q = cell_int r ''qualification_total_atto'' \<and> 1000 * ATTO_PER_ONE \<le> q"
proof -
  note v = read_values_val [OF assms(1)]
  have pos: "\<not> (\<exists>kv \<in> set vs. snd kv < 0)"
    using assms(2) unfolding check_values_def by (rule contrapos_pn) simp
  have "int_cell r ''qualification_total_atto'' = Inr q" "1000 * ATTO_PER_ONE \<le> q"
    "val vs Gross - val vs Existing - val vs Historical - val vs Wone - val vs Contract = val vs Migration"
    "val vs Wallet_Part + val vs Staked_Part = val vs Migration"
    "val vs Contract_Wallet + val vs Contract_Staked = val vs Contract"
    using assms(2) unfolding check_values_def by (auto simp: rbind_eq_Inr split: if_split_asm)
  then show ?thesis using read_values_nonneg [OF assms(1) pos] unfolding closes_def v by (auto simp: int_cell_Inr)
qed

definition text_cell :: "row \<Rightarrow> string \<Rightarrow> string" where
  "text_cell r c = get_or r c []"

text \<open>The fields of an admitted row, as cells of the CSV row.\<close>

lemma read_stage_row_Inr:
  assumes "read_stage_row r = Inr w"
  shows "closes r" and "val (sr_values w) f = stage_cell r f"
    and "sr_stage w = text_cell r ''migration_stage''" and "sr_treatment w = text_cell r ''issuance_treatment''"
    and "sr_class w = text_cell r ''account_classification''" and "sr_policy_group w = text_cell r ''policy_group''"
    and "sr_routing w = text_cell r ''routing_category''"
    and "sr_meets w \<longleftrightarrow> 1000 * ATTO_PER_ONE
      \<le> cell_int r ''qualification_total_atto'' - stage_cell r Existing - stage_cell r Historical"
    and "read_activity r = Inr (sr_activity w)"
    and "check_treatment (sr_treatment w) (sr_stage w) (stage_cell r Migration) = Inr ()"
proof -
  from assms obtain vs q stage treatment activity classification routing policy_group
    where vs: "read_values r = Inr vs" and q: "check_values r vs = Inr q"
      and cells: "getitem r ''migration_stage'' = Inr stage" "getitem r ''issuance_treatment'' = Inr treatment"
        "getitem r ''account_classification'' = Inr classification" "getitem r ''routing_category'' = Inr routing"
        "getitem r ''policy_group'' = Inr policy_group"
      and t: "check_treatment treatment stage (val vs Migration) = Inr ()" and a: "read_activity r = Inr activity"
      and w: "w = \<lparr>sr_values = vs, sr_stage = stage, sr_treatment = treatment, sr_class = classification,
            sr_policy_group = policy_group, sr_routing = routing,
            sr_meets = q - val vs Existing - val vs Historical \<ge> 1000 * ATTO_PER_ONE, sr_activity = activity\<rparr>"
    unfolding read_stage_row_def by (elim rbind_E) simp
  note v = read_values_val [OF vs]
  note c = check_values_closes [OF vs q]
  show "closes r" and "val (sr_values w) f = stage_cell r f" and "read_activity r = Inr (sr_activity w)"
    and "check_treatment (sr_treatment w) (sr_stage w) (stage_cell r Migration) = Inr ()"
    using c t a by (simp_all add: w v)
  show "sr_meets w \<longleftrightarrow> 1000 * ATTO_PER_ONE
      \<le> cell_int r ''qualification_total_atto'' - stage_cell r Existing - stage_cell r Historical"
    using c by (simp add: w v)
  show "sr_stage w = text_cell r ''migration_stage''" "sr_treatment w = text_cell r ''issuance_treatment''"
    "sr_class w = text_cell r ''account_classification''" "sr_policy_group w = text_cell r ''policy_group''"
    "sr_routing w = text_cell r ''routing_category''"
    using cells by (simp_all add: w text_cell_def getitem_get_or)
qed

lemma admit_Inr: "admit since r = Inr w \<longleftrightarrow> read_stage_row r = Inr w \<and> check_placement since w = Inr ()"
  by (auto simp: admit_def rbind_eq_Inr)

lemma if_raise_Inr: "(if c then Inl e else m) = Inr u \<longleftrightarrow> \<not> c \<and> m = Inr u"
  by simp

lemma check_placement_Inr:
  assumes "check_placement since w = Inr ()"
  shows "(sr_stage w = ''initial'' \<longrightarrow> is_wallet (sr_class w) \<and> 0 < sr_amount w \<and> sr_meets w
        \<and> (\<exists>t. sr_activity w = Some t \<and> since \<le> t))
      \<and> (is_wallet (sr_class w) \<and> 0 < sr_amount w \<and> \<not> sr_meets w \<longrightarrow> sr_stage w = ''deferred'')
      \<and> (sr_stage w = ''deferred'' \<and> is_wallet (sr_class w) \<and> 0 < sr_amount w \<and> sr_meets w \<longrightarrow>
          (\<forall>t. sr_activity w = Some t \<longrightarrow> t < since))"
proof -
  note c = assms [unfolded check_placement_def Let_def if_raise_Inr]
  have "(\<exists>t. sr_activity w = Some t \<and> since \<le> t)"
    if "\<not> (case sr_activity w of None \<Rightarrow> True | Some t \<Rightarrow> t < since)"
    using that by (cases "sr_activity w") (simp_all add: not_less)
  moreover have "(\<forall>t. sr_activity w = Some t \<longrightarrow> t < since)"
    if "\<not> (case sr_activity w of None \<Rightarrow> False | Some t \<Rightarrow> since \<le> t)"
    using that by (cases "sr_activity w") (simp_all add: not_le)
  ultimately show ?thesis using c by blast
qed

lemma stage_step_Inr:
  assumes "stage_step since s r = Inr s'"
  obtains w where "read_stage_row r = Inr w" and "check_placement since w = Inr ()"
    and "address_cell r ''address'' \<notin> set (ss_seen s)"
    and "s' = book_stage (s\<lparr>ss_seen := ss_seen s @ [address_cell r ''address'']\<rparr>) w"
  using assms by (auto simp: stage_step_def rbind_eq_Inr admit_Inr address_cell_Inr split: if_split_asm)

subsection \<open>The totals are sums over the rows\<close>

lemma stage_step_stages:
  assumes "stage_step since s r = Inr s'"
  shows "ss_stages s' = (if text_cell r ''migration_stage'' = [] then ss_stages s
    else adjust no_stage (text_cell r ''migration_stage'') (count_stage (stage_cell r Migration)) (ss_stages s))"
  using assms by (elim stage_step_Inr) (simp add: book_stage_def sr_amount_def read_stage_row_Inr)

lemma stage_step_totals:
  assumes "stage_step since s r = Inr s'"
  shows "ss_totals s' f = ss_totals s f + stage_cell r f"
  using assms by (elim stage_step_Inr) (simp add: book_stage_def read_stage_row_Inr)

lemma no_stage_zero: "st_allocation no_stage = 0" "st_addresses no_stage = 0"
  by (simp_all add: no_stage_def)

interpretation stage_alloc: tallying_loop "stage_step since" ss_stages no_stage "\<lambda>r. text_cell r ''migration_stage''"
  "\<lambda>r. text_cell r ''migration_stage'' \<noteq> []" st_allocation "\<lambda>r. stage_cell r Migration" for since
  by unfold_locales (auto simp: no_stage_zero stage_step_stages count_stage_def)

interpretation stage_count: tallying_loop "stage_step since" ss_stages no_stage "\<lambda>r. text_cell r ''migration_stage''"
  "\<lambda>r. text_cell r ''migration_stage'' \<noteq> []" st_addresses "\<lambda>_. 1" for since
  by unfold_locales (auto simp: no_stage_zero stage_step_stages count_stage_def)

interpretation stage_field_total: conserving_loop "stage_step since" "\<lambda>s. ss_totals s f" "\<lambda>r. stage_cell r f" for since f
  by unfold_locales (rule stage_step_totals)

lemma stage_rows_admitted:
  "fold_r (stage_step since) s rs = Inr s' \<Longrightarrow> r \<in> set rs \<Longrightarrow>
     \<exists>w. read_stage_row r = Inr w \<and> check_placement since w = Inr ()"
proof (induction rs arbitrary: s)
  case (Cons q rs)
  then obtain t where t: "stage_step since s q = Inr t" "fold_r (stage_step since) t rs = Inr s'"
    by (auto simp: rbind_eq_Inr)
  show ?case
  proof (cases "r = q")
    case True
    then show ?thesis using t(1) by (elim stage_step_Inr) blast
  next
    case False
    then show ?thesis using Cons.IH [OF t(2)] Cons.prems(2) by simp
  qed
qed simp

text \<open>The counters of a contract group, by the field they add up.\<close>

definition contract_counter :: "stage_field \<Rightarrow> contract_stats \<Rightarrow> int" where
  "contract_counter f v = (case f of Migration \<Rightarrow> ct_allocation v | Wallet_Part \<Rightarrow> ct_wallet v | Staked_Part \<Rightarrow> ct_staked v
     | Contract \<Rightarrow> ct_not_issued v | Contract_Wallet \<Rightarrow> ct_not_issued_wallet v | Contract_Staked \<Rightarrow> ct_not_issued_staked v
     | _ \<Rightarrow> 0)"

definition contract_fields :: "stage_field set" where
  "contract_fields = {Migration, Wallet_Part, Staked_Part, Contract, Contract_Wallet, Contract_Staked}"

lemma stage_step_contracts:
  assumes "stage_step since s r = Inr s'"
  shows "if text_cell r ''account_classification'' = ''genuine_contract''
    then \<exists>f. ss_contracts s' = adjust no_contract (text_cell r ''policy_group'') f (ss_contracts s)
      \<and> (\<forall>v fld. contract_counter fld (f v) = contract_counter fld v + (if fld \<in> contract_fields then stage_cell r fld else 0))
    else ss_contracts s' = ss_contracts s"
  using assms
proof (elim stage_step_Inr)
  fix w
  assume w: "read_stage_row r = Inr w"
    and s': "s' = book_stage (s\<lparr>ss_seen := ss_seen s @ [address_cell r ''address'']\<rparr>) w"
  have "contract_counter fld (count_contract (sr_values w) v)
      = contract_counter fld v + (if fld \<in> contract_fields then stage_cell r fld else 0)" for v fld
    by (cases fld) (simp_all add: contract_counter_def contract_fields_def count_contract_def read_stage_row_Inr(2) [OF w])
  then show ?thesis by (auto simp: s' book_stage_def read_stage_row_Inr [OF w])
qed

interpretation contract_total: tallying_loop "stage_step since" ss_contracts no_contract "\<lambda>r. text_cell r ''policy_group''"
  "\<lambda>r. text_cell r ''account_classification'' = ''genuine_contract''" "contract_counter fld"
  "\<lambda>r. if fld \<in> contract_fields then stage_cell r fld else 0" for since fld
proof unfold_locales
  show "contract_counter fld no_contract = 0" by (cases fld) (simp_all add: contract_counter_def no_contract_def)
  fix s r s'
  assume step: "stage_step since s r = Inr s'"
  note c = stage_step_contracts [OF step]
  show "\<exists>f. ss_contracts s' = adjust no_contract (text_cell r ''policy_group'') f (ss_contracts s)
      \<and> (\<forall>v. contract_counter fld (f v) = contract_counter fld v + (if fld \<in> contract_fields then stage_cell r fld else 0))"
    if "text_cell r ''account_classification'' = ''genuine_contract''"
    using c unfolding if_P [OF that] by blast
  show "ss_contracts s' = ss_contracts s" if "text_cell r ''account_classification'' \<noteq> ''genuine_contract''"
    using c unfolding if_not_P [OF that] .
qed

lemma same_int_Inr: "same_int n d p m = Inr u \<longleftrightarrow> int_at d p = Inr n"
  by (auto simp: same_int_def rbind_eq_Inr)

lemma check_supply_Inr:
  assumes "check_supply stage_summary supply = Inr part"
  shows "sp_historical part = sp_retained part + sp_leak part"
    and "int_at supply [''existing_non_issuance'', ''not_issued_atto''] = Inr (sp_existing part)"
    and "int_at supply [''totals'', ''not_issued_atto''] = Inr (sp_existing part + sp_historical part)"
  using assms unfolding check_supply_def by (auto elim!: rbind_E simp: same_int_Inr)

lemma check_allocation_Inr:
  assumes "check_allocation stage_summary migration s part = Inr a"
  shows "al_supply a = part" and "al_contract a = ss_totals s Contract"
    and "al_migration a = al_gross a - sp_existing part - sp_historical part - al_wone a - al_contract a"
    and "al_initial a = stage_allocation s ''initial''" and "al_next_stage a = stage_allocation s ''next_stage''"
    and "al_initial a + al_next_stage a + al_deferred a = al_migration a"
    and "int_at migration [''wone_reserve_atto''] = Inr (ss_totals s Wone)"
  using assms unfolding check_allocation_def Let_def by (auto elim!: rbind_E simp: same_int_Inr)

lemma verify_policy_facts:
  assumes "verify_policy stage_summary migration supply digests header rs = Inr (s, a)"
  shows "\<exists>since text. at_path stage_summary [''initial_window'', ''since_time_utc''] = Inr (JStr text)
    \<and> parse_utc text = Inr since \<and> fold_r (stage_step since) no_rows rs = Inr s"
    and "\<exists>part. check_supply stage_summary supply = Inr part \<and> check_allocation stage_summary migration s part = Inr a"
proof -
  from assms obtain moment since part where t: "rbind (at_path stage_summary [''initial_window'', ''since_time_utc'']) text_of = Inr moment"
    "parse_utc moment = Inr since" and tot: "stage_totals since header rs = Inr s"
    and c: "check_supply stage_summary supply = Inr part" "check_allocation stage_summary migration s part = Inr a"
    unfolding verify_policy_def by (elim rbind_E) auto
  have run: "fold_r (stage_step since) no_rows rs = Inr s" using tot by (simp add: stage_totals_def split: if_splits)
  obtain v where "at_path stage_summary [''initial_window'', ''since_time_utc''] = Inr v" "text_of v = Inr moment"
    using t(1) by (auto simp: rbind_eq_Inr)
  then have "at_path stage_summary [''initial_window'', ''since_time_utc''] = Inr (JStr moment)"
    by (cases v) simp_all
  then show "\<exists>since text. at_path stage_summary [''initial_window'', ''since_time_utc''] = Inr (JStr text)
    \<and> parse_utc text = Inr since \<and> fold_r (stage_step since) no_rows rs = Inr s" using t(2) run by blast
  show "\<exists>part. check_supply stage_summary supply = Inr part \<and> check_allocation stage_summary migration s part = Inr a"
    using c by blast
qed

definition stage_sum :: "row list \<Rightarrow> string \<Rightarrow> int" where
  "stage_sum rs stage =
     sum_list (map (\<lambda>r. stage_cell r Migration) (filter (\<lambda>r. text_cell r ''migration_stage'' = stage) rs))"

lemma no_rows_empty [simp]: "ss_stages no_rows = []" "ss_totals no_rows f = 0" "ss_contracts no_rows = []" "ss_seen no_rows = []"
  by (simp_all add: no_rows_def)

lemma stage_allocation_sum:
  assumes "fold_r (stage_step since) no_rows rs = Inr s" and "stage \<noteq> []"
  shows "stage_allocation s stage = stage_sum rs stage"
proof -
  have "filter (\<lambda>r. text_cell r ''migration_stage'' \<noteq> [] \<and> text_cell r ''migration_stage'' = stage) rs
      = filter (\<lambda>r. text_cell r ''migration_stage'' = stage) rs"
    using assms(2) by (intro filter_cong) auto
  then show ?thesis using stage_alloc.run_entry [OF assms(1), of stage]
    by (simp add: stage_allocation_def stage_sum_def dict_simps no_stage_zero)
qed

lemma sum_list_diff_rows:
  "(\<And>r. r \<in> set rs \<Longrightarrow> f r = g r + h r) \<Longrightarrow> sum_list (map f rs) = sum_list (map g rs) + sum_list (map h rs)"
  for f g h :: "'a \<Rightarrow> int"
  by (induction rs) auto

text \<open>
  C31. Conservation. Of the gross snapshot, what is not issued (the reviewed inventories, the retained and
  withheld amounts, the retained WONE, the reviewed contracts) and the migration allocation add up exactly; the allocation is
  what the initial wallets, the next stage and the deferred wallets get. The initial, next-stage and contract amounts are the
  sums over the rows of the policy; the gross and WONE amounts are those of the migration summary and the deferred amount
  that of the stage summary, which no comparison ties to the deferred rows.
\<close>

theorem stage_policy_conserves:
  assumes "verify_policy stage_summary migration supply digests header rs = Inr (s, a)"
  shows "al_gross a = sp_existing (al_supply a) + sp_retained (al_supply a) + sp_leak (al_supply a) + al_wone a
        + al_contract a + al_initial a + al_next_stage a + al_deferred a
    \<and> al_migration a = al_initial a + al_next_stage a + al_deferred a
    \<and> al_initial a = stage_sum rs ''initial'' \<and> al_next_stage a = stage_sum rs ''next_stage''
    \<and> al_contract a = sum_list (map (\<lambda>r. stage_cell r Contract) rs)
    \<and> int_at migration [''native_total_claim_atto''] = Inr (al_gross a)
    \<and> int_at migration [''wone_retained_not_issued_atto''] = Inr (al_wone a)
    \<and> int_at stage_summary [''allocation'', ''deferred_wallets_atto''] = Inr (al_deferred a)"
proof -
  obtain since where run: "fold_r (stage_step since) no_rows rs = Inr s" using verify_policy_facts(1) [OF assms] by blast
  obtain part where p: "check_supply stage_summary supply = Inr part"
    and c: "check_allocation stage_summary migration s part = Inr a" using verify_policy_facts(2) [OF assms] by blast
  have sources: "int_at migration [''native_total_claim_atto''] = Inr (al_gross a)
    \<and> int_at migration [''wone_retained_not_issued_atto''] = Inr (al_wone a)
    \<and> int_at stage_summary [''allocation'', ''deferred_wallets_atto''] = Inr (al_deferred a)"
    using c unfolding check_allocation_def Let_def by (elim rbind_E) auto
  note f = check_allocation_Inr [OF c] check_supply_Inr(1) [OF p]
  have "ss_totals s Contract = sum_list (map (\<lambda>r. stage_cell r Contract) rs)"
    using stage_field_total.run_total [OF run, of Contract] by simp
  moreover have "stage_allocation s ''initial'' = stage_sum rs ''initial''"
    and "stage_allocation s ''next_stage'' = stage_sum rs ''next_stage''"
    by (rule stage_allocation_sum [OF run], simp)+
  ultimately show ?thesis using f sources by simp
qed

text \<open>
  C32. Every row of an accepted policy closes: the gross amount is what is not issued plus the migration allocation, the
  allocation is its wallet and staked parts, the contract non-issuance its two parts, and none is negative. A row
  is issued with a stage and a positive amount, or not issued with neither. A row of the initial stage is a
  wallet that holds at least 1,000 ONE after the incident deductions and was active in the window; an active wallet
  above the threshold is not deferred, and a wallet that falls below it is.
\<close>

theorem stage_rows_well_placed:
  assumes "verify_policy stage_summary migration supply digests header rs = Inr (s, a)" and "r \<in> set rs"
    and "at_path stage_summary [''initial_window'', ''since_time_utc''] = Inr (JStr text)" and "parse_utc text = Inr since"
  defines "stage \<equiv> text_cell r ''migration_stage''" and "amount \<equiv> stage_cell r Migration"
    and "wallet \<equiv> is_wallet (text_cell r ''account_classification'')"
    and "holds \<equiv> cell_int r ''qualification_total_atto'' - stage_cell r Existing - stage_cell r Historical"
  shows "closes r
    \<and> (text_cell r ''issuance_treatment'' = ''issue'' \<and> stage \<noteq> [] \<and> 0 < amount
       \<or> text_cell r ''issuance_treatment'' = ''not_issued'' \<and> stage = [] \<and> amount = 0)
    \<and> (stage = ''initial'' \<longrightarrow> wallet \<and> 0 < amount \<and> 1000 * ATTO_PER_ONE \<le> holds
        \<and> (\<exists>t. parse_utc (text_cell r ''last_activity_time_utc'') = Inr t \<and> since \<le> t))
    \<and> (wallet \<and> 0 < amount \<and> holds < 1000 * ATTO_PER_ONE \<longrightarrow> stage = ''deferred'')
    \<and> (stage = ''deferred'' \<and> wallet \<and> 1000 * ATTO_PER_ONE \<le> holds \<longrightarrow>
        (\<forall>t. parse_utc (text_cell r ''last_activity_time_utc'') = Inr t \<longrightarrow> t < since))"
proof -
  obtain since' where "parse_utc text = Inr since'" and run: "fold_r (stage_step since') no_rows rs = Inr s"
    using verify_policy_facts(1) [OF assms(1)] assms(3) by auto
  with assms(4) have since: "since' = since" by simp
  obtain w where w: "read_stage_row r = Inr w" and p: "check_placement since w = Inr ()"
    using stage_rows_admitted [OF run assms(2)] since by blast
  note f = read_stage_row_Inr [OF w]
  have t: "check_treatment (text_cell r ''issuance_treatment'') stage amount = Inr ()"
    using f(10) by (simp add: f(3,4) stage_def amount_def)
  have treatment: "text_cell r ''issuance_treatment'' = ''issue'' \<and> stage \<noteq> [] \<and> 0 < amount
       \<or> text_cell r ''issuance_treatment'' = ''not_issued'' \<and> stage = [] \<and> amount = 0"
    using t by (auto simp: check_treatment_def split: if_splits)
  have a: "sr_activity w = (if text_cell r ''last_activity_time_utc'' = [] then None
      else (case parse_utc (text_cell r ''last_activity_time_utc'') of Inl _ \<Rightarrow> None | Inr t \<Rightarrow> Some t))"
    and nonempty: "parse_utc (text_cell r ''last_activity_time_utc'') = Inr t \<Longrightarrow> text_cell r ''last_activity_time_utc'' \<noteq> []"
    for t
    using f(9) by (auto simp: read_activity_def rbind_eq_Inr text_cell_def getitem_get_or parse_utc_def ends_with_def
        split: if_splits)
  have active: "sr_activity w = Some t \<longleftrightarrow> parse_utc (text_cell r ''last_activity_time_utc'') = Inr t" for t
    using nonempty by (auto simp: a split: if_splits sum.splits)
  have place: "(stage = ''initial'' \<longrightarrow> wallet \<and> 0 < amount \<and> sr_meets w \<and> (\<exists>t. sr_activity w = Some t \<and> since \<le> t))
      \<and> (wallet \<and> 0 < amount \<and> \<not> sr_meets w \<longrightarrow> stage = ''deferred'')
      \<and> (stage = ''deferred'' \<and> wallet \<and> 0 < amount \<and> sr_meets w \<longrightarrow> (\<forall>t. sr_activity w = Some t \<longrightarrow> t < since))"
    using check_placement_Inr [OF p] unfolding sr_amount_def f(2,3,5) stage_def amount_def wallet_def .
  have pos: "stage \<noteq> [] \<Longrightarrow> 0 < amount" using treatment by blast
  have meets: "sr_meets w \<longleftrightarrow> 1000 * ATTO_PER_ONE \<le> holds" using f(8) by (simp only: holds_def)
  have "stage = ''initial'' \<longrightarrow> wallet \<and> 0 < amount \<and> 1000 * ATTO_PER_ONE \<le> holds
        \<and> (\<exists>t. parse_utc (text_cell r ''last_activity_time_utc'') = Inr t \<and> since \<le> t)"
    using place unfolding active meets by blast
  moreover have "wallet \<and> 0 < amount \<and> holds < 1000 * ATTO_PER_ONE \<longrightarrow> stage = ''deferred''"
    using place unfolding meets not_le by blast
  moreover have "stage = ''deferred'' \<and> wallet \<and> 1000 * ATTO_PER_ONE \<le> holds \<longrightarrow>
        (\<forall>t. parse_utc (text_cell r ''last_activity_time_utc'') = Inr t \<longrightarrow> t < since)"
    using place pos unfolding active meets by blast
  ultimately show ?thesis using f(1) treatment by (intro conjI)
qed

text \<open>
  Contract groups. For every group of reviewed contracts the seven counters of the summary are the
  script's own, and each amount is the sum of its column over the rows of the group; in particular the
  allocation is its wallet and staked parts, and what is not issued its two parts.
\<close>

theorem contract_groups_resum:
  assumes "verify_policy stage_summary migration supply digests header rs = Inr (s, a)"
    and "r \<in> set rs" and "text_cell r ''account_classification'' = ''genuine_contract''"
  defines "g \<equiv> text_cell r ''policy_group''"
  defines "members \<equiv> filter (\<lambda>q. text_cell q ''account_classification'' = ''genuine_contract'' \<and> text_cell q ''policy_group'' = g) rs"
    and "v \<equiv> entry no_contract (ss_contracts s) g"
  shows "(\<forall>fld \<in> contract_fields. contract_counter fld v = sum_list (map (\<lambda>q. stage_cell q fld) members))
    \<and> ct_wallet v + ct_staked v = ct_allocation v \<and> ct_not_issued_wallet v + ct_not_issued_staked v = ct_not_issued v
    \<and> (\<forall>(column, n) \<in> set (contract_columns v).
        \<exists>w. at_path stage_summary [''contracts'', ''groups'', g, column] = Inr w \<and> py_eq (JInt n) w)"
proof -
  obtain since where run: "fold_r (stage_step since) no_rows rs = Inr s" using verify_policy_facts(1) [OF assms(1)] by blast
  have sums: "contract_counter fld v = sum_list (map (\<lambda>q. stage_cell q fld) members)" if "fld \<in> contract_fields" for fld
    using contract_total.run_entry [OF run, of fld g] that
    by (cases fld) (simp_all add: v_def members_def dict_simps no_contract_def contract_counter_def contract_fields_def)
  have closed: "closes q" if "q \<in> set members" for q
    using stage_rows_admitted [OF run, of q] that read_stage_row_Inr(1) by (auto simp: members_def)
  have parts: "stage_cell q Migration = stage_cell q Wallet_Part + stage_cell q Staked_Part"
    "stage_cell q Contract = stage_cell q Contract_Wallet + stage_cell q Contract_Staked" if "q \<in> set members" for q
    using closed [OF that] by (simp_all add: closes_def)
  have "ct_wallet v + ct_staked v = ct_allocation v" and "ct_not_issued_wallet v + ct_not_issued_staked v = ct_not_issued v"
    using sums [of Migration] sums [of Wallet_Part] sums [of Staked_Part] sums [of Contract] sums [of Contract_Wallet]
      sums [of Contract_Staked] sum_list_diff_rows [OF parts(1), of members "\<lambda>q. q"]
      sum_list_diff_rows [OF parts(2), of members "\<lambda>q. q"]
    by (simp_all add: contract_fields_def contract_counter_def)
  moreover have "\<forall>(column, n) \<in> set (contract_columns v).
        \<exists>w. at_path stage_summary [''contracts'', ''groups'', g, column] = Inr w \<and> py_eq (JInt n) w"
  proof -
    have "g \<in> set (keys (ss_contracts s))"
      using contract_total.run_keys [OF run] assms(2,3) by (auto simp: g_def)
    moreover have "distinct (keys (ss_contracts s))" using contract_total.run_total [OF run] by simp
    ultimately have "(g, v) \<in> set (ss_contracts s)"
      by (auto simp: v_def entry_def get_or_def dest: map_of_is_SomeI)
    moreover obtain us where "map_r (check_contract stage_summary) (ss_contracts s) = Inr us"
      using assms(1) unfolding verify_policy_def by (elim rbind_E) auto
    ultimately have "\<exists>u. check_contract stage_summary (g, v) = Inr u"
      by (auto simp: map_r_eq_Inr list_all2_conv_all_nth in_set_conv_nth)
    then obtain expected us where e: "at_path stage_summary [''contracts'', ''groups'', g] = Inr expected"
      and "map_r (\<lambda>(column, n). same_number n expected [column] ''contract totals mismatch'') (contract_columns v) = Inr us"
      unfolding check_contract_def fst_conv snd_conv by (elim exE rbind_E) blast
    then have "\<exists>u. same_number n expected [column] ''contract totals mismatch'' = Inr u" if "(column, n) \<in> set (contract_columns v)"
      for column n using that by (fastforce simp: map_r_eq_Inr list_all2_conv_all_nth in_set_conv_nth)
    then show ?thesis using e by (fastforce simp: same_number_def rbind_eq_Inr at_path_def)
  qed
  ultimately show ?thesis using sums by blast
qed

subsection \<open>The summary of the non-issuance script\<close>

lemma non_issuance_summary_fields:
  "int_at (non_issuance_summary r name digest sources) [''existing_non_issuance'', ''not_issued_atto''] = Inr (ni_existing_total r)"
  "int_at (non_issuance_summary r name digest sources) [''historical_hack_retained_initial_addresses'', ''not_issued_atto'']
     = Inr (ni_retained_total r)"
  "int_at (non_issuance_summary r name digest sources) [''totals'', ''not_issued_atto''] = Inr (ni_combined r)"
  by (cases "ni_leaks r"; simp add: int_at_def at_path_def non_issuance_summary_def amounts_json_def getitem_def codec_simps)+

lemma map_of_zip_skip: "k \<notin> set ks \<Longrightarrow> map_of (zip ks vs @ d) k = map_of d k"
proof (induction ks arbitrary: vs)
  case (Cons j ks)
  then show ?case by (cases vs) simp_all
qed simp

lemma supply_leak_summary:
  assumes "ni_leak_total r = (case ni_leaks r of None \<Rightarrow> 0 | Some s \<Rightarrow> sec_total s)"
  shows "supply_leak (non_issuance_summary r name digest sources) = Inr (ni_leak_total r)"
  using assms
  by (cases "ni_leaks r")
     (simp_all add: supply_leak_def non_issuance_summary_def amounts_json_def leak_section_json_def get_or_def codec_simps map_of_zip_skip
        del: map_of_append)

text \<open>
  The reconciliation accepts the totals of the non-issuance script. On the summary that
  \<open>build-non-issuance-audit.py\<close> writes, the checks of the supply part succeed exactly when the stage summary
  records that script's existing total and the sum of its retained and withheld totals; its combined total
  then closes, and the parts are carried over unchanged.
\<close>

theorem supply_summary_closes:
  assumes "build_non_issuance is_file relative_path inventory_files balance_rows retained_summary claim_summary
      leak_file summary_file = Inr r"
  shows "check_supply stage_summary (non_issuance_summary r csv_name csv_digest sources) = Inr part \<longleftrightarrow>
    int_at stage_summary [''allocation'', ''existing_non_issuance_atto''] = Inr (ni_existing_total r)
    \<and> int_at stage_summary [''allocation'', ''historical_retained_caps_atto''] = Inr (ni_retained_total r + ni_leak_total r)
    \<and> part = \<lparr>sp_existing = ni_existing_total r, sp_historical = ni_retained_total r + ni_leak_total r,
              sp_retained = ni_retained_total r, sp_leak = ni_leak_total r\<rparr>"
proof -
  have l: "supply_leak (non_issuance_summary r csv_name csv_digest sources) = Inr (ni_leak_total r)"
    by (rule supply_leak_summary, rule build_non_issuance_facts(9) [OF assms])
  have sum: "ni_combined r = ni_existing_total r + ni_retained_total r + ni_leak_total r"
    by (rule build_non_issuance_facts(10) [OF assms])
  have path: "int_at v [j, k] = rbind (subscript v j) (\<lambda>w. int_at w [k])" for v j k
    by (simp add: int_at_def at_path_def rbind_assoc)
  show ?thesis
    unfolding check_supply_def same_int_def non_issuance_summary_fields l rbind_Inr path [of stage_summary] sum
    by (auto simp: rbind_eq_Inr)
qed

text \<open>One active wallet with a retained amount and one contract that is not issued.\<close>

definition example_wallet :: row where
  "example_wallet = [''address'' \<mapsto> ''0xA1'', ''account_classification'' \<mapsto> ''validator_wallet'', ''policy_group'' \<mapsto> [],
     ''routing_category'' \<mapsto> ''automatic_policy'', ''migration_stage'' \<mapsto> ''initial'', ''issuance_treatment'' \<mapsto> ''issue'',
     ''qualification_total_atto'' \<mapsto> ''2000000000000000000000'', ''gross_allocation_atto'' \<mapsto> ''2000000000000000000000'',
     ''existing_non_issuance_atto'' \<mapsto> ''0'', ''historical_retained_cap_atto'' \<mapsto> ''100'',
     ''wone_source_offset_atto'' \<mapsto> ''0'', ''reviewed_contract_non_issuance_atto'' \<mapsto> ''0'',
     ''reviewed_contract_wallet_non_issuance_atto'' \<mapsto> ''0'', ''reviewed_contract_staked_non_issuance_atto'' \<mapsto> ''0'',
     ''migration_wallet_allocation_atto'' \<mapsto> ''1999999999999999999000'', ''migration_staked_to_vault_atto'' \<mapsto> ''900'',
     ''migration_allocation_atto'' \<mapsto> ''1999999999999999999900'', ''last_activity_time_utc'' \<mapsto> ''2026-08-01T00:00:00Z'']"

definition example_contract :: row where
  "example_contract = [''address'' \<mapsto> ''0xB2'', ''account_classification'' \<mapsto> ''genuine_contract'', ''policy_group'' \<mapsto> ''smartvault'',
     ''routing_category'' \<mapsto> [], ''migration_stage'' \<mapsto> [], ''issuance_treatment'' \<mapsto> ''not_issued'',
     ''qualification_total_atto'' \<mapsto> ''1000000000000000000000'', ''gross_allocation_atto'' \<mapsto> ''1000000000000000000000'',
     ''existing_non_issuance_atto'' \<mapsto> ''0'', ''historical_retained_cap_atto'' \<mapsto> ''0'',
     ''wone_source_offset_atto'' \<mapsto> ''0'', ''reviewed_contract_non_issuance_atto'' \<mapsto> ''1000000000000000000000'',
     ''reviewed_contract_wallet_non_issuance_atto'' \<mapsto> ''1000000000000000000000'', ''reviewed_contract_staked_non_issuance_atto'' \<mapsto> ''0'',
     ''migration_wallet_allocation_atto'' \<mapsto> ''0'', ''migration_staked_to_vault_atto'' \<mapsto> ''0'',
     ''migration_allocation_atto'' \<mapsto> ''0'', ''last_activity_time_utc'' \<mapsto> []]"

definition example_stage_summary :: json where
  "example_stage_summary = JDict [(''status'', JStr ''passed''), (''output_sha256'', JStr ''p''),
     (''sources'', JDict [(''migration_summary'', JDict [(''sha256'', JStr ''m'')]),
        (''existing_non_issuance'', JDict [(''sha256'', JStr ''e'')]), (''historical_retention'', JList [JDict [(''sha256'', JStr ''h'')]])]),
     (''initial_window'', JDict [(''since_time_utc'', JStr ''2026-03-10T00:00:00Z'')]), (''qualified_rows'', JInt 2),
     (''stage_rows'', JDict [(''initial'', JInt 1)]),
     (''issuance_treatment_rows'', JDict [(''issue'', JInt 1), (''not_issued'', JInt 1)]),
     (''contracts'', JDict [(''groups'', JDict [(''smartvault'', JDict [(''addresses'', JInt 1), (''allocation_atto'', JInt 0),
        (''wallet_allocation_atto'', JInt 0), (''staked_allocation_atto'', JInt 0),
        (''not_issued_atto'', JInt 1000000000000000000000), (''not_issued_wallet_atto'', JInt 1000000000000000000000),
        (''not_issued_staked_atto'', JInt 0)])])]),
     (''allocation'', JDict [(''existing_non_issuance_atto'', JInt 0), (''historical_retained_caps_atto'', JInt 100),
        (''gross_native_snapshot_atto'', JInt 3000000000000000000000), (''total_migration_atto'', JInt 1999999999999999999900),
        (''reviewed_contract_non_issuance_atto'', JInt 1000000000000000000000),
        (''initial_wallets_atto'', JInt 1999999999999999999900), (''next_stage_contracts_atto'', JInt 0),
        (''deferred_wallets_atto'', JInt 0)]),
     (''initial_wallets'', JDict [(''automatic_policy_addresses'', JInt 1), (''manual_routing_addresses'', JInt 0)]),
     (''validator_wrappers'', JDict [(''initial_addresses'', JInt 1)]),
     (''deferred_wallets'', JDict [(''below_threshold_after_incident_deductions_addresses'', JInt 0),
        (''below_threshold_after_incident_deductions_atto'', JInt 0)])]"

definition example_migration :: json where
  "example_migration = JDict [(''status'', JStr ''passed''), (''native_total_claim_atto'', JStr ''3000000000000000000000''),
     (''wone_retained_not_issued_atto'', JInt 0), (''wone_reserve_atto'', JInt 0)]"

definition example_supply :: json where
  "example_supply = JDict [(''status'', JStr ''passed''), (''existing_non_issuance'', JDict [(''not_issued_atto'', JStr ''0'')]),
     (''historical_hack_retained_initial_addresses'', JDict [(''not_issued_atto'', JStr ''100'')]),
     (''totals'', JDict [(''not_issued_atto'', JStr ''100'')])]"

definition example_digests :: input_digests where
  "example_digests = \<lparr>dg_policy = ''p'', dg_migration = ''m'', dg_existing = [''e''], dg_historical = [''h'']\<rparr>"

lemma example_policy:
  "\<exists>s a. verify_policy example_stage_summary example_migration example_supply example_digests required_columns
     [example_wallet, example_contract] = Inr (s, a)"
proof -
  have "is_ok (verify_policy example_stage_summary example_migration example_supply example_digests required_columns
     [example_wallet, example_contract])" by code_simp
  then show ?thesis by (auto simp: is_ok_iff)
qed

theorem stage_policy_conserves_witness:
  "\<exists>s a. verify_policy example_stage_summary example_migration example_supply example_digests required_columns
     [example_wallet, example_contract] = Inr (s, a) \<and> al_initial a = 1999999999999999999900
     \<and> al_contract a = 1000000000000000000000"
proof -
  obtain s a where v: "verify_policy example_stage_summary example_migration example_supply example_digests required_columns
     [example_wallet, example_contract] = Inr (s, a)" using example_policy by blast
  have "stage_sum [example_wallet, example_contract] ''initial'' = 1999999999999999999900"
    and "sum_list (map (\<lambda>r. stage_cell r Contract) [example_wallet, example_contract]) = 1000000000000000000000"
    by code_simp+
  then show ?thesis using stage_policy_conserves [OF v] v by (intro exI conjI) auto
qed

theorem stage_rows_well_placed_witness:
  "\<exists>t since. parse_utc ''2026-03-10T00:00:00Z'' = Inr since \<and> parse_utc ''2026-08-01T00:00:00Z'' = Inr t \<and> since \<le> t"
proof -
  obtain s a where v: "verify_policy example_stage_summary example_migration example_supply example_digests required_columns
     [example_wallet, example_contract] = Inr (s, a)" using example_policy by blast
  have window: "at_path example_stage_summary [''initial_window'', ''since_time_utc''] = Inr (JStr ''2026-03-10T00:00:00Z'')"
    and since: "parse_utc ''2026-03-10T00:00:00Z'' = Inr [2026, 3, 10, 0, 0, 0, 0]"
    and cells: "text_cell example_wallet ''migration_stage'' = ''initial''"
      "text_cell example_wallet ''last_activity_time_utc'' = ''2026-08-01T00:00:00Z''"
    by code_simp+
  have "example_wallet \<in> set [example_wallet, example_contract]" by simp
  from stage_rows_well_placed [OF v this window since] show ?thesis unfolding cells using since by blast
qed

theorem contract_groups_resum_witness:
  "\<exists>s a. verify_policy example_stage_summary example_migration example_supply example_digests required_columns
     [example_wallet, example_contract] = Inr (s, a)
     \<and> ct_not_issued_wallet (entry no_contract (ss_contracts s) ''smartvault'')
       + ct_not_issued_staked (entry no_contract (ss_contracts s) ''smartvault'')
       = ct_not_issued (entry no_contract (ss_contracts s) ''smartvault'')"
proof -
  obtain s a where v: "verify_policy example_stage_summary example_migration example_supply example_digests required_columns
     [example_wallet, example_contract] = Inr (s, a)" using example_policy by blast
  have "example_contract \<in> set [example_wallet, example_contract]" by simp
  moreover have c: "text_cell example_contract ''account_classification'' = ''genuine_contract''"
    "text_cell example_contract ''policy_group'' = ''smartvault''" by code_simp+
  ultimately show ?thesis using contract_groups_resum [OF v, of example_contract] v by auto
qed

theorem supply_summary_closes_witness:
  "\<exists>r part. example_non_issuance = Inr r
     \<and> check_supply (JDict [(''allocation'', JDict [(''existing_non_issuance_atto'', JInt (ni_existing_total r)),
          (''historical_retained_caps_atto'', JInt (ni_retained_total r + ni_leak_total r))])])
        (non_issuance_summary r ''out.csv'' ''d'' (JDict [])) = Inr part"
proof -
  obtain r where r: "example_non_issuance = Inr r" using example_non_issuance_ok by blast
  have "check_supply (JDict [(''allocation'', JDict [(''existing_non_issuance_atto'', JInt (ni_existing_total r)),
          (''historical_retained_caps_atto'', JInt (ni_retained_total r + ni_leak_total r))])])
        (non_issuance_summary r ''out.csv'' ''d'' (JDict [])) = Inr
    \<lparr>sp_existing = ni_existing_total r, sp_historical = ni_retained_total r + ni_leak_total r,
              sp_retained = ni_retained_total r, sp_leak = ni_leak_total r\<rparr>"
    unfolding supply_summary_closes [OF r [unfolded example_non_issuance_def]]
    by (simp add: int_at_def at_path_def getitem_def)
  then show ?thesis using r by blast
qed

end
