(* ===== verification/Rpc.thy ===== *)
theory Rpc
  imports Pybase Defaultdict
begin

section \<open>Asking the node: \<open>rpc\<close> and \<open>rpc_batch\<close>\<close>

text \<open>
  The scripts speak JSON-RPC with a node, single calls and batches, and repeat a failed exchange. What the
  node answers on the k-th attempt to a request is the parameter \<open>exchange\<close>; an exchange that fails in
  the network, or is not JSON, is an exception of that attempt. Two policies occur: \<open>retry\<close> catches every exception and
  raises \<open>RuntimeError\<close> after the last attempt (the cutoff scripts), \<open>retry_some\<close> catches \<open>OSError\<close> and
  \<open>RuntimeError\<close> and raises the last one itself (the forensic scripts). The pauses between the attempts are not
  modelled.
\<close>

subsection \<open>Attempts\<close>

type_synonym exchange = "nat \<Rightarrow> json \<Rightarrow> json result"

fun retry :: "nat \<Rightarrow> nat \<Rightarrow> (nat \<Rightarrow> 'a result) \<Rightarrow> 'a result" where
  "retry 0 k f = Inl (RuntimeError ''failed after retries'')"
| "retry (Suc n) k f = (case f k of Inr x \<Rightarrow> Inr x | Inl e \<Rightarrow> retry n (Suc k) f)"

definition caught :: "error \<Rightarrow> bool" where
  "caught e = (case e of OSError _ \<Rightarrow> True | RuntimeError _ \<Rightarrow> True | _ \<Rightarrow> False)"

text \<open>\<open>retry_some n k f\<close> has \<open>n\<close> more attempts after the k-th.\<close>

fun retry_some :: "nat \<Rightarrow> nat \<Rightarrow> (nat \<Rightarrow> 'a result) \<Rightarrow> 'a result" where
  "retry_some 0 k f = f k"
| "retry_some (Suc n) k f = (case f k of Inr x \<Rightarrow> Inr x | Inl e \<Rightarrow> if caught e then retry_some n (Suc k) f else Inl e)"

lemma retry_Inr: "retry n k f = Inr x \<longleftrightarrow> (\<exists>j<n. f (k + j) = Inr x \<and> (\<forall>i<j. \<exists>e. f (k + i) = Inl e))"
proof (induction n arbitrary: k)
  case (Suc n)
  show ?case
  proof (cases "f k")
    case (Inl e)
    have "retry (Suc n) k f = Inr x \<longleftrightarrow> (\<exists>j<n. f (k + Suc j) = Inr x \<and> (\<forall>i<j. \<exists>e. f (k + Suc i) = Inl e))"
      using Suc.IH [of "Suc k"] by (simp add: Inl)
    also have "\<dots> \<longleftrightarrow> (\<exists>j<Suc n. f (k + j) = Inr x \<and> (\<forall>i<j. \<exists>e. f (k + i) = Inl e))"
      unfolding Ex_less_Suc2 All_less_Suc2 using Inl by simp
    finally show ?thesis .
  next
    case (Inr y)
    then show ?thesis by (force simp: Ex_less_Suc2 All_less_Suc2)
  qed
qed simp

lemma retry_Inl: "retry n k f = Inl e \<longleftrightarrow> e = RuntimeError ''failed after retries'' \<and> (\<forall>j<n. \<exists>e. f (k + j) = Inl e)"
proof (induction n arbitrary: k)
  case (Suc n)
  show ?case by (cases "f k") (auto simp: Suc.IH All_less_Suc2)
qed auto

lemma retry_some_ok: "(\<exists>e. f k = Inl e \<and> \<not> caught e) \<Longrightarrow> retry_some n k f = f k"
  by (cases n) auto

subsection \<open>One call\<close>

definition rpc_request :: "string \<Rightarrow> json list \<Rightarrow> int \<Rightarrow> json" where
  "rpc_request name params i = JDict [(''jsonrpc'', JStr ''2.0''), (''id'', JInt i), (''method'', JStr name), (''params'', JList params)]"

definition rpc_error :: "json \<Rightarrow> unit result" where
  "rpc_error answer = rbind (get_default answer ''error'' JNull) (\<lambda>e. raise_if (truthy e) (RuntimeError (str_of e)))"

definition rpc_result :: "json \<Rightarrow> json result" where
  "rpc_result answer = rbind (rpc_error answer) (\<lambda>_. subscript answer ''result'')"

definition rpc :: "nat \<Rightarrow> exchange \<Rightarrow> string \<Rightarrow> json list \<Rightarrow> json result" where
  "rpc attempts exchange name params =
     retry attempts 0 (\<lambda>k. rbind (exchange k (rpc_request name params 1)) rpc_result)"

text \<open>The forensic variant, with five attempts.\<close>

definition rpc_some :: "exchange \<Rightarrow> string \<Rightarrow> json list \<Rightarrow> json result" where
  "rpc_some exchange name params =
     retry_some 4 0 (\<lambda>k. rbind (exchange k (rpc_request name params 1)) rpc_result)"

subsection \<open>Batches\<close>

definition batch_request :: "(string \<times> json list) list \<Rightarrow> json" where
  "batch_request calls = JList (map (\<lambda>(i, name, params). rpc_request name params (int i)) (enumerate 0 calls))"

text \<open>\<open>by_id\<close>: of several items with one identifier the last is kept; numbers compare by value.\<close>

fun item_with_id :: "int \<Rightarrow> (json \<times> json) list \<Rightarrow> json option" where
  "item_with_id i [] = None"
| "item_with_id i ((key, item) # rest) =
     (case item_with_id i rest of Some found \<Rightarrow> Some found | None \<Rightarrow> if py_eq key (JInt i) then Some item else None)"

definition keyed_items :: "json \<Rightarrow> (json \<times> json) list result" where
  "keyed_items response = rbind (iter response) (map_r (\<lambda>item. rbind (subscript item ''id'') (\<lambda>key. Inr (key, item))))"

definition batch_value :: "(json \<times> json) list \<Rightarrow> nat \<Rightarrow> json result" where
  "batch_value items i = (case item_with_id (int i) items of
     None \<Rightarrow> Inl (KeyError ''id'')
   | Some item \<Rightarrow> rpc_result item)"

definition batch_values :: "nat \<Rightarrow> json \<Rightarrow> json list result" where
  "batch_values n response = rbind (keyed_items response) (\<lambda>items. map_r (batch_value items) [0..<n])"

definition rpc_batch :: "exchange \<Rightarrow> (string \<times> json list) list \<Rightarrow> json list result" where
  "rpc_batch exchange calls =
     retry 6 0 (\<lambda>k. rbind (exchange k (batch_request calls)) (batch_values (length calls)))"

text \<open>The variant of \<open>verify-state-diff-rpc.py\<close> also counts the identifiers.\<close>

definition different_ids :: "(json \<times> json) list \<Rightarrow> nat" where
  "different_ids items = length (foldl (\<lambda>seen kv. if \<exists>key \<in> set seen. py_eq key (fst kv) then seen else seen @ [fst kv]) [] items)"

definition complete_batch_values :: "nat \<Rightarrow> json \<Rightarrow> json list result" where
  "complete_batch_values n response = rbind (keyed_items response) (\<lambda>items.
     if different_ids items \<noteq> n then Inl (RuntimeError ''incomplete batch response'')
     else map_r (batch_value items) [0..<n])"

definition rpc_complete_batch :: "exchange \<Rightarrow> (string \<times> json list) list \<Rightarrow> json list result" where
  "rpc_complete_batch exchange calls =
     retry 6 0 (\<lambda>k. rbind (exchange k (batch_request calls)) (complete_batch_values (length calls)))"

text \<open>Reading an answer: \<open>values[i]\<close> and \<open>int(v, 16)\<close>.\<close>

definition list_get :: "'a list \<Rightarrow> nat \<Rightarrow> 'a result" where
  "list_get xs i = (if i < length xs then Inr (xs ! i) else Inl IndexError)"

definition int16_of :: "json \<Rightarrow> int result" where
  "int16_of v = (case v of JStr s \<Rightarrow> py_int16 s | _ \<Rightarrow> Inl (TypeError ''int() can't convert non-string with explicit base''))"

type_synonym batch = "(string \<times> json list) list \<Rightarrow> json list result"

type_synonym call = "string \<Rightarrow> json list \<Rightarrow> json result"

subsection \<open>What a call returns\<close>

lemma batch_values_length: "batch_values n response = Inr vs \<Longrightarrow> length vs = n"
  by (auto simp: batch_values_def rbind_eq_Inr dest!: map_r_length)

lemma rpc_batch_length: "rpc_batch exchange calls = Inr vs \<Longrightarrow> length vs = length calls"
  by (auto simp: rpc_batch_def retry_Inr rbind_eq_Inr batch_values_length)

lemma complete_batch_length: "rpc_complete_batch exchange calls = Inr vs \<Longrightarrow> length vs = length calls"
  by (auto simp: rpc_complete_batch_def retry_Inr rbind_eq_Inr complete_batch_values_def dest!: map_r_length split: if_split_asm)

text \<open>The item of an identifier does not depend on the order when the identifiers are different numbers.\<close>

lemma item_with_id_distinct:
  assumes "distinct ids"
  shows "item_with_id i (zip (map JInt ids) items) = map_of (zip ids items) i"
  using assms
proof (induction ids arbitrary: items)
  case (Cons j ids)
  show ?case
  proof (cases items)
    case (Cons w ws)
    have "map_of (zip ids ws) j = None"
      using Cons.prems by (auto simp: map_of_eq_None_iff dest: set_zip_leftD)
    then show ?thesis using Cons.IH [of ws] Cons.prems
      by (auto simp: Cons py_eq_def as_number_def split: option.split)
  qed simp
qed simp

text \<open>A response item of the node for call \<open>i\<close>.\<close>

definition answer_item :: "nat \<Rightarrow> json \<Rightarrow> json" where
  "answer_item i v = JDict [(''jsonrpc'', JStr ''2.0''), (''id'', JInt (int i)), (''result'', v)]"

lemma keyed_answers:
  "keyed_items (JList (map (\<lambda>i. answer_item i (vs ! i)) js))
    = Inr (zip (map JInt (map int js)) (map (\<lambda>k. answer_item (nat k) (vs ! nat k)) (map int js)))"
  by (induction js) (simp_all add: keyed_items_def answer_item_def getitem_def)

lemma py_eq_JInt [simp]: "py_eq (JInt a) (JInt b) \<longleftrightarrow> a = b"
  by (simp add: py_eq_def as_number_def)

lemma different_ids_distinct:
  "distinct ids \<Longrightarrow> length items = length ids \<Longrightarrow> set ids \<inter> set known = {} \<Longrightarrow>
     foldl (\<lambda>seen kv. if \<exists>key \<in> set seen. py_eq key (fst kv) then seen else seen @ [fst kv]) (map JInt known)
       (zip (map JInt ids) items) = map JInt (known @ ids)"
proof (induction ids arbitrary: known items)
  case (Cons j ids)
  then obtain w ws where items: "items = w # ws" by (cases items) auto
  have "\<not> (\<exists>key \<in> set (map JInt known). py_eq key (JInt j))" using Cons.prems(3) by auto
  then show ?case using Cons.IH [of ws "known @ [j]"] Cons.prems items by auto
qed simp

lemma rpc_result_answer: "rpc_result (answer_item i v) = Inr v"
  by (simp add: rpc_result_def rpc_error_def answer_item_def getitem_def get_or_def raise_if_def)

lemma batch_values_answers:
  assumes "mset js = mset [0..<length vs]"
  defines "response \<equiv> JList (map (\<lambda>i. answer_item i (vs ! i)) js)"
  shows "batch_values (length vs) response = Inr vs" and "complete_batch_values (length vs) response = Inr vs"
proof -
  have d: "distinct (map int js)"
    using assms(1) mset_eq_imp_distinct_iff [of js "[0..<length vs]"] by (simp add: distinct_map)
  define items where "items = zip (map JInt (map int js)) (map (\<lambda>k. answer_item (nat k) (vs ! nat k)) (map int js))"
  have k: "keyed_items response = Inr items" unfolding response_def items_def by (rule keyed_answers)
  have "item_with_id (int i) items = Some (answer_item i (vs ! i))" if "i < length vs" for i
  proof -
    have "i \<in> set js" using assms(1) that by (metis atLeastLessThan_upt atLeast0LessThan lessThan_iff set_mset_mset)
    then show ?thesis unfolding items_def item_with_id_distinct [OF d] map_of_zip_map by simp
  qed
  then have "map_r (batch_value items) [0..<length vs] = Inr (map (\<lambda>i. vs ! i) [0..<length vs])"
    by (intro map_r_Inr) (simp add: batch_value_def rpc_result_answer)
  then have v: "map_r (batch_value items) [0..<length vs] = Inr vs" by (simp add: map_nth)
  then show "batch_values (length vs) response = Inr vs" by (simp add: batch_values_def k)
  have "length js = length vs" using assms(1) by (metis length_upt minus_nat.diff_0 size_mset)
  then have "different_ids items = length vs"
    using different_ids_distinct [OF d, of "map (\<lambda>k. answer_item (nat k) (vs ! nat k)) (map int js)" "[]"]
    by (simp add: different_ids_def items_def)
  then show "complete_batch_values (length vs) response = Inr vs" using v by (simp add: complete_batch_values_def k)
qed

text \<open>
  C38. A batch returns the answers in the order of the calls. If one of the first six attempts brings an answer to
  every call, in whatever order, and the attempts before it fail, both variants return the list of answers
  in the order of the calls.
\<close>

theorem rpc_batch_returns:
  assumes "length vs = length calls" and "j < 6" and "\<forall>i<j. \<exists>e. exchange i (batch_request calls) = Inl e"
    and "mset js = mset [0..<length vs]"
    and "exchange j (batch_request calls) = Inr (JList (map (\<lambda>i. answer_item i (vs ! i)) js))"
  shows "rpc_batch exchange calls = Inr vs \<and> rpc_complete_batch exchange calls = Inr vs"
proof -
  note b = batch_values_answers [OF assms(4)]
  have "rpc_batch exchange calls = Inr vs"
    unfolding rpc_batch_def retry_Inr using assms(1-3,5) b(1)
    by (intro exI [of _ j]) (auto simp: rbind_eq_Inr rbind_eq_Inl)
  moreover have "rpc_complete_batch exchange calls = Inr vs"
    unfolding rpc_complete_batch_def retry_Inr using assms(1-3,5) b(2)
    by (intro exI [of _ j]) (auto simp: rbind_eq_Inr rbind_eq_Inl)
  ultimately show ?thesis by blast
qed

text \<open>A timeout, then two answers in the wrong order.\<close>

definition example_exchange :: exchange where
  "example_exchange k _ = (if k = 0 then Inl (OSError ''timeout'')
     else Inr (JList [answer_item 1 (JStr ''0x2''), answer_item 0 (JStr ''0x1'')]))"

theorem rpc_batch_returns_witness:
  "rpc_batch example_exchange [(''eth_getBalance'', []), (''eth_getCode'', [])] = Inr [JStr ''0x1'', JStr ''0x2'']"
  using rpc_batch_returns [of "[JStr ''0x1'', JStr ''0x2'']" "[(''eth_getBalance'', []), (''eth_getCode'', [])]" 1
      example_exchange "[1, 0]"]
  by (simp add: example_exchange_def upt_rec)

end
