(* ===== verification/CreatedAccounts.thy ===== *)
theory CreatedAccounts
  imports Rpc
begin

section \<open>The block in which an account was created: \<open>verify-created-accounts.py\<close>\<close>

text \<open>
  For every account that a state comparison reports as created, the script finds the block in which it comes to
  exist by bisection, all accounts at once: a round asks the node, in one batch, about the middle of every open
  interval. It then looks for the transaction that explains the creation, first in the traces of the block and
  then among its transactions. \<open>batch\<close> and \<open>call\<close> are the node as \<open>rpc_batch\<close> and \<open>rpc\<close> present it.
\<close>

subsection \<open>Presence of an account\<close>

definition exists_at :: "json \<Rightarrow> json \<Rightarrow> json \<Rightarrow> bool result" where
  "exists_at balance nonce code =
     rbind (int16_of balance) (\<lambda>b. if b \<noteq> 0 then Inr True
       else rbind (int16_of nonce) (\<lambda>n. if n \<noteq> 0 then Inr True
         else Inr (code \<noteq> JStr ''0x'' \<and> code \<noteq> JStr ''0x0'')))"

subsection \<open>Bisection\<close>

text \<open>The dictionary \<open>bounds\<close>, in the order of the rows; an open interval has \<open>low < high\<close>.\<close>

type_synonym bounds = "(string \<times> int \<times> int) list"

definition is_open :: "string \<times> int \<times> int \<Rightarrow> bool" where
  "is_open e \<longleftrightarrow> fst (snd e) < snd (snd e)"

definition middle :: "int \<times> int \<Rightarrow> int" where
  "middle i = fst i + (snd i - fst i) div 2"

definition active :: "bounds \<Rightarrow> (string \<times> int) list" where
  "active d = map (\<lambda>(a, i). (a, middle i)) (filter is_open d)"

definition calls_of :: "(string \<times> int) list \<Rightarrow> (string \<times> json list) list" where
  "calls_of act = concat (map (\<lambda>(a, block). let params = [JStr a, JStr (hex_int block)] in
     [(''eth_getBalance'', params), (''eth_getTransactionCount'', params), (''eth_getCode'', params)]) act)"

definition present_at :: "json list \<Rightarrow> nat \<Rightarrow> bool result" where
  "present_at values i =
     rbind (list_get values (i * 3)) (\<lambda>b. rbind (list_get values (i * 3 + 1)) (\<lambda>n.
     rbind (list_get values (i * 3 + 2)) (\<lambda>c. exists_at b n c)))"

definition narrow :: "bool \<Rightarrow> int \<times> int \<Rightarrow> int \<times> int" where
  "narrow present i = (if present then (fst i, middle i) else (middle i + 1, snd i))"

text \<open>The updates of one round, in the order of \<open>active\<close>.\<close>

fun narrow_all :: "bounds \<Rightarrow> bool list \<Rightarrow> bounds" where
  "narrow_all [] ps = []"
| "narrow_all (e # d) ps =
     (if is_open e then (case ps of p # ps' \<Rightarrow> (fst e, narrow p (snd e)) # narrow_all d ps' | [] \<Rightarrow> e # narrow_all d [])
      else e # narrow_all d ps)"

definition bisect_round :: "batch \<Rightarrow> bounds \<Rightarrow> bounds result" where
  "bisect_round batch d =
     rbind (batch (calls_of (active d))) (\<lambda>values.
     rbind (map_r (present_at values) [0..<length (active d)]) (\<lambda>ps. Inr (narrow_all d ps)))"

text \<open>The loop ends: whatever the node answers, a round makes the open intervals smaller.\<close>

definition widths :: "bounds \<Rightarrow> nat" where
  "widths d = sum_list (map (\<lambda>e. nat (snd (snd e) - fst (snd e))) d)"

lemma narrow_smaller: "is_open e \<Longrightarrow> nat (snd (narrow p (snd e)) - fst (narrow p (snd e))) < nat (snd (snd e) - fst (snd e))"
  by (auto simp: is_open_def narrow_def middle_def)

lemma narrow_all_le: "widths (narrow_all d ps) \<le> widths d"
proof (induction d ps rule: narrow_all.induct)
  case (2 e d ps)
  then show ?case using narrow_smaller [of e]
    by (auto simp: widths_def add_mono less_imp_le split: list.splits)
qed (simp add: widths_def)

lemma narrow_all_less: "length ps = length (filter is_open d) \<Longrightarrow> \<exists>e \<in> set d. is_open e \<Longrightarrow> widths (narrow_all d ps) < widths d"
proof (induction d arbitrary: ps)
  case (Cons e d)
  show ?case
  proof (cases "is_open e")
    case True
    then obtain p ps' where ps: "ps = p # ps'" using Cons.prems(1) by (cases ps) auto
    have "widths (narrow_all (e # d) ps) = nat (snd (narrow p (snd e)) - fst (narrow p (snd e))) + widths (narrow_all d ps')"
      using True by (simp add: ps widths_def)
    also have "\<dots> < nat (snd (snd e) - fst (snd e)) + widths d"
      by (rule add_less_le_mono [OF narrow_smaller [OF True] narrow_all_le])
    finally show ?thesis by (simp add: widths_def)
  next
    case False
    then show ?thesis using Cons by (simp add: widths_def)
  qed
qed simp

lemma bisect_round_less: "bisect_round batch d = Inr d' \<Longrightarrow> \<exists>e \<in> set d. is_open e \<Longrightarrow> widths d' < widths d"
  by (auto simp: bisect_round_def rbind_eq_Inr active_def intro!: narrow_all_less dest!: map_r_length)

function bisect :: "batch \<Rightarrow> bounds \<Rightarrow> bounds result" where
  "bisect batch d = (if \<exists>e \<in> set d. is_open e then rbind (bisect_round batch d) (bisect batch) else Inr d)"
  by pat_completeness auto
termination
  by (relation "measure (\<lambda>(_, d). widths d)") (auto intro: bisect_round_less)

declare bisect.simps [simp del]

subsection \<open>The transaction that created the account\<close>

definition address_keys :: "string list" where
  "address_keys = [''from'', ''to'', ''address'', ''refundaddress'', ''author'', ''beneficiary'']"

definition address_text :: "string \<Rightarrow> json \<Rightarrow> string list" where
  "address_text key item = (case item of
     JStr s \<Rightarrow> if lower key \<in> set address_keys \<and> length s = 42 \<and> starts_with ''0x'' s then [lower s] else []
   | _ \<Rightarrow> [])"

text \<open>The set of the code, as a list.\<close>

fun address_values :: "json \<Rightarrow> string list" where
  "address_values (JDict kvs) = concat (map (\<lambda>(k, v). address_text k v @ address_values v) kvs)"
| "address_values (JList vs) = concat (map address_values vs)"
| "address_values _ = []"

fun transaction_hash_for_address :: "json list \<Rightarrow> string \<Rightarrow> (json \<times> string) result" where
  "transaction_hash_for_address [] address = Inr (JStr [], [])"
| "transaction_hash_for_address (trace # rest) address =
     (if lower address \<in> set (address_values trace)
      then rbind (get_default trace ''transactionHash'' JNull) (\<lambda>h. Inr (or_else h (JStr []), ''trace''))
      else transaction_hash_for_address rest address)"

definition lower_or_empty :: "json \<Rightarrow> string \<Rightarrow> string result" where
  "lower_or_empty transaction key = rbind (get_default transaction key JNull) (\<lambda>v.
     rbind (text_of (or_else v (JStr []))) (\<lambda>s. Inr (lower s)))"

fun block_transaction :: "json list \<Rightarrow> string \<Rightarrow> json option result" where
  "block_transaction [] address = Inr None"
| "block_transaction (t # rest) address =
     rbind (lower_or_empty t ''from'') (\<lambda>sender. rbind (lower_or_empty t ''to'') (\<lambda>receiver.
       if address = sender \<or> address = receiver
       then rbind (get_default t ''hash'' JNull) (\<lambda>h. Inr (Some (or_else h (JStr []))))
       else block_transaction rest address))"

text \<open>The transaction hash and the kind of evidence.\<close>

definition find_evidence :: "call \<Rightarrow> string \<Rightarrow> int \<Rightarrow> (json \<times> string) result" where
  "find_evidence call address block =
     rbind (rbind (call ''trace_block'' [JStr (hex_int block)]) iter) (\<lambda>traces.
     rbind (transaction_hash_for_address traces address) (\<lambda>found.
       if snd found \<noteq> [] then Inr found
       else rbind (call ''eth_getBlockByNumber'' [JStr (hex_int block), JBool True]) (\<lambda>full_block.
            rbind (rbind (get_default full_block ''transactions'' JNull) (\<lambda>ts. iter (or_else ts (JList [])))) (\<lambda>ts.
            rbind (block_transaction ts address) (\<lambda>h. case h of
              Some h' \<Rightarrow> Inr (h', ''block_transaction'')
            | None \<Rightarrow> Inr (fst found, ''protocol_state_transition''))))))"

subsection \<open>The main program\<close>

record created_row =
  cr_key :: string
  cr_address :: string
  cr_block :: int
  cr_transaction :: json
  cr_evidence :: string
  cr_balance :: string
  cr_nonce :: string
  cr_code_hash :: string

definition created_output :: "call \<Rightarrow> (string \<rightharpoonup> row) \<Rightarrow> string \<times> int \<times> int \<Rightarrow> created_row result" where
  "created_output call by_address e =
     rbind (find_evidence call (fst e) (fst (snd e))) (\<lambda>found.
     rbind (getitem by_address (fst e)) (\<lambda>r.
     rbind (getitem r ''secure_key'') (\<lambda>key. rbind (getitem r ''address'') (\<lambda>address.
     rbind (getitem r ''new_balance_atto'') (\<lambda>balance. rbind (getitem r ''new_nonce'') (\<lambda>nonce.
     rbind (getitem r ''new_code_hash'') (\<lambda>code_hash.
       Inr \<lparr>cr_key = key, cr_address = address, cr_block = fst (snd e), cr_transaction = fst found,
            cr_evidence = snd found, cr_balance = balance, cr_nonce = nonce, cr_code_hash = code_hash\<rparr>)))))))"

definition created_rows :: "row list \<Rightarrow> row list result" where
  "created_rows rs = rbind (map_r (\<lambda>r. rbind (getitem r ''change_type'') (\<lambda>t. Inr (t = ''created'', r))) rs) (\<lambda>ts.
     Inr (map snd (filter fst ts)))"

definition addresses_of :: "row list \<Rightarrow> string list result" where
  "addresses_of rs = map_r (\<lambda>r. rbind (getitem r ''address'') (\<lambda>a. Inr (lower a))) rs"

text \<open>The dictionary comprehensions: one entry per address, at the place where it comes first.\<close>

fun first_keys :: "string list \<Rightarrow> string list \<Rightarrow> string list" where
  "first_keys known [] = []"
| "first_keys known (a # as) = (if a \<in> set known then first_keys known as else a # first_keys (known @ [a]) as)"

definition start_bounds :: "int \<Rightarrow> int \<Rightarrow> string list \<Rightarrow> bounds" where
  "start_bounds old_block new_block as = map (\<lambda>a. (a, old_block + 1, new_block)) (first_keys [] as)"

record created_report =
  cp_rows :: "created_row list"
  cp_created :: int
  cp_trace_matches :: int
  cp_block_matches :: int
  cp_protocol_only :: int

definition evidence_count :: "string \<Rightarrow> created_row list \<Rightarrow> int" where
  "evidence_count kind ws = int (length (filter (\<lambda>w. cr_evidence w = kind) ws))"

definition verify_created :: "batch \<Rightarrow> call \<Rightarrow> int \<Rightarrow> int \<Rightarrow> row list \<Rightarrow> created_report result" where
  "verify_created batch call old_block new_block rs =
     rbind (created_rows rs) (\<lambda>created.
     rbind (addresses_of created) (\<lambda>as.
     rbind (bisect batch (start_bounds old_block new_block as)) (\<lambda>d.
     rbind (map_r (created_output call (map_of (rev (zip as created)))) (sort_key fst d)) (\<lambda>ws.
       if ws = [] then Inl IndexError
       else Inr \<lparr>cp_rows = ws, cp_created = int (length created), cp_trace_matches = evidence_count ''trace'' ws,
                 cp_block_matches = evidence_count ''block_transaction'' ws,
                 cp_protocol_only = evidence_count ''protocol_state_transition'' ws\<rparr>))))"

subsection \<open>What bisection finds\<close>

text \<open>
  The node as the bisection uses it: a batch of calls is answered call by call, and the three answers for an
  address at a block say whether it exists there.
\<close>

definition answers_truthfully :: "batch \<Rightarrow> (string \<Rightarrow> int \<Rightarrow> bool) \<Rightarrow> bool" where
  "answers_truthfully batch present \<longleftrightarrow> (\<exists>answer.
     (\<forall>calls. batch calls = Inr (map answer calls))
     \<and> (\<forall>a block. let params = [JStr a, JStr (hex_int block)] in
          exists_at (answer (''eth_getBalance'', params)) (answer (''eth_getTransactionCount'', params))
            (answer (''eth_getCode'', params)) = Inr (present a block)))"

lemma nth_calls_of:
  "i < length act \<Longrightarrow> fst (act ! i) = a \<Longrightarrow> snd (act ! i) = block \<Longrightarrow>
     length (calls_of act) = 3 * length act
     \<and> calls_of act ! (i * 3) = (''eth_getBalance'', [JStr a, JStr (hex_int block)])
     \<and> calls_of act ! (i * 3 + 1) = (''eth_getTransactionCount'', [JStr a, JStr (hex_int block)])
     \<and> calls_of act ! (i * 3 + 2) = (''eth_getCode'', [JStr a, JStr (hex_int block)])"
proof (induction act arbitrary: i)
  case (Cons e act)
  obtain b k where e: "e = (b, k)" by (cases e)
  have len: "length (calls_of act) = 3 * length act" for act by (induction act) (auto simp: calls_of_def Let_def)
  have unfold: "calls_of (e # act) = [(''eth_getBalance'', [JStr b, JStr (hex_int k)]),
      (''eth_getTransactionCount'', [JStr b, JStr (hex_int k)]), (''eth_getCode'', [JStr b, JStr (hex_int k)])] @ calls_of act"
    by (simp add: calls_of_def Let_def e)
  show ?case
  proof (cases i)
    case 0
    then show ?thesis using Cons.prems len [of "e # act"] unfolding unfold by (simp add: e)
  next
    case (Suc j)
    then have "j < length act" "fst (act ! j) = a" "snd (act ! j) = block" using Cons.prems by simp_all
    note ih = Cons.IH [OF this]
    have shift: "calls_of (e # act) ! (m + 3) = calls_of act ! m" for m
      unfolding unfold by (simp add: nth_append)
    have idx: "i * 3 = j * 3 + 3" "i * 3 + 1 = (j * 3 + 1) + 3" "i * 3 + 2 = (j * 3 + 2) + 3" using Suc by simp_all
    have "calls_of (e # act) ! (i * 3) = calls_of act ! (j * 3)"
      and "calls_of (e # act) ! (i * 3 + 1) = calls_of act ! (j * 3 + 1)"
      and "calls_of (e # act) ! (i * 3 + 2) = calls_of act ! (j * 3 + 2)"
      by (simp only: idx(1) shift, simp only: idx(2) shift, simp only: idx(3) shift)
    then show ?thesis using ih len [of "e # act"] by simp
  qed
qed simp

lemma bisect_round_truth:
  assumes "answers_truthfully batch present"
  shows "bisect_round batch d = Inr (narrow_all d (map (\<lambda>(a, block). present a block) (active d)))"
proof -
  obtain answer where ans: "\<And>calls. batch calls = Inr (map answer calls)"
    and ex: "\<And>a block. exists_at (answer (''eth_getBalance'', [JStr a, JStr (hex_int block)]))
        (answer (''eth_getTransactionCount'', [JStr a, JStr (hex_int block)]))
        (answer (''eth_getCode'', [JStr a, JStr (hex_int block)])) = Inr (present a block)"
    using assms by (auto simp: answers_truthfully_def Let_def)
  define vals where "vals = map answer (calls_of (active d))"
  have "present_at vals i = Inr (case active d ! i of (a, block) \<Rightarrow> present a block)" if "i < length (active d)" for i
  proof -
    obtain a block where e: "active d ! i = (a, block)" by (cases "active d ! i")
    note n = nth_calls_of [OF that, of a block]
    have i: "i * 3 < length (calls_of (active d))" "i * 3 + 1 < length (calls_of (active d))"
      "i * 3 + 2 < length (calls_of (active d))" using n that by (simp_all add: e)
    then show ?thesis using n ex [of a block] by (simp add: present_at_def list_get_def vals_def e)
  qed
  then have "map_r (present_at vals) [0..<length (active d)]
      = Inr (map (\<lambda>i. case active d ! i of (a, block) \<Rightarrow> present a block) [0..<length (active d)])"
    by (intro map_r_Inr) simp
  also have "map (\<lambda>i. case active d ! i of (a, block) \<Rightarrow> present a block) [0..<length (active d)]
      = map (\<lambda>(a, block). present a block) (active d)"
    by (rule nth_equalityI) simp_all
  finally show ?thesis by (simp add: bisect_round_def ans vals_def [symmetric])
qed

text \<open>With a truthful node a round narrows every interval by itself.\<close>

definition narrow_entry :: "(string \<Rightarrow> int \<Rightarrow> bool) \<Rightarrow> string \<times> int \<times> int \<Rightarrow> string \<times> int \<times> int" where
  "narrow_entry present e = (if is_open e then (fst e, narrow (present (fst e) (middle (snd e))) (snd e)) else e)"

lemma narrow_all_map: "narrow_all d (map (\<lambda>(a, block). present a block) (active d)) = map (narrow_entry present) d"
proof (induction d)
  case (Cons e d)
  have step: "active (e # d) = (if is_open e then (fst e, middle (snd e)) # active d else active d)"
    by (cases e) (simp add: active_def)
  show ?case by (cases "is_open e") (simp_all add: step narrow_entry_def Cons.IH)
qed (simp add: active_def)

text \<open>What holds of an interval throughout: present at the end, absent before the start.\<close>

definition brackets :: "(string \<Rightarrow> int \<Rightarrow> bool) \<Rightarrow> int \<Rightarrow> int \<Rightarrow> string \<times> int \<times> int \<Rightarrow> bool" where
  "brackets present lo hi e \<longleftrightarrow> (case e of (a, low, high) \<Rightarrow>
     lo \<le> low \<and> low \<le> high \<and> high \<le> hi \<and> present a high \<and> (low = lo \<or> \<not> present a (low - 1)))"

lemma brackets_narrow: "brackets present lo hi e \<Longrightarrow> brackets present lo hi (narrow_entry present e)"
  by (auto simp: brackets_def narrow_entry_def narrow_def is_open_def middle_def split: prod.splits)

lemma bisect_truth:
  assumes "answers_truthfully batch present" and "\<forall>e \<in> set d. brackets present lo hi e"
  shows "\<exists>d'. bisect batch d = Inr d' \<and> map fst d' = map fst d \<and> (\<forall>e \<in> set d'. brackets present lo hi e \<and> \<not> is_open e)"
  using assms(2)
proof (induction "widths d" arbitrary: d rule: less_induct)
  case less
  show ?case
  proof (cases "\<exists>e \<in> set d. is_open e")
    case True
    define t where "t = map (narrow_entry present) d"
    have round: "bisect_round batch d = Inr t"
      unfolding t_def bisect_round_truth [OF assms(1)] narrow_all_map by (rule refl)
    have keys: "map fst t = map fst d" by (auto simp: t_def narrow_entry_def)
    have "widths t < widths d" using bisect_round_less [OF round True] .
    moreover have "\<forall>e \<in> set t. brackets present lo hi e"
      using less.prems brackets_narrow by (auto simp: t_def)
    ultimately obtain d' where "bisect batch t = Inr d'" "map fst d' = map fst t"
      "\<forall>e \<in> set d'. brackets present lo hi e \<and> \<not> is_open e" using less.hyps by blast
    then show ?thesis using round keys True by (subst bisect.simps) simp
  next
    case False
    then show ?thesis using less.prems by (subst bisect.simps) auto
  qed
qed

text \<open>The loop with a bound on the rounds; \<open>None\<close> means that the bound was not enough.\<close>

fun bisect_within :: "nat \<Rightarrow> batch \<Rightarrow> bounds \<Rightarrow> bounds result option" where
  "bisect_within 0 batch d = (if \<exists>e \<in> set d. is_open e then None else Some (Inr d))"
| "bisect_within (Suc n) batch d =
     (if \<exists>e \<in> set d. is_open e
      then (case bisect_round batch d of Inl e \<Rightarrow> Some (Inl e) | Inr d' \<Rightarrow> bisect_within n batch d')
      else Some (Inr d))"

definition width_below :: "int \<Rightarrow> string \<times> int \<times> int \<Rightarrow> bool" where
  "width_below w e \<longleftrightarrow> snd (snd e) - fst (snd e) < w"

lemma narrow_halves: "is_open e \<Longrightarrow> width_below (2 * w) e \<Longrightarrow> width_below w (fst e, narrow p (snd e))"
  by (auto simp: width_below_def narrow_def middle_def is_open_def)

lemma closed_width: "\<not> is_open e \<Longrightarrow> 0 < w \<Longrightarrow> width_below w e"
  by (auto simp: width_below_def is_open_def)

lemma narrow_all_halves:
  "length ps = length (filter is_open d) \<Longrightarrow> \<forall>e \<in> set d. width_below (2 * w) e \<Longrightarrow> 0 < w \<Longrightarrow>
     \<forall>e \<in> set (narrow_all d ps). width_below w e"
proof (induction d arbitrary: ps)
  case (Cons e d)
  show ?case
  proof (cases "is_open e")
    case True
    then obtain p ps' where ps: "ps = p # ps'" using Cons.prems(1) by (cases ps) auto
    then have len: "length ps' = length (filter is_open d)" and "\<forall>e \<in> set d. width_below (2 * w) e"
      using Cons.prems True by simp_all
    from Cons.IH [OF this Cons.prems(3)] show ?thesis using narrow_halves [OF True] Cons.prems(2) True ps by simp
  next
    case False
    then have "length ps = length (filter is_open d)" "\<forall>e \<in> set d. width_below (2 * w) e" using Cons.prems by simp_all
    from Cons.IH [OF this Cons.prems(3)] show ?thesis using closed_width [OF False Cons.prems(3)] False by simp
  qed
qed simp

lemma bisect_within_enough:
  "\<forall>e \<in> set d. width_below (2 ^ n) e \<Longrightarrow> bisect_within n batch d = Some (bisect batch d)"
proof (induction n arbitrary: d)
  case 0
  then have "\<not> (\<exists>e \<in> set d. is_open e)" by (auto simp: width_below_def is_open_def)
  then show ?case by (subst bisect.simps) simp
next
  case (Suc n)
  show ?case
  proof (cases "\<exists>e \<in> set d. is_open e")
    case True
    show ?thesis
    proof (cases "bisect_round batch d")
      case (Inl e)
      then show ?thesis using True by (subst bisect.simps) simp
    next
      case (Inr d')
      then obtain ps where d': "d' = narrow_all d ps" and "length ps = length (filter is_open d)"
        by (auto simp: bisect_round_def rbind_eq_Inr active_def dest!: map_r_length)
      then have "\<forall>e \<in> set d'. width_below (2 ^ n) e"
        unfolding d' by (intro narrow_all_halves) (use Suc.prems in simp_all)
      from Suc.IH [OF this] show ?thesis using True Inr by (subst bisect.simps) simp
    qed
  next
    case False
    then show ?thesis by (subst bisect.simps) simp
  qed
qed

text \<open>
  The bisection ends after logarithmically many batches. Whatever the node answers, intervals shorter than
  \<open>2 ^ n\<close> blocks are closed within \<open>n\<close> rounds: with the bound \<open>n\<close> the loop has the result it has without a bound.
\<close>

theorem bisect_rounds:
  assumes "\<forall>e \<in> set d. snd (snd e) - fst (snd e) < 2 ^ n"
  shows "bisect_within n batch d = Some (bisect batch d)"
  by (rule bisect_within_enough) (use assms in \<open>simp add: width_below_def\<close>)

lemma find_evidence_kind:
  assumes "find_evidence call address block = Inr found"
  shows "snd found \<in> {''trace'', ''block_transaction'', ''protocol_state_transition''}"
proof -
  have t: "snd r \<in> {[], ''trace''}" if "transaction_hash_for_address ts address = Inr r" for ts r
    using that by (induction ts) (auto simp: rbind_eq_Inr split: if_split_asm)
  obtain traces fnd where fnd: "transaction_hash_for_address traces address = Inr fnd"
    and rest: "(if snd fnd \<noteq> [] then Inr fnd
       else rbind (call ''eth_getBlockByNumber'' [JStr (hex_int block), JBool True]) (\<lambda>full_block.
            rbind (rbind (get_default full_block ''transactions'' JNull) (\<lambda>ts. iter (or_else ts (JList [])))) (\<lambda>ts.
            rbind (block_transaction ts address) (\<lambda>h. case h of
              Some h' \<Rightarrow> Inr (h', ''block_transaction'')
            | None \<Rightarrow> Inr (fst fnd, ''protocol_state_transition''))))) = Inr found"
    using assms unfolding find_evidence_def by (elim rbind_E) blast
  show ?thesis
  proof (cases "snd fnd \<noteq> []")
    case True
    then show ?thesis using rest t [OF fnd] by simp
  next
    case False
    then obtain h where "(case h of Some h' \<Rightarrow> Inr (h', ''block_transaction'')
        | None \<Rightarrow> Inr (fst fnd, ''protocol_state_transition'')) = (Inr found :: (json \<times> string) result)"
      using rest by (simp only: if_False) (elim rbind_E, blast)
    then show ?thesis by (cases h) auto
  qed
qed

lemma first_keys_set: "set (first_keys known as) = set as - set known"
  by (induction as arbitrary: known) auto

lemma first_keys_distinct: "distinct (first_keys known as)"
  by (induction as arbitrary: known) (auto simp: first_keys_set)

lemma addresses_of_zip:
  assumes "addresses_of rs = Inr as" and "map_of (rev (zip as rs)) a = Some r"
  shows "lower (get_or r ''address'' []) = a"
proof -
  have "(a, r) \<in> set (zip as rs)" using map_of_SomeD [OF assms(2)] by simp
  then obtain i where "i < length as" "i < length rs" "as ! i = a" "rs ! i = r" by (auto simp: set_zip)
  moreover have "list_all2 (\<lambda>r a. rbind (getitem r ''address'') (\<lambda>a. Inr (lower a)) = Inr a) rs as"
    using assms(1) by (simp add: addresses_of_def map_r_eq_Inr)
  ultimately show ?thesis by (auto simp: list_all2_conv_all_nth rbind_eq_Inr getitem_get_or)
qed

text \<open>
  C37. The reported block is where the account appears. Let the node answer truthfully and let every account that the state
  comparison calls created be absent at the old block and present at the new one. Then the program's rows have one row per
  account, ordered by address; the reported block is after the old and not after the new block, the account exists there
  and does not exist one block earlier. If accounts that exist stay, it is the first block with the account at all. Every
  row has exactly one kind of evidence.
\<close>

theorem created_block_found:
  assumes "answers_truthfully batch present" and "old_block < new_block"
    and "created_rows rs = Inr created" and "addresses_of created = Inr as" and "\<forall>a \<in> set as. \<not> present a old_block \<and> present a new_block"
    and "verify_created batch call old_block new_block rs = Inr rep"
  shows "sorted_wrt (<) (map (\<lambda>w. lower (cr_address w)) (cp_rows rep))
    \<and> set (map (\<lambda>w. lower (cr_address w)) (cp_rows rep)) = set as
    \<and> (\<forall>w \<in> set (cp_rows rep). let a = lower (cr_address w); b = cr_block w in
        old_block < b \<and> b \<le> new_block \<and> present a b \<and> \<not> present a (b - 1)
        \<and> ((\<forall>c c'. c \<le> c' \<and> present a c \<longrightarrow> present a c') \<longrightarrow> (\<forall>c < b. \<not> present a c)))
    \<and> cp_trace_matches rep + cp_block_matches rep + cp_protocol_only rep = int (length (cp_rows rep))"
proof -
  define start where "start = start_bounds old_block new_block as"
  have keys: "map fst start = first_keys [] as" by (simp add: start_def start_bounds_def comp_def)
  have "\<forall>e \<in> set start. brackets present (old_block + 1) new_block e"
    using assms(2,5) by (auto simp: start_def start_bounds_def brackets_def first_keys_set)
  then obtain d where d: "bisect batch start = Inr d" "map fst d = map fst start"
    and br: "\<forall>e \<in> set d. brackets present (old_block + 1) new_block e \<and> \<not> is_open e"
    using bisect_truth [OF assms(1)] by blast
  obtain ws where ws: "map_r (created_output call (map_of (rev (zip as created)))) (sort_key fst d) = Inr ws"
    and rep: "cp_rows rep = ws" "cp_trace_matches rep = evidence_count ''trace'' ws"
      "cp_block_matches rep = evidence_count ''block_transaction'' ws"
      "cp_protocol_only rep = evidence_count ''protocol_state_transition'' ws"
    using assms(6) d(1) unfolding verify_created_def assms(3,4) rbind_Inr start_def
    by (auto simp: rbind_eq_Inr assms(4) split: if_split_asm)
  have row: "lower (cr_address w) = fst e \<and> cr_block w = fst (snd e)
      \<and> cr_evidence w \<in> {''trace'', ''block_transaction'', ''protocol_state_transition''}"
    if out: "created_output call (map_of (rev (zip as created))) e = Inr w" for e w
  proof -
    obtain found r where f: "find_evidence call (fst e) (fst (snd e)) = Inr found"
      and r: "getitem (map_of (rev (zip as created))) (fst e) = Inr r"
      and w: "getitem r ''address'' = Inr (cr_address w)" "cr_block w = fst (snd e)" "cr_evidence w = snd found"
      using out unfolding created_output_def by (elim rbind_E) auto
    have "lower (get_or r ''address'' []) = fst e"
      using addresses_of_zip [OF assms(4), of "fst e" r] r by (simp add: getitem_eq_Inr)
    then show ?thesis using w find_evidence_kind [OF f] by (simp add: getitem_get_or)
  qed
  have all: "list_all2 (\<lambda>e w. created_output call (map_of (rev (zip as created))) e = Inr w) (sort_key fst d) ws"
    using ws by (simp add: map_r_eq_Inr)
  have addr: "map (\<lambda>w. lower (cr_address w)) ws = map fst (sort_key fst d)"
    by (rule list_all2_map_eq [OF all]) (use row in blast)
  have "distinct (map fst (sort_key fst d))"
    using d(2) keys first_keys_distinct [of "[]" as] by (metis distinct_map mset_eq_imp_distinct_iff mset_map mset_sort)
  then have sorted: "sorted_wrt (<) (map (\<lambda>w. lower (cr_address w)) ws)"
    unfolding addr by (simp add: strict_sorted_iff)
  have "set (map fst (sort_key fst d)) = set (map fst d)" by simp
  then have set: "set (map (\<lambda>w. lower (cr_address w)) ws) = set as"
    unfolding addr d(2) keys by (simp add: first_keys_set)
  have found: "let a = lower (cr_address w); b = cr_block w in
        old_block < b \<and> b \<le> new_block \<and> present a b \<and> \<not> present a (b - 1)
        \<and> ((\<forall>c c'. c \<le> c' \<and> present a c \<longrightarrow> present a c') \<longrightarrow> (\<forall>c < b. \<not> present a c))"
    if w_in: "w \<in> set ws" for w
  proof -
    obtain e where e: "e \<in> set d" "lower (cr_address w) = fst e" "cr_block w = fst (snd e)"
      using list_all2_right [OF all w_in] row by auto
    then have b: "brackets present (old_block + 1) new_block e" "\<not> is_open e" using br by blast+
    obtain a low high where "e = (a, low, high)" by (cases e)
    with b e(2,3) have x: "old_block < cr_block w" "cr_block w \<le> new_block" "present (lower (cr_address w)) (cr_block w)"
      "cr_block w = old_block + 1 \<or> \<not> present (lower (cr_address w)) (cr_block w - 1)"
      by (auto simp: brackets_def is_open_def)
    have "lower (cr_address w) \<in> set (map (\<lambda>w. lower (cr_address w)) ws)" using w_in by simp
    then have "\<not> present (lower (cr_address w)) old_block" using assms(5) unfolding set by blast
    then have before: "\<not> present (lower (cr_address w)) (cr_block w - 1)" using x(4) by auto
    have "\<not> present (lower (cr_address w)) c"
      if stays: "\<forall>c c'. c \<le> c' \<and> present (lower (cr_address w)) c \<longrightarrow> present (lower (cr_address w)) c'"
        and c: "c < cr_block w" for c
    proof -
      have "c \<le> cr_block w - 1" using c by simp
      then show ?thesis using before stays by blast
    qed
    then show ?thesis using x(1-3) before unfolding Let_def by blast
  qed
  have kinds: "\<forall>w \<in> set ws. cr_evidence w \<in> {''trace'', ''block_transaction'', ''protocol_state_transition''}"
    using list_all2_right [OF all] row by blast
  then have "evidence_count ''trace'' ws + evidence_count ''block_transaction'' ws + evidence_count ''protocol_state_transition'' ws
      = int (length ws)"
    by (induction ws) (auto simp: evidence_count_def)
  then show ?thesis using sorted set found by (simp add: rep)
qed

text \<open>An account with a balance from block 7 on, seen through the hexadecimal block tags.\<close>

definition example_answer :: "string \<times> json list \<Rightarrow> json" where
  "example_answer c = (case c of
     (name, [_, JStr tag]) \<Rightarrow> if name = ''eth_getBalance'' \<and> tag \<in> set [''0x7'', ''0x8'', ''0x9'', ''0xa''] then JStr ''0x1'' else JStr ''0x0''
   | _ \<Rightarrow> JNull)"

definition example_present :: "string \<Rightarrow> int \<Rightarrow> bool" where
  "example_present a block \<longleftrightarrow> hex_int block \<in> set [''0x7'', ''0x8'', ''0x9'', ''0xa'']"

definition example_batch :: batch where
  "example_batch calls = Inr (map example_answer calls)"

theorem bisect_rounds_witness:
  "bisect_within 3 example_batch [(''0xa1'', 4, 10)] = Some (bisect example_batch [(''0xa1'', 4, 10)])"
  by (rule bisect_rounds) simp

definition example_call :: call where
  "example_call name params = Inr (JList [JDict [(''transactionHash'', JStr ''0xfeed''),
     (''action'', JDict [(''to'', JStr ''0x00000000000000000000000000000000000000A1'')])]])"

definition example_created :: row where
  "example_created = [''change_type'' \<mapsto> ''created'', ''address'' \<mapsto> ''0x00000000000000000000000000000000000000a1'',
     ''secure_key'' \<mapsto> ''k'', ''new_balance_atto'' \<mapsto> ''1'', ''new_nonce'' \<mapsto> ''0'', ''new_code_hash'' \<mapsto> []]"

lemma example_truthful: "answers_truthfully example_batch example_present"
proof -
  have zero: "py_int16 ''0x0'' = Inr 0" and one: "py_int16 ''0x1'' = Inr 1" by code_simp+
  show ?thesis unfolding answers_truthfully_def
    by (rule exI [of _ example_answer])
       (simp add: example_batch_def example_answer_def example_present_def exists_at_def int16_of_def zero one Let_def)
qed

lemma example_verified: "\<exists>rep. verify_created example_batch example_call 3 10 [example_created] = Inr rep"
proof -
  have "is_ok (verify_created example_batch example_call 3 10 [example_created])" by code_simp
  then show ?thesis by (simp only: is_ok_iff)
qed

theorem created_block_found_witness:
  "\<exists>rep. verify_created example_batch example_call 3 10 [example_created] = Inr rep
     \<and> cp_trace_matches rep + cp_block_matches rep + cp_protocol_only rep = int (length (cp_rows rep))
     \<and> set (map (\<lambda>w. lower (cr_address w)) (cp_rows rep)) = {''0x00000000000000000000000000000000000000a1''}"
proof -
  obtain rep where rep: "verify_created example_batch example_call 3 10 [example_created] = Inr rep"
    using example_verified by blast
  have created: "created_rows [example_created] = Inr [example_created]"
    by (simp add: created_rows_def example_created_def getitem_def)
  have low: "lower ''0x00000000000000000000000000000000000000a1'' = ''0x00000000000000000000000000000000000000a1''"
    by code_simp
  have as: "addresses_of [example_created] = Inr [''0x00000000000000000000000000000000000000a1'']"
    by (simp add: addresses_of_def example_created_def getitem_def low)
  have "\<not> example_present ''0x00000000000000000000000000000000000000a1'' 3
      \<and> example_present ''0x00000000000000000000000000000000000000a1'' 10" by code_simp
  then show ?thesis using created_block_found [OF example_truthful _ created as _ rep] rep by auto
qed

end
