(* ===== verification/StateDiff.thy ===== *)
theory StateDiff
  imports Rpc Cells
begin

section \<open>State difference against the node: \<open>verify-state-diff-rpc.py\<close>\<close>

text \<open>
  Every row of a state comparison names an account with its balance and nonce at two blocks. The script asks the
  node for these four numbers, a batch of accounts at a time, compares them with the row and adds up the gains and losses.
  \<open>batch\<close> is the node as \<open>rpc_complete_batch\<close> presents it.
\<close>

subsection \<open>The code\<close>

definition diff_calls_of :: "string \<Rightarrow> string \<Rightarrow> row \<Rightarrow> (string \<times> json list) list result" where
  "diff_calls_of old_tag new_tag r =
     rbind (getitem r ''address'') (\<lambda>a.
       if a = [] then Inl (ValueError ''missing address'')
       else Inr [(''eth_getBalance'', [JStr a, JStr old_tag]), (''eth_getBalance'', [JStr a, JStr new_tag]),
                 (''eth_getTransactionCount'', [JStr a, JStr old_tag]), (''eth_getTransactionCount'', [JStr a, JStr new_tag])])"

definition diff_calls :: "string \<Rightarrow> string \<Rightarrow> row list \<Rightarrow> (string \<times> json list) list result" where
  "diff_calls old_tag new_tag rs = rbind (map_r (diff_calls_of old_tag new_tag) rs) (\<lambda>cs. Inr (concat cs))"

record diff_state =
  df_counts :: "(string, int) dict"
  df_positive :: int
  df_negative :: int

definition no_diff :: diff_state where
  "no_diff = \<lparr>df_counts = [(''created'', 0), (''changed'', 0), (''deleted'', 0)], df_positive = 0, df_negative = 0\<rparr>"

definition value_at :: "json list \<Rightarrow> nat \<Rightarrow> int result" where
  "value_at values i = rbind (list_get values i) int16_of"

definition expect_cell :: "int \<Rightarrow> row \<Rightarrow> string \<Rightarrow> string \<Rightarrow> unit result" where
  "expect_cell n r field message = rbind (int_cell r field) (\<lambda>m. raise_if (n \<noteq> m) (ValueError message))"

text \<open>\<open>counts[t] += 1\<close> on a plain dictionary.\<close>

definition count_existing :: "(string, int) dict \<Rightarrow> string \<Rightarrow> (string, int) dict result" where
  "count_existing d t = rbind (getitem (map_of d) t) (\<lambda>n. Inr (AList.update t (n + 1) d))"

definition check_diff :: "json list \<Rightarrow> diff_state \<Rightarrow> nat \<times> row \<Rightarrow> diff_state result" where
  "check_diff values s ir =
     (let i = fst ir; r = snd ir in
      rbind (value_at values (i * 4)) (\<lambda>old_balance.
      rbind (value_at values (i * 4 + 1)) (\<lambda>new_balance.
      rbind (value_at values (i * 4 + 2)) (\<lambda>old_nonce.
      rbind (value_at values (i * 4 + 3)) (\<lambda>new_nonce.
      rbind (expect_cell old_balance r ''old_balance_atto'' ''old balance mismatch'') (\<lambda>_.
      rbind (expect_cell new_balance r ''new_balance_atto'' ''new balance mismatch'') (\<lambda>_.
      rbind (expect_cell old_nonce r ''old_nonce'' ''old nonce mismatch'') (\<lambda>_.
      rbind (expect_cell new_nonce r ''new_nonce'' ''new nonce mismatch'') (\<lambda>_.
      let delta = new_balance - old_balance in
      rbind (expect_cell delta r ''balance_delta_atto'' ''delta mismatch'') (\<lambda>_.
      rbind (getitem r ''change_type'') (\<lambda>t.
      rbind (count_existing (df_counts s) t) (\<lambda>counts.
        Inr \<lparr>df_counts = counts,
             df_positive = (if delta > 0 then df_positive s + delta else df_positive s),
             df_negative = (if delta > 0 then df_negative s else if delta < 0 then df_negative s - delta else df_negative s)\<rparr>))))))))))))"

definition check_diff_batch :: "batch \<Rightarrow> string \<Rightarrow> string \<Rightarrow> diff_state \<Rightarrow> row list \<Rightarrow> diff_state result" where
  "check_diff_batch batch old_tag new_tag s rs =
     rbind (diff_calls old_tag new_tag rs) (\<lambda>calls.
     rbind (batch calls) (\<lambda>values. fold_r (check_diff values) s (enumerate 0 rs)))"

text \<open>\<open>rows[start:start + size]\<close> for \<open>start\<close> in \<open>range(0, len(rows), size)\<close>: none for a negative size.\<close>

fun slices :: "nat \<Rightarrow> 'a list \<Rightarrow> 'a list list" where
  "slices n [] = []"
| "slices n (x # xs) = take (Suc n) (x # xs) # slices n (drop n xs)"

definition batches :: "int \<Rightarrow> 'a list \<Rightarrow> 'a list list result" where
  "batches k xs =
     (if k = 0 then Inl (ValueError ''range() arg 3 must not be zero'')
      else if k < 0 then Inr [] else Inr (slices (nat (k - 1)) xs))"

definition verify_state_diff :: "batch \<Rightarrow> int \<Rightarrow> int \<Rightarrow> int \<Rightarrow> row list \<Rightarrow> diff_state result" where
  "verify_state_diff batch old_block new_block batch_size rs =
     rbind (batches batch_size rs) (\<lambda>bs.
       fold_r (check_diff_batch batch (hex_int old_block) (hex_int new_block)) no_diff bs)"

subsection \<open>What it establishes\<close>

lemma concat_slices: "concat (slices n xs) = xs"
  by (induction n xs rule: slices.induct) simp_all

lemma expect_cell_Inr: "expect_cell n r field message = Inr u \<longleftrightarrow> int_cell r field = Inr n"
  by (auto simp: expect_cell_def rbind_eq_Inr)

lemma count_existing_total: "count_existing d t = Inr d' \<Longrightarrow> distinct (keys d) \<Longrightarrow>
    total_of (\<lambda>n. n) d' = total_of (\<lambda>n. n) d + 1 \<and> distinct (keys d')"
  by (auto simp: count_existing_def rbind_eq_Inr getitem_eq_Inr total_of_update simp del: set_map intro: distinct_update)

lemma check_diff_Inr:
  assumes "check_diff values s (i, r) = Inr s'"
  shows "value_at values (i * 4) = Inr (cell_int r ''old_balance_atto'')"
    and "value_at values (i * 4 + 1) = Inr (cell_int r ''new_balance_atto'')"
    and "value_at values (i * 4 + 2) = Inr (cell_int r ''old_nonce'')"
    and "value_at values (i * 4 + 3) = Inr (cell_int r ''new_nonce'')"
    and "df_positive s' - df_negative s' = df_positive s - df_negative s
      + (cell_int r ''new_balance_atto'' - cell_int r ''old_balance_atto'')"
    and "cell_int r ''balance_delta_atto'' = cell_int r ''new_balance_atto'' - cell_int r ''old_balance_atto''"
    and "count_existing (df_counts s) (get_or r ''change_type'' []) = Inr (df_counts s')"
proof -
  from assms obtain ob nb on nn t counts
    where v: "value_at values (i * 4) = Inr ob" "value_at values (i * 4 + 1) = Inr nb" "value_at values (i * 4 + 2) = Inr on"
        "value_at values (i * 4 + 3) = Inr nn"
      and c: "int_cell r ''old_balance_atto'' = Inr ob" "int_cell r ''new_balance_atto'' = Inr nb"
        "int_cell r ''old_nonce'' = Inr on" "int_cell r ''new_nonce'' = Inr nn" "int_cell r ''balance_delta_atto'' = Inr (nb - ob)"
      and t: "getitem r ''change_type'' = Inr t" "count_existing (df_counts s) t = Inr counts"
      and s': "s' = \<lparr>df_counts = counts,
             df_positive = (if nb - ob > 0 then df_positive s + (nb - ob) else df_positive s),
             df_negative = (if nb - ob > 0 then df_negative s else if nb - ob < 0 then df_negative s - (nb - ob) else df_negative s)\<rparr>"
    unfolding check_diff_def Let_def fst_conv snd_conv by (elim rbind_E) (simp add: expect_cell_Inr)
  note cells = c [THEN int_cell_Inr]
  show "value_at values (i * 4) = Inr (cell_int r ''old_balance_atto'')"
    "value_at values (i * 4 + 1) = Inr (cell_int r ''new_balance_atto'')"
    "value_at values (i * 4 + 2) = Inr (cell_int r ''old_nonce'')" "value_at values (i * 4 + 3) = Inr (cell_int r ''new_nonce'')"
    "cell_int r ''balance_delta_atto'' = cell_int r ''new_balance_atto'' - cell_int r ''old_balance_atto''"
    using v cells by simp_all
  show "df_positive s' - df_negative s' = df_positive s - df_negative s
      + (cell_int r ''new_balance_atto'' - cell_int r ''old_balance_atto'')"
    using cells by (simp add: s')
  show "count_existing (df_counts s) (get_or r ''change_type'' []) = Inr (df_counts s')"
    using t by (simp add: s' getitem_get_or)
qed

definition gain :: "row \<Rightarrow> int" where
  "gain r = cell_int r ''new_balance_atto'' - cell_int r ''old_balance_atto''"

interpretation diff_rows: conserving_loop "check_diff vs" "\<lambda>s. df_positive s - df_negative s" "\<lambda>ir. gain (snd ir)" for vs
  by unfold_locales (auto simp: gain_def dest: check_diff_Inr(5))

lemma sum_enumerate: "sum_list (map (\<lambda>ir. f (snd ir)) (enumerate n xs)) = sum_list (map f xs)"
  by (metis (mono_tags, lifting) comp_def map_eq_conv map_map map_snd_enumerate)

interpretation diff_batches: conserving_loop "check_diff_batch batch old_tag new_tag" "\<lambda>s. df_positive s - df_negative s"
  "\<lambda>rs. sum_list (map gain rs)" for batch old_tag new_tag
proof unfold_locales
  fix s rs s'
  assume "check_diff_batch batch old_tag new_tag s rs = Inr s'"
  then obtain calls vs where "fold_r (check_diff vs) s (enumerate 0 rs) = Inr s'"
    unfolding check_diff_batch_def by (elim rbind_E)
  from diff_rows.run_total [OF this]
  show "df_positive s' - df_negative s' = df_positive s - df_negative s + sum_list (map gain rs)"
    by (simp only: sum_enumerate)
qed

definition counts_ok :: "diff_state \<Rightarrow> bool" where
  "counts_ok s \<longleftrightarrow> distinct (keys (df_counts s))"

lemma check_diff_counts: "check_diff vs s ir = Inr s' \<Longrightarrow> counts_ok s \<Longrightarrow>
    counts_ok s' \<and> total_of (\<lambda>n. n) (df_counts s') = total_of (\<lambda>n. n) (df_counts s) + 1"
  using check_diff_Inr(7) [of vs s "fst ir" "snd ir" s'] count_existing_total by (auto simp: counts_ok_def)

lemma check_diff_rows_counts: "fold_r (check_diff vs) s irs = Inr s' \<Longrightarrow> counts_ok s \<Longrightarrow>
    counts_ok s' \<and> total_of (\<lambda>n. n) (df_counts s') = total_of (\<lambda>n. n) (df_counts s) + int (length irs)"
proof (induction irs arbitrary: s)
  case (Cons ir irs)
  then obtain t where "check_diff vs s ir = Inr t" "fold_r (check_diff vs) t irs = Inr s'" by (auto simp: rbind_eq_Inr)
  then show ?case using check_diff_counts [of vs s ir t] Cons.IH [of t] Cons.prems(2) by auto
qed simp

lemma check_batches_counts: "fold_r (check_diff_batch batch old_tag new_tag) s bs = Inr s' \<Longrightarrow> counts_ok s \<Longrightarrow>
    total_of (\<lambda>n. n) (df_counts s') = total_of (\<lambda>n. n) (df_counts s) + int (length (concat bs))"
proof (induction bs arbitrary: s)
  case (Cons rs bs)
  then obtain t where t: "check_diff_batch batch old_tag new_tag s rs = Inr t"
    and rest: "fold_r (check_diff_batch batch old_tag new_tag) t bs = Inr s'" by (auto simp: rbind_eq_Inr)
  then obtain vs where "fold_r (check_diff vs) s (enumerate 0 rs) = Inr t" unfolding check_diff_batch_def by (elim rbind_E)
  from check_diff_rows_counts [OF this Cons.prems(2)] Cons.IH [OF rest] show ?case by simp
qed simp

text \<open>Four calls per row, in the order of the rows.\<close>

lemma diff_calls_nth:
  "diff_calls old_tag new_tag rs = Inr calls \<Longrightarrow> i < length rs \<Longrightarrow>
     let a = get_or (rs ! i) ''address'' [] in length calls = 4 * length rs
     \<and> calls ! (i * 4) = (''eth_getBalance'', [JStr a, JStr old_tag])
     \<and> calls ! (i * 4 + 1) = (''eth_getBalance'', [JStr a, JStr new_tag])
     \<and> calls ! (i * 4 + 2) = (''eth_getTransactionCount'', [JStr a, JStr old_tag])
     \<and> calls ! (i * 4 + 3) = (''eth_getTransactionCount'', [JStr a, JStr new_tag])"
proof (induction rs arbitrary: calls i)
  case (Cons r rs)
  then obtain a cs where a: "getitem r ''address'' = Inr a" and rest: "diff_calls old_tag new_tag rs = Inr cs"
    and calls: "calls = [(''eth_getBalance'', [JStr a, JStr old_tag]), (''eth_getBalance'', [JStr a, JStr new_tag]),
      (''eth_getTransactionCount'', [JStr a, JStr old_tag]), (''eth_getTransactionCount'', [JStr a, JStr new_tag])] @ cs"
    by (auto simp: diff_calls_def diff_calls_of_def rbind_eq_Inr split: if_split_asm)
  have len: "diff_calls old_tag new_tag rs = Inr cs \<Longrightarrow> length cs = 4 * length rs" for rs cs
    by (induction rs arbitrary: cs) (auto simp: diff_calls_def diff_calls_of_def rbind_eq_Inr split: if_split_asm)
  have shift: "calls ! (m + 4) = cs ! m" for m unfolding calls by (simp add: nth_append)
  show ?case
  proof (cases i)
    case 0
    then show ?thesis using a len [OF rest] by (simp add: calls getitem_get_or)
  next
    case (Suc j)
    then have j: "j < length rs" using Cons.prems(2) by simp
    have idx: "i * 4 = j * 4 + 4" "i * 4 + 1 = (j * 4 + 1) + 4" "i * 4 + 2 = (j * 4 + 2) + 4" "i * 4 + 3 = (j * 4 + 3) + 4"
      using Suc by simp_all
    have "calls ! (i * 4) = cs ! (j * 4)" "calls ! (i * 4 + 1) = cs ! (j * 4 + 1)"
      "calls ! (i * 4 + 2) = cs ! (j * 4 + 2)" "calls ! (i * 4 + 3) = cs ! (j * 4 + 3)"
      by (simp only: idx(1) shift, simp only: idx(2) shift, simp only: idx(3) shift, simp only: idx(4) shift)
    then show ?thesis using Cons.IH [OF rest j] len [OF rest] Suc by (simp add: calls Let_def)
  qed
qed simp

definition node_agrees :: "(string \<times> json list \<Rightarrow> json) \<Rightarrow> string \<Rightarrow> string \<Rightarrow> row \<Rightarrow> bool" where
  "node_agrees answer old_tag new_tag r \<longleftrightarrow> (let a = JStr (get_or r ''address'' []) in
     int16_of (answer (''eth_getBalance'', [a, JStr old_tag])) = Inr (cell_int r ''old_balance_atto'')
     \<and> int16_of (answer (''eth_getBalance'', [a, JStr new_tag])) = Inr (cell_int r ''new_balance_atto'')
     \<and> int16_of (answer (''eth_getTransactionCount'', [a, JStr old_tag])) = Inr (cell_int r ''old_nonce'')
     \<and> int16_of (answer (''eth_getTransactionCount'', [a, JStr new_tag])) = Inr (cell_int r ''new_nonce'')
     \<and> cell_int r ''balance_delta_atto'' = gain r)"

lemma fold_r_visits: "fold_r f s xs = Inr s' \<Longrightarrow> x \<in> set xs \<Longrightarrow> \<exists>t t'. f t x = Inr t'"
  by (induction xs arbitrary: s) (auto simp: rbind_eq_Inr)

lemma batch_agrees:
  assumes "\<forall>calls. batch calls = Inr (map answer calls)" and "check_diff_batch batch old_tag new_tag s rs = Inr s'"
    and "r \<in> set rs"
  shows "node_agrees answer old_tag new_tag r"
proof -
  obtain calls where calls: "diff_calls old_tag new_tag rs = Inr calls"
    and run: "fold_r (check_diff (map answer calls)) s (enumerate 0 rs) = Inr s'"
    using assms(1,2) by (auto simp: check_diff_batch_def rbind_eq_Inr)
  obtain i where i: "i < length rs" "rs ! i = r" using assms(3) by (auto simp: in_set_conv_nth)
  then have "(i, r) \<in> set (enumerate 0 rs)" by (auto simp: in_set_enumerate_eq)
  then obtain t t' where t: "check_diff (map answer calls) t (i, r) = Inr t'" using fold_r_visits [OF run] by blast
  have len: "length calls = 4 * length rs"
    and c: "calls ! (i * 4) = (''eth_getBalance'', [JStr (get_or r ''address'' []), JStr old_tag])"
      "calls ! (i * 4 + 1) = (''eth_getBalance'', [JStr (get_or r ''address'' []), JStr new_tag])"
      "calls ! (i * 4 + 2) = (''eth_getTransactionCount'', [JStr (get_or r ''address'' []), JStr old_tag])"
      "calls ! (i * 4 + 3) = (''eth_getTransactionCount'', [JStr (get_or r ''address'' []), JStr new_tag])"
    using diff_calls_nth [OF calls i(1)] by (simp_all add: i(2) Let_def)
  have read: "value_at (map answer calls) m = int16_of (answer (calls ! m))" if "m < 4 * length rs" for m
    using that len by (simp add: value_at_def list_get_def)
  have m: "i * 4 < 4 * length rs" "i * 4 + 1 < 4 * length rs" "i * 4 + 2 < 4 * length rs" "i * 4 + 3 < 4 * length rs"
    using i(1) by simp_all
  show ?thesis using check_diff_Inr(1-4,6) [OF t] unfolding read [OF m(1)] read [OF m(2)] read [OF m(3)] read [OF m(4)] c
    by (simp add: node_agrees_def Let_def gain_def)
qed

text \<open>
  A verified state difference is the node's. With a positive batch size and a node that answers call by
  call, every row has the balances and nonces the node reports at the two blocks and its recorded change is their
  difference; the net change is the sum of the changes, and every row is counted under one kind of change. The batch size
  makes no difference to this.
\<close>

theorem state_diff_verified:
  assumes "\<forall>calls. batch calls = Inr (map answer calls)" and "0 < batch_size"
    and "verify_state_diff batch old_block new_block batch_size rs = Inr s"
  shows "(\<forall>r \<in> set rs. node_agrees answer (hex_int old_block) (hex_int new_block) r)
    \<and> df_positive s - df_negative s = sum_list (map (\<lambda>r. cell_int r ''balance_delta_atto'') rs)
    \<and> total_of (\<lambda>n. n) (df_counts s) = int (length rs)"
proof -
  define bs where "bs = slices (nat (batch_size - 1)) rs"
  have run: "fold_r (check_diff_batch batch (hex_int old_block) (hex_int new_block)) no_diff bs = Inr s"
    using assms(2,3) by (simp add: verify_state_diff_def batches_def bs_def)
  have rows: "concat bs = rs" unfolding bs_def by (rule concat_slices)
  have agree: "\<forall>r \<in> set rs. node_agrees answer (hex_int old_block) (hex_int new_block) r"
  proof
    fix r assume "r \<in> set rs"
    then obtain b where "b \<in> set bs" "r \<in> set b" unfolding rows [symmetric] by auto
    then show "node_agrees answer (hex_int old_block) (hex_int new_block) r"
      using fold_r_visits [OF run] batch_agrees [OF assms(1)] by blast
  qed
  have "sum_list (map (\<lambda>rs. sum_list (map gain rs)) bs) = sum_list (map gain (concat bs))"
    by (induction bs) simp_all
  then have "df_positive s - df_negative s = sum_list (map gain rs)"
    using diff_batches.run_total [OF run] by (simp add: no_diff_def rows)
  moreover have "map gain rs = map (\<lambda>r. cell_int r ''balance_delta_atto'') rs"
    using agree by (intro map_cong) (simp_all add: node_agrees_def Let_def)
  moreover have "total_of (\<lambda>n. n) (df_counts s) = int (length rs)"
    using check_batches_counts [OF run] by (simp add: counts_ok_def no_diff_def total_of_def rows del: length_concat)
  ultimately show ?thesis using agree by simp
qed

text \<open>
  C39. A negative batch size verifies nothing. Python's \<open>range\<close> is then empty, so the script passes every file of
  rows without asking the node, with all totals zero.
\<close>

theorem negative_batch_size_passes:
  assumes "batch_size < 0"
  shows "verify_state_diff batch old_block new_block batch_size rs = Inr no_diff"
  using assms by (simp add: verify_state_diff_def batches_def)

text \<open>One account that gains 5.\<close>

definition example_diff_answer :: "string \<times> json list \<Rightarrow> json" where
  "example_diff_answer c = (if c = (''eth_getBalance'', [JStr ''0xa1'', JStr ''0x5'']) then JStr ''0xf'' else JStr ''0xa'')"

definition example_diff_row :: row where
  "example_diff_row = [''address'' \<mapsto> ''0xa1'', ''old_balance_atto'' \<mapsto> ''10'', ''new_balance_atto'' \<mapsto> ''15'', ''old_nonce'' \<mapsto> ''10'',
     ''new_nonce'' \<mapsto> ''10'', ''balance_delta_atto'' \<mapsto> ''5'', ''change_type'' \<mapsto> ''changed'']"

theorem state_diff_verified_witness:
  "\<exists>s. verify_state_diff (\<lambda>calls. Inr (map example_diff_answer calls)) 4 5 100 [example_diff_row] = Inr s
     \<and> df_positive s - df_negative s = 5"
proof -
  have "is_ok (verify_state_diff (\<lambda>calls. Inr (map example_diff_answer calls)) 4 5 100 [example_diff_row])" by code_simp
  then obtain s where s: "verify_state_diff (\<lambda>calls. Inr (map example_diff_answer calls)) 4 5 100 [example_diff_row] = Inr s"
    by (auto simp: is_ok_iff)
  have "cell_int example_diff_row ''balance_delta_atto'' = 5" by code_simp
  then show ?thesis using state_diff_verified [OF _ _ s] s by auto
qed

theorem negative_batch_size_passes_witness:
  "verify_state_diff (\<lambda>calls. Inl (RuntimeError ''down'')) 4 5 (- 1) [example_diff_row] = Inr no_diff"
  by (rule negative_batch_size_passes) simp

end
