(* ===== verification/PendingCutoff.thy ===== *)
theory PendingCutoff
  imports Rpc Ledger
begin

section \<open>Pending receipts at the cutoff: \<open>verify-pending-receipts.py\<close>\<close>

text \<open>
  A report of pending cross-shard receipts is carried over to a later cutoff. No new cross-shard transaction may lie in
  the interval, and every pending receipt is looked up on the destination shard: it must not have
  been consumed by the cutoff. The report is copied with the cutoff and the lookups added; the ledger of
  \<open>actual-supply-ledger.py\<close> then loads the copy. \<open>call\<close> is the node as \<open>rpc\<close> presents it, with five attempts.
\<close>

subsection \<open>The code\<close>

definition int_or_int16 :: "json \<Rightarrow> int result" where
  "int_or_int16 v = (case v of JStr s \<Rightarrow> py_int16 s | _ \<Rightarrow> int_of v)"

definition has_number :: "json \<Rightarrow> string \<Rightarrow> bool" where
  "has_number v name = (case v of JDict kvs \<Rightarrow> (case map_of kvs name of None \<Rightarrow> False | Some w \<Rightarrow> w \<noteq> JNull) | _ \<Rightarrow> False)"

definition block_number :: "json \<Rightarrow> int result" where
  "block_number receipt = (case find (has_number receipt) [''blockNumber'', ''block_number''] of
     None \<Rightarrow> Inl (ValueError ''CX receipt has no block number'')
   | Some name \<Rightarrow> rbind (subscript receipt name) int_or_int16)"

record checked_receipt =
  ck_hash :: json
  ck_result :: string
  ck_block :: "int option"

definition check_receipt :: "call \<Rightarrow> int \<Rightarrow> json \<Rightarrow> checked_receipt result" where
  "check_receipt call cutoff receipt =
     rbind (subscript receipt ''transaction_hash'') (\<lambda>tx_hash.
     rbind (call ''hmyv2_getCXReceiptByHash'' [tx_hash]) (\<lambda>consumed.
     rbind (if truthy consumed then rbind (block_number consumed) (\<lambda>b. Inr (Some b)) else Inr None) (\<lambda>consumed_block.
       if (case consumed_block of None \<Rightarrow> False | Some b \<Rightarrow> b \<le> cutoff)
       then Inl (ValueError ''previously pending receipt was consumed'')
       else Inr \<lparr>ck_hash = tx_hash, ck_result = (if consumed = JNull then ''not_found'' else ''consumed_after_cutoff''),
                 ck_block = consumed_block\<rparr>)))"

text \<open>\<open>value.get(key) or []\<close>, iterated over.\<close>

definition members :: "json \<Rightarrow> string \<Rightarrow> json list result" where
  "members v key = rbind (get_default v key JNull) (\<lambda>x. iter (or_else x (JList [])))"

definition check_pending_group :: "call \<Rightarrow> int \<Rightarrow> checked_receipt list \<Rightarrow> json \<Rightarrow> checked_receipt list result" where
  "check_pending_group call cutoff checked g =
     rbind (members g ''receipts'') (fold_r (\<lambda>cs r. rbind (check_receipt call cutoff r) (\<lambda>c. Inr (cs @ [c]))) checked)"

definition check_pending_direction :: "call \<Rightarrow> int \<Rightarrow> checked_receipt list \<Rightarrow> json \<Rightarrow> checked_receipt list result" where
  "check_pending_direction call cutoff checked direction =
     rbind (members direction ''pending_groups'') (fold_r (check_pending_group call cutoff) checked)"

definition check_interval :: "json \<Rightarrow> int \<Rightarrow> unit result" where
  "check_interval interval cutoff =
     rbind (subscript interval ''start'') (\<lambda>start.
     rbind (raise_if (\<not> py_eq start (JInt 93529888)) (ValueError ''unexpected shard-0 interval'')) (\<lambda>_.
     rbind (subscript interval ''end'') (\<lambda>stop.
     rbind (raise_if (\<not> py_eq stop (JInt cutoff)) (ValueError ''unexpected shard-0 interval'')) (\<lambda>_.
     rbind (subscript interval ''cross_shard_transactions'') (\<lambda>n.
       raise_if (\<not> py_eq n (JInt 0)) (ValueError ''new cross-shard source transactions require full reclassification''))))))"

definition checked_json :: "checked_receipt \<Rightarrow> json" where
  "checked_json c = JDict [(''transaction_hash'', ck_hash c), (''result'', JStr (ck_result c)),
     (''consumed_block'', case ck_block c of None \<Rightarrow> JNull | Some b \<Rightarrow> JInt b)]"

definition set_item :: "json \<Rightarrow> string \<Rightarrow> json \<Rightarrow> json result" where
  "set_item v k w = (case v of JDict kvs \<Rightarrow> Inr (JDict (AList.update k w kvs)) | _ \<Rightarrow> Inl (TypeError ''item assignment''))"

definition verify_pending ::
  "call \<Rightarrow> json \<Rightarrow> int \<Rightarrow> int \<Rightarrow> string \<Rightarrow> string \<Rightarrow> json \<Rightarrow> (json \<times> checked_receipt list) result" where
  "verify_pending call interval cutoff0 cutoff1 report_digest interval_digest original =
     rbind (check_interval interval cutoff0) (\<lambda>_.
     rbind (rbind (subscript original ''directions'') iter) (\<lambda>directions.
     rbind (fold_r (check_pending_direction call cutoff0) [] directions) (\<lambda>checked.
     rbind (set_item original ''cutoff'' (JDict [(''shard0_block'', JInt cutoff0), (''shard1_block'', JInt cutoff1)])) (\<lambda>copy.
     rbind (set_item copy ''cutoff_verification'' (JDict [
         (''method'', JStr ''canonical interval plus destination CX lookup''),
         (''source_report_sha256'', JStr report_digest), (''shard0_interval_summary_sha256'', JStr interval_digest),
         (''new_cross_shard_transactions'', JInt 0), (''pending_receipts_checked'', JInt (int (length checked))),
         (''pending_receipt_results'', JList (map checked_json checked))])) (\<lambda>result.
       Inr (result, checked))))))"

text \<open>The script's own \<open>rpc\<close> has five attempts.\<close>

definition pending_call :: "exchange \<Rightarrow> call" where
  "pending_call exchange = rpc 5 exchange"

subsection \<open>The receipts of a report\<close>

text \<open>All receipts, in the order in which both scripts walk a report.\<close>

definition all_receipts :: "json \<Rightarrow> json list result" where
  "all_receipts report =
     rbind (rbind (subscript report ''directions'') iter) (\<lambda>directions.
     rbind (map_r (\<lambda>d. members d ''pending_groups'') directions) (\<lambda>gss.
     rbind (map_r (\<lambda>g. members g ''receipts'') (concat gss)) (\<lambda>rss. Inr (concat rss))))"

lemma members_ledger:
  "add_group p g = rbind (members g ''receipts'') (fold_r add_receipt p)"
  "add_direction p d = rbind (members d ''pending_groups'') (fold_r add_group p)"
  by (simp_all add: add_group_def add_direction_def members_def rbind_assoc)

text \<open>A nested walk that succeeds is a walk over the flattened list.\<close>

lemma nested_fold:
  "fold_r (\<lambda>s x. rbind (parts x) (fold_r step s)) s xs = Inr s' \<Longrightarrow>
     \<exists>yss. map_r parts xs = Inr yss \<and> fold_r step s (concat yss) = Inr s'"
proof (induction xs arbitrary: s)
  case (Cons x xs)
  then obtain ys t where ys: "parts x = Inr ys" "fold_r step s ys = Inr t"
    and rest: "fold_r (\<lambda>s x. rbind (parts x) (fold_r step s)) t xs = Inr s'" by (auto simp: rbind_eq_Inr)
  from Cons.IH [OF rest] obtain yss where "map_r parts xs = Inr yss" "fold_r step t (concat yss) = Inr s'" by blast
  then show ?case using ys by (simp add: fold_r_append)
qed simp

lemma walk_receipts:
  assumes "rbind (subscript report ''directions'') iter = Inr directions"
    and "fold_r (\<lambda>s d. rbind (members d ''pending_groups'')
      (fold_r (\<lambda>s g. rbind (members g ''receipts'') (fold_r step s)) s)) s directions = Inr s'"
  shows "\<exists>rs. all_receipts report = Inr rs \<and> fold_r step s rs = Inr s'"
proof -
  obtain gss where g: "map_r (\<lambda>d. members d ''pending_groups'') directions = Inr gss"
    and run: "fold_r (\<lambda>s g. rbind (members g ''receipts'') (fold_r step s)) s (concat gss) = Inr s'"
    using nested_fold [OF assms(2)] by blast
  obtain rss where "map_r (\<lambda>g. members g ''receipts'') (concat gss) = Inr rss" "fold_r step s (concat rss) = Inr s'"
    using nested_fold [OF run] by blast
  then show ?thesis using assms(1) g by (simp add: all_receipts_def)
qed

lemma set_item_other: "set_item v k w = Inr v' \<Longrightarrow> j \<noteq> k \<Longrightarrow> subscript v' j = subscript v j"
  by (auto simp: set_item_def getitem_def update_conv' split: json.split_asm)

text \<open>What was found about one receipt.\<close>

definition still_open :: "call \<Rightarrow> int \<Rightarrow> json \<Rightarrow> checked_receipt \<Rightarrow> bool" where
  "still_open call cutoff receipt c \<longleftrightarrow> subscript receipt ''transaction_hash'' = Inr (ck_hash c)
     \<and> (\<exists>answer. call ''hmyv2_getCXReceiptByHash'' [ck_hash c] = Inr answer
         \<and> (if truthy answer then \<exists>b. block_number answer = Inr b \<and> cutoff < b \<and> ck_block c = Some b
            else ck_block c = None)
         \<and> (ck_result c = ''not_found'' \<longleftrightarrow> answer = JNull))"

lemma check_receipt_open: "check_receipt call cutoff r = Inr c \<Longrightarrow> still_open call cutoff r c"
  unfolding check_receipt_def
  by (elim rbind_E) (auto simp: still_open_def rbind_eq_Inr not_le split: if_split_asm)

lemma checked_list:
  "fold_r (\<lambda>cs r. rbind (check_receipt call cutoff r) (\<lambda>c. Inr (cs @ [c]))) cs rs = Inr cs' \<Longrightarrow>
     \<exists>new. cs' = cs @ new \<and> list_all2 (still_open call cutoff) rs new"
proof (induction rs arbitrary: cs)
  case (Cons r rs)
  then obtain c where "check_receipt call cutoff r = Inr c"
    and rest: "fold_r (\<lambda>cs r. rbind (check_receipt call cutoff r) (\<lambda>c. Inr (cs @ [c]))) (cs @ [c]) rs = Inr cs'"
    by (auto simp: rbind_eq_Inr)
  then show ?case using check_receipt_open Cons.IH [OF rest] by fastforce
qed simp

text \<open>
  C36. Carrying the report over keeps the ledger. If the check passes, every receipt of the report was looked up, in
  order, and is unknown on the destination shard or was consumed after the cutoff; and the claim ledger
  loads the copy with the same result as the original report, entries, total and errors alike.
\<close>

theorem pending_carried_over:
  assumes "verify_pending call interval cutoff0 cutoff1 report_digest interval_digest original = Inr (result, checked)"
  shows "load_pending_receipts result = load_pending_receipts original
    \<and> (\<exists>receipts. all_receipts original = Inr receipts \<and> list_all2 (still_open call cutoff0) receipts checked)"
proof -
  from assms obtain directions copy cv cvv where d: "rbind (subscript original ''directions'') iter = Inr directions"
    and run: "fold_r (check_pending_direction call cutoff0) [] directions = Inr checked"
    and copy: "set_item original ''cutoff'' cv = Inr copy" and result: "set_item copy ''cutoff_verification'' cvv = Inr result"
    unfolding verify_pending_def by (elim rbind_E) auto
  have "subscript result k = subscript original k" if "k \<noteq> ''cutoff''" "k \<noteq> ''cutoff_verification''" for k
    using set_item_other [OF copy] set_item_other [OF result] that by simp
  then have "load_pending_receipts result = load_pending_receipts original" by (simp add: load_pending_receipts_def)
  moreover obtain rs where "all_receipts original = Inr rs"
    and "fold_r (\<lambda>cs r. rbind (check_receipt call cutoff0 r) (\<lambda>c. Inr (cs @ [c]))) [] rs = Inr checked"
    using walk_receipts [OF d run [unfolded check_pending_direction_def [abs_def] check_pending_group_def [abs_def]]] by blast
  ultimately show ?thesis using checked_list by fastforce
qed

text \<open>One receipt that the destination does not know and one consumed later.\<close>

definition example_pending_report :: json where
  "example_pending_report = JDict [(''directions'', JList [JDict [(''pending_groups'', JList [JDict [(''receipts'', JList
     [JDict [(''transaction_hash'', JStr ''0x1''), (''secure_key'', JStr ''aa''), (''to'', JStr ''0xA''), (''amount_atto'', JStr ''5'')],
      JDict [(''transaction_hash'', JStr ''0x2''), (''secure_key'', JStr ''aa''), (''to'', JStr ''0xa''), (''amount_atto'', JInt 7)]])]])]]),
     (''pending_active_atto'', JStr ''12'')]"

definition example_pending_call :: call where
  "example_pending_call name params = Inr (if params = [JStr ''0x2''] then JDict [(''blockNumber'', JStr ''0x64'')] else JNull)"

definition example_interval :: json where
  "example_interval = JDict [(''start'', JInt 93529888), (''end'', JInt 99), (''cross_shard_transactions'', JInt 0)]"

theorem pending_carried_over_witness:
  "\<exists>result checked. verify_pending example_pending_call example_interval 99 50 ''r'' ''i'' example_pending_report = Inr (result, checked)
     \<and> is_ok (load_pending_receipts result)"
proof -
  have "is_ok (verify_pending example_pending_call example_interval 99 50 ''r'' ''i'' example_pending_report)"
    and ok: "is_ok (load_pending_receipts example_pending_report)" by code_simp+
  then obtain result checked where
    v: "verify_pending example_pending_call example_interval 99 50 ''r'' ''i'' example_pending_report = Inr (result, checked)"
    by (auto simp: is_ok_iff)
  then show ?thesis using pending_carried_over [OF v] ok by auto
qed

end
