(* ===== verification/CanonicalInterval.thy ===== *)
theory CanonicalInterval
  imports Rpc "HOL-Library.Sublist"
begin

section \<open>A canonical interval of blocks: \<open>canonical-interval-audit.py\<close>\<close>

text \<open>
  The script reads a range of blocks in chunks, checks that they are consecutive, linked by their parent hashes and
  ordered in time, counts their contents, and writes a row for every transaction and for every block with
  content. \<open>read_block\<close> reads one block, \<open>check_block\<close> compares it with the state, \<open>book_block\<close> counts it; the
  chunks are \<open>audit_loop\<close>. The node's answers to the two kinds of call are parameters.
\<close>

subsection \<open>One block\<close>

definition EMPTY_ROOT :: string where
  "EMPTY_ROOT = ''0x56e81f171bcc55a6ff8345e692c0f86e5b48e01b996cadc001622fb5e363b421''"

text \<open>The empty text stands for a value that no name has. \<open>in\<close> searches a text for the name as a part, a list as an element.\<close>

fun transaction_value :: "json \<Rightarrow> string list \<Rightarrow> json result" where
  "transaction_value (JDict kvs) names =
     Inr (case find (\<lambda>n. get_or (map_of kvs) n JNull \<noteq> JNull) names of None \<Rightarrow> JStr [] | Some n \<Rightarrow> get_or (map_of kvs) n JNull)"
| "transaction_value (JStr s) names =
     (if list_ex (\<lambda>n. sublist n s) names then Inl (TypeError ''string indices must be integers'') else Inr (JStr []))"
| "transaction_value (JList vs) names =
     (if list_ex (\<lambda>n. JStr n \<in> set vs) names then Inl (TypeError ''list indices must be integers'') else Inr (JStr []))"
| "transaction_value _ names = Inl (TypeError ''argument is not iterable'')"

record transaction_row =
  tr_kind :: string
  tr_index :: nat
  tr_hash :: json
  tr_from :: json
  tr_to :: json
  tr_from_shard :: json
  tr_to_shard :: json
  tr_value :: json
  tr_nonce :: json
  tr_document :: json

text \<open>The columns that repeat the block are in the block's own record; \<open>transaction_json\<close> prints \<open>tr_document\<close>.\<close>

definition transaction_output :: "string \<Rightarrow> nat \<times> json \<Rightarrow> transaction_row result" where
  "transaction_output knd ix =
     (let t = snd ix in
      rbind (transaction_value t [''hash'', ''transactionHash'']) (\<lambda>h.
      rbind (transaction_value t [''from'']) (\<lambda>sender. rbind (transaction_value t [''to'']) (\<lambda>receiver.
      rbind (transaction_value t [''shardID'', ''fromShard'']) (\<lambda>from_shard.
      rbind (transaction_value t [''toShardID'', ''toShard'']) (\<lambda>to_shard.
      rbind (transaction_value t [''value'', ''amount'']) (\<lambda>v. rbind (transaction_value t [''nonce'']) (\<lambda>nonce.
        Inr \<lparr>tr_kind = knd, tr_index = fst ix, tr_hash = h, tr_from = sender, tr_to = receiver, tr_from_shard = from_shard,
             tr_to_shard = to_shard, tr_value = v, tr_nonce = nonce, tr_document = t\<rparr>))))))))"

text \<open>Whether a regular transaction goes to another shard.\<close>

definition crosses_shards :: "transaction_row \<Rightarrow> bool result" where
  "crosses_shards w =
     (if tr_from_shard w = JStr [] \<or> tr_to_shard w = JStr [] then Inr False
      else rbind (int_of (tr_from_shard w)) (\<lambda>a. rbind (int_of (tr_to_shard w)) (\<lambda>b. Inr (a \<noteq> b))))"

record block =
  bk_number :: int
  bk_hash :: string
  bk_parent :: string
  bk_timestamp :: int
  bk_root :: string
  bk_tx_root :: string
  bk_receipts_root :: string
  bk_outgoing_root :: string
  bk_incoming_root :: string
  bk_gas :: int
  bk_regular :: "transaction_row list"
  bk_staking :: "transaction_row list"
  bk_cross :: "bool list"

definition text_at :: "json \<Rightarrow> string \<Rightarrow> string result" where
  "text_at v k = rbind (subscript v k) text_of"

text \<open>\<open>block.get(k) or default\<close>.\<close>

definition get_truthy :: "json \<Rightarrow> string \<Rightarrow> json \<Rightarrow> json result" where
  "get_truthy v k d = rbind (get_default v k JNull) (\<lambda>w. Inr (or_else w d))"

definition read_block :: "json \<Rightarrow> block result" where
  "read_block v =
     rbind (rbind (subscript v ''number'') int_of) (\<lambda>number.
     rbind (text_at v ''parentHash'') (\<lambda>parent.
     rbind (rbind (subscript v ''timestamp'') int_of) (\<lambda>timestamp.
     rbind (rbind (get_truthy v ''transactions'' (JList [])) iter) (\<lambda>transactions.
     rbind (rbind (get_truthy v ''stakingTransactions'' (JList [])) iter) (\<lambda>staking.
     rbind (text_at v ''stateRoot'') (\<lambda>state_root.
     rbind (rbind (get_truthy v ''transactionsRoot'' (JStr [])) text_of) (\<lambda>tx_root.
     rbind (rbind (get_truthy v ''receiptsRoot'' (JStr [])) text_of) (\<lambda>receipts_root.
     rbind (rbind (get_truthy v ''outgoingReceiptsRoot'' (JStr [])) text_of) (\<lambda>outgoing_root.
     rbind (rbind (get_truthy v ''incomingReceiptsRoot'' (JStr [])) text_of) (\<lambda>incoming_root.
     rbind (rbind (get_truthy v ''gasUsed'' (JInt 0)) int_of) (\<lambda>gas.
     rbind (map_r (transaction_output ''regular'') (enumerate 0 transactions)) (\<lambda>regular_rows.
     rbind (map_r crosses_shards regular_rows) (\<lambda>cross.
     rbind (map_r (transaction_output ''staking'') (enumerate 0 staking)) (\<lambda>staking_rows.
     rbind (text_at v ''hash'') (\<lambda>h.
       Inr \<lparr>bk_number = number, bk_hash = h, bk_parent = parent, bk_timestamp = timestamp, bk_root = state_root,
            bk_tx_root = tx_root, bk_receipts_root = receipts_root, bk_outgoing_root = outgoing_root,
            bk_incoming_root = incoming_root, bk_gas = gas, bk_regular = regular_rows, bk_staking = staking_rows,
            bk_cross = cross\<rparr>)))))))))))))))"

definition filled_root :: "string \<Rightarrow> bool" where
  "filled_root r \<longleftrightarrow> r \<noteq> [] \<and> lower r \<noteq> lower EMPTY_ROOT"

definition material :: "string \<Rightarrow> block \<Rightarrow> bool" where
  "material previous_root b \<longleftrightarrow> lower (bk_root b) \<noteq> lower previous_root \<or> bk_regular b \<noteq> [] \<or> bk_staking b \<noteq> []
     \<or> bk_gas b \<noteq> 0 \<or> filled_root (bk_receipts_root b) \<or> filled_root (bk_outgoing_root b) \<or> filled_root (bk_incoming_root b)"

text \<open>The line that goes into the digest of the headers.\<close>

definition header_line :: "block \<Rightarrow> string" where
  "header_line b = py_str (bk_number b) @ ''|'' @ lower (bk_hash b) @ ''|'' @ lower (bk_parent b) @ ''|''
     @ py_str (bk_timestamp b) @ ''|'' @ lower (bk_root b) @ ''|'' @ lower (bk_tx_root b) @ ''|''
     @ lower (bk_receipts_root b) @ [char_of (10::nat)]"

subsection \<open>The state of the audit\<close>

record interval_counts =
  ic_blocks :: int
  ic_material :: int
  ic_root_changes :: int
  ic_normal :: int
  ic_staking :: int
  ic_cross :: int
  ic_receipts_roots :: int
  ic_outgoing_roots :: int
  ic_incoming_roots :: int
  ic_gas :: int

definition no_counts :: interval_counts where
  "no_counts = \<lparr>ic_blocks = 0, ic_material = 0, ic_root_changes = 0, ic_normal = 0, ic_staking = 0, ic_cross = 0,
     ic_receipts_roots = 0, ic_outgoing_roots = 0, ic_incoming_roots = 0, ic_gas = 0\<rparr>"

text \<open>
  \<open>ia_headers\<close> are the blocks whose lines the digest has taken in; \<open>ia_material\<close> and \<open>ia_transactions\<close> what the two
  CSV writers have written. The predecessor's hash, root and timestamp are read when the next block is compared.
\<close>

record interval_state =
  ia_next :: int
  ia_parent :: json
  ia_root :: json
  ia_timestamp :: json
  ia_counts :: interval_counts
  ia_roots :: "json list"
  ia_headers :: "block list"
  ia_material :: "block list"
  ia_transactions :: "(block \<times> transaction_row) list"

definition indicator :: "bool \<Rightarrow> int" where
  "indicator c = (if c then 1 else 0)"

definition count_block :: "string \<Rightarrow> block \<Rightarrow> interval_counts \<Rightarrow> interval_counts" where
  "count_block previous_root b c =
     \<lparr>ic_blocks = ic_blocks c + 1,
      ic_material = ic_material c + indicator (material previous_root b),
      ic_root_changes = ic_root_changes c + indicator (lower (bk_root b) \<noteq> lower previous_root),
      ic_normal = ic_normal c + int (length (bk_regular b)), ic_staking = ic_staking c + int (length (bk_staking b)),
      ic_cross = ic_cross c + sum_list (map indicator (bk_cross b)),
      ic_receipts_roots = ic_receipts_roots c + indicator (filled_root (bk_receipts_root b)),
      ic_outgoing_roots = ic_outgoing_roots c + indicator (filled_root (bk_outgoing_root b)),
      ic_incoming_roots = ic_incoming_roots c + indicator (filled_root (bk_incoming_root b)),
      ic_gas = ic_gas c + bk_gas b\<rparr>"

text \<open>
  The comparisons with the state; the result is the previous root. The script reads the remaining fields of the block
  only after these comparisons: a block with two defects fails in the model as in the script, with the message of one of them.
\<close>

definition check_block :: "interval_state \<Rightarrow> block \<Rightarrow> string result" where
  "check_block s b =
     rbind (raise_if (bk_number b \<noteq> ia_next s) (RuntimeError ''unexpected block number'')) (\<lambda>_.
     rbind (text_of (ia_parent s)) (\<lambda>expected_parent.
     rbind (raise_if (lower (bk_parent b) \<noteq> lower expected_parent) (RuntimeError ''parent mismatch'')) (\<lambda>_.
     rbind (int_of (ia_timestamp s)) (\<lambda>previous.
     rbind (raise_if (bk_timestamp b < previous) (RuntimeError ''timestamp regressed'')) (\<lambda>_.
       text_of (ia_root s))))))"

definition book_block :: "string \<Rightarrow> interval_state \<Rightarrow> block \<Rightarrow> interval_state" where
  "book_block previous_root s b =
     \<lparr>ia_next = ia_next s + 1, ia_parent = JStr (bk_hash b), ia_root = JStr (bk_root b), ia_timestamp = JInt (bk_timestamp b),
      ia_counts = count_block previous_root b (ia_counts s),
      ia_roots = (if JStr (bk_root b) \<in> set (ia_roots s) then ia_roots s else ia_roots s @ [JStr (bk_root b)]),
      ia_headers = ia_headers s @ [b],
      ia_material = (if material previous_root b then ia_material s @ [b] else ia_material s),
      ia_transactions = ia_transactions s @ map (Pair b) (bk_regular b @ bk_staking b)\<rparr>"

definition block_step :: "interval_state \<Rightarrow> json \<Rightarrow> interval_state result" where
  "block_step s v = rbind (read_block v) (\<lambda>b. rbind (check_block s b) (\<lambda>root. Inr (book_block root s b)))"

subsection \<open>The chunks\<close>

type_synonym block_source = "int \<Rightarrow> int \<Rightarrow> json list result"

text \<open>A chunk has \<open>extra + 1\<close> blocks, or what is left.\<close>

definition chunk_end :: "nat \<Rightarrow> int \<Rightarrow> int \<Rightarrow> int" where
  "chunk_end extra stop k = min stop (k + int extra)"

definition read_chunk :: "block_source \<Rightarrow> nat \<Rightarrow> int \<Rightarrow> interval_state \<Rightarrow> interval_state result" where
  "read_chunk blocks extra stop s =
     rbind (blocks (ia_next s) (chunk_end extra stop (ia_next s))) (\<lambda>bs.
       if int (length bs) \<noteq> chunk_end extra stop (ia_next s) - ia_next s + 1
       then Inl (RuntimeError ''range returned another number of blocks'')
       else fold_r block_step s bs)"

lemma block_step_next: "block_step s v = Inr s' \<Longrightarrow> ia_next s' = ia_next s + 1"
  by (auto simp: block_step_def rbind_eq_Inr book_block_def)

interpretation block_counter: conserving_loop block_step ia_next "\<lambda>_. 1"
  by unfold_locales (rule block_step_next)

lemma sum_list_ones: "sum_list (map (\<lambda>_. 1) xs) = int (length xs)"
  by (induction xs) simp_all

lemma read_chunk_next: "read_chunk blocks extra stop s = Inr s' \<Longrightarrow> ia_next s' = chunk_end extra stop (ia_next s) + 1"
  by (auto simp: read_chunk_def rbind_eq_Inr sum_list_ones dest!: block_counter.run_total split: if_split_asm)

function audit_loop :: "block_source \<Rightarrow> nat \<Rightarrow> int \<Rightarrow> interval_state \<Rightarrow> interval_state result" where
  "audit_loop blocks extra stop s =
     (if stop < ia_next s then Inr s else rbind (read_chunk blocks extra stop s) (audit_loop blocks extra stop))"
  by pat_completeness auto
termination
  by (relation "measure (\<lambda>(_, _, stop, s). nat (stop + 1 - ia_next s))") (auto simp: chunk_end_def dest: read_chunk_next)

declare audit_loop.simps [simp del]

subsection \<open>The main program\<close>

record interval_report =
  ir_state :: interval_state
  ir_predecessor_hash :: json
  ir_predecessor_root :: json
  ir_first_hash :: json
  ir_distinct_roots :: nat
  ir_header_digest :: string

definition start_state :: "int \<Rightarrow> json \<Rightarrow> interval_state result" where
  "start_state start predecessor =
     rbind (subscript predecessor ''hash'') (\<lambda>h. rbind (subscript predecessor ''stateRoot'') (\<lambda>root.
     rbind (subscript predecessor ''timestamp'') (\<lambda>timestamp.
       Inr \<lparr>ia_next = start, ia_parent = h, ia_root = root, ia_timestamp = timestamp, ia_counts = no_counts,
            ia_roots = [root], ia_headers = [], ia_material = [], ia_transactions = []\<rparr>)))"

definition interval_audit ::
  "block_source \<Rightarrow> (int \<Rightarrow> json result) \<Rightarrow> (string \<Rightarrow> string) \<Rightarrow> int \<Rightarrow> int \<Rightarrow> int \<Rightarrow> int \<Rightarrow> interval_report result" where
  "interval_audit blocks header sha256 shard start stop chunk_size =
     rbind (raise_if (shard \<noteq> 0 \<and> shard \<noteq> 1) (ValueError ''shard must be 0 or 1'')) (\<lambda>_.
     rbind (raise_if (start \<le> 0 \<or> stop < start) (ValueError ''invalid block range'')) (\<lambda>_.
     rbind (raise_if (chunk_size < 1 \<or> 1024 < chunk_size) (ValueError ''chunk size must be between 1 and 1024'')) (\<lambda>_.
     rbind (header (start - 1)) (\<lambda>predecessor.
     rbind (start_state start predecessor) (\<lambda>s0.
     rbind (audit_loop blocks (nat (chunk_size - 1)) stop s0) (\<lambda>s.
     rbind (rbind (header start) (\<lambda>v. subscript v ''hash'')) (\<lambda>first_hash.
       Inr \<lparr>ir_state = s, ir_predecessor_hash = ia_parent s0, ir_predecessor_root = ia_root s0, ir_first_hash = first_hash,
            ir_distinct_roots = length (ia_roots s), ir_header_digest = sha256 (concat (map header_line (ia_headers s)))\<rparr>)))))))"

text \<open>The program with its node: \<open>rpc\<close> has six attempts, and the answer to a range must be a list.\<close>

definition interval_call :: "exchange \<Rightarrow> call" where
  "interval_call exchange = rpc 6 exchange"

definition interval_header :: "call \<Rightarrow> int \<Rightarrow> json result" where
  "interval_header call n =
     call ''hmyv2_getBlockByNumber'' [JInt n, JDict [(''fullTx'', JBool False), (''inclStaking'', JBool False)]]"

definition interval_blocks :: "call \<Rightarrow> block_source" where
  "interval_blocks call a b = rbind (call ''hmyv2_getBlocks'' [JInt a, JInt b,
     JDict [(''fullTx'', JBool True), (''inclStaking'', JBool True), (''withSigners'', JBool False)]]) iter"

definition canonical_interval_audit ::
  "exchange \<Rightarrow> (string \<Rightarrow> string) \<Rightarrow> int \<Rightarrow> int \<Rightarrow> int \<Rightarrow> int \<Rightarrow> interval_report result" where
  "canonical_interval_audit exchange =
     interval_audit (interval_blocks (interval_call exchange)) (interval_header (interval_call exchange))"

subsection \<open>What a completed audit has seen\<close>

text \<open>\<open>linked h t bs\<close>: every block names the hash before it as its parent and is no earlier; \<open>h\<close>, \<open>t\<close> are the predecessor's.\<close>

fun linked :: "string \<Rightarrow> int \<Rightarrow> block list \<Rightarrow> bool" where
  "linked h t [] \<longleftrightarrow> True"
| "linked h t (b # bs) \<longleftrightarrow> lower (bk_parent b) = lower h \<and> t \<le> bk_timestamp b \<and> linked (bk_hash b) (bk_timestamp b) bs"

fun material_of :: "string \<Rightarrow> block list \<Rightarrow> block list" where
  "material_of root [] = []"
| "material_of root (b # bs) = (if material root b then [b] else []) @ material_of (bk_root b) bs"

fun root_changes :: "string \<Rightarrow> block list \<Rightarrow> int" where
  "root_changes root [] = 0"
| "root_changes root (b # bs) = indicator (lower (bk_root b) \<noteq> lower root) + root_changes (bk_root b) bs"

fun book_all :: "string \<Rightarrow> interval_state \<Rightarrow> block list \<Rightarrow> interval_state" where
  "book_all root s [] = s"
| "book_all root s (b # bs) = book_all (bk_root b) (book_block root s b) bs"

definition predecessor :: "interval_state \<Rightarrow> string \<Rightarrow> int \<Rightarrow> string \<Rightarrow> bool" where
  "predecessor s h t root \<longleftrightarrow> text_of (ia_parent s) = Inr h \<and> int_of (ia_timestamp s) = Inr t \<and> text_of (ia_root s) = Inr root"

lemma block_step_E:
  assumes "block_step s v = Inr s'"
  obtains b h t root where "read_block v = Inr b" and "predecessor s h t root" and "bk_number b = ia_next s"
    and "lower (bk_parent b) = lower h" and "t \<le> bk_timestamp b" and "s' = book_block root s b"
  using assms by (auto simp: block_step_def check_block_def predecessor_def rbind_eq_Inr)

lemma predecessor_book: "predecessor (book_block root s b) (bk_hash b) (bk_timestamp b) (bk_root b)"
  by (simp add: predecessor_def book_block_def)

lemma predecessor_unique: "predecessor s h t root \<Longrightarrow> predecessor s h' t' root' \<Longrightarrow> h = h' \<and> t = t' \<and> root = root'"
  by (simp add: predecessor_def)

lemma upto_Suc: "a # [a + 1..a + int n] = [a..a + int n]"
  by (simp add: upto_rec1)

lemma block_run:
  assumes "fold_r block_step s vs = Inr s'" and "predecessor s h t root"
  shows "\<exists>bs. list_all2 (\<lambda>v b. read_block v = Inr b) vs bs \<and> map bk_number bs = [ia_next s..ia_next s + int (length vs) - 1]
    \<and> linked h t bs \<and> s' = book_all root s bs"
  using assms
proof (induction vs arbitrary: s h t root)
  case (Cons v vs)
  from Cons.prems(1) obtain u where u: "block_step s v = Inr u" and run: "fold_r block_step u vs = Inr s'"
    by (auto simp: rbind_eq_Inr)
  from u obtain b h' t' root' where b: "read_block v = Inr b" "bk_number b = ia_next s" "lower (bk_parent b) = lower h'"
      "t' \<le> bk_timestamp b" and pre: "predecessor s h' t' root'" and ub: "u = book_block root' s b"
    by (rule block_step_E)
  from predecessor_unique [OF Cons.prems(2) pre] have eq: "h' = h" "t' = t" "root' = root" by simp_all
  have "ia_next u = ia_next s + 1" by (simp add: ub book_block_def)
  with Cons.IH [OF run, of "bk_hash b" "bk_timestamp b" "bk_root b"] obtain bs
    where "list_all2 (\<lambda>v b. read_block v = Inr b) vs bs"
      and "map bk_number bs = [ia_next s + 1..ia_next s + 1 + int (length vs) - 1]"
      and "linked (bk_hash b) (bk_timestamp b) bs" and "s' = book_all (bk_root b) u bs"
    by (auto simp: ub predecessor_book)
  then show ?case using b ub by (intro exI [of _ "b # bs"]) (simp add: eq upto_Suc)
qed simp

lemma audit_loop_run:
  "audit_loop blocks extra stop s = Inr s' \<Longrightarrow>
     \<exists>vs. fold_r block_step s vs = Inr s' \<and> int (length vs) = max 0 (stop + 1 - ia_next s)"
proof (induction blocks extra stop s rule: audit_loop.induct)
  case (1 blocks extra stop s)
  show ?case
  proof (cases "stop < ia_next s")
    case True
    then show ?thesis using 1(2) by (intro exI [of _ "[]"]) (simp add: audit_loop.simps)
  next
    case False
    with 1(2) obtain u where u: "read_chunk blocks extra stop s = Inr u" and rest: "audit_loop blocks extra stop u = Inr s'"
      by (subst (asm) audit_loop.simps) (auto simp: rbind_eq_Inr)
    from u obtain vs where vs: "fold_r block_step s vs = Inr u" "int (length vs) = chunk_end extra stop (ia_next s) - ia_next s + 1"
      by (auto simp: read_chunk_def rbind_eq_Inr split: if_split_asm)
    from 1(1) [OF False u rest] obtain ws where "fold_r block_step u ws = Inr s'" "int (length ws) = max 0 (stop + 1 - ia_next u)"
      by blast
    then show ?thesis using vs read_chunk_next [OF u] False
      by (intro exI [of _ "vs @ ws"]) (simp add: fold_r_append chunk_end_def)
  qed
qed

text \<open>Booking a list of blocks in closed form: the rows written, and every counter as a sum.\<close>

lemma book_all_lists:
  "ia_headers (book_all root s bs) = ia_headers s @ bs"
  "ia_material (book_all root s bs) = ia_material s @ material_of root bs"
  "ia_transactions (book_all root s bs) = ia_transactions s @ concat (map (\<lambda>b. map (Pair b) (bk_regular b @ bk_staking b)) bs)"
  by (induction bs arbitrary: root s) (simp_all add: book_block_def)

lemma book_all_counts:
  "ic_blocks (ia_counts (book_all root s bs)) = ic_blocks (ia_counts s) + int (length bs)"
  "ic_material (ia_counts (book_all root s bs)) = ic_material (ia_counts s) + int (length (material_of root bs))"
  "ic_root_changes (ia_counts (book_all root s bs)) = ic_root_changes (ia_counts s) + root_changes root bs"
  "ic_normal (ia_counts (book_all root s bs)) = ic_normal (ia_counts s) + (\<Sum>b\<leftarrow>bs. int (length (bk_regular b)))"
  "ic_staking (ia_counts (book_all root s bs)) = ic_staking (ia_counts s) + (\<Sum>b\<leftarrow>bs. int (length (bk_staking b)))"
  "ic_cross (ia_counts (book_all root s bs)) = ic_cross (ia_counts s) + (\<Sum>b\<leftarrow>bs. sum_list (map indicator (bk_cross b)))"
  "ic_receipts_roots (ia_counts (book_all root s bs)) = ic_receipts_roots (ia_counts s) + (\<Sum>b\<leftarrow>bs. indicator (filled_root (bk_receipts_root b)))"
  "ic_outgoing_roots (ia_counts (book_all root s bs)) = ic_outgoing_roots (ia_counts s) + (\<Sum>b\<leftarrow>bs. indicator (filled_root (bk_outgoing_root b)))"
  "ic_incoming_roots (ia_counts (book_all root s bs)) = ic_incoming_roots (ia_counts s) + (\<Sum>b\<leftarrow>bs. indicator (filled_root (bk_incoming_root b)))"
  "ic_gas (ia_counts (book_all root s bs)) = ic_gas (ia_counts s) + (\<Sum>b\<leftarrow>bs. bk_gas b)"
  by (induction bs arbitrary: root s) (simp_all add: book_block_def count_block_def indicator_def)

lemma book_all_last: "bs \<noteq> [] \<Longrightarrow> ia_root (book_all root s bs) = JStr (bk_root (List.last bs))
    \<and> ia_parent (book_all root s bs) = JStr (bk_hash (List.last bs))"
  by (induction bs arbitrary: root s) (auto simp: book_block_def neq_Nil_conv)

text \<open>The parts of a completed audit.\<close>

lemma interval_audit_E:
  assumes "interval_audit blocks header sha256 shard start stop chunk_size = Inr r"
  obtains p s0 h t root bs vs where "0 < start" and "start \<le> stop" and "header (start - 1) = Inr p" and "start_state start p = Inr s0"
    and "predecessor s0 h t root" and "list_all2 (\<lambda>v b. read_block v = Inr b) vs bs" and "map bk_number bs = [start..stop]"
    and "linked h t bs" and "ir_state r = book_all root s0 bs" and "ir_predecessor_hash r = ia_parent s0"
    and "ir_predecessor_root r = ia_root s0"
proof -
  from assms have range: "0 < start" "start \<le> stop"
    unfolding interval_audit_def by (auto simp: rbind_eq_Inr)
  from assms obtain p s0 s where p: "header (start - 1) = Inr p" "start_state start p = Inr s0"
      and loop: "audit_loop blocks (nat (chunk_size - 1)) stop s0 = Inr s" and r: "ir_state r = s"
      "ir_predecessor_hash r = ia_parent s0" "ir_predecessor_root r = ia_root s0"
    unfolding interval_audit_def by (elim rbind_E) auto
  from p have start_s0: "ia_next s0 = start" by (auto simp: start_state_def rbind_eq_Inr)
  from audit_loop_run [OF loop] obtain vs where vs: "fold_r block_step s0 vs = Inr s" "int (length vs) = stop + 1 - start"
    using range by (auto simp: start_s0)
  then obtain v ws u where "block_step s0 v = Inr u" using range
    by (cases vs) (auto simp: rbind_eq_Inr)
  then obtain h t root where pre: "predecessor s0 h t root" by (rule block_step_E)
  from block_run [OF vs(1) pre] obtain bs where "list_all2 (\<lambda>v b. read_block v = Inr b) vs bs"
      "map bk_number bs = [start..stop]" "linked h t bs" "s = book_all root s0 bs"
    using vs(2) by (auto simp: start_s0)
  with that range p pre r show ?thesis by simp
qed

lemma quiet_blocks:
  "material_of root bs = [] \<Longrightarrow> b \<in> set bs \<Longrightarrow> lower (bk_root b) = lower root \<and> bk_regular b = [] \<and> bk_staking b = [] \<and> bk_gas b = 0"
proof (induction bs arbitrary: root)
  case (Cons c bs)
  have c: "lower (bk_root c) = lower root" "bk_regular c = []" "bk_staking c = []" "bk_gas c = 0"
    using Cons.prems(1) by (auto simp: material_def split: if_split_asm)
  have "material_of (bk_root c) bs = []" using Cons.prems(1) by simp
  then show ?case using Cons.IH [of "bk_root c"] Cons.prems(2) c by auto
qed simp

subsection \<open>The chunk size does not matter\<close>

lemma audit_loop_flat:
  assumes "\<And>a b. ia_next s \<le> a \<Longrightarrow> a \<le> b \<Longrightarrow> b \<le> stop \<Longrightarrow> blocks a b = Inr (map blk [a..b])"
  shows "audit_loop blocks extra stop s = fold_r block_step s (map blk [ia_next s..stop])"
  using assms
proof (induction blocks extra stop s rule: audit_loop.induct)
  case (1 blocks extra stop s)
  show ?case
  proof (cases "stop < ia_next s")
    case True
    then show ?thesis by (subst audit_loop.simps) simp
  next
    case False
    let ?e = "chunk_end extra stop (ia_next s)"
    have e: "ia_next s \<le> ?e" "?e \<le> stop" using False by (simp_all add: chunk_end_def)
    have "read_chunk blocks extra stop s = fold_r block_step s (map blk [ia_next s..?e])"
      using 1(2) [of "ia_next s" ?e] e by (simp add: read_chunk_def)
    moreover have "rbind (read_chunk blocks extra stop s) (audit_loop blocks extra stop)
        = rbind (read_chunk blocks extra stop s) (\<lambda>u. fold_r block_step u (map blk [?e + 1..stop]))"
    proof (rule rbind_cong [OF refl])
      fix u assume u: "read_chunk blocks extra stop s = Inr u"
      from read_chunk_next [OF this] have "ia_next u = ?e + 1" .
      then show "audit_loop blocks extra stop u = fold_r block_step u (map blk [?e + 1..stop])"
        using 1(1) [OF False u] 1(2) e by simp
    qed
    moreover have "[ia_next s..stop] = [ia_next s..?e] @ [?e + 1..stop]"
      using e by (intro upto_split2) auto
    ultimately show ?thesis using False by (subst audit_loop.simps) (simp add: fold_r_append)
  qed
qed

lemma interval_audit_flat:
  assumes "1 \<le> chunk_size" and "chunk_size \<le> 1024"
    and "\<And>a b. start \<le> a \<Longrightarrow> a \<le> b \<Longrightarrow> b \<le> stop \<Longrightarrow> blocks a b = Inr (map blk [a..b])"
  shows "interval_audit blocks header sha256 shard start stop chunk_size
    = interval_audit (\<lambda>a b. Inr (map blk [a..b])) header sha256 shard start stop 1"
proof -
  have "rbind (start_state start p) (\<lambda>s0. rbind (audit_loop blocks (nat (chunk_size - 1)) stop s0) (f s0))
      = rbind (start_state start p) (\<lambda>s0. rbind (audit_loop (\<lambda>a b. Inr (map blk [a..b])) (nat (1 - 1)) stop s0) (f s0))"
    for p and f :: "interval_state \<Rightarrow> interval_state \<Rightarrow> interval_report result"
  proof (rule rbind_cong [OF refl])
    fix s0 assume "start_state start p = Inr s0"
    then have "ia_next s0 = start" by (auto simp: start_state_def rbind_eq_Inr)
    then show "rbind (audit_loop blocks (nat (chunk_size - 1)) stop s0) (f s0)
        = rbind (audit_loop (\<lambda>a b. Inr (map blk [a..b])) (nat (1 - 1)) stop s0) (f s0)"
      using assms(3) by (subst (1 2) audit_loop_flat [where blk = blk]) simp_all
  qed
  then show ?thesis using assms(1,2) unfolding interval_audit_def by (simp add: raise_if_def del: diff_self)
qed

subsection \<open>Properties\<close>

text \<open>
  C35. When the interval audit succeeds, the blocks whose headers went into the digest have exactly the numbers from the
  start to the end, the first one's parent is the hash of the block before the start, every other one's parent is the
  hash of the one before it, no timestamp decreases, and every counter of the summary is the sum over these blocks; the
  material rows are the blocks with content or with another root than their predecessor, and the transaction rows are all
  their transactions, in order.
\<close>

theorem interval_chain:
  assumes "interval_audit blocks header sha256 shard start stop chunk_size = Inr r"
  shows "\<exists>p h t root. let bs = ia_headers (ir_state r); c = ia_counts (ir_state r) in
      header (start - 1) = Inr p \<and> subscript p ''hash'' = Inr (JStr h) \<and> subscript p ''stateRoot'' = Inr (JStr root)
    \<and> rbind (subscript p ''timestamp'') int_of = Inr t
    \<and> map bk_number bs = [start..stop] \<and> linked h t bs
    \<and> ia_material (ir_state r) = material_of root bs
    \<and> ia_transactions (ir_state r) = concat (map (\<lambda>b. map (Pair b) (bk_regular b @ bk_staking b)) bs)
    \<and> ic_blocks c = stop - start + 1 \<and> ic_material c = int (length (material_of root bs))
    \<and> ic_root_changes c = root_changes root bs
    \<and> ic_normal c = (\<Sum>b\<leftarrow>bs. int (length (bk_regular b))) \<and> ic_staking c = (\<Sum>b\<leftarrow>bs. int (length (bk_staking b)))
    \<and> ic_cross c = (\<Sum>b\<leftarrow>bs. sum_list (map indicator (bk_cross b))) \<and> ic_gas c = (\<Sum>b\<leftarrow>bs. bk_gas b)
    \<and> ic_receipts_roots c = (\<Sum>b\<leftarrow>bs. indicator (filled_root (bk_receipts_root b)))
    \<and> ic_outgoing_roots c = (\<Sum>b\<leftarrow>bs. indicator (filled_root (bk_outgoing_root b)))
    \<and> ic_incoming_roots c = (\<Sum>b\<leftarrow>bs. indicator (filled_root (bk_incoming_root b)))"
proof -
  from assms obtain p s0 h t root bs vs where "start \<le> stop" and p: "header (start - 1) = Inr p" and s0: "start_state start p = Inr s0"
    and pre: "predecessor s0 h t root" and bs: "map bk_number bs = [start..stop]" "linked h t bs"
    and s: "ir_state r = book_all root s0 bs" by (rule interval_audit_E)
  from s0 have fields: "subscript p ''hash'' = Inr (ia_parent s0)" "subscript p ''stateRoot'' = Inr (ia_root s0)"
      "subscript p ''timestamp'' = Inr (ia_timestamp s0)" and empty: "ia_counts s0 = no_counts" "ia_headers s0 = []"
      "ia_material s0 = []" "ia_transactions s0 = []"
    by (auto simp: start_state_def rbind_eq_Inr)
  have texts: "ia_parent s0 = JStr h" "ia_root s0 = JStr root" "int_of (ia_timestamp s0) = Inr t"
    using pre by (auto simp: predecessor_def elim: text_of.elims)
  have "int (length bs) = stop - start + 1"
    using \<open>start \<le> stop\<close> arg_cong [OF bs(1), of length] by simp
  then show ?thesis using p fields texts bs
    by (intro exI [of _ p] exI [of _ h] exI [of _ t] exI [of _ root])
      (simp add: Let_def s book_all_lists book_all_counts empty no_counts_def)
qed

text \<open>
  An interval in which the audit finds no material block is quiet: every block of it has the state root of the block
  before the interval and holds no transaction, no staking transaction and no gas, so that nothing on the shard changed.
\<close>

theorem interval_quiet:
  assumes "interval_audit blocks header sha256 shard start stop chunk_size = Inr r"
    and "ic_material (ia_counts (ir_state r)) = 0"
  shows "\<exists>root. ir_predecessor_root r = JStr root \<and> ia_transactions (ir_state r) = []
    \<and> list_all (\<lambda>b. lower (bk_root b) = lower root \<and> bk_regular b = [] \<and> bk_staking b = [] \<and> bk_gas b = 0)
        (ia_headers (ir_state r))
    \<and> map bk_number (ia_headers (ir_state r)) = [start..stop]"
proof -
  from assms(1) obtain p s0 h t root bs vs where s0: "start_state start p = Inr s0" and pre: "predecessor s0 h t root"
    and bs: "map bk_number bs = [start..stop]" and s: "ir_state r = book_all root s0 bs" and r: "ir_predecessor_root r = ia_root s0"
    by (rule interval_audit_E)
  have empty: "ia_counts s0 = no_counts" "ia_headers s0 = []" "ia_transactions s0 = []" and root: "ia_root s0 = JStr root"
    using s0 pre by (auto simp: start_state_def predecessor_def rbind_eq_Inr elim: text_of.elims)
  have "material_of root bs = []" using assms(2) by (simp add: s book_all_counts empty no_counts_def)
  from quiet_blocks [OF this] show ?thesis
    by (intro exI [of _ root]) (simp add: s r root bs book_all_lists empty list_all_iff)
qed

text \<open>
  The chunk size does not matter. When the node answers every range of the interval with its blocks in order, two
  audits with different chunk sizes end alike: with the same report, or with the same error.
\<close>

theorem interval_chunk_independent:
  assumes "1 \<le> m" and "m \<le> 1024" and "1 \<le> n" and "n \<le> 1024"
    and "\<And>a b. start \<le> a \<Longrightarrow> a \<le> b \<Longrightarrow> b \<le> stop \<Longrightarrow> blocks a b = Inr (map blk [a..b])"
  shows "interval_audit blocks header sha256 shard start stop m = interval_audit blocks header sha256 shard start stop n"
  using interval_audit_flat [OF assms(1,2,5)] interval_audit_flat [OF assms(3,4,5)] by simp

text \<open>Three blocks; the second has a transaction to the other shard and changes the state root.\<close>

definition example_transaction :: json where
  "example_transaction = JDict [(''hash'', JStr ''0xAA''), (''from'', JStr ''one1a''), (''to'', JStr ''one1b''),
     (''shardID'', JInt 0), (''toShardID'', JInt 1), (''value'', JInt 5), (''nonce'', JInt 0)]"

definition example_block :: "int \<Rightarrow> json" where
  "example_block n = JDict [(''number'', JInt n), (''hash'', JStr (''0xB'' @ py_str n)), (''parentHash'', JStr (''0xb'' @ py_str (n - 1))),
     (''timestamp'', JInt (100 + n)), (''stateRoot'', JStr (if n < 3 then ''0x1'' else ''0x2'')),
     (''gasUsed'', JStr (if n = 3 then ''21000'' else ''0'')), (''receiptsRoot'', JStr EMPTY_ROOT),
     (''outgoingReceiptsRoot'', JStr (if n = 3 then ''0x77'' else EMPTY_ROOT)),
     (''transactions'', if n = 3 then JList [example_transaction] else JNull)]"

definition example_blocks :: block_source where
  "example_blocks a b = Inr (map example_block [a..b])"

definition example_header :: "int \<Rightarrow> json result" where
  "example_header n = Inr (example_block n)"

theorem interval_chain_witness:
  "\<exists>r p h t root. interval_audit example_blocks example_header id 0 2 4 2 = Inr r \<and> example_header 1 = Inr p
     \<and> subscript p ''hash'' = Inr (JStr h) \<and> linked h t (ia_headers (ir_state r))
     \<and> ic_material (ia_counts (ir_state r)) = int (length (material_of root (ia_headers (ir_state r))))"
proof -
  have "is_ok (interval_audit example_blocks example_header id 0 2 4 2)" by code_simp
  then obtain r where r: "interval_audit example_blocks example_header id 0 2 4 2 = Inr r" by (auto simp: is_ok_iff)
  from interval_chain [OF r] show ?thesis by (auto simp: Let_def r)
qed

theorem interval_quiet_witness:
  "\<exists>r. interval_audit example_blocks example_header id 0 1 2 2 = Inr r \<and> ia_transactions (ir_state r) = []"
proof -
  let ?m = "\<lambda>r. ic_material (ia_counts (ir_state r))"
  have "case interval_audit example_blocks example_header id 0 1 2 2 of Inl e \<Rightarrow> False | Inr r \<Rightarrow> ?m r = 0" by code_simp
  then obtain r where r: "interval_audit example_blocks example_header id 0 1 2 2 = Inr r" "?m r = 0"
    by (auto split: sum.splits)
  from interval_quiet [OF r] show ?thesis by (auto simp: r(1))
qed

theorem interval_chunk_independent_witness:
  "interval_audit example_blocks example_header id 0 2 4 1 = interval_audit example_blocks example_header id 0 2 4 3
     \<and> is_ok (interval_audit example_blocks example_header id 0 2 4 3)"
proof
  show "interval_audit example_blocks example_header id 0 2 4 1 = interval_audit example_blocks example_header id 0 2 4 3"
    by (rule interval_chunk_independent [where blk = example_block]) (simp_all add: example_blocks_def)
  show "is_ok (interval_audit example_blocks example_header id 0 2 4 3)" by code_simp
qed

end
