(* ===== verification/FlowRecords.thy ===== *)
theory FlowRecords
  imports Rpc Address Cells StateDiff "HOL-Library.Sublist" "HOL-Library.Product_Lexorder"
begin

section \<open>Records of the exploit-flow export: \<open>historical-exploit-flow-export.py\<close>\<close>

text \<open>
  The export collects one record per transaction, from the two source audits, from the histories of the incidents'
  addresses and from a fixed path, and completes them from the node. This theory has the records, the node's
  interface, and every step that adds or completes a record; \<open>ExploitFlow\<close> has the traces and the report. The
  dictionary of records is an association list in the order of insertion; a set is the list of its elements.
\<close>

subsection \<open>Constants\<close>

record incident_config =
  cfg_root :: string
  cfg_root_cutoff :: int
  cfg_contract :: string
  cfg_drain_start :: int
  cfg_drain_end :: int

definition INCIDENTS :: "(string \<times> incident_config) list" where
  "INCIDENTS =
     [(''may-2025'', \<lparr>cfg_root = ''0x68a0313e0919ab6f4574ab4f16477b776e096b43'', cfg_root_cutoff = 73386866,
         cfg_contract = ''0x70a217631472a276976ab572d48959dc74f6065a'', cfg_drain_start = 73386869, cfg_drain_end = 73386956\<rparr>),
      (''april-2026'', \<lparr>cfg_root = ''0x113f0d7cfdcdf59be960905e0a86b09b28cc3cb6'', cfg_root_cutoff = 87337195,
         cfg_contract = ''0x5d229bc02eae8c46225425a1dd7d37047b61c148'', cfg_drain_start = 87337199, cfg_drain_end = 87337269\<rparr>)]"

definition KUCOIN_PATH_HASHES :: "string list" where
  "KUCOIN_PATH_HASHES =
     [''0xca05532a6b8a7c63d96b30ab58c9a2bae96c976cf0a91b3808806a29e65b8fac'',
      ''0x78acdfb9817c99414784cd029e97e99621e0259b303592dc5e24992fb92f74dc'',
      ''0xc7e8196bad209ffda9c7d5a46e58fcb3d5605aeb13b373a9c5a93da92927cac2'',
      ''0x250848d9ebfbd59be5a264f49867ea852d11c9b9da1157fb5adb18f9d7b53907'',
      ''0x24e75eabdcacc53331bd3537f303823e58c6ac43b11acaf02f2899ad005dce93'',
      ''0xd92bb9ad207dfde425531cea52ce3252b0122ee77f0d0f11bc28785c29fd5adb'']"

subsection \<open>The node\<close>

text \<open>
  Only the exchange itself is repeated, six times, and only after an \<open>OSError\<close>: an answer that reports an error ends the
  export.
\<close>

fun retry_io :: "nat \<Rightarrow> nat \<Rightarrow> (nat \<Rightarrow> 'a result) \<Rightarrow> 'a result" where
  "retry_io 0 k f = f k"
| "retry_io (Suc n) k f = (case f k of Inl (OSError e) \<Rightarrow> retry_io n (Suc k) f | r \<Rightarrow> r)"

definition request_json :: "exchange \<Rightarrow> json \<Rightarrow> json result" where
  "request_json exchange payload = retry_io 5 0 (\<lambda>k. exchange k payload)"

definition flow_rpc :: "exchange \<Rightarrow> string \<Rightarrow> json list \<Rightarrow> json result" where
  "flow_rpc exchange name params = rbind (request_json exchange (rpc_request name params 1)) rpc_result"

definition flow_batch_item :: "(json \<times> json) list \<Rightarrow> nat \<Rightarrow> json result" where
  "flow_batch_item items i = (case item_with_id (int i) items of
     None \<Rightarrow> Inl (KeyError ''id'')
   | Some item \<Rightarrow> rbind (rpc_error item) (\<lambda>_. get_default item ''result'' JNull))"

definition flow_chunk :: "exchange \<Rightarrow> string \<Rightarrow> json list list \<Rightarrow> json list result" where
  "flow_chunk exchange name chunk =
     rbind (request_json exchange (batch_request (map (Pair name) chunk))) (\<lambda>response.
     rbind (keyed_items response) (\<lambda>items. map_r (flow_batch_item items) [0..<length chunk]))"

definition flow_rpc_batch :: "exchange \<Rightarrow> string \<Rightarrow> json list list \<Rightarrow> int \<Rightarrow> json list result" where
  "flow_rpc_batch exchange name parameters chunk_size =
     rbind (batches chunk_size parameters) (\<lambda>chunks. rbind (map_r (flow_chunk exchange name) chunks) (\<lambda>vss. Inr (concat vss)))"

lemma flow_chunk_length: "flow_chunk exchange name chunk = Inr vs \<Longrightarrow> length vs = length chunk"
  by (auto simp: flow_chunk_def rbind_eq_Inr dest!: map_r_length)

lemma flow_rpc_batch_length:
  assumes "flow_rpc_batch exchange name ps n = Inr vs" and "0 < n"
  shows "length vs = length ps"
proof -
  from assms obtain vss where vss: "list_all2 (\<lambda>c vs. flow_chunk exchange name c = Inr vs) (slices (nat (n - 1)) ps) vss"
    and vs: "vs = concat vss" by (auto simp: flow_rpc_batch_def batches_def rbind_eq_Inr map_r_eq_Inr)
  from vss have "length (concat vss) = length (concat (slices (nat (n - 1)) ps))"
    by (induction rule: list_all2_induct) (auto dest: flow_chunk_length)
  then show ?thesis by (simp add: vs concat_slices)
qed

text \<open>The pages of a history, until one is not full; \<open>n\<close> pages are left of the thousand.\<close>

definition history_request :: "string \<Rightarrow> nat \<Rightarrow> string \<Rightarrow> json list" where
  "history_request address page tx_type = [JDict [(''address'', JStr address), (''pageIndex'', JInt (int page)),
     (''pageSize'', JInt 1000), (''fullTx'', JBool True), (''txType'', JStr tx_type), (''order'', JStr ''ASC'')]]"

fun history_pages :: "nat \<Rightarrow> nat \<Rightarrow> (nat \<Rightarrow> json list result) \<Rightarrow> json list \<Rightarrow> json list result" where
  "history_pages 0 page fetch transactions = Inl (RuntimeError ''transaction history exceeded pagination bound'')"
| "history_pages (Suc n) page fetch transactions =
     rbind (fetch page) (\<lambda>batch.
       if length batch < 1000 then Inr (transactions @ batch) else history_pages n (Suc page) fetch (transactions @ batch))"

definition transaction_history :: "exchange \<Rightarrow> string \<Rightarrow> string \<Rightarrow> json list result" where
  "transaction_history exchange address tx_type =
     history_pages 1000 0 (\<lambda>page. rbind (rbind (flow_rpc exchange ''hmyv2_getTransactionsHistory'' (history_request address page tx_type))
       (\<lambda>answer. subscript answer ''transactions'')) iter) []"

subsection \<open>Records\<close>

text \<open>The fields of \<open>normalize_transaction\<close>, and the record that extends them.\<close>

record flow_transaction =
  fl_shard :: int
  fl_block :: int
  fl_index :: int
  fl_hash :: string
  fl_eth :: string
  fl_time :: int
  fl_from :: string
  fl_to :: string
  fl_value :: int
  fl_nonce :: int
  fl_selector :: json
  fl_status :: string

record flow_record = flow_transaction +
  fl_roles :: "string list"
  fl_incidents :: "string list"
  fl_methods :: "string list"
  fl_classes :: "string list"
  fl_class_sources :: "string list"
  fl_replays :: "string list"
  fl_references :: "string list"
  fl_digests :: "string list"
  fl_directions :: "string list"
  fl_receipts :: int
  fl_amount :: int
  fl_precompiles :: int
  fl_failed_paths :: int
  fl_root_error :: json
  fl_calls :: int
  fl_failed_calls :: int
  fl_positive :: int
  fl_effective :: int
  fl_effective_value :: int
  fl_destructs :: int
  fl_destruct_value :: int

definition blank_record :: "int \<Rightarrow> string \<Rightarrow> int \<Rightarrow> flow_record" where
  "blank_record shard h block =
     \<lparr>fl_shard = shard, fl_block = block, fl_index = 0, fl_hash = lower h, fl_eth = [], fl_time = 0, fl_from = [], fl_to = [],
      fl_value = 0, fl_nonce = 0, fl_selector = JStr [], fl_status = [],
      fl_roles = [], fl_incidents = [], fl_methods = [], fl_classes = [], fl_class_sources = [], fl_replays = [],
      fl_references = [], fl_digests = [], fl_directions = [], fl_receipts = 0, fl_amount = 0, fl_precompiles = 0,
      fl_failed_paths = 0, fl_root_error = JStr [], fl_calls = 0, fl_failed_calls = 0, fl_positive = 0, fl_effective = 0,
      fl_effective_value = 0, fl_destructs = 0, fl_destruct_value = 0\<rparr>"

type_synonym flow_key = "int \<times> string"

type_synonym flow_records = "(flow_key, flow_record) dict"

text \<open>\<open>get_record\<close> and the change of the record it returns.\<close>

definition change_record :: "flow_records \<Rightarrow> int \<Rightarrow> string \<Rightarrow> int \<Rightarrow> (flow_record \<Rightarrow> flow_record) \<Rightarrow> flow_records" where
  "change_record ds shard h block f = adjust (blank_record shard h block) (shard, lower h) f ds"

definition flow_address :: "json \<Rightarrow> string result" where
  "flow_address v = (case v of JStr s \<Rightarrow> flow_decode_address (Some s)
     | _ \<Rightarrow> if truthy v then Inl (AttributeError ''startswith'') else Inr [])"

definition int_or :: "json \<Rightarrow> string \<Rightarrow> int \<Rightarrow> int result" where
  "int_or t k d = rbind (get_default t k (JInt d)) int_of"

definition normalize_transaction :: "json \<Rightarrow> int \<Rightarrow> flow_transaction result" where
  "normalize_transaction t shard =
     rbind (int_or t ''shardID'' shard) (\<lambda>shard'. rbind (rbind (subscript t ''blockNumber'') int_of) (\<lambda>block.
     rbind (int_or t ''transactionIndex'' 0) (\<lambda>index. rbind (rbind (subscript t ''hash'') text_of) (\<lambda>h.
     rbind (rbind (get_default t ''ethHash'' (JStr [])) text_of) (\<lambda>eth. rbind (int_or t ''timestamp'' 0) (\<lambda>time.
     rbind (rbind (get_default t ''from'' JNull) flow_address) (\<lambda>sender.
     rbind (rbind (get_default t ''to'' JNull) flow_address) (\<lambda>receiver.
     rbind (int_or t ''value'' 0) (\<lambda>v. rbind (int_or t ''nonce'' 0) (\<lambda>nonce.
     rbind (rbind (get_default t ''input'' (JStr [])) first_ten) (\<lambda>selector.
       Inr \<lparr>fl_shard = shard', fl_block = block, fl_index = index, fl_hash = lower h, fl_eth = lower eth, fl_time = time,
            fl_from = sender, fl_to = receiver, fl_value = v, fl_nonce = nonce, fl_selector = selector, fl_status = []\<rparr>)))))))))))"

text \<open>\<open>record.update(transaction)\<close>: the fields outside the transaction are preserved, and an empty status keeps the old one.\<close>

definition merge_transaction :: "flow_record \<Rightarrow> flow_transaction \<Rightarrow> flow_record" where
  "merge_transaction r t = flow_transaction.extend
     (t\<lparr>fl_status := if fl_status r \<noteq> [] \<and> fl_status t = [] then fl_status r else fl_status t\<rparr>) (flow_transaction.more r)"

subsection \<open>The source audits\<close>

definition incident_for_source_row :: "row \<Rightarrow> string result" where
  "incident_for_source_row r =
     rbind (getitem r ''from'') (\<lambda>s.
       if lower s = ''0x68a0313e0919ab6f4574ab4f16477b776e096b43'' then Inr ''may-2025''
       else if lower s = ''0x113f0d7cfdcdf59be960905e0a86b09b28cc3cb6'' then Inr ''april-2026''
       else rbind (getitem r ''classification'') (\<lambda>c.
         Inr (if c = ''rollback_leak'' then ''smaller-2026''
              else if c = ''source_debit_absent'' then ''source-debit-absent'' else ''valid-control'')))"

text \<open>\<open>int(row.get(a) or row.get(b) or row[c])\<close> and \<open>int(row.get(a) or 0)\<close>.\<close>

fun first_filled :: "row \<Rightarrow> string list \<Rightarrow> string \<Rightarrow> string result" where
  "first_filled r [] k = getitem r k"
| "first_filled r (n # ns) k = (if get_or r n [] \<noteq> [] then Inr (get_or r n []) else first_filled r ns k)"

definition int_or_zero :: "row \<Rightarrow> string \<Rightarrow> int result" where
  "int_or_zero r k = (if get_or r k [] = [] then Inr 0 else py_int (get_or r k []))"

record source_facts =
  sf_hash :: string
  sf_block :: int
  sf_incident :: string
  sf_class_source :: string
  sf_class :: string
  sf_replay :: string
  sf_reference :: string
  sf_digest :: string
  sf_amount :: int
  sf_precompiles :: int
  sf_failed_paths :: int
  sf_status :: string
  sf_from :: string
  sf_to :: string
  sf_value :: int
  sf_selector :: string

definition read_source_row :: "row \<Rightarrow> source_facts result" where
  "read_source_row r =
     rbind (getitem r ''source_transaction_hash'') (\<lambda>h.
     rbind (rbind (first_filled r [''audit_source_block'', ''signed_source_block''] ''source_block'') py_int) (\<lambda>block.
     rbind (incident_for_source_row r) (\<lambda>incident. rbind (getitem r ''classification'') (\<lambda>c.
     rbind (int_cell r ''amount_atto'') (\<lambda>amount. rbind (int_or_zero r ''precompile_call_count'') (\<lambda>precompiles.
     rbind (int_or_zero r ''failed_precompile_path_count'') (\<lambda>failed_paths.
     rbind (getitem r ''source_transaction_from'') (\<lambda>sender. rbind (getitem r ''source_transaction_to'') (\<lambda>receiver.
     rbind (rbind (first_filled r [''source_transaction_value_atto''] ''amount_atto'') py_int) (\<lambda>v.
     rbind (getitem r ''source_input_selector'') (\<lambda>selector.
       Inr \<lparr>sf_hash = lower h, sf_block = block, sf_incident = incident,
            sf_class_source = get_or r ''classification_source'' [], sf_class = c,
            sf_replay = get_or r ''replay_classification'' [], sf_reference = get_or r ''independent_evidence_reference'' [],
            sf_digest = get_or r ''independent_evidence_sha256'' [], sf_amount = amount, sf_precompiles = precompiles,
            sf_failed_paths = failed_paths, sf_status = get_or r ''source_transaction_status'' [], sf_from = lower sender,
            sf_to = lower receiver, sf_value = v, sf_selector = selector\<rparr>)))))))))))"

text \<open>The methods that a classification source stands for.\<close>

definition methods_of :: "string \<Rightarrow> string list" where
  "methods_of c = ''existing-source-audit'' #
     (if c = [] then [''legacy-source-audit'']
      else (if sublist ''independent'' c then [''independent-source-debit-evidence''] else [])
         @ (if sublist ''compatible_replay'' c then [''compatible-source-replay''] else [])
         @ (if sublist ''direct_transaction'' c then [''direct-source-transaction''] else [])
         @ (if c = ''unresolved'' then [''incompatible-or-inconclusive-source-replay''] else []))"

definition add_labels :: "'a list \<Rightarrow> 'a list \<Rightarrow> 'a list" where
  "add_labels ls known = foldl (\<lambda>k l. add_label l k) known ls"

definition filled :: "string \<Rightarrow> string list" where
  "filled s = (if s = [] then [] else [s])"

definition add_source_facts :: "int \<Rightarrow> source_facts \<Rightarrow> flow_record \<Rightarrow> flow_record" where
  "add_source_facts shard x r = r\<lparr>
     fl_roles := add_label ''receipt-source'' (fl_roles r), fl_incidents := add_label (sf_incident x) (fl_incidents r),
     fl_methods := add_labels (methods_of (sf_class_source x)) (fl_methods r),
     fl_class_sources := add_labels (filled (sf_class_source x)) (fl_class_sources r),
     fl_classes := add_label (sf_class x) (fl_classes r), fl_replays := add_labels (filled (sf_replay x)) (fl_replays r),
     fl_references := add_labels (filled (sf_reference x)) (fl_references r),
     fl_digests := add_labels (filled (sf_digest x)) (fl_digests r),
     fl_directions := add_label (py_str shard @ ''->'' @ py_str (if shard = 0 then 1 else 0)) (fl_directions r),
     fl_receipts := fl_receipts r + 1, fl_amount := fl_amount r + sf_amount x,
     fl_precompiles := fl_precompiles r + sf_precompiles x, fl_failed_paths := fl_failed_paths r + sf_failed_paths x,
     fl_status := (if sf_status x \<noteq> [] then sf_status x else fl_status r), fl_from := sf_from x, fl_to := sf_to x,
     fl_value := sf_value x, fl_selector := JStr (sf_selector x)\<rparr>"

definition add_source_row :: "int \<Rightarrow> flow_records \<Rightarrow> row \<Rightarrow> flow_records result" where
  "add_source_row shard ds r = rbind (read_source_row r) (\<lambda>x.
     Inr (change_record ds shard (sf_hash x) (sf_block x) (add_source_facts shard x)))"

definition load_source_audit :: "int \<Rightarrow> flow_records \<Rightarrow> row list \<Rightarrow> flow_records result" where
  "load_source_audit shard ds rs = fold_r (add_source_row shard) ds rs"

subsection \<open>Completing records from the node\<close>

definition not_enriched :: "int \<Rightarrow> flow_records \<Rightarrow> (flow_key \<times> flow_record) list" where
  "not_enriched shard ds = filter (\<lambda>(k, r). fst k = shard \<and> fl_eth r = []) ds"

definition enrich_one :: "int \<Rightarrow> flow_records \<Rightarrow> (flow_key \<times> flow_record) \<times> json \<Rightarrow> flow_records result" where
  "enrich_one shard ds e =
     rbind (raise_if (snd e = JNull) (RuntimeError ''missing transaction'')) (\<lambda>_.
     rbind (normalize_transaction (snd e) shard) (\<lambda>t.
       Inr (AList.update (fst (fst e)) (merge_transaction (snd (fst e)) t) ds)))"

definition by_hash :: "flow_record \<Rightarrow> json list" where
  "by_hash r = [JStr (fl_hash r)]"

definition enrich_shard :: "flow_records \<Rightarrow> int \<times> exchange \<Rightarrow> flow_records result" where
  "enrich_shard ds se = (let es = not_enriched (fst se) ds in
     if es = [] then Inr ds
     else rbind (flow_rpc_batch (snd se) ''hmyv2_getTransactionByHash'' (map (by_hash \<circ> snd) es) 50) (\<lambda>results.
       fold_r (enrich_one (fst se)) ds (zip es results)))"

definition enrich_records :: "flow_records \<Rightarrow> (int \<times> exchange) list \<Rightarrow> flow_records result" where
  "enrich_records ds urls = fold_r enrich_shard ds urls"

text \<open>A transaction of an incident: its record, its role, and a key whose trace is wanted.\<close>

type_synonym scoped = "flow_records \<times> flow_key list"

definition add_scoped :: "string \<Rightarrow> string \<Rightarrow> scoped \<Rightarrow> json \<Rightarrow> scoped result" where
  "add_scoped incident role s t = rbind (normalize_transaction t 0) (\<lambda>n.
     Inr (change_record (fst s) 0 (fl_hash n) (fl_block n) (\<lambda>r. (merge_transaction r n)
            \<lparr>fl_roles := add_label role (fl_roles r), fl_incidents := add_label incident (fl_incidents r)\<rparr>),
          add_label (0, fl_hash n) (snd s)))"

definition scope_transaction :: "(int \<Rightarrow> bool) \<Rightarrow> string \<Rightarrow> string \<Rightarrow> scoped \<Rightarrow> json \<Rightarrow> scoped result" where
  "scope_transaction within incident role s t =
     rbind (rbind (subscript t ''blockNumber'') int_of) (\<lambda>b. if within b then add_scoped incident role s t else Inr s)"

definition in_drain :: "incident_config \<Rightarrow> int \<Rightarrow> bool" where
  "in_drain cfg b \<longleftrightarrow> cfg_drain_start cfg \<le> b \<and> b \<le> cfg_drain_end cfg"

definition scope_incident :: "exchange \<Rightarrow> scoped \<Rightarrow> string \<times> incident_config \<Rightarrow> scoped result" where
  "scope_incident exchange s ic = (let cfg = snd ic in
     rbind (transaction_history exchange (cfg_root cfg) ''SENT'') (\<lambda>root_history.
     rbind (fold_r (scope_transaction (\<lambda>b. cfg_root_cutoff cfg < b) (fst ic) ''root-post-mint'') s root_history) (\<lambda>s'.
     rbind (transaction_history exchange (cfg_contract cfg) ''RECEIVED'') (\<lambda>contract_history.
       fold_r (scope_transaction (in_drain cfg) (fst ic) ''initial-distribution-call'') s' contract_history))))"

definition add_history_scopes :: "exchange \<Rightarrow> flow_records \<Rightarrow> scoped result" where
  "add_history_scopes exchange ds = fold_r (scope_incident exchange) (ds, []) INCIDENTS"

definition add_path_transaction :: "scoped \<Rightarrow> json \<Rightarrow> scoped result" where
  "add_path_transaction s t = rbind (raise_if (t = JNull) (RuntimeError ''missing KuCoin path transaction'')) (\<lambda>_.
     add_scoped ''may-2025'' ''confirmed-kucoin-path'' s t)"

definition add_kucoin_path :: "exchange \<Rightarrow> scoped \<Rightarrow> scoped result" where
  "add_kucoin_path exchange s =
     rbind (flow_rpc_batch exchange ''hmyv2_getTransactionByHash'' (map (\<lambda>h. [JStr h]) KUCOIN_PATH_HASHES) 50)
       (fold_r add_path_transaction s)"

end
