(* ===== verification/ExploitFlow.thy ===== *)
theory ExploitFlow
  imports FlowRecords Trace
begin

section \<open>Traces, distribution and report of the exploit-flow export\<close>

text \<open>
  The traced transactions yield the value edges of their call trees, an edge being effective when no call on the way to it
  failed. What the incident contracts distributed effectively is compared with the present balances of the recipients.
\<close>

subsection \<open>Value edges of a call tree\<close>

record flow_edge =
  fe_incident :: string
  fe_shard :: int
  fe_block :: int
  fe_hash :: string
  fe_index :: int
  fe_depth :: int
  fe_type :: json
  fe_from :: string
  fe_to :: string
  fe_value :: int
  fe_effective :: bool
  fe_error :: json

record walk_state =
  ws_index :: int
  ws_record :: flow_record
  ws_edges :: "flow_edge list"

definition call_value :: "json \<Rightarrow> int result" where
  "call_value node = rbind (get_default node ''value'' (JStr ''0x0'')) (\<lambda>v.
     case v of JStr s \<Rightarrow> py_int16 s | _ \<Rightarrow> int_of (or_else v (JInt 0)))"

definition sorted_labels :: "string list \<Rightarrow> string" where
  "sorted_labels ls = join '';'' (sort ls)"

definition lower_get :: "json \<Rightarrow> string \<Rightarrow> string result" where
  "lower_get node k = rbind (rbind (get_default node k (JStr [])) text_of) (\<lambda>s. Inr (lower s))"

text \<open>The counters of one call, and of one call with a positive value.\<close>

definition count_visit :: "bool \<Rightarrow> flow_record \<Rightarrow> flow_record" where
  "count_visit own_error r = r\<lparr>fl_calls := fl_calls r + 1, fl_failed_calls := fl_failed_calls r + one_if own_error\<rparr>"

definition count_edge :: "bool \<Rightarrow> json \<Rightarrow> int \<Rightarrow> flow_record \<Rightarrow> flow_record" where
  "count_edge effective ct v r = (let destructs = effective \<and> ct = JStr ''SELFDESTRUCT'' in
     r\<lparr>fl_positive := fl_positive r + 1,
       fl_effective := fl_effective r + one_if effective,
       fl_effective_value := fl_effective_value r + (if effective then v else 0),
       fl_destructs := fl_destructs r + one_if destructs,
       fl_destruct_value := fl_destruct_value r + (if destructs then v else 0)\<rparr>)"

definition edge_at :: "flow_record \<Rightarrow> json \<Rightarrow> int \<Rightarrow> bool \<Rightarrow> int \<Rightarrow> int \<Rightarrow> flow_edge result" where
  "edge_at r node v failed_here depth index =
     rbind (get_default node ''type'' (JStr [])) (\<lambda>ct.
     rbind (lower_get node ''from'') (\<lambda>sender. rbind (lower_get node ''to'') (\<lambda>receiver.
     rbind (get_default node ''error'' (JStr [])) (\<lambda>err.
       Inr \<lparr>fe_incident = sorted_labels (fl_incidents r), fe_shard = fl_shard r, fe_block = fl_block r, fe_hash = fl_hash r,
            fe_index = index, fe_depth = depth, fe_type = ct, fe_from = sender, fe_to = receiver, fe_value = v,
            fe_effective = (\<not> failed_here), fe_error = err\<rparr>))))"

text \<open>The part of \<open>walk\<close> before the recursion.\<close>

definition walk_node :: "bool \<Rightarrow> int \<Rightarrow> walk_state \<Rightarrow> json \<Rightarrow> (walk_state \<times> bool) result" where
  "walk_node failed_ancestor depth s node =
     rbind (call_failed node) (\<lambda>own_error. rbind (call_value node) (\<lambda>v.
     let failed_here = failed_ancestor \<or> own_error; index = ws_index s + 1; r = count_visit own_error (ws_record s) in
     if 0 < v then rbind (edge_at r node v failed_here depth index) (\<lambda>edge.
       Inr (\<lparr>ws_index = index, ws_record = count_edge (\<not> failed_here) (fe_type edge) v r, ws_edges = ws_edges s @ [edge]\<rparr>, failed_here))
     else Inr (\<lparr>ws_index = index, ws_record = r, ws_edges = ws_edges s\<rparr>, failed_here)))"

function walk :: "bool \<Rightarrow> int \<Rightarrow> walk_state \<Rightarrow> json \<Rightarrow> walk_state result" where
  "walk failed_ancestor depth s node =
     rbind (walk_node failed_ancestor depth s node) (\<lambda>(s', failed_here).
     rbind (call_children node) (\<lambda>children. fold_r (walk failed_here (depth + 1)) s' children))"
  by pat_completeness auto
termination
  by (relation "measure (\<lambda>(f, d, s, node). weight node)") (auto dest: call_children_weight)

declare walk.simps [simp del]

text \<open>For evaluation: the walk by the form of the node.\<close>

lemma walk_code [code]:
  "walk f d s (JDict kvs) =
     rbind (walk_node f d s (JDict kvs)) (\<lambda>(s', failed_here).
     rbind (call_children (JDict kvs)) (\<lambda>children. fold_r (walk failed_here (d + 1)) s' children))"
  "walk f d s JNull = Inl (AttributeError ''get'')" "walk f d s (JBool b) = Inl (AttributeError ''get'')"
  "walk f d s (JInt n) = Inl (AttributeError ''get'')" "walk f d s (JStr t) = Inl (AttributeError ''get'')"
  "walk f d s (JList vs) = Inl (AttributeError ''get'')"
  by (simp_all add: walk.simps walk_node_def call_failed_def)

definition trace_key :: "flow_records \<Rightarrow> flow_key \<Rightarrow> int \<times> int \<times> string" where
  "trace_key ds k = (case map_of ds k of None \<Rightarrow> (0, 0, snd k) | Some r \<Rightarrow> (fl_block r, fl_index r, snd k))"

type_synonym traced = "flow_records \<times> flow_edge list"

definition trace_one :: "exchange \<Rightarrow> traced \<Rightarrow> flow_key \<Rightarrow> traced result" where
  "trace_one exchange s k = (case map_of (fst s) k of
     None \<Rightarrow> Inl (KeyError (snd k))
   | Some r \<Rightarrow>
       rbind (flow_rpc exchange ''debug_traceTransaction''
         [JStr (fl_hash r), JDict [(''tracer'', JStr ''callTracer''), (''timeout'', JStr ''120s'')]]) (\<lambda>trace.
       rbind (get_default trace ''error'' (JStr [])) (\<lambda>root_error.
       let r' = r\<lparr>fl_methods := add_label ''callTracer'' (fl_methods r), fl_root_error := root_error\<rparr> in
       rbind (walk False 0 \<lparr>ws_index = 0, ws_record = r', ws_edges = snd s\<rparr> trace) (\<lambda>w.
         Inr (AList.update k (ws_record w) (fst s), ws_edges w)))))"

definition trace_transactions :: "exchange \<Rightarrow> flow_records \<Rightarrow> flow_key list \<Rightarrow> traced result" where
  "trace_transactions exchange ds trace_keys = fold_r (trace_one exchange) (ds, []) (sort_key (trace_key ds) trace_keys)"

subsection \<open>Statuses\<close>

definition status_candidates :: "flow_records \<Rightarrow> (flow_key \<times> flow_record) list" where
  "status_candidates ds = filter (\<lambda>(k, r). ''callTracer'' \<in> set (fl_methods r) \<and> fl_status r = []) ds"

definition add_status :: "flow_records \<Rightarrow> (flow_key \<times> flow_record) \<times> json \<Rightarrow> flow_records result" where
  "add_status ds e = (if snd e = JNull then Inr ds
     else rbind (get_default (snd e) ''status'' (JStr [])) (\<lambda>v.
       Inr (AList.update (fst (fst e)) ((snd (fst e))\<lparr>fl_status := str_of v\<rparr>) ds)))"

definition add_receipt_statuses :: "exchange \<Rightarrow> flow_records \<Rightarrow> flow_records result" where
  "add_receipt_statuses exchange ds = (let es = status_candidates ds in
     rbind (flow_rpc_batch exchange ''hmyv2_getTransactionReceipt'' (map (by_hash \<circ> snd) es) 50) (\<lambda>results.
       fold_r add_status ds (zip es results)))"

subsection \<open>What the incident contracts distributed\<close>

definition account_field :: "exchange \<Rightarrow> string \<Rightarrow> string list \<Rightarrow> json \<Rightarrow> (string \<times> int) list result" where
  "account_field exchange name addresses block =
     rbind (flow_rpc_batch exchange name (map (\<lambda>a. [JStr a, block]) addresses) 100) (\<lambda>results.
       map_r (\<lambda>(a, v). rbind (int16_of v) (\<lambda>n. Inr (a, n))) (zip addresses results))"

definition is_distribution :: "flow_records \<Rightarrow> string \<Rightarrow> incident_config \<Rightarrow> flow_edge \<Rightarrow> bool result" where
  "is_distribution ds incident cfg e =
     (if fe_effective e \<and> fe_from e = cfg_contract cfg \<and> incident \<in> set (split_on CHR '';'' [] (fe_incident e))
      then (case map_of ds (0, fe_hash e) of None \<Rightarrow> Inl (KeyError (fe_hash e))
        | Some r \<Rightarrow> Inr (''initial-distribution-call'' \<in> set (fl_roles r)))
      else Inr False)"

definition receive :: "flow_records \<Rightarrow> string \<times> incident_config \<Rightarrow> (string, int) dict \<Rightarrow> flow_edge \<Rightarrow> (string, int) dict result" where
  "receive ds ic d e = rbind (is_distribution ds (fst ic) (snd ic) e) (\<lambda>counted.
     Inr (if counted then adjust 0 (fe_to e) (\<lambda>n. n + fe_value e) d else d))"

record distribution =
  di_recipients :: int
  di_distributed :: int
  di_held :: int
  di_moved :: int
  di_intact :: int
  di_zero :: int
  di_partial :: int
  di_nonce_zero_moved :: int
  di_nonce_positive_moved :: int

definition count_where :: "('a \<Rightarrow> bool) \<Rightarrow> 'a list \<Rightarrow> int" where
  "count_where P xs = sum_list (map (one_if \<circ> P) xs)"

text \<open>\<open>balances[address]\<close> and \<open>nonces[address]\<close> are present: both dictionaries have every recipient.\<close>

definition distribution_of :: "(string \<Rightarrow> int) \<Rightarrow> (string \<Rightarrow> int) \<Rightarrow> (string, int) dict \<Rightarrow> distribution" where
  "distribution_of balance nonce received =
     (let held = sum_list (map (\<lambda>(a, n). min n (balance a)) received); distributed = sum_list (map snd received) in
     \<lparr>di_recipients = int (length received), di_distributed = distributed, di_held = held, di_moved = distributed - held,
      di_intact = count_where (\<lambda>(a, n). n \<le> balance a) received,
      di_zero = count_where (\<lambda>(a, n). balance a = 0) received,
      di_partial = count_where (\<lambda>(a, n). 0 < balance a \<and> balance a < n) received,
      di_nonce_zero_moved = count_where (\<lambda>(a, n). balance a < n \<and> nonce a = 0) received,
      di_nonce_positive_moved = count_where (\<lambda>(a, n). balance a < n \<and> 0 < nonce a) received\<rparr>)"

definition received_by :: "flow_records \<Rightarrow> flow_edge list \<Rightarrow> string \<times> incident_config \<Rightarrow> (string \<times> (string, int) dict) result" where
  "received_by ds edges ic = rbind (fold_r (receive ds ic) [] edges) (\<lambda>d. Inr (fst ic, d))"

text \<open>\<open>sorted(all_recipients)\<close>.\<close>

definition all_recipients :: "(string \<times> (string, int) dict) list \<Rightarrow> string list" where
  "all_recipients received = sort (remdups (concat (map (\<lambda>(_, d). map fst d) received)))"

definition distribution_summary ::
  "exchange \<Rightarrow> flow_records \<Rightarrow> flow_edge list \<Rightarrow> (json \<times> (string \<times> distribution) list) result" where
  "distribution_summary exchange ds edges =
     rbind (flow_rpc exchange ''eth_blockNumber'' []) (\<lambda>head_hex.
     rbind (map_r (received_by ds edges) INCIDENTS) (\<lambda>received.
     let addresses = all_recipients received in
     rbind (account_field exchange ''eth_getBalance'' addresses head_hex) (\<lambda>balances.
     rbind (account_field exchange ''eth_getTransactionCount'' addresses head_hex) (\<lambda>nonces.
       Inr (head_hex, map (\<lambda>(i, d).
         (i, distribution_of (\<lambda>a. entry 0 balances a) (\<lambda>a. entry 0 nonces a) d)) received)))))"

subsection \<open>The report\<close>

definition ENTITY_NOTES :: "(string \<times> string) list" where
  "ENTITY_NOTES =
     [(''0x15e5bf28ee8516bb8b4eed5f1a85bec970dd821c'', ''KuCoin-linked Harmony hot/payout wallet''),
      (''0x2933782b5a8d72f2754103d1489614f29bfa4625'', ''publicly attributed KuCoin wallet''),
      (''0xd6216fc19db775df9774a6e33526131da7d19a2c'', ''publicly attributed KuCoin wallet'')]"

definition entity_notes :: "flow_record \<Rightarrow> string" where
  "entity_notes r = join ''; '' (concat (map (\<lambda>(field, a). case map_of ENTITY_NOTES a of
       None \<Rightarrow> [] | Some note \<Rightarrow> [field @ '': '' @ note]) [(''from'', fl_from r), (''to'', fl_to r)]))"

text \<open>A row of the transactions file: column and cell, as \<open>csv\<close> writes it.\<close>

definition transaction_cells :: "flow_record \<Rightarrow> (string \<times> string) list" where
  "transaction_cells r =
     [(''incident'', sorted_labels (fl_incidents r)), (''shard_id'', py_str (fl_shard r)), (''block_number'', py_str (fl_block r)),
      (''timestamp_unix'', py_str (fl_time r)), (''transaction_index'', py_str (fl_index r)), (''transaction_hash'', fl_hash r),
      (''eth_hash'', fl_eth r), (''from'', fl_from r), (''to'', fl_to r), (''value_atto'', py_str (fl_value r)),
      (''nonce'', py_str (fl_nonce r)), (''status'', fl_status r), (''input_selector'', csv_text (fl_selector r)),
      (''roles'', sorted_labels (fl_roles r)), (''trace_methods'', sorted_labels (fl_methods r)),
      (''trace_root_error'', csv_text (fl_root_error r)), (''trace_call_count'', py_str (fl_calls r)),
      (''trace_failed_call_count'', py_str (fl_failed_calls r)), (''trace_positive_value_edge_count'', py_str (fl_positive r)),
      (''trace_effective_value_edge_count'', py_str (fl_effective r)), (''trace_effective_value_atto'', py_str (fl_effective_value r)),
      (''trace_selfdestruct_edge_count'', py_str (fl_destructs r)), (''trace_selfdestruct_value_atto'', py_str (fl_destruct_value r)),
      (''receipt_count'', py_str (fl_receipts r)), (''receipt_amount_atto'', py_str (fl_amount r)),
      (''receipt_classifications'', sorted_labels (fl_classes r)), (''receipt_directions'', sorted_labels (fl_directions r)),
      (''source_audit_classification_sources'', sorted_labels (fl_class_sources r)),
      (''source_audit_replay_classifications'', sorted_labels (fl_replays r)),
      (''source_audit_evidence_references'', sorted_labels (fl_references r)),
      (''source_audit_evidence_sha256'', sorted_labels (fl_digests r)),
      (''source_audit_precompile_calls'', py_str (fl_precompiles r)),
      (''source_audit_failed_precompile_paths'', py_str (fl_failed_paths r)), (''entity_notes'', entity_notes r)]"

definition row_order :: "flow_record \<Rightarrow> int \<times> int \<times> int \<times> string" where
  "row_order r = (fl_shard r, fl_block r, fl_index r, fl_hash r)"

definition count_labels :: "(flow_record \<Rightarrow> string list) \<Rightarrow> flow_record list \<Rightarrow> (string, int) dict" where
  "count_labels f rs = sort_key fst (foldl (\<lambda>d l. adjust 0 l (\<lambda>n. n + 1) d) [] (concat (map f rs)))"

definition kucoin_boundary :: "flow_record list \<Rightarrow> int" where
  "kucoin_boundary rs = sum_list (map fl_value (filter (\<lambda>r. ''confirmed-kucoin-path'' \<in> set (fl_roles r)
     \<and> fl_to r = ''0x15e5bf28ee8516bb8b4eed5f1a85bec970dd821c'') rs))"

record flow_export =
  fx_rows :: "flow_record list"
  fx_edges :: "flow_edge list"
  fx_head :: int
  fx_roles :: "(string, int) dict"
  fx_incidents :: "(string, int) dict"
  fx_distribution :: "(string \<times> distribution) list"
  fx_kucoin :: int

definition collect_records :: "exchange \<Rightarrow> exchange \<Rightarrow> row list \<Rightarrow> row list \<Rightarrow> traced result" where
  "collect_records node0 node1 audit0 audit1 =
     rbind (load_source_audit 0 [] audit0) (\<lambda>ds0. rbind (load_source_audit 1 ds0 audit1) (\<lambda>ds1.
     rbind (enrich_records ds1 [(0, node0), (1, node1)]) (\<lambda>ds2.
     rbind (add_history_scopes node0 ds2) (\<lambda>s. rbind (add_kucoin_path node0 s) (\<lambda>s'.
     rbind (trace_transactions node0 (fst s') (snd s')) (\<lambda>t.
     rbind (add_receipt_statuses node0 (fst t)) (\<lambda>ds3. Inr (ds3, snd t))))))))"

definition export_flow :: "exchange \<Rightarrow> exchange \<Rightarrow> row list \<Rightarrow> row list \<Rightarrow> flow_export result" where
  "export_flow node0 node1 audit0 audit1 =
     rbind (collect_records node0 node1 audit0 audit1) (\<lambda>t.
     rbind (distribution_summary node0 (fst t) (snd t)) (\<lambda>head_summaries.
     rbind (int16_of (fst head_summaries)) (\<lambda>head.
     let rs = map snd (fst t) in
       Inr \<lparr>fx_rows = sort_key row_order rs, fx_edges = snd t, fx_head = head, fx_roles = count_labels fl_roles rs,
            fx_incidents = count_labels fl_incidents rs, fx_distribution = snd head_summaries,
            fx_kucoin = kucoin_boundary rs\<rparr>)))"

text \<open>The summary document; the file names and digests are those of the files written, \<open>now\<close> is the clock.\<close>

definition counts_json :: "(string, int) dict \<Rightarrow> json" where
  "counts_json d = JDict (map (\<lambda>(k, n). (k, JInt n)) d)"

definition distribution_json :: "distribution \<Rightarrow> json" where
  "distribution_json d = JDict
     [(''recipients'', JInt (di_recipients d)), (''distributed_atto'', JStr (py_str (di_distributed d))),
      (''held_cap_atto'', JStr (py_str (di_held d))), (''moved_or_spent_atto'', JStr (py_str (di_moved d))),
      (''intact_count'', JInt (di_intact d)), (''zero_balance_count'', JInt (di_zero d)), (''partial_count'', JInt (di_partial d)),
      (''nonce_zero_moved_count'', JInt (di_nonce_zero_moved d)),
      (''nonce_positive_moved_count'', JInt (di_nonce_positive_moved d))]"

definition flow_summary :: "int \<Rightarrow> (string \<times> string) \<times> (string \<times> string) \<Rightarrow> string \<times> string \<Rightarrow> flow_export \<Rightarrow> json" where
  "flow_summary now outputs audits x = JDict
     [(''generated_at_unix'', JInt now), (''balance_reference_block'', JInt (fx_head x)),
      (''transaction_rows'', JInt (int (length (fx_rows x)))), (''internal_value_edge_rows'', JInt (int (length (fx_edges x)))),
      (''role_counts'', counts_json (fx_roles x)), (''incident_counts'', counts_json (fx_incidents x)),
      (''distribution'', JDict (map (\<lambda>(i, d). (i, distribution_json d)) (fx_distribution x))),
      (''confirmed_kucoin_boundary_atto'', JStr (py_str (fx_kucoin x))),
      (''transactions_output'', JStr (fst (fst outputs))), (''transactions_sha256'', JStr (snd (fst outputs))),
      (''edges_output'', JStr (fst (snd outputs))), (''edges_sha256'', JStr (snd (snd outputs))),
      (''source_audits'', JDict [(''shard0'', JStr (fst audits)), (''shard1'', JStr (snd audits))]),
      (''limitations'', JList
        [JStr ''Source-audit rows retain their existing callTracer classification summary; individual source-audit internal edges are not re-exported.'',
         JStr ''The KuCoin amount is an exact on-chain path to a KuCoin-linked custody boundary, not proof of customer credit or sale.'',
         JStr ''Current-balance retention is capped at original first-hop receipt amount and does not identify ownership.''])]"

subsection \<open>The walk and the paths of the call tree\<close>

text \<open>
  The specification of the walk: the paths from the root of the tree, in the order of the walk, each with its number
  from one; the value of a path is that of its last call, and it is effective when no call on it failed.
\<close>

definition path_value :: "json list \<Rightarrow> int" where
  "path_value p = (case call_value (last p) of Inl _ \<Rightarrow> 0 | Inr v \<Rightarrow> v)"

definition got :: "json \<Rightarrow> string \<Rightarrow> json \<Rightarrow> json" where
  "got node k d = (case get_default node k d of Inl _ \<Rightarrow> d | Inr v \<Rightarrow> v)"

definition path_text :: "json list \<Rightarrow> string \<Rightarrow> string" where
  "path_text p k = (case lower_get (last p) k of Inl _ \<Rightarrow> [] | Inr s \<Rightarrow> s)"

definition path_edge :: "flow_record \<Rightarrow> bool \<Rightarrow> int \<Rightarrow> int \<times> json list \<Rightarrow> flow_edge" where
  "path_edge r f d ip = (let p = snd ip in
     \<lparr>fe_incident = sorted_labels (fl_incidents r), fe_shard = fl_shard r, fe_block = fl_block r, fe_hash = fl_hash r,
      fe_index = fst ip, fe_depth = d + int (length p) - 1, fe_type = got (last p) ''type'' (JStr []),
      fe_from = path_text p ''from'', fe_to = path_text p ''to'', fe_value = path_value p,
      fe_effective = (\<not> (f \<or> list_ex failed p)), fe_error = got (last p) ''error'' (JStr [])\<rparr>)"

definition count_visited :: "bool \<Rightarrow> flow_record \<Rightarrow> json list \<Rightarrow> flow_record" where
  "count_visited f r p = (let r' = count_visit (failed (last p)) r in
     if 0 < path_value p then count_edge (\<not> (f \<or> list_ex failed p)) (got (last p) ''type'' (JStr [])) (path_value p) r' else r')"

definition numbered :: "int \<Rightarrow> 'a list \<Rightarrow> (int \<times> 'a) list" where
  "numbered k xs = zip [k + 1..k + int (length xs)] xs"

lemma numbered_simps [simp]: "numbered k [] = []" "numbered k (x # xs) = (k + 1, x) # numbered (k + 1) xs"
  by (simp_all add: numbered_def upto_rec1 algebra_simps)

lemma numbered_append: "numbered k (xs @ ys) = numbered k xs @ numbered (k + int (length xs)) ys"
  by (induction xs arbitrary: k) (simp_all add: algebra_simps)

definition walked :: "bool \<Rightarrow> int \<Rightarrow> walk_state \<Rightarrow> json list list \<Rightarrow> walk_state" where
  "walked f d s ps = \<lparr>ws_index = ws_index s + int (length ps), ws_record = foldl (count_visited f) (ws_record s) ps,
     ws_edges = ws_edges s @ map (path_edge (ws_record s) f d) (filter (\<lambda>ip. 0 < path_value (snd ip)) (numbered (ws_index s) ps))\<rparr>"

lemma count_visited_same:
  "fl_incidents (count_visited f r p) = fl_incidents r" "fl_shard (count_visited f r p) = fl_shard r"
  "fl_block (count_visited f r p) = fl_block r" "fl_hash (count_visited f r p) = fl_hash r"
  by (simp_all add: count_visited_def count_visit_def count_edge_def Let_def)

lemma path_edge_visited: "path_edge (foldl (count_visited f) r ps) = path_edge r"
  by (induction ps arbitrary: r) (simp_all add: path_edge_def [abs_def] count_visited_same)

lemma walked_append: "walked f d s (ps @ qs) = walked f d (walked f d s ps) qs"
  by (simp add: walked_def numbered_append path_edge_visited algebra_simps)

lemma walked_Nil: "walked f d s [] = s"
  by (simp add: walked_def)

lemma walk_node_walked:
  assumes "walk_node f d s node = Inr (s', fh)"
  shows "s' = walked f d s [[node]] \<and> fh = (f \<or> failed node)"
proof -
  from assms obtain own v where own: "call_failed node = Inr own" and v: "call_value node = Inr v"
    and rest: "(if 0 < v then rbind (edge_at (count_visit own (ws_record s)) node v (f \<or> own) d (ws_index s + 1)) (\<lambda>edge.
       Inr (\<lparr>ws_index = ws_index s + 1, ws_record = count_edge (\<not> (f \<or> own)) (fe_type edge) v (count_visit own (ws_record s)),
             ws_edges = ws_edges s @ [edge]\<rparr>, f \<or> own))
     else Inr (\<lparr>ws_index = ws_index s + 1, ws_record = count_visit own (ws_record s), ws_edges = ws_edges s\<rparr>, f \<or> own)) = Inr (s', fh)"
    unfolding walk_node_def Let_def by (elim rbind_E) blast
  have fail: "failed node = own" using own by (simp add: failed_def)
  have pv: "path_value [node] = v" using v by (simp add: path_value_def)
  show ?thesis
  proof (cases "0 < v")
    case True
    with rest obtain edge where edge: "edge_at (count_visit own (ws_record s)) node v (f \<or> own) d (ws_index s + 1) = Inr edge"
      and s': "s' = \<lparr>ws_index = ws_index s + 1, ws_record = count_edge (\<not> (f \<or> own)) (fe_type edge) v (count_visit own (ws_record s)),
             ws_edges = ws_edges s @ [edge]\<rparr>" and fh: "fh = (f \<or> own)"
      by (auto simp: rbind_eq_Inr)
    from edge have e: "edge = path_edge (ws_record s) f d (ws_index s + 1, [node])" and ty: "fe_type edge = got node ''type'' (JStr [])"
      by (auto simp: edge_at_def rbind_eq_Inr path_edge_def path_text_def got_def pv fail count_visit_def)
    have "count_visited f (ws_record s) [node] = count_edge (\<not> (f \<or> own)) (fe_type edge) v (count_visit own (ws_record s))"
      using True by (simp add: count_visited_def pv fail ty)
    then show ?thesis using True by (simp add: s' fh walked_def fail pv e)
  next
    case False
    with rest show ?thesis by (auto simp: walked_def count_visited_def pv fail)
  qed
qed

lemma map_filter_numbered_cong:
  "(\<And>i p. p \<in> set ps \<Longrightarrow> P (h p) = P p \<and> (P p \<longrightarrow> g (i, h p) = g' (i, p))) \<Longrightarrow>
     map g (filter (\<lambda>ip. P (snd ip)) (numbered k (map h ps))) = map g' (filter (\<lambda>ip. P (snd ip)) (numbered k ps))"
  by (induction ps arbitrary: k) simp_all

lemma walked_child:
  assumes "fh = (f \<or> failed node)"
  shows "walked fh (d + 1) s (paths c) = walked f d s (map ((#) node) (paths c))"
proof -
  have p: "path_value (node # p) = path_value p \<and> path_edge r f d (i, node # p) = path_edge r fh (d + 1) (i, p)
      \<and> count_visited f r (node # p) = count_visited fh r p"
    if "p \<in> set (paths c)" for p r i
    using paths_nonempty [OF that] assms
    by (auto simp: path_value_def path_edge_def path_text_def count_visited_def Let_def)
  have "foldl (count_visited f) (ws_record s) (map ((#) node) (paths c)) = foldl (count_visited fh) (ws_record s) (paths c)"
    by (simp add: foldl_map p cong: foldl_cong_on)
  moreover have "map (path_edge (ws_record s) f d) (filter (\<lambda>ip. 0 < path_value (snd ip)) (numbered (ws_index s) (map ((#) node) (paths c))))
      = map (path_edge (ws_record s) fh (d + 1)) (filter (\<lambda>ip. 0 < path_value (snd ip)) (numbered (ws_index s) (paths c)))"
    by (rule map_filter_numbered_cong) (simp add: p)
  ultimately show ?thesis by (simp add: walked_def)
qed

lemma walk_paths: "walk f d s node = Inr s' \<Longrightarrow> s' = walked f d s (paths node)"
proof (induction f d s node arbitrary: s' rule: walk.induct)
  case (1 f d s node)
  from "1.prems" obtain s1 fh cs where s1: "walk_node f d s node = Inr (s1, fh)" and cs: "call_children node = Inr cs"
    and rest: "fold_r (walk fh (d + 1)) s1 cs = Inr s'"
    by (subst (asm) walk.simps) (auto simp: rbind_eq_Inr)
  from walk_node_walked [OF s1] have s1_eq: "s1 = walked f d s [[node]]" and fh: "fh = (f \<or> failed node)" by simp_all
  have "t' = walked f d t (concat (map (\<lambda>c. map ((#) node) (paths c)) ds))"
    if "set ds \<subseteq> set cs" and "fold_r (walk fh (d + 1)) t ds = Inr t'" for ds t t'
    using that
  proof (induction ds arbitrary: t)
    case (Cons c ds)
    from Cons.prems(2) obtain u where u: "walk fh (d + 1) t c = Inr u" and ds: "fold_r (walk fh (d + 1)) u ds = Inr t'"
      by (auto simp: rbind_eq_Inr)
    have "c \<in> set cs" using Cons.prems(1) by simp
    from "1.IH" [OF s1 refl cs this u] have "u = walked fh (d + 1) t (paths c)" .
    then have "u = walked f d t (map ((#) node) (paths c))" by (simp only: walked_child [OF fh])
    then show ?case using Cons.IH [OF _ ds] Cons.prems(1) by (simp add: walked_append)
  qed (simp add: walked_Nil)
  from this [OF subset_refl rest] have "s' = walked f d s ([[node]] @ concat (map (\<lambda>c. map ((#) node) (paths c)) cs))"
    by (simp only: s1_eq walked_append)
  moreover have "[[node]] @ concat (map (\<lambda>c. map ((#) node) (paths c)) cs) = paths node"
    by (subst (2) paths.simps) (simp add: children_def cs)
  ultimately show ?case by (simp only:)
qed

subsection \<open>The counters of a traced record\<close>

definition edges_of :: "flow_record \<Rightarrow> json \<Rightarrow> flow_edge list" where
  "edges_of r trace = map (path_edge r False 0) (filter (\<lambda>ip. 0 < path_value (snd ip)) (numbered 0 (paths trace)))"

definition value_paths :: "json \<Rightarrow> json list list" where
  "value_paths trace = filter (\<lambda>p. 0 < path_value p) (paths trace)"

definition effective_paths :: "json \<Rightarrow> json list list" where
  "effective_paths trace = filter (\<lambda>p. 0 < path_value p \<and> \<not> list_ex failed p) (paths trace)"

lemma visited_counts:
  fixes r ps
  defines "r' \<equiv> foldl (count_visited False) r ps"
  shows "fl_calls r' = fl_calls r + int (length ps)"
    and "fl_failed_calls r' = fl_failed_calls r + int (length (filter (\<lambda>p. failed (last p)) ps))"
    and "fl_positive r' = fl_positive r + int (length (filter (\<lambda>p. 0 < path_value p) ps))"
    and "fl_effective r' = fl_effective r + int (length (filter (\<lambda>p. 0 < path_value p \<and> \<not> list_ex failed p) ps))"
    and "fl_effective_value r' = fl_effective_value r + (\<Sum>p\<leftarrow>filter (\<lambda>p. 0 < path_value p \<and> \<not> list_ex failed p) ps. path_value p)"
  unfolding r'_def
  by (induction ps arbitrary: r) (simp_all add: count_visited_def count_visit_def count_edge_def Let_def one_if_def)

text \<open>What the trace of one key adds: \<open>es\<close> are its edges.\<close>

definition traced_as :: "exchange \<Rightarrow> flow_records \<Rightarrow> flow_records \<Rightarrow> flow_key \<Rightarrow> flow_edge list \<Rightarrow> bool" where
  "traced_as exchange ds ds' k es \<longleftrightarrow> (\<exists>r r' trace. map_of ds k = Some r \<and> map_of ds' k = Some r'
     \<and> flow_rpc exchange ''debug_traceTransaction''
         [JStr (fl_hash r), JDict [(''tracer'', JStr ''callTracer''), (''timeout'', JStr ''120s'')]] = Inr trace
     \<and> es = edges_of r trace
     \<and> fl_calls r' = fl_calls r + int (length (paths trace))
     \<and> fl_failed_calls r' = fl_failed_calls r + int (length (filter (\<lambda>p. failed (last p)) (paths trace)))
     \<and> fl_positive r' = fl_positive r + int (length (value_paths trace))
     \<and> fl_effective r' = fl_effective r + int (length (effective_paths trace))
     \<and> fl_effective_value r' = fl_effective_value r + (\<Sum>p\<leftarrow>effective_paths trace. path_value p))"

lemma trace_one_E:
  assumes "trace_one exchange s k = Inr s'"
  obtains r trace root_error w where "map_of (fst s) k = Some r"
    and "walk False 0 \<lparr>ws_index = 0, ws_record = r\<lparr>fl_methods := add_label ''callTracer'' (fl_methods r), fl_root_error := root_error\<rparr>,
        ws_edges = snd s\<rparr> trace = Inr w" and "s' = (AList.update k (ws_record w) (fst s), ws_edges w)"
    and "flow_rpc exchange ''debug_traceTransaction''
         [JStr (fl_hash r), JDict [(''tracer'', JStr ''callTracer''), (''timeout'', JStr ''120s'')]] = Inr trace"
  using assms unfolding trace_one_def Let_def by (auto simp: rbind_eq_Inr split: option.splits)

lemma trace_one_traced:
  assumes "trace_one exchange s k = Inr s'"
  shows "\<exists>es. traced_as exchange (fst s) (fst s') k es \<and> snd s' = snd s @ es \<and> (\<forall>j. j \<noteq> k \<longrightarrow> map_of (fst s') j = map_of (fst s) j)"
proof -
  from assms obtain r trace root_error w where r: "map_of (fst s) k = Some r"
    and w: "walk False 0 \<lparr>ws_index = 0, ws_record = r\<lparr>fl_methods := add_label ''callTracer'' (fl_methods r), fl_root_error := root_error\<rparr>,
        ws_edges = snd s\<rparr> trace = Inr w" and s': "s' = (AList.update k (ws_record w) (fst s), ws_edges w)"
    and t: "flow_rpc exchange ''debug_traceTransaction''
         [JStr (fl_hash r), JDict [(''tracer'', JStr ''callTracer''), (''timeout'', JStr ''120s'')]] = Inr trace"
    by (rule trace_one_E)
  have pe: "path_edge (r\<lparr>fl_methods := m, fl_root_error := e\<rparr>) = path_edge r" for m e
    by (simp add: path_edge_def [abs_def])
  show ?thesis
    using walk_paths [OF w] r t
    by (intro exI [of _ "edges_of r trace"])
      (auto simp: traced_as_def s' update_conv' walked_def edges_of_def pe visited_counts value_paths_def effective_paths_def)
qed

lemma traced_as_cong:
  "map_of ds k = map_of es k \<Longrightarrow> map_of ds' k = map_of es' k \<Longrightarrow> traced_as exchange ds ds' k xs = traced_as exchange es es' k xs"
  by (simp only: traced_as_def)

lemma trace_fold:
  "fold_r (trace_one exchange) s ks = Inr s' \<Longrightarrow> distinct ks \<Longrightarrow>
     (\<exists>ess. list_all2 (traced_as exchange (fst s) (fst s')) ks ess \<and> snd s' = snd s @ concat ess)
     \<and> (\<forall>j. j \<notin> set ks \<longrightarrow> map_of (fst s') j = map_of (fst s) j)"
proof (induction ks arbitrary: s)
  case (Cons k ks)
  from Cons.prems(1) obtain t where t: "trace_one exchange s k = Inr t" and rest: "fold_r (trace_one exchange) t ks = Inr s'"
    by (auto simp: rbind_eq_Inr)
  from trace_one_traced [OF t] obtain es where es: "traced_as exchange (fst s) (fst t) k es" "snd t = snd s @ es"
      "\<forall>j. j \<noteq> k \<longrightarrow> map_of (fst t) j = map_of (fst s) j" by blast
  from Cons.IH [OF rest] Cons.prems(2) obtain ess where ess: "list_all2 (traced_as exchange (fst t) (fst s')) ks ess"
      "snd s' = snd t @ concat ess" and others: "\<forall>j. j \<notin> set ks \<longrightarrow> map_of (fst s') j = map_of (fst t) j" by auto
  have "map_of (fst s') k = map_of (fst t) k" using others Cons.prems(2) by (metis distinct.simps(2))
  then have "traced_as exchange (fst s) (fst s') k es" using es(1) traced_as_cong [OF refl] by blast
  moreover have "list_all2 (traced_as exchange (fst s) (fst s')) ks ess"
    using ess(1)
  proof (rule list.rel_mono_strong)
    fix j e assume "j \<in> set ks" and "e \<in> set ess" and "traced_as exchange (fst t) (fst s') j e"
    moreover from this have "map_of (fst t) j = map_of (fst s) j" using es(3) Cons.prems(2) by (metis distinct.simps(2))
    ultimately show "traced_as exchange (fst s) (fst s') j e" using traced_as_cong [OF _ refl] by blast
  qed
  ultimately have "list_all2 (traced_as exchange (fst s) (fst s')) (k # ks) (es # ess) \<and> snd s' = snd s @ concat (es # ess)"
    using ess(2) es(2) by simp
  moreover have "map_of (fst s') j = map_of (fst s) j" if "j \<notin> set (k # ks)" for j
    using that es(3) others by (metis list.set_intros(1) list.set_intros(2))
  ultimately show ?case by blast
qed simp

end
