(* ===== verification/ExploitFlowProofs.thy ===== *)
theory ExploitFlowProofs
  imports ExploitFlow
begin

section \<open>What the exploit-flow export establishes\<close>

text \<open>
  The receipts of the source audits are neither lost nor counted twice on the way through the records; the edges and counters
  of the traced transactions are those of the paths of their call trees; and the distribution of an incident closes.
\<close>

subsection \<open>Receipts are conserved\<close>

text \<open>
  The interface of a counter that only the source audits feed: the node may complete a record, and a trace may
  add to it, without touching the counter.
\<close>

locale audit_counter =
  fixes g :: "flow_record \<Rightarrow> int" and amount :: "source_facts \<Rightarrow> int" and row_amount :: "row \<Rightarrow> int"
  assumes blank: "g (blank_record shard h block) = 0"
    and facts: "g (add_source_facts shard x r) = g r + amount x"
    and merged: "g (merge_transaction r t) = g r"
    and labelled: "g (r\<lparr>fl_roles := roles, fl_incidents := incidents\<rparr>) = g r"
    and traced: "g (r\<lparr>fl_methods := methods, fl_root_error := root_error\<rparr>) = g r"
    and visited: "g (count_visited f r p) = g r"
    and with_status: "g (r\<lparr>fl_status := st\<rparr>) = g r"
    and of_row: "read_source_row w = Inr x \<Longrightarrow> amount x = row_amount w"
begin

lemma update_keeps:
  "distinct (keys ds) \<Longrightarrow> map_of ds k = Some r \<Longrightarrow> g r' = g r \<Longrightarrow>
     distinct (keys (AList.update k r' ds)) \<and> total_of g (AList.update k r' ds) = total_of g ds"
  by (simp add: total_of_update distinct_update del: set_map)

lemma change_total:
  assumes "distinct (keys ds)" and "\<And>r. g (f r) = g r + c"
  shows "distinct (keys (change_record ds shard h block f)) \<and> total_of g (change_record ds shard h block f) = total_of g ds + c"
  unfolding change_record_def using assms distinct_adjust [OF assms(1)] by (simp add: total_of_adjust blank del: set_map)

lemma add_source_row_total:
  assumes "add_source_row shard ds r = Inr ds'" and "distinct (keys ds)"
  shows "distinct (keys ds') \<and> total_of g ds' = total_of g ds + row_amount r"
proof -
  from assms(1) obtain x where x: "read_source_row r = Inr x"
    and ds': "ds' = change_record ds shard (sf_hash x) (sf_block x) (add_source_facts shard x)"
    by (auto simp: add_source_row_def rbind_eq_Inr)
  show ?thesis unfolding ds' of_row [OF x, symmetric] by (rule change_total [OF assms(2) facts])
qed

lemma load_total:
  "load_source_audit shard ds rs = Inr ds' \<Longrightarrow> distinct (keys ds) \<Longrightarrow>
     distinct (keys ds') \<and> total_of g ds' = total_of g ds + sum_list (map row_amount rs)"
  unfolding load_source_audit_def
proof (induction rs arbitrary: ds)
  case (Cons r rs)
  from Cons.prems(1) obtain t where t: "add_source_row shard ds r = Inr t" and rest: "fold_r (add_source_row shard) t rs = Inr ds'"
    by (auto simp: rbind_eq_Inr)
  from Cons.IH [OF rest] add_source_row_total [OF t Cons.prems(2)] show ?case by simp
qed simp

text \<open>A loop over entries read before it, that changes each of them at most once.\<close>

lemma stale_loop:
  assumes step: "\<And>ds e ds'. step ds e = Inr ds' \<Longrightarrow> ds' = ds \<or> (\<exists>r'. ds' = AList.update (fst (fst e)) r' ds \<and> g r' = g (snd (fst e)))"
  shows "fold_r step ds (zip es vs) = Inr ds' \<Longrightarrow> distinct (keys ds) \<Longrightarrow> distinct (map fst es) \<Longrightarrow>
     (\<forall>e \<in> set es. map_of ds (fst e) = Some (snd e)) \<Longrightarrow> distinct (keys ds') \<and> total_of g ds' = total_of g ds"
proof (induction es arbitrary: ds vs)
  case (Cons e es)
  show ?case
  proof (cases vs)
    case Nil
    then show ?thesis using Cons.prems by simp
  next
    case (Cons v ws)
    with Cons.prems(1) obtain t where t: "step ds (e, v) = Inr t" and rest: "fold_r step t (zip es ws) = Inr ds'"
      by (auto simp: rbind_eq_Inr)
    have e: "map_of ds (fst e) = Some (snd e)" and fresh: "fst e \<notin> fst ` set es" using Cons.prems(3,4) by simp_all
    from step [OF t] consider "t = ds" | r' where "t = AList.update (fst e) r' ds" "g r' = g (snd e)" by auto
    then have "distinct (keys t) \<and> total_of g t = total_of g ds \<and> (\<forall>e' \<in> set es. map_of t (fst e') = Some (snd e'))"
    proof cases
      case 1
      then show ?thesis using Cons.prems by simp
    next
      case 2
      have "map_of t (fst e') = Some (snd e')" if "e' \<in> set es" for e'
      proof -
        have "fst e' \<noteq> fst e" using that fresh by (metis image_eqI)
        then show ?thesis using that Cons.prems(4) by (simp add: 2(1) update_conv')
      qed
      then show ?thesis using update_keeps [OF Cons.prems(2) e 2(2)] by (simp only: 2(1)) blast
    qed
    then show ?thesis using Cons.IH [OF rest] Cons.prems(3) by simp
  qed
qed simp

lemma filtered_entries:
  assumes "distinct (keys ds)"
  shows "distinct (keys (filter P ds))" and "\<forall>e \<in> set (filter P ds). map_of ds (fst e) = Some (snd e)"
  using assms by (auto simp: distinct_map_filter)

lemma enrich_one_keeps:
  "enrich_one shard ds e = Inr ds' \<Longrightarrow> ds' = ds \<or> (\<exists>r'. ds' = AList.update (fst (fst e)) r' ds \<and> g r' = g (snd (fst e)))"
  by (auto simp: enrich_one_def rbind_eq_Inr merged)

lemma add_status_keeps:
  "add_status ds e = Inr ds' \<Longrightarrow> ds' = ds \<or> (\<exists>r'. ds' = AList.update (fst (fst e)) r' ds \<and> g r' = g (snd (fst e)))"
  by (auto simp: add_status_def rbind_eq_Inr with_status split: if_split_asm)

lemma enrich_shard_keeps:
  assumes "enrich_shard ds se = Inr ds'" and "distinct (keys ds)"
  shows "distinct (keys ds') \<and> total_of g ds' = total_of g ds"
proof (cases "not_enriched (fst se) ds = []")
  case True
  then show ?thesis using assms by (simp add: enrich_shard_def)
next
  case False
  with assms(1) obtain vs where run: "fold_r (enrich_one (fst se)) ds (zip (not_enriched (fst se) ds) vs) = Inr ds'"
    by (auto simp: enrich_shard_def Let_def rbind_eq_Inr)
  show ?thesis
    by (rule stale_loop [where step = "enrich_one (fst se)", OF enrich_one_keeps [where shard = "fst se"] run assms(2)])
      (assumption, unfold not_enriched_def, rule filtered_entries [OF assms(2)], rule filtered_entries [OF assms(2)])
qed

lemma enrich_keeps:
  "enrich_records ds urls = Inr ds' \<Longrightarrow> distinct (keys ds) \<Longrightarrow> distinct (keys ds') \<and> total_of g ds' = total_of g ds"
  unfolding enrich_records_def
proof (induction urls arbitrary: ds)
  case (Cons u urls)
  from Cons.prems(1) obtain t where "enrich_shard ds u = Inr t" and rest: "fold_r enrich_shard t urls = Inr ds'"
    by (auto simp: rbind_eq_Inr)
  with enrich_shard_keeps Cons.prems(2) Cons.IH [OF rest] show ?case by fastforce
qed simp

lemma statuses_keep:
  assumes "add_receipt_statuses exchange ds = Inr ds'" and "distinct (keys ds)"
  shows "distinct (keys ds') \<and> total_of g ds' = total_of g ds"
proof -
  from assms(1) obtain vs where run: "fold_r add_status ds (zip (status_candidates ds) vs) = Inr ds'"
    by (auto simp: add_receipt_statuses_def Let_def rbind_eq_Inr)
  show ?thesis
    by (rule stale_loop [where step = add_status, OF add_status_keeps run assms(2)])
      (assumption, unfold status_candidates_def, rule filtered_entries [OF assms(2)], rule filtered_entries [OF assms(2)])
qed

definition kept :: "flow_records \<Rightarrow> flow_records \<Rightarrow> bool" where
  "kept ds ds' \<longleftrightarrow> (distinct (keys ds) \<longrightarrow> distinct (keys ds') \<and> total_of g ds' = total_of g ds)"

lemma kept_refl: "kept ds ds" and kept_trans: "kept ds es \<Longrightarrow> kept es fs \<Longrightarrow> kept ds fs"
  by (auto simp: kept_def)

lemma kept_fold:
  assumes "\<And>s x s'. step s x = Inr s' \<Longrightarrow> kept (fst s) (fst s')"
  shows "fold_r step s xs = Inr s' \<Longrightarrow> kept (fst s) (fst s')"
proof (induction xs arbitrary: s)
  case (Cons x xs)
  from Cons.prems obtain t where t: "step s x = Inr t" and rest: "fold_r step t xs = Inr s'" by (auto simp: rbind_eq_Inr)
  show ?case by (rule kept_trans [OF assms [OF t] Cons.IH [OF rest]])
qed (simp add: kept_refl)

lemma scoped_kept: "add_scoped incident role s t = Inr s' \<Longrightarrow> kept (fst s) (fst s')"
  using change_total [of "fst s" _ 0] by (auto simp: add_scoped_def rbind_eq_Inr kept_def merged labelled simp del: set_map)

lemma scope_transaction_kept: "scope_transaction within incident role s t = Inr s' \<Longrightarrow> kept (fst s) (fst s')"
  by (auto simp: scope_transaction_def rbind_eq_Inr kept_refl split: if_split_asm dest: scoped_kept)

lemma scope_incident_kept:
  assumes "scope_incident exchange s ic = Inr s'"
  shows "kept (fst s) (fst s')"
proof -
  from assms obtain root_history u contract_history
    where u: "fold_r (scope_transaction (\<lambda>b. cfg_root_cutoff (snd ic) < b) (fst ic) ''root-post-mint'') s root_history = Inr u"
      and s': "fold_r (scope_transaction (in_drain (snd ic)) (fst ic) ''initial-distribution-call'') u contract_history = Inr s'"
    unfolding scope_incident_def Let_def by (elim rbind_E) blast
  show ?thesis
    by (rule kept_trans [OF kept_fold [OF _ u] kept_fold [OF _ s']]) (erule scope_transaction_kept)+
qed

lemma history_kept: "add_history_scopes exchange ds = Inr s' \<Longrightarrow> kept ds (fst s')"
  unfolding add_history_scopes_def using kept_fold [where step = "scope_incident exchange" and s = "(ds, [])", OF scope_incident_kept] by auto

lemma kucoin_kept: "add_kucoin_path exchange s = Inr s' \<Longrightarrow> kept (fst s) (fst s')"
  unfolding add_kucoin_path_def
  by (elim rbind_E) (rule kept_fold [where step = add_path_transaction],
      auto simp: add_path_transaction_def rbind_eq_Inr dest: scoped_kept)

lemma visited_all: "g (foldl (count_visited f) r ps) = g r"
  by (induction ps arbitrary: r) (simp_all add: visited)

lemma trace_one_kept:
  assumes "trace_one exchange s k = Inr s'"
  shows "kept (fst s) (fst s')"
proof -
  from assms obtain r trace root_error w where r: "map_of (fst s) k = Some r"
    and w: "walk False 0 \<lparr>ws_index = 0, ws_record = r\<lparr>fl_methods := add_label ''callTracer'' (fl_methods r), fl_root_error := root_error\<rparr>,
        ws_edges = snd s\<rparr> trace = Inr w" and s': "s' = (AList.update k (ws_record w) (fst s), ws_edges w)"
    by (rule trace_one_E)
  have "g (ws_record w) = g r" by (simp add: walk_paths [OF w] walked_def visited_all traced)
  then show ?thesis using update_keeps [OF _ r] by (simp add: kept_def s' del: set_map)
qed

lemma trace_kept: "trace_transactions exchange ds ks = Inr s' \<Longrightarrow> kept ds (fst s')"
  unfolding trace_transactions_def using kept_fold [where step = "trace_one exchange" and s = "(ds, [])", OF trace_one_kept] by auto

lemma collect_total:
  assumes "collect_records node0 node1 audit0 audit1 = Inr t"
  shows "distinct (keys (fst t)) \<and> total_of g (fst t) = sum_list (map row_amount (audit0 @ audit1))"
proof -
  from assms obtain ds0 ds1 ds2 s s' u ds3 where ds: "load_source_audit 0 [] audit0 = Inr ds0" "load_source_audit 1 ds0 audit1 = Inr ds1"
      "enrich_records ds1 [(0, node0), (1, node1)] = Inr ds2" "add_history_scopes node0 ds2 = Inr s" "add_kucoin_path node0 s = Inr s'"
      "trace_transactions node0 (fst s') (snd s') = Inr u" "add_receipt_statuses node0 (fst u) = Inr ds3" and t: "t = (ds3, snd u)"
    unfolding collect_records_def by (elim rbind_E) auto
  have "distinct (keys ds0) \<and> total_of g ds0 = sum_list (map row_amount audit0)"
    using load_total [OF ds(1)] by (simp add: total_of_def)
  then have "distinct (keys ds1) \<and> total_of g ds1 = sum_list (map row_amount (audit0 @ audit1))"
    using load_total [OF ds(2)] by simp
  then have "distinct (keys ds2) \<and> total_of g ds2 = sum_list (map row_amount (audit0 @ audit1))"
    using enrich_keeps [OF ds(3)] by simp
  moreover have "kept ds2 (fst u)"
    using history_kept [OF ds(4)] kucoin_kept [OF ds(5)] trace_kept [OF ds(6)] by (blast intro: kept_trans)
  ultimately have "distinct (keys (fst u)) \<and> total_of g (fst u) = sum_list (map row_amount (audit0 @ audit1))"
    by (simp add: kept_def)
  then show ?thesis using statuses_keep [OF ds(7)] by (simp add: t)
qed

end

lemmas counter_defs = blank_record_def add_source_facts_def count_visited_def count_visit_def count_edge_def Let_def

lemma merged_counters:
  "fl_amount (merge_transaction r t) = fl_amount r" "fl_receipts (merge_transaction r t) = fl_receipts r"
  "fl_roles (merge_transaction r t) = fl_roles r" "fl_incidents (merge_transaction r t) = fl_incidents r"
  by (cases r, simp add: merge_transaction_def flow_transaction.extend_def)+

interpretation amount_counter: audit_counter fl_amount sf_amount "\<lambda>r. cell_int r ''amount_atto''"
  by unfold_locales (auto simp: counter_defs merged_counters read_source_row_def rbind_eq_Inr dest: int_cell_Inr)

interpretation receipt_counter: audit_counter fl_receipts "\<lambda>_. 1" "\<lambda>_. 1"
  by unfold_locales (auto simp: counter_defs merged_counters)

subsection \<open>The distribution of an incident\<close>

interpretation receive_loop: tallying_loop "receive ds ic" id 0 fe_to "\<lambda>e. is_distribution ds (fst ic) (snd ic) e = Inr True" id fe_value for ds ic
  by unfold_locales (auto simp: receive_def rbind_eq_Inr)

lemma receive_total:
  assumes "fold_r (receive ds ic) [] edges = Inr d"
  shows "sum_list (map snd d) = sum_list (map fe_value (filter (\<lambda>e. is_distribution ds (fst ic) (snd ic) e = Inr True) edges))"
  using receive_loop.run_total [OF assms] by (simp add: total_of_def)

lemma receive_distinct: "fold_r (receive ds ic) [] edges = Inr d \<Longrightarrow> distinct (keys d)"
  by (drule receive_loop.run_total) simp_all

lemma set_update_subset: "set (AList.update k v d) \<subseteq> insert (k, v) (set d)"
  by (induction d) auto

lemma receive_step:
  assumes "receive ds ic d e = Inr d'" and "0 < fe_value e" and "\<forall>kv \<in> set d. 0 < snd kv"
  shows "\<forall>kv \<in> set d'. 0 < snd kv"
proof -
  have "0 \<le> entry 0 d (fe_to e)"
    using assms(3) by (auto simp: entry_def get_or_def less_imp_le split: option.split dest!: map_of_SomeD)
  then have "\<forall>kv \<in> set (adjust 0 (fe_to e) (\<lambda>n. n + fe_value e) d). 0 < snd kv"
    using assms(2,3) set_update_subset unfolding adjust_def by fastforce
  then show ?thesis using assms(1,3) by (auto simp: receive_def rbind_eq_Inr split: if_split_asm)
qed

lemma receive_positive:
  "fold_r (receive ds ic) d edges = Inr d' \<Longrightarrow> (\<forall>e \<in> set edges. 0 < fe_value e) \<Longrightarrow> (\<forall>kv \<in> set d. 0 < snd kv) \<Longrightarrow> (\<forall>kv \<in> set d'. 0 < snd kv)"
proof (induction edges arbitrary: d)
  case (Cons e es)
  from Cons.prems(1) obtain t where t: "receive ds ic d e = Inr t" and rest: "fold_r (receive ds ic) t es = Inr d'"
    by (auto simp: rbind_eq_Inr)
  have "\<forall>kv \<in> set t. 0 < snd kv" by (rule receive_step [OF t _ Cons.prems(3)]) (use Cons.prems(2) in simp)
  then show ?case by (intro Cons.IH [OF rest]) (use Cons.prems(2) in simp_all)
qed simp

lemma count_where_Cons: "count_where P (x # xs) = one_if (P x) + count_where P xs"
  by (simp add: count_where_def)

lemma distribution_sums:
  assumes "\<forall>kv \<in> set received. 0 < snd kv" and "\<forall>a. 0 \<le> balance a" and "\<forall>a. 0 \<le> nonce a"
  shows "let d = distribution_of balance nonce received in
      0 \<le> di_held d \<and> di_held d \<le> di_distributed d \<and> di_intact d + di_partial d + di_zero d = di_recipients d
    \<and> di_nonce_zero_moved d + di_nonce_positive_moved d = di_partial d + di_zero d"
  using assms(1)
proof (induction received)
  case (Cons kv received)
  obtain a n where kv: "kv = (a, n)" by (cases kv)
  have "0 < n" "0 \<le> balance a" "0 \<le> nonce a" using Cons.prems assms(2,3) by (auto simp: kv)
  then show ?case using Cons by (auto simp: distribution_of_def Let_def count_where_Cons one_if_def kv)
qed (simp add: distribution_of_def count_where_def)

lemma trace_edges_positive:
  "fold_r (trace_one exchange) s ks = Inr s' \<Longrightarrow> (\<forall>e \<in> set (snd s). 0 < fe_value e) \<Longrightarrow> (\<forall>e \<in> set (snd s'). 0 < fe_value e)"
proof (induction ks arbitrary: s)
  case (Cons k ks)
  from Cons.prems(1) obtain t where t: "trace_one exchange s k = Inr t" and rest: "fold_r (trace_one exchange) t ks = Inr s'"
    by (auto simp: rbind_eq_Inr)
  from trace_one_traced [OF t] obtain es where es: "traced_as exchange (fst s) (fst t) k es" and t_edges: "snd t = snd s @ es" by blast
  have "\<forall>e \<in> set es. 0 < fe_value e" using es by (auto simp: traced_as_def edges_of_def path_edge_def Let_def)
  then show ?case using Cons.IH [OF rest] Cons.prems(2) t_edges by auto
qed simp

text \<open>The entries that \<open>account_field\<close> reads are for the addresses asked about.\<close>

definition accounts_nonnegative :: "exchange \<Rightarrow> bool" where
  "accounts_nonnegative exchange \<longleftrightarrow>
     (\<forall>name addresses block vs. account_field exchange name addresses block = Inr vs \<longrightarrow> (\<forall>kv \<in> set vs. 0 \<le> snd kv))"

lemma entry_nonnegative: "\<forall>kv \<in> set d. 0 \<le> snd kv \<Longrightarrow> 0 \<le> entry 0 d a" for d :: "(string, int) dict"
  by (auto simp: entry_def get_or_def split: option.split dest!: map_of_SomeD)

lemma export_flow_E:
  assumes "export_flow node0 node1 audit0 audit1 = Inr x"
  obtains ds edges head_hex summaries where "collect_records node0 node1 audit0 audit1 = Inr (ds, edges)"
    and "distribution_summary node0 ds edges = Inr (head_hex, summaries)"
    and "fx_rows x = sort_key row_order (map snd ds)" and "fx_edges x = edges" and "fx_distribution x = summaries"
proof -
  from assms obtain t hs where "collect_records node0 node1 audit0 audit1 = Inr t" "distribution_summary node0 (fst t) (snd t) = Inr hs"
      "fx_rows x = sort_key row_order (map snd (fst t))" "fx_edges x = snd t" "fx_distribution x = snd hs"
    unfolding export_flow_def Let_def by (elim rbind_E) auto
  with that [of "fst t" "snd t" "fst hs" "snd hs"] show ?thesis by simp
qed

lemma collect_edges_positive: "collect_records node0 node1 audit0 audit1 = Inr (ds, edges) \<Longrightarrow> \<forall>e \<in> set edges. 0 < fe_value e"
  unfolding collect_records_def trace_transactions_def by (elim rbind_E) (auto dest!: trace_edges_positive)

lemma received_at:
  assumes "map_r (received_by ds edges) ics = Inr received" and "(i, d) \<in> set received"
  shows "\<exists>cfg. (i, cfg) \<in> set ics \<and> fold_r (receive ds (i, cfg)) [] edges = Inr d"
  using map_r_elem [OF assms] by (force simp: received_by_def rbind_eq_Inr)

lemma export_distribution_full:
  assumes "export_flow node0 node1 audit0 audit1 = Inr x" and "(incident, d) \<in> set (fx_distribution x)"
    and "accounts_nonnegative node0"
  shows "di_held d + di_moved d = di_distributed d \<and> 0 \<le> di_held d \<and> 0 \<le> di_moved d
    \<and> di_intact d + di_partial d + di_zero d = di_recipients d
    \<and> di_nonce_zero_moved d + di_nonce_positive_moved d = di_partial d + di_zero d
    \<and> (\<exists>ds cfg. (incident, cfg) \<in> set INCIDENTS \<and> fx_rows x = sort_key row_order (map snd ds)
        \<and> di_distributed d = sum_list (map fe_value (filter (\<lambda>e. is_distribution ds incident cfg e = Inr True) (fx_edges x))))"
proof -
  from assms(1) obtain ds edges head_hex summaries where c: "collect_records node0 node1 audit0 audit1 = Inr (ds, edges)"
    and s: "distribution_summary node0 ds edges = Inr (head_hex, summaries)"
    and x: "fx_rows x = sort_key row_order (map snd ds)" "fx_edges x = edges" "fx_distribution x = summaries" by (rule export_flow_E)
  from s obtain received balances nonces where r: "map_r (received_by ds edges) INCIDENTS = Inr received"
    and b: "account_field node0 ''eth_getBalance'' (all_recipients received) head_hex = Inr balances"
    and n: "account_field node0 ''eth_getTransactionCount'' (all_recipients received) head_hex = Inr nonces"
    and sums: "summaries = map (\<lambda>(i, d). (i, distribution_of (\<lambda>a. entry 0 balances a) (\<lambda>a. entry 0 nonces a) d)) received"
    unfolding distribution_summary_def Let_def by (elim rbind_E) auto
  from assms(2) obtain rd where rd: "(incident, rd) \<in> set received"
    and d: "d = distribution_of (\<lambda>a. entry 0 balances a) (\<lambda>a. entry 0 nonces a) rd" by (auto simp: x sums)
  from received_at [OF r rd] obtain cfg where cfg: "(incident, cfg) \<in> set INCIDENTS" "fold_r (receive ds (incident, cfg)) [] edges = Inr rd"
    by blast
  have "\<forall>kv \<in> set rd. 0 < snd kv" using receive_positive [OF cfg(2) collect_edges_positive [OF c]] by simp
  moreover have "\<forall>a. 0 \<le> entry 0 balances a" "\<forall>a. 0 \<le> entry 0 nonces a"
    using assms(3) b n entry_nonnegative unfolding accounts_nonnegative_def by blast+
  ultimately have "let d = distribution_of (entry 0 balances) (entry 0 nonces) rd in
      0 \<le> di_held d \<and> di_held d \<le> di_distributed d \<and> di_intact d + di_partial d + di_zero d = di_recipients d
    \<and> di_nonce_zero_moved d + di_nonce_positive_moved d = di_partial d + di_zero d" by (rule distribution_sums)
  moreover have "di_distributed d = sum_list (map fe_value (filter (\<lambda>e. is_distribution ds incident cfg e = Inr True) edges))"
    using receive_total [OF cfg(2)] by (simp add: d distribution_of_def Let_def)
  moreover have "di_held d + di_moved d = di_distributed d" by (simp add: d distribution_of_def Let_def)
  ultimately show ?thesis using cfg(1) by (auto simp: x Let_def d)
qed

lemma export_distribution:
  assumes "export_flow node0 node1 audit0 audit1 = Inr x" and "(incident, d) \<in> set (fx_distribution x)"
    and "accounts_nonnegative node0"
  shows "di_held d + di_moved d = di_distributed d \<and> 0 \<le> di_held d"
  using export_distribution_full [OF assms] by blast

subsection \<open>Properties\<close>

text \<open>
  C40. The export conserves the receipts of the source audits. Whatever the histories, the traces and the node add, the
  receipt counts and the receipt amounts of the rows written sum to the number and the amounts of the rows of the two
  source audits, and the rows are ordered by shard, block, position and hash.
\<close>

theorem export_conserves_receipts:
  assumes "export_flow node0 node1 audit0 audit1 = Inr x"
  shows "sum_list (map fl_amount (fx_rows x)) = (\<Sum>r\<leftarrow>audit0 @ audit1. cell_int r ''amount_atto'')
    \<and> sum_list (map fl_receipts (fx_rows x)) = int (length audit0 + length audit1)
    \<and> sorted (map row_order (fx_rows x))"
proof -
  from assms obtain ds edges where c: "collect_records node0 node1 audit0 audit1 = Inr (ds, edges)"
    and rows: "fx_rows x = sort_key row_order (map snd ds)" by (rule export_flow_E)
  have "sum_list (map g (fx_rows x)) = total_of g ds" for g :: "flow_record \<Rightarrow> int"
    by (simp add: rows sum_list_sort_key total_of_def o_def)
  then show ?thesis using amount_counter.collect_total [OF c] receipt_counter.collect_total [OF c]
    by (simp add: rows sum_list_triv)
qed

text \<open>
  The trace step reports exactly the value-carrying calls. Over the traced transactions in the order of block, position
  and hash, the edges are the calls with a positive value, in the order of the walk, each numbered by its place in the walk
  and effective exactly when neither it nor a call above it failed; the counters of each record grow by the numbers
  of calls, of failed calls, of edges and of effective edges, and by the effective value; other records are unchanged.
\<close>

theorem traced_value_edges:
  assumes "trace_transactions exchange ds trace_keys = Inr (ds', edges)" and "distinct trace_keys"
  shows "(\<exists>ess. list_all2 (traced_as exchange ds ds') (sort_key (trace_key ds) trace_keys) ess \<and> edges = concat ess)
    \<and> (\<forall>k. k \<notin> set trace_keys \<longrightarrow> map_of ds' k = map_of ds k)"
  using trace_fold [OF assms(1) [unfolded trace_transactions_def]] assms(2) by simp

text \<open>
  The distribution of an incident closes. On a node that reports no negative balance or nonce, what is held and
  what is moved add up to what the contract distributed, which is the sum of the effective value edges that leave it in
  distribution calls; nothing negative is held or moved; every recipient is intact, partial or empty; and those who
  moved something are divided by their nonce.
\<close>

theorem distribution_closes:
  assumes "export_flow node0 node1 audit0 audit1 = Inr x" and "(incident, d) \<in> set (fx_distribution x)"
    and "accounts_nonnegative node0"
  shows "di_held d + di_moved d = di_distributed d \<and> 0 \<le> di_held d \<and> 0 \<le> di_moved d
    \<and> di_intact d + di_partial d + di_zero d = di_recipients d
    \<and> di_nonce_zero_moved d + di_nonce_positive_moved d = di_partial d + di_zero d
    \<and> (\<exists>ds cfg. (incident, cfg) \<in> set INCIDENTS \<and> fx_rows x = sort_key row_order (map snd ds)
        \<and> di_distributed d = sum_list (map fe_value (filter (\<lambda>e. is_distribution ds incident cfg e = Inr True) (fx_edges x))))"
  by (rule export_distribution_full [OF assms])

text \<open>
  A node on which the May contract pays two recipients in one call tree, the second payment below a failed call, and on
  which the other histories are empty.
\<close>

definition example_flow_transaction :: "json \<Rightarrow> json" where
  "example_flow_transaction h = JDict [(''blockNumber'', JInt 73386870), (''hash'', h), (''ethHash'', JStr ''0xe''),
     (''from'', JStr ''0xF0''), (''to'', JStr ''0x70a217631472a276976ab572d48959dc74f6065a''), (''value'', JInt 1)]"

definition example_flow_trace :: json where
  "example_flow_trace = JDict [(''type'', JStr ''CALL''), (''calls'', JList
     [JDict [(''type'', JStr ''CALL''), (''from'', JStr ''0x70a217631472a276976ab572d48959dc74f6065a''), (''to'', JStr ''0xAA''), (''value'', JStr ''0x5'')],
      JDict [(''error'', JStr ''reverted''), (''calls'', JList
        [JDict [(''from'', JStr ''0x70a217631472a276976ab572d48959dc74f6065a''), (''to'', JStr ''0xBB''), (''value'', JStr ''0x7'')]])]])]"

definition example_flow_answer :: "string \<Rightarrow> json list \<Rightarrow> json" where
  "example_flow_answer name params =
     (if name = ''hmyv2_getTransactionsHistory'' then
        JDict [(''transactions'', JList (case params of
          [JDict kvs] \<Rightarrow> if map_of kvs ''address'' = Some (JStr ''0x70a217631472a276976ab572d48959dc74f6065a'')
                        then [example_flow_transaction (JStr ''0x1'')] else []
        | _ \<Rightarrow> []))]
      else if name = ''hmyv2_getTransactionByHash'' then (case params of [h] \<Rightarrow> example_flow_transaction h | _ \<Rightarrow> JNull)
      else if name = ''debug_traceTransaction'' then (case params of
         h # _ \<Rightarrow> if h = JStr ''0x1'' then example_flow_trace else JDict [(''calls'', JList [])] | _ \<Rightarrow> JNull)
      else if name = ''hmyv2_getTransactionReceipt'' then JDict [(''status'', JInt 1)]
      else if name = ''eth_blockNumber'' then JStr ''0x64''
      else if name = ''eth_getBalance'' then JStr ''0x3'' else JStr ''0x1'')"

definition example_flow_item :: "json \<Rightarrow> json" where
  "example_flow_item request = (case request of
     JDict kvs \<Rightarrow> (case (map_of kvs ''id'', map_of kvs ''method'', map_of kvs ''params'') of
       (Some i, Some (JStr name), Some (JList params)) \<Rightarrow> JDict [(''id'', i), (''result'', example_flow_answer name params)]
     | _ \<Rightarrow> JNull)
   | _ \<Rightarrow> JNull)"

definition example_flow_node :: exchange where
  "example_flow_node k request = Inr (case request of JList rs \<Rightarrow> JList (map example_flow_item rs) | _ \<Rightarrow> example_flow_item request)"

definition example_audit_row :: row where
  "example_audit_row = [''source_transaction_hash'' \<mapsto> ''0x2'', ''source_block'' \<mapsto> ''9'', ''from'' \<mapsto> ''0x3'',
     ''classification'' \<mapsto> ''rollback_leak'', ''amount_atto'' \<mapsto> ''40'', ''source_transaction_from'' \<mapsto> ''0x3'',
     ''source_transaction_to'' \<mapsto> ''0x4'', ''source_input_selector'' \<mapsto> ''0x284808'']"

lemma item_with_id_mem: "item_with_id i items = Some item \<Longrightarrow> \<exists>key. (key, item) \<in> set items"
  by (induction i items rule: item_with_id.induct) (auto split: option.splits if_split_asm)


lemma example_answers:
  assumes "flow_rpc_batch example_flow_node name ps n = Inr vs" and "v \<in> set vs"
  shows "v = JNull \<or> (\<exists>name params. v = example_flow_answer name params)"
proof -
  from assms obtain chunks vss where vss: "map_r (flow_chunk example_flow_node name) chunks = Inr vss" and vs: "vs = concat vss"
    by (auto simp: flow_rpc_batch_def rbind_eq_Inr)
  from assms(2) obtain ws where v: "v \<in> set ws" and "ws \<in> set vss" by (auto simp: vs)
  with map_r_elem [OF vss] obtain chunk where chunk: "flow_chunk example_flow_node name chunk = Inr ws" by blast
  from chunk obtain items i where items: "keyed_items (JList (map example_flow_item (map (\<lambda>(i, name, params). rpc_request name params (int i)) (enumerate 0 (map (Pair name) chunk))))) = Inr items"
    and i: "flow_batch_item items i = Inr v"
    using v by (auto simp: flow_chunk_def request_json_def example_flow_node_def batch_request_def rbind_eq_Inr numeral_eq_Suc dest!: map_r_elem)
  from i obtain item where item: "item_with_id (int i) items = Some item" and r: "get_default item ''result'' JNull = Inr v"
    by (auto simp: flow_batch_item_def rbind_eq_Inr split: option.splits)
  from item_with_id_mem [OF item] items obtain q where "item = example_flow_item q"
    by (auto simp: keyed_items_def rbind_eq_Inr dest!: map_r_elem)
  then show ?thesis using r by (auto simp: example_flow_item_def get_or_def split: json.splits option.splits)
qed

lemma example_accounts: "accounts_nonnegative example_flow_node"
proof -
  have answer: "0 \<le> n" if "int16_of (example_flow_answer name params) = Inr n" for name params n
  proof -
    have "int16_of (JStr ''0x64'') = Inr 100" "int16_of (JStr ''0x3'') = Inr 3" "int16_of (JStr ''0x1'') = Inr 1" by code_simp+
    then show ?thesis using that
      by (auto simp: example_flow_answer_def example_flow_transaction_def example_flow_trace_def int16_of_def split: if_split_asm list.split_asm json.split_asm)
  qed
  show ?thesis unfolding accounts_nonnegative_def
  proof (intro allI impI ballI)
    fix name addresses block vs kv
    assume "account_field example_flow_node name addresses block = Inr vs" and "kv \<in> set vs"
    then obtain results v where r: "flow_rpc_batch example_flow_node name (map (\<lambda>a. [JStr a, block]) addresses) 100 = Inr results"
      and v: "v \<in> set results" "int16_of v = Inr (snd kv)"
      by (auto simp: account_field_def rbind_eq_Inr dest!: map_r_elem set_zip_rightD)
    from example_answers [OF r v(1)] v(2) answer show "0 \<le> snd kv" by (auto simp: int16_of_def)
  qed
qed

theorem export_conserves_receipts_witness:
  "\<exists>x. export_flow example_flow_node example_flow_node [example_audit_row] [] = Inr x
     \<and> sum_list (map fl_amount (fx_rows x)) = 40 \<and> sum_list (map fl_receipts (fx_rows x)) = 1"
proof -
  have "is_ok (export_flow example_flow_node example_flow_node [example_audit_row] [])"
    and amount: "cell_int example_audit_row ''amount_atto'' = 40" by code_simp+
  then obtain x where x: "export_flow example_flow_node example_flow_node [example_audit_row] [] = Inr x"
    by (auto simp: is_ok_iff)
  from export_conserves_receipts [OF x] show ?thesis by (intro exI [of _ x]) (simp add: x amount)
qed

definition example_records :: flow_records where
  "example_records = [((0, ''0x1''), blank_record 0 ''0x1'' 5)]"

theorem traced_value_edges_witness:
  "\<exists>ds' edges ess. trace_transactions example_flow_node example_records [(0, ''0x1'')] = Inr (ds', edges)
     \<and> edges = concat ess \<and> map fe_effective edges = [True, False]"
proof -
  have "case trace_transactions example_flow_node example_records [(0, ''0x1'')] of
      Inl _ \<Rightarrow> False | Inr t \<Rightarrow> map fe_effective (snd t) = [True, False]" by code_simp
  then obtain ds' edges where t: "trace_transactions example_flow_node example_records [(0, ''0x1'')] = Inr (ds', edges)"
    and e: "map fe_effective edges = [True, False]" by (auto split: sum.splits)
  from traced_value_edges [OF t] e t show ?thesis by auto
qed

theorem distribution_closes_witness:
  "\<exists>x i d. export_flow example_flow_node example_flow_node [example_audit_row] [] = Inr x \<and> (i, d) \<in> set (fx_distribution x)
     \<and> di_distributed d = 5 \<and> di_held d + di_moved d = 5"
proof -
  have "case export_flow example_flow_node example_flow_node [example_audit_row] [] of
      Inl _ \<Rightarrow> False | Inr x \<Rightarrow> fx_distribution x \<noteq> [] \<and> di_distributed (snd (hd (fx_distribution x))) = 5" by code_simp
  then obtain x where x: "export_flow example_flow_node example_flow_node [example_audit_row] [] = Inr x"
    and ne: "fx_distribution x \<noteq> []" and five: "di_distributed (snd (hd (fx_distribution x))) = 5" by (auto split: sum.splits)
  obtain i d where d: "hd (fx_distribution x) = (i, d)" by (cases "hd (fx_distribution x)")
  then have mem: "(i, d) \<in> set (fx_distribution x)" using ne by (metis list.set_sel(1))
  from distribution_closes [OF x mem example_accounts] five d x mem show ?thesis by auto
qed

end
