(* ===== verification/Reconciliation.thy ===== *)
theory Reconciliation
  imports Closure Cells ExploitFlow
begin

section \<open>The final reconciliation: \<open>verify-reconciliation.py\<close>\<close>

text \<open>
  The script recomputes the arithmetic that ties the result files together: the components of the formula gap, the
  cutoff formula, the claim ledger, the historical closure and the amounts that the migration does not issue. Every
  comparison is a definition here, in the order of the code. The files are parameters: parsed JSON documents, and for
  a CSV file its digest, its size and its rows.
\<close>

subsection \<open>Comparisons\<close>

text \<open>\<open>a or b or \<dots>\<close> of conditions that may raise.\<close>

fun any_r :: "bool result list \<Rightarrow> bool result" where
  "any_r [] = Inr False"
| "any_r (m # ms) = rbind m (\<lambda>b. if b then Inr True else any_r ms)"

lemma any_r_False: "any_r ms = Inr False \<longleftrightarrow> (\<forall>m \<in> set ms. m = Inr False)"
  by (induction ms) (auto simp: rbind_eq_Inr)

definition int_key :: "json \<Rightarrow> string \<Rightarrow> int result" where
  "int_key v k = rbind (subscript v k) int_of"

definition truthy_key :: "json \<Rightarrow> string \<Rightarrow> bool result" where
  "truthy_key v k = rbind (subscript v k) (\<lambda>w. Inr (truthy w))"

definition not_r :: "bool result \<Rightarrow> bool result" where
  "not_r m = rbind m (\<lambda>b. Inr (\<not> b))"

definition is_key :: "json \<Rightarrow> string \<Rightarrow> json \<Rightarrow> bool result" where
  "is_key v k w = rbind (subscript v k) (\<lambda>x. Inr (py_eq x w))"

definition ends_key :: "json \<Rightarrow> string \<Rightarrow> string \<Rightarrow> bool result" where
  "ends_key v k e = rbind (rbind (subscript v k) text_of) (\<lambda>s. Inr (ends_with e s))"

definition raise_or :: "bool result \<Rightarrow> error \<Rightarrow> unit result" where
  "raise_or m e = rbind m (\<lambda>b. raise_if b e)"

definition sum_of :: "string \<Rightarrow> json list \<Rightarrow> int result" where
  "sum_of k vs = rbind (map_r (\<lambda>v. int_key v k) vs) (\<lambda>ns. Inr (sum_list ns))"

definition list_key :: "json \<Rightarrow> string \<Rightarrow> json list result" where
  "list_key v k = rbind (subscript v k) iter"

subsection \<open>The components of the gap\<close>

record cross_shard =
  xs_trace :: int
  xs_absent :: int
  xs_total :: int

definition cross_shard_components :: "(string \<rightharpoonup> int) \<Rightarrow> cross_shard result" where
  "cross_shard_components by_name =
     (let legacy = by_name ''proven_cross_shard_rollback_leakage'';
          trace = by_name ''trace_proven_cross_shard_rollback_leakage'';
          absent = by_name ''canonical_state_proven_source_debit_absence''
      in case legacy of
        Some n \<Rightarrow>
          if trace \<noteq> None \<or> absent \<noteq> None then Inl (ValueError ''cross-shard reconciliation mixes legacy and split components'')
          else Inr \<lparr>xs_trace = n, xs_absent = 0, xs_total = n\<rparr>
      | None \<Rightarrow>
          (case (trace, absent) of
            (None, None) \<Rightarrow> Inl (ValueError ''cross-shard reconciliation component is missing'')
          | (Some t, Some a) \<Rightarrow> Inr \<lparr>xs_trace = t, xs_absent = a, xs_total = t + a\<rparr>
          | _ \<Rightarrow> Inl (ValueError ''split cross-shard reconciliation requires both evidence components'')))"

text \<open>\<open>{component["name"]: int(component["atto"]) for \<dots>}\<close>: of several components with one name the last counts.\<close>

definition named_components :: "json list \<Rightarrow> (string \<rightharpoonup> int) result" where
  "named_components cs = rbind (map_r (\<lambda>c. rbind (subscript c ''name'') (\<lambda>n. rbind (int_key c ''atto'') (\<lambda>v. Inr (n, v)))) cs)
     (\<lambda>nvs. Inr (\<lambda>name. map_of (rev nvs) (JStr name)))"

record gap_result =
  gp_components :: "json list"
  gp_state_gap :: int
  gp_pending :: int
  gp_claim_gap :: int

definition check_gap :: "json \<Rightarrow> gap_result result" where
  "check_gap reconciliation =
     rbind (list_key reconciliation ''components'') (\<lambda>components.
     rbind (sum_of ''atto'' components) (\<lambda>component_total.
     rbind (int_key reconciliation ''state_resident_formula_gap_atto'') (\<lambda>state_gap.
     rbind (raise_if (component_total \<noteq> state_gap) (ValueError ''component sum'')) (\<lambda>_.
     rbind (int_key reconciliation ''supported_pending_receipts_outside_state_atto'') (\<lambda>pending.
     rbind (int_key reconciliation ''claim_adjusted_formula_gap_atto'') (\<lambda>claim_gap.
     rbind (raise_if (state_gap + pending \<noteq> claim_gap) (ValueError ''claim-adjusted gap does not equal state gap plus pending receipts'')) (\<lambda>_.
       Inr \<lparr>gp_components = components, gp_state_gap = state_gap, gp_pending = pending, gp_claim_gap = claim_gap\<rparr>)))))))"

record known_result =
  kn_cross_shard :: int
  kn_december :: int
  kn_max_rate_net :: int
  kn_rounding :: int
  kn_max_rate :: json
  kn_peak :: int
  kn_known_peak :: int

definition check_known :: "json \<Rightarrow> json list \<Rightarrow> known_result result" where
  "check_known reconciliation components =
     rbind (named_components components) (\<lambda>by_name.
     rbind (cross_shard_components by_name) (\<lambda>cs. let cross_shard = xs_total cs in
     rbind (getitem by_name ''december_2023_repeated_undelegation_mint'') (\<lambda>december.
     rbind (getitem by_name ''post_2023_max_rate_net_effect_at_cleanup'') (\<lambda>max_rate_net.
     rbind (getitem by_name ''post_top_max_rate_rounding_drift'') (\<lambda>rounding.
     rbind (subscript reconciliation ''post_2023_max_rate'') (\<lambda>max_rate.
     rbind (int_key max_rate ''net_state_formula_effect_at_cleanup_atto'') (\<lambda>net.
     rbind (raise_if (net \<noteq> max_rate_net) (ValueError ''max-rate component does not match cleanup result'')) (\<lambda>_.
     rbind (int_at reconciliation [''known_unauthorized_net_cutoff_component'', ''atto'']) (\<lambda>known_net.
     rbind (raise_if (cross_shard + december + max_rate_net \<noteq> known_net) (ValueError ''known unauthorized net subtotal mismatch'')) (\<lambda>_.
     rbind (int_key max_rate ''activation_inclusive_peak_duplicated_claim_exposure_atto'') (\<lambda>max_rate_peak.
     rbind (int_at reconciliation [''known_unauthorized_peak_claim_inflation'', ''atto'']) (\<lambda>known_peak.
     rbind (raise_if (cross_shard + december + max_rate_peak \<noteq> known_peak) (ValueError ''known peak claim-inflation subtotal mismatch'')) (\<lambda>_.
       Inr \<lparr>kn_cross_shard = cross_shard, kn_december = december, kn_max_rate_net = max_rate_net, kn_rounding = rounding,
            kn_max_rate = max_rate, kn_peak = max_rate_peak, kn_known_peak = known_peak\<rparr>)))))))))))))"

definition check_max_rate :: "json \<Rightarrow> int \<Rightarrow> unit result" where
  "check_max_rate max_rate max_rate_peak =
     rbind (int_key max_rate ''post_checkpoint_peak_duplicated_claim_exposure_atto'') (\<lambda>post_peak.
     rbind (int_key max_rate ''activation_opening_duplicated_claim_exposure_atto'') (\<lambda>opening.
     rbind (raise_if (post_peak + opening \<noteq> max_rate_peak) (ValueError ''max-rate activation-inclusive exposure mismatch'')) (\<lambda>_.
     rbind (subscript max_rate ''accounting_interpretation'') (\<lambda>interpretation.
     rbind (raise_or (not_r (truthy_key interpretation ''peak_exposure_is_not_second_liquid_payout_total''))
       (ValueError ''max-rate peak exposure is mislabeled as liquid payout'')) (\<lambda>_.
     rbind (int_key max_rate ''stale_undelegation_liabilities_removed_at_cleanup_atto'') (\<lambda>stale_cleanup.
     rbind (int_key max_rate ''formula_counted_validator_rewards_not_committed_atto'') (\<lambda>missing_rewards.
     rbind (int_key max_rate ''claim_exposure_cleanup_equation_closure_atto'') (\<lambda>closing.
     rbind (int_key max_rate ''measured_net_effect_through_october_atto'') (\<lambda>measured.
       raise_if (post_peak - stale_cleanup - missing_rewards + closing \<noteq> measured)
         (ValueError ''max-rate exposure/cleanup/reward equation mismatch''))))))))))"

subsection \<open>The formula and the cutoff files\<close>

definition check_formula :: "json \<Rightarrow> int result" where
  "check_formula formula_input =
     rbind (int_key formula_input ''genesis_atto'') (\<lambda>genesis.
     rbind (int_key formula_input ''pre_staking_rewards_atto'') (\<lambda>pre_staking.
     rbind (int_key formula_input ''base_accumulator_atto'') (\<lambda>base_accumulator.
     rbind (int_key formula_input ''base_wrapper_rewards_atto'') (\<lambda>base_wrappers.
     rbind (int_key formula_input ''cutoff_wrapper_rewards_atto'') (\<lambda>cutoff_wrappers.
     let wrapper_delta = cutoff_wrappers - base_wrappers in
     rbind (int_key formula_input ''wrapper_reward_delta_atto'') (\<lambda>delta.
     rbind (raise_if (wrapper_delta \<noteq> delta) (ValueError ''cutoff wrapper-reward delta mismatch'')) (\<lambda>_.
     let reconstructed_accumulator = base_accumulator + wrapper_delta in
     rbind (int_key formula_input ''reconstructed_accumulator_atto'') (\<lambda>accumulator.
     rbind (raise_if (reconstructed_accumulator \<noteq> accumulator) (ValueError ''reconstructed cutoff accumulator mismatch'')) (\<lambda>_.
     let formula_before_exclusions = genesis + pre_staking + reconstructed_accumulator in
     rbind (int_key formula_input ''formula_before_exclusions_atto'') (\<lambda>before.
     rbind (raise_if (formula_before_exclusions \<noteq> before) (ValueError ''cutoff formula component sum mismatch'')) (\<lambda>_.
       Inr formula_before_exclusions)))))))))))"

record cutoff_result =
  cu_shard0 :: int
  cu_shard1 :: int
  cu_total :: int

definition check_cutoff :: "json \<Rightarrow> json \<Rightarrow> json \<Rightarrow> gap_result \<Rightarrow> int \<Rightarrow> cutoff_result result" where
  "check_cutoff cutoff_supply ledger receipts gap formula =
     rbind (int_key cutoff_supply ''account_and_staking_claims_atto'') (\<lambda>shard0_claims.
     rbind (int_key ledger ''liquid_shard1_atto'') (\<lambda>shard1_claims.
     rbind (int_key ledger ''total_claim_atto'') (\<lambda>ledger_total.
     rbind (int_key ledger ''pending_cross_shard_atto'') (\<lambda>ledger_pending.
     rbind (raise_or (any_r [Inr (ledger_pending \<noteq> gp_pending gap),
         rbind (int_key receipts ''pending_active_atto'') (\<lambda>n. Inr (ledger_pending \<noteq> n))])
       (ValueError ''pending-receipt totals disagree'')) (\<lambda>_.
     rbind (raise_if (shard0_claims + shard1_claims + gp_pending gap \<noteq> ledger_total)
       (ValueError ''cutoff ledger components do not sum to total claim'')) (\<lambda>_.
     rbind (raise_if (shard0_claims + shard1_claims - formula \<noteq> gp_state_gap gap)
       (ValueError ''state gap is not derived from cutoff result files'')) (\<lambda>_.
     rbind (raise_if (ledger_total - formula \<noteq> gp_claim_gap gap)
       (ValueError ''claim gap is not derived from cutoff result files'')) (\<lambda>_.
       Inr \<lparr>cu_shard0 = shard0_claims, cu_shard1 = shard1_claims, cu_total = ledger_total\<rparr>))))))))"

text \<open>\<open>points[name]\<close>: the last checkpoint of that name.\<close>

definition point_named :: "closure \<Rightarrow> string \<Rightarrow> checkpoint result" where
  "point_named cl name = getitem (\<lambda>n. map_of (rev (map (\<lambda>c. (cp_name c, c)) (cl_checkpoints cl))) (JStr n)) name"

definition check_history :: "closure \<Rightarrow> json \<Rightarrow> gap_result \<Rightarrow> known_result \<Rightarrow> cutoff_result \<Rightarrow> int result" where
  "check_history cl reconciliation gap known cutoff =
     rbind (point_named cl ''post-2023-fix'') (\<lambda>fix_point. let first_residual = cp_residual fix_point in
     rbind (int_at reconciliation [''pre_existing_net_deficit'', ''net_atto'']) (\<lambda>deficit.
     rbind (raise_if (first_residual \<noteq> deficit) (ValueError ''pre-existing checkpoint residual mismatch'')) (\<lambda>_.
     rbind (point_named cl ''top-max-rate-cleanup'') (\<lambda>cleanup.
     rbind (case cp_change cleanup of None \<Rightarrow> Inl (TypeError ''int() argument'') | Some n \<Rightarrow> Inr n) (\<lambda>cleanup_change.
     rbind (raise_if (cleanup_change \<noteq> kn_max_rate_net known) (ValueError ''historical closure does not reproduce max-rate net effect'')) (\<lambda>_.
     rbind (point_named cl ''cutoff'') (\<lambda>cutoff_point.
     rbind (raise_if (cp_gap cutoff_point \<noteq> gp_state_gap gap) (ValueError ''historical cutoff formula gap mismatch'')) (\<lambda>_.
     rbind (raise_if (cp_shard0 cutoff_point \<noteq> cu_shard0 cutoff) (ValueError ''historical closure shard-0 cutoff mismatch'')) (\<lambda>_.
     rbind (raise_if (cp_shard1 cutoff_point \<noteq> cu_shard1 cutoff) (ValueError ''historical closure shard-1 cutoff mismatch'')) (\<lambda>_.
     rbind (raise_if (cp_residual cutoff_point \<noteq> first_residual + kn_max_rate_net known + kn_rounding known)
       (ValueError ''historical residual chain does not close at cutoff'')) (\<lambda>_.
       Inr first_residual)))))))))))"

subsection \<open>Single audits\<close>

definition check_december :: "json \<Rightarrow> int \<Rightarrow> unit result" where
  "check_december december_result december =
     rbind (int_key december_result ''total_atto'') (\<lambda>n.
     rbind (raise_if (n \<noteq> december) (ValueError ''December reconstruction does not match reconciliation'')) (\<lambda>_.
     rbind (rbind (list_key december_result ''by_delegator'') (sum_of ''atto'')) (\<lambda>m.
       raise_if (m \<noteq> december) (ValueError ''December per-delegator sum mismatch''))))"

definition check_burn :: "json \<Rightarrow> unit result" where
  "check_burn burn =
     rbind (rbind (list_key burn ''positive_inaccessible_or_precompile_addresses'') (sum_of ''cutoff_atto'')) (\<lambda>inaccessible.
     rbind (int_key burn ''positive_inaccessible_total_atto'') (\<lambda>n.
       raise_if (inaccessible \<noteq> n) (ValueError ''inaccessible-address total mismatch'')))"

definition check_precompile :: "json \<Rightarrow> unit result" where
  "check_precompile precompile =
     rbind (raise_or (not_r (is_key precompile ''blocks_scanned'' (JInt 13697024))) (ValueError ''staking-precompile block count mismatch'')) (\<lambda>_.
     rbind (raise_or (not_r (is_key precompile ''top_level_staking_precompile_calls'' (JInt 79602))) (ValueError ''staking-precompile call count mismatch'')) (\<lambda>_.
       raise_or (not_r (is_key precompile ''unknown_target_transactions'' (JInt 0))) (ValueError ''unexpected unknown staking-precompile target'')))"

definition check_treasury :: "json \<Rightarrow> json \<Rightarrow> unit result" where
  "check_treasury treasury reconciliation =
     rbind (subscript reconciliation ''historical_treasury_routing_inventory'') (\<lambda>treasury_meta.
     rbind (at_path treasury [''totals_atto'', ''treasury_reclaim'']) (\<lambda>a.
     rbind (subscript treasury_meta ''treasury_reclaim_atto'') (\<lambda>b.
     rbind (raise_if (\<not> py_eq a b) (ValueError ''historical treasury calculation mismatch'')) (\<lambda>_.
       raise_or (not_r (is_key treasury ''policy_status'' (JStr ''superseded''))) (ValueError ''historical treasury policy is not marked superseded'')))))"

definition COMPOSITE_SUMMARY :: string where
  "COMPOSITE_SUMMARY = ''2026-09-17/migration-policy-reconciliation.json''"

definition check_policies :: "json \<Rightarrow> json \<Rightarrow> unit result" where
  "check_policies reconciliation non_issuance =
     rbind (subscript reconciliation ''migration_non_issuance_policy'') (\<lambda>rp.
     rbind (raise_or (any_r [not_r (is_key rp ''treasury_destination'' JNull), truthy_key rp ''available_for_other_use'',
         truthy_key rp ''old_chain_gross_claim_changed'', not_r (truthy_key rp ''migration_allocation_reduced''),
         truthy_key rp ''fixed_erc20_total_supply_changed'', not_r (ends_key rp ''composite_policy_summary'' COMPOSITE_SUMMARY)])
       (ValueError ''reconciliation points to an invalid migration policy'')) (\<lambda>_.
     rbind (subscript non_issuance ''policy'') (\<lambda>policy.
     rbind (raise_or (not_r (is_key policy ''migration_treatment'' (JStr ''not_issued'')))
       (ValueError ''current migration treatment is not non-issuance'')) (\<lambda>_.
       raise_or (any_r [truthy_key policy ''old_chain_gross_claim_changed'', not_r (truthy_key policy ''migration_allocation_reduced''),
         truthy_key policy ''fixed_erc20_total_supply_changed'', not_r (is_key policy ''treasury_destination'' JNull),
         truthy_key policy ''available_for_other_use'', not_r (ends_key policy ''composite_policy_summary'' COMPOSITE_SUMMARY)])
       (ValueError ''non-issuance policy semantics are inconsistent'')))))"

subsection \<open>The amounts that are not issued\<close>

text \<open>\<open>flow["distribution"].values()\<close>.\<close>

definition dict_values :: "json \<Rightarrow> json list result" where
  "dict_values v = (case v of JDict kvs \<Rightarrow> Inr (map snd kvs) | _ \<Rightarrow> Inl (AttributeError ''values''))"

record amounts_result =
  am_existing :: int
  am_retained :: int
  am_leak_section :: json
  am_leak :: int
  am_combined :: int
  am_remaining :: int

definition check_amounts :: "json \<Rightarrow> json \<Rightarrow> json \<Rightarrow> int \<Rightarrow> amounts_result result" where
  "check_amounts treasury non_issuance flow ledger_total =
     rbind (int_at treasury [''totals_atto'', ''treasury_reclaim'']) (\<lambda>historical_treasury.
     rbind (int_at non_issuance [''existing_non_issuance'', ''not_issued_atto'']) (\<lambda>existing.
     rbind (raise_if (historical_treasury > existing) (ValueError ''historical policy amount exceeds current non-issuance'')) (\<lambda>_.
     rbind (rbind (rbind (subscript flow ''distribution'') dict_values) (sum_of ''held_cap_atto'')) (\<lambda>retained_from_flow.
     rbind (int_at non_issuance [''historical_hack_retained_initial_addresses'', ''not_issued_atto'']) (\<lambda>retained.
     rbind (raise_if (retained \<noteq> retained_from_flow) (ValueError ''historical retained-balance totals disagree'')) (\<lambda>_.
     rbind (at_path non_issuance [''historical_hack_retained_initial_addresses'', ''overlap_with_existing_non_issuance_addresses'']) (\<lambda>overlap.
     rbind (raise_if (truthy overlap) (ValueError ''historical retained addresses overlap existing policy'')) (\<lambda>_.
     rbind (get_default non_issuance ''revert_leak_credited_recipients'' JNull) (\<lambda>leak_section.
     rbind (if truthy leak_section then int_key leak_section ''not_issued_atto'' else Inr 0) (\<lambda>revert_leak.
     rbind (int_at non_issuance [''totals'', ''not_issued_atto'']) (\<lambda>combined.
     rbind (raise_if (combined \<noteq> existing + retained + revert_leak) (ValueError ''combined non-issuance total mismatch'')) (\<lambda>_.
     rbind (int_at non_issuance [''totals'', ''gross_cutoff_claim_atto'']) (\<lambda>gross.
     rbind (raise_if (gross \<noteq> ledger_total) (ValueError ''non-issuance gross claim does not match cutoff ledger'')) (\<lambda>_.
     rbind (int_at non_issuance [''totals'', ''remaining_full_claim_after_non_issuance_atto'']) (\<lambda>remaining.
     rbind (raise_if (remaining + combined \<noteq> ledger_total) (ValueError ''gross claim does not close after non-issuance'')) (\<lambda>_.
       Inr \<lparr>am_existing = existing, am_retained = retained, am_leak_section = leak_section, am_leak = revert_leak,
            am_combined = combined, am_remaining = remaining\<rparr>))))))))))))))))"

subsection \<open>The two CSV files\<close>

text \<open>A file as the script sees it.\<close>

record artifact =
  af_digest :: string
  af_bytes :: int
  af_rows :: "row list"

text \<open>\<open>Path(s).name\<close>.\<close>

definition path_name :: "string \<Rightarrow> string" where
  "path_name s = (case rev (filter (\<lambda>p. p \<noteq> [] \<and> p \<noteq> ''.'') (split_on CHR ''/'' [] s)) of [] \<Rightarrow> [] | p # _ \<Rightarrow> p)"

type_synonym retained_state = "string list \<times> int"

definition check_retained_row :: "(string \<Rightarrow> bool) \<Rightarrow> retained_state \<Rightarrow> row \<Rightarrow> retained_state result" where
  "check_retained_row is_file s r =
     rbind (getitem r ''address_hex'') (\<lambda>a. let address = lower a in
     rbind (raise_if (address \<in> set (fst s)) (ValueError ''duplicate retained address'')) (\<lambda>_.
     rbind (int_cell r ''retained_cap_atto'') (\<lambda>amount.
     rbind (int_cell r ''initial_distribution_atto'') (\<lambda>initial. rbind (int_cell r ''cutoff_balance_atto'') (\<lambda>balance.
     rbind (raise_if (amount \<noteq> min initial balance) (ValueError ''invalid retained cap'')) (\<lambda>_.
     rbind (getitem r ''migration_treatment'') (\<lambda>t.
     rbind (raise_if (t \<noteq> ''not_issued'') (ValueError ''retained address is not terminal'')) (\<lambda>_.
     rbind (getitem r ''source_evidence'') (\<lambda>evidence.
     rbind (raise_if (\<not> is_file evidence) (FileNotFoundError evidence)) (\<lambda>_.
       Inr (fst s @ [address], snd s + amount)))))))))))"

definition check_retained :: "json \<Rightarrow> (string \<Rightarrow> bool) \<Rightarrow> artifact \<Rightarrow> int \<Rightarrow> unit result" where
  "check_retained non_issuance is_file csv retained =
     rbind (at_path non_issuance [''outputs'', ''retained_not_issued_csv_sha256'']) (\<lambda>digest.
     rbind (raise_if (JStr (af_digest csv) \<noteq> digest) (ValueError ''retained non-issuance CSV hash mismatch'')) (\<lambda>_.
     rbind (fold_r (check_retained_row is_file) ([], 0) (af_rows csv)) (\<lambda>s.
     rbind (at_path non_issuance [''outputs'', ''retained_not_issued_rows'']) (\<lambda>n.
     rbind (raise_if (\<not> py_eq (JInt (int (length (af_rows csv)))) n) (ValueError ''retained non-issuance CSV row-count mismatch'')) (\<lambda>_.
       raise_if (snd s \<noteq> retained) (ValueError ''retained non-issuance CSV total mismatch''))))))"

text \<open>\<open>{asset["name"]: asset for asset in release["assets"]}\<close>.\<close>

definition release_assets :: "json \<Rightarrow> (string \<rightharpoonup> json) result" where
  "release_assets release = rbind (list_key release ''assets'') (\<lambda>assets.
     rbind (map_r (\<lambda>a. rbind (subscript a ''name'') (\<lambda>n. Inr (n, a))) assets) (\<lambda>nas.
       Inr (\<lambda>name. map_of (rev nas) (JStr name))))"

text \<open>Whether the manifest's entry differs from the file.\<close>

definition asset_differs :: "json \<Rightarrow> artifact \<Rightarrow> bool result" where
  "asset_differs asset csv = any_r [not_r (is_key asset ''bytes'' (JInt (af_bytes csv))),
     not_r (is_key asset ''rows'' (JInt (int (length (af_rows csv))))), not_r (is_key asset ''sha256'' (JStr (af_digest csv)))]"

definition check_retained_release :: "(string \<rightharpoonup> json) \<Rightarrow> string \<Rightarrow> artifact \<Rightarrow> unit result" where
  "check_retained_release assets name csv = (case assets name of
     None \<Rightarrow> Inl (ValueError ''retained non-issuance CSV missing from release manifest'')
   | Some JNull \<Rightarrow> Inl (ValueError ''retained non-issuance CSV missing from release manifest'')
   | Some asset \<Rightarrow> raise_or (asset_differs asset csv) (ValueError ''retained non-issuance release metadata mismatch''))"

definition check_leak_amount :: "int \<Rightarrow> row \<Rightarrow> int result" where
  "check_leak_amount total_before r =
     rbind (int_cell r ''retained_cap_atto'') (\<lambda>amount.
     rbind (int_cell r ''unbacked_credit_atto'') (\<lambda>credit. rbind (int_cell r ''cutoff_native_claim_atto'') (\<lambda>native.
     rbind (int_cell r ''prior_non_issuance_atto'') (\<lambda>prior.
     rbind (raise_or (any_r [Inr (amount \<noteq> min credit (max (native - prior) 0)), Inr (amount \<le> 0),
         rbind (getitem r ''migration_treatment'') (\<lambda>t. Inr (t \<noteq> ''not_issued''))])
       (ValueError ''invalid revert-leak amount'')) (\<lambda>_.
       Inr (total_before + amount))))))"

definition check_leak_csv :: "json \<Rightarrow> amounts_result \<Rightarrow> (string \<rightharpoonup> json) \<Rightarrow> string \<Rightarrow> artifact \<Rightarrow> unit result" where
  "check_leak_csv non_issuance am assets name csv =
     rbind (at_path non_issuance [''sources'', ''revert_leak_retention'', ''sha256'']) (\<lambda>digest.
     rbind (raise_if (JStr (af_digest csv) \<noteq> digest) (ValueError ''revert-leak non-issuance CSV hash mismatch'')) (\<lambda>_.
     rbind (fold_r check_leak_amount 0 (af_rows csv)) (\<lambda>leak_csv_total.
     rbind (raise_or (any_r [not_r (is_key (am_leak_section am) ''positive_addresses'' (JInt (int (length (af_rows csv))))),
         Inr (leak_csv_total \<noteq> am_leak am)]) (ValueError ''revert-leak non-issuance CSV total mismatch'')) (\<lambda>_.
       raise_or (case assets name of None \<Rightarrow> Inr True | Some JNull \<Rightarrow> Inr True | Some asset \<Rightarrow> asset_differs asset csv)
         (ValueError ''revert-leak non-issuance release metadata mismatch'')))))"

subsection \<open>The main program\<close>

record reconciliation_files =
  rf_reconciliation :: json
  rf_formula_input :: json
  rf_cutoff_supply :: json
  rf_ledger :: json
  rf_receipts :: json
  rf_closure_input :: json
  rf_document :: "string \<Rightarrow> json result"
  rf_december :: json
  rf_burn :: json
  rf_precompile :: json
  rf_treasury :: json
  rf_non_issuance :: json
  rf_flow :: json
  rf_release :: json
  rf_retained_csv :: "string \<Rightarrow> artifact result"
  rf_is_evidence :: "string \<Rightarrow> bool"
  rf_leak_csv :: "string \<Rightarrow> artifact result"

record passed_reconciliation =
  pr_state_gap :: int
  pr_claim_gap :: int
  pr_known_peak :: int
  pr_not_issued :: int

definition check_gaps :: "reconciliation_files \<Rightarrow> (gap_result \<times> known_result \<times> int \<times> cutoff_result \<times> int) result" where
  "check_gaps fs =
     rbind (check_gap (rf_reconciliation fs)) (\<lambda>gap.
     rbind (check_known (rf_reconciliation fs) (gp_components gap)) (\<lambda>known.
     rbind (check_max_rate (kn_max_rate known) (kn_peak known)) (\<lambda>_.
     rbind (check_formula (rf_formula_input fs)) (\<lambda>formula.
     rbind (check_cutoff (rf_cutoff_supply fs) (rf_ledger fs) (rf_receipts fs) gap formula) (\<lambda>cutoff.
     rbind (calculate (rf_document fs) (rf_closure_input fs)) (\<lambda>cl.
     rbind (check_history cl (rf_reconciliation fs) gap known cutoff) (\<lambda>first_residual.
       Inr (gap, known, formula, cutoff, first_residual))))))))"

definition check_audits :: "reconciliation_files \<Rightarrow> known_result \<Rightarrow> unit result" where
  "check_audits fs known =
     rbind (check_december (rf_december fs) (kn_december known)) (\<lambda>_.
     rbind (check_burn (rf_burn fs)) (\<lambda>_.
     rbind (check_precompile (rf_precompile fs)) (\<lambda>_.
     rbind (check_treasury (rf_treasury fs) (rf_reconciliation fs)) (\<lambda>_.
       check_policies (rf_reconciliation fs) (rf_non_issuance fs)))))"

text \<open>The file names: \<open>.name\<close> of the path of the retained CSV, and of the recorded leak file.\<close>

definition check_csvs :: "reconciliation_files \<Rightarrow> amounts_result \<Rightarrow> unit result" where
  "check_csvs fs am =
     rbind (rbind (at_path (rf_non_issuance fs) [''outputs'', ''retained_not_issued_csv'']) text_of) (\<lambda>retained_path.
     rbind (rf_retained_csv fs retained_path) (\<lambda>retained_csv.
     rbind (check_retained (rf_non_issuance fs) (rf_is_evidence fs) retained_csv (am_retained am)) (\<lambda>_.
     rbind (release_assets (rf_release fs)) (\<lambda>assets.
     rbind (check_retained_release assets (path_name (''historical-retention-snapshot-20260916/'' @ retained_path)) retained_csv) (\<lambda>_.
       if truthy (am_leak_section am)
       then rbind (rbind (at_path (rf_non_issuance fs) [''sources'', ''revert_leak_retention'', ''name'']) text_of) (\<lambda>name.
            rbind (rf_leak_csv fs (path_name name)) (\<lambda>leak_csv.
              check_leak_csv (rf_non_issuance fs) am assets (path_name (''revert-leak-retention-20260923/'' @ path_name name)) leak_csv))
       else Inr ())))))"

definition verify_reconciliation :: "reconciliation_files \<Rightarrow> passed_reconciliation result" where
  "verify_reconciliation fs =
     rbind (check_gaps fs) (\<lambda>(gap, known, formula, cutoff, first_residual).
     rbind (check_audits fs known) (\<lambda>_.
     rbind (check_amounts (rf_treasury fs) (rf_non_issuance fs) (rf_flow fs) (cu_total cutoff)) (\<lambda>am.
     rbind (check_csvs fs am) (\<lambda>_.
       Inr \<lparr>pr_state_gap = gp_state_gap gap, pr_claim_gap = gp_claim_gap gap, pr_known_peak = kn_known_peak known,
            pr_not_issued = am_combined am\<rparr>))))"

end
