(* ===== verification/ReconciliationProofs.thy ===== *)
theory ReconciliationProofs
  imports Reconciliation ExploitFlowProofs
begin

section \<open>What a passed reconciliation establishes\<close>

text \<open>
  The comparisons of \<open>verify-reconciliation.py\<close> together: the gap between claims and formula is explained by named
  amounts, the formula file and the historical closure agree, and the amounts that are not issued are those of the CSV files
  and of the exploit-flow export.
\<close>

subsection \<open>Checkpoints of the closure\<close>

definition measured :: "(string \<Rightarrow> json result) \<Rightarrow> int \<Rightarrow> int option \<times> checkpoint list \<Rightarrow> bool" where
  "measured document base st \<longleftrightarrow> (\<forall>c \<in> set (snd st). \<exists>previous point. measure_point document base previous point = Inr c)"

interpretation measured_loop: invariant_loop "next_checkpoint document base" "measured document base" for document base
  by unfold_locales (auto simp: measured_def next_checkpoint_def rbind_eq_Inr, blast)

lemma calculate_measured:
  assumes "calculate document configuration = Inr cl" and "c \<in> set (cl_checkpoints cl)"
  shows "\<exists>previous point. measure_point document (cl_genesis cl + cl_pre_staking cl) previous point = Inr c"
proof -
  from assms(1) obtain points st where run: "fold_r (next_checkpoint document (cl_genesis cl + cl_pre_staking cl)) (None, []) points = Inr st"
    and st: "cl_checkpoints cl = snd st" unfolding calculate_def by (elim rbind_E) force
  have "measured document (cl_genesis cl + cl_pre_staking cl) st"
    by (rule measured_loop.run_inv [OF _ run]) (simp add: measured_def)
  then show ?thesis using assms(2) by (simp add: measured_def st)
qed

lemma measured_numbers:
  assumes "measure_point document base previous point = Inr c"
  shows "cp_formula c = base + cp_accumulator c \<and> cp_gap c = cp_shard0 c + cp_shard1 c - cp_formula c
    \<and> cp_residual c = cp_gap c - sum_list (map snd (cp_adjustments c))"
  using assms by (auto simp: measure_point_def rbind_eq_Inr Let_def)

lemma point_named_mem: "point_named cl name = Inr c \<Longrightarrow> c \<in> set (cl_checkpoints cl)"
  by (auto simp: point_named_def getitem_eq_Inr dest!: map_of_SomeD)

subsection \<open>Sums and rows\<close>

lemma raise_or_Inr: "raise_or m e = Inr u \<longleftrightarrow> m = Inr False"
  by (auto simp: raise_or_def rbind_eq_Inr)

lemma retained_rows:
  "fold_r (check_retained_row is_file) s rs = Inr s' \<Longrightarrow> distinct (fst s) \<Longrightarrow>
     fst s' = fst s @ map (\<lambda>r. address_cell r ''address_hex'') rs
     \<and> distinct (fst s @ map (\<lambda>r. address_cell r ''address_hex'') rs)
     \<and> snd s' = snd s + (\<Sum>r\<leftarrow>rs. cell_int r ''retained_cap_atto'')
     \<and> list_all (\<lambda>r. cell_int r ''retained_cap_atto'' = min (cell_int r ''initial_distribution_atto'') (cell_int r ''cutoff_balance_atto'')
          \<and> r ''migration_treatment'' = Some ''not_issued'') rs"
proof (induction rs arbitrary: s)
  case (Cons r rs)
  from Cons.prems(1) obtain t where t: "check_retained_row is_file s r = Inr t" and rest: "fold_r (check_retained_row is_file) t rs = Inr s'"
    by (auto simp: rbind_eq_Inr)
  from t obtain a where "address_cell r ''address_hex'' = a" "a \<notin> set (fst s)" and t_eq: "t = (fst s @ [a], snd s + cell_int r ''retained_cap_atto'')"
    and ok: "cell_int r ''retained_cap_atto'' = min (cell_int r ''initial_distribution_atto'') (cell_int r ''cutoff_balance_atto'')"
      "r ''migration_treatment'' = Some ''not_issued''"
    unfolding check_retained_row_def Let_def
    by (elim rbind_E) (auto dest!: int_cell_Inr simp: address_cell_def getitem_eq_Inr get_or_def)
  with Cons.IH [OF rest] Cons.prems(2) show ?case by simp
qed simp

lemma leak_rows:
  "fold_r check_leak_amount n rs = Inr m \<Longrightarrow>
     m = n + (\<Sum>r\<leftarrow>rs. cell_int r ''retained_cap_atto'')
     \<and> list_all (\<lambda>r. 0 < cell_int r ''retained_cap_atto'' \<and> cell_int r ''retained_cap_atto'' \<le> cell_int r ''unbacked_credit_atto''
          \<and> cell_int r ''retained_cap_atto'' + cell_int r ''prior_non_issuance_atto'' \<le> cell_int r ''cutoff_native_claim_atto'') rs"
proof (induction rs arbitrary: n)
  case (Cons r rs)
  from Cons.prems obtain k where k: "check_leak_amount n r = Inr k" and rest: "fold_r check_leak_amount k rs = Inr m"
    by (auto simp: rbind_eq_Inr)
  from k obtain amount credit native prior u where cells: "int_cell r ''retained_cap_atto'' = Inr amount" "int_cell r ''unbacked_credit_atto'' = Inr credit"
      "int_cell r ''cutoff_native_claim_atto'' = Inr native" "int_cell r ''prior_non_issuance_atto'' = Inr prior"
    and ok: "raise_or (any_r [Inr (amount \<noteq> min credit (max (native - prior) 0)), Inr (amount \<le> 0),
         rbind (getitem r ''migration_treatment'') (\<lambda>t. Inr (t \<noteq> ''not_issued''))])
       (ValueError ''invalid revert-leak amount'') = Inr u" and k': "n + amount = k"
    unfolding check_leak_amount_def by (elim rbind_E) blast
  from ok have facts: "(amount \<noteq> min credit (max (native - prior) 0)) = False" "(amount \<le> 0) = False"
    unfolding raise_or_Inr any_r_False list.set ball_simps sum.inject by blast+
  from facts(1) have amount: "amount = min credit (max (native - prior) 0)" by blast
  from facts(2) have "0 < amount" by simp
  then have cap: "cell_int r ''retained_cap_atto'' = min (cell_int r ''unbacked_credit_atto'')
        (max (cell_int r ''cutoff_native_claim_atto'' - cell_int r ''prior_non_issuance_atto'') 0)"
    and k_eq: "0 < cell_int r ''retained_cap_atto''" "k = n + cell_int r ''retained_cap_atto''"
    using cells [THEN int_cell_Inr] k' amount by (simp_all only:)
  have "cell_int r ''retained_cap_atto'' \<le> cell_int r ''unbacked_credit_atto''
      \<and> cell_int r ''retained_cap_atto'' + cell_int r ''prior_non_issuance_atto'' \<le> cell_int r ''cutoff_native_claim_atto''"
    using cap k_eq(1) by linarith
  with Cons.IH [OF rest] k_eq show ?case by simp
qed simp

lemma text_at_E: "rbind m text_of = Inr s \<Longrightarrow> m = Inr (JStr s)"
  by (cases m) (auto elim: text_of.elims)

text \<open>What the parts of a passed run have compared.\<close>

lemma check_gap_numbers:
  assumes "check_gap reconciliation = Inr gap"
  shows "rbind (list_key reconciliation ''components'') (sum_of ''atto'') = Inr (gp_state_gap gap)
    \<and> list_key reconciliation ''components'' = Inr (gp_components gap)
    \<and> gp_claim_gap gap = gp_state_gap gap + gp_pending gap"
proof -
  from assms obtain cs total state_gap pending claim_gap u v where l: "list_key reconciliation ''components'' = Inr cs"
    "sum_of ''atto'' cs = Inr total" and eq: "raise_if (total \<noteq> state_gap) (ValueError ''component sum'') = Inr u"
    "raise_if (state_gap + pending \<noteq> claim_gap) (ValueError ''claim-adjusted gap does not equal state gap plus pending receipts'') = Inr v"
    and gap: "\<lparr>gp_components = cs, gp_state_gap = state_gap, gp_pending = pending, gp_claim_gap = claim_gap\<rparr> = gap"
    unfolding check_gap_def by (elim rbind_E) blast
  then show ?thesis unfolding gap [symmetric] by simp
qed

lemma check_cutoff_numbers:
  assumes "check_cutoff cutoff_supply ledger receipts gap formula = Inr cu"
  shows "cu_shard0 cu + cu_shard1 cu = formula + gp_state_gap gap \<and> cu_total cu = formula + gp_claim_gap gap
    \<and> int_key ledger ''total_claim_atto'' = Inr (cu_total cu)"
proof -
  from assms obtain s0 s1 total u v where t: "int_key ledger ''total_claim_atto'' = Inr total"
    and eq: "raise_if (s0 + s1 - formula \<noteq> gp_state_gap gap) (ValueError ''state gap is not derived from cutoff result files'') = Inr u"
    "raise_if (total - formula \<noteq> gp_claim_gap gap) (ValueError ''claim gap is not derived from cutoff result files'') = Inr v"
    and cu: "\<lparr>cu_shard0 = s0, cu_shard1 = s1, cu_total = total\<rparr> = cu"
    unfolding check_cutoff_def by (elim rbind_E) blast
  from eq have "s0 + s1 = formula + gp_state_gap gap" "total = formula + gp_claim_gap gap" by simp_all
  then show ?thesis using t unfolding cu [symmetric] by simp
qed

lemma check_known_rounding:
  assumes "check_known reconciliation cs = Inr known"
  shows "\<exists>by_name. named_components cs = Inr by_name \<and> by_name ''post_top_max_rate_rounding_drift'' = Some (kn_rounding known)
    \<and> by_name ''post_2023_max_rate_net_effect_at_cleanup'' = Some (kn_max_rate_net known)"
proof -
  from assms obtain by_name net rounding x d m p k where "named_components cs = Inr by_name"
    and "getitem by_name ''post_2023_max_rate_net_effect_at_cleanup'' = Inr net"
    and "getitem by_name ''post_top_max_rate_rounding_drift'' = Inr rounding"
    and known: "\<lparr>kn_cross_shard = x, kn_december = d, kn_max_rate_net = net, kn_rounding = rounding,
            kn_max_rate = m, kn_peak = p, kn_known_peak = k\<rparr> = known"
    unfolding check_known_def Let_def by (elim rbind_E) blast
  then show ?thesis unfolding known [symmetric] getitem_eq_Inr by (intro exI [of _ by_name]) simp
qed

lemma check_history_numbers:
  assumes "check_history cl reconciliation gap known cutoff = Inr first_residual"
  shows "\<exists>c. point_named cl ''cutoff'' = Inr c \<and> cp_gap c = gp_state_gap gap \<and> cp_shard0 c = cu_shard0 cutoff
    \<and> cp_shard1 c = cu_shard1 cutoff \<and> cp_residual c = first_residual + kn_max_rate_net known + kn_rounding known
    \<and> int_at reconciliation [''pre_existing_net_deficit'', ''net_atto''] = Inr first_residual"
  using assms unfolding check_history_def Let_def
  by (elim rbind_E) (intro exI conjI, assumption, simp_all)

lemma verify_reconciliation_E:
  assumes "verify_reconciliation fs = Inr p"
  obtains gap known formula cutoff first_residual cl am where "check_gap (rf_reconciliation fs) = Inr gap"
    and "check_known (rf_reconciliation fs) (gp_components gap) = Inr known" and "check_formula (rf_formula_input fs) = Inr formula"
    and "check_cutoff (rf_cutoff_supply fs) (rf_ledger fs) (rf_receipts fs) gap formula = Inr cutoff"
    and "calculate (rf_document fs) (rf_closure_input fs) = Inr cl"
    and "check_history cl (rf_reconciliation fs) gap known cutoff = Inr first_residual"
    and "check_amounts (rf_treasury fs) (rf_non_issuance fs) (rf_flow fs) (cu_total cutoff) = Inr am"
    and "check_csvs fs am = Inr ()"
    and "p = \<lparr>pr_state_gap = gp_state_gap gap, pr_claim_gap = gp_claim_gap gap, pr_known_peak = kn_known_peak known,
            pr_not_issued = am_combined am\<rparr>"
proof -
  from assms obtain g am u where g: "check_gaps fs = Inr g" and rest: "check_amounts (rf_treasury fs) (rf_non_issuance fs) (rf_flow fs)
        (cu_total (fst (snd (snd (snd g))))) = Inr am" "check_csvs fs am = Inr u"
      "p = \<lparr>pr_state_gap = gp_state_gap (fst g), pr_claim_gap = gp_claim_gap (fst g), pr_known_peak = kn_known_peak (fst (snd g)),
            pr_not_issued = am_combined am\<rparr>"
    unfolding verify_reconciliation_def by (elim rbind_E) (simp split: prod.splits, elim rbind_E, simp)
  from g obtain gap known formula cutoff first_residual cl where "check_gap (rf_reconciliation fs) = Inr gap"
    "check_known (rf_reconciliation fs) (gp_components gap) = Inr known" "check_formula (rf_formula_input fs) = Inr formula"
    "check_cutoff (rf_cutoff_supply fs) (rf_ledger fs) (rf_receipts fs) gap formula = Inr cutoff"
    "calculate (rf_document fs) (rf_closure_input fs) = Inr cl"
    "check_history cl (rf_reconciliation fs) gap known cutoff = Inr first_residual"
    "g = (gap, known, formula, cutoff, first_residual)"
    unfolding check_gaps_def by (elim rbind_E) blast
  with rest that show ?thesis by simp
qed

lemma check_formula_numbers:
  assumes "check_formula formula_input = Inr formula"
  shows "\<exists>genesis pre_staking accumulator base_wrappers cutoff_wrappers.
      int_key formula_input ''genesis_atto'' = Inr genesis \<and> int_key formula_input ''pre_staking_rewards_atto'' = Inr pre_staking
    \<and> int_key formula_input ''base_accumulator_atto'' = Inr accumulator
    \<and> int_key formula_input ''base_wrapper_rewards_atto'' = Inr base_wrappers
    \<and> int_key formula_input ''cutoff_wrapper_rewards_atto'' = Inr cutoff_wrappers
    \<and> formula = genesis + pre_staking + (accumulator + (cutoff_wrappers - base_wrappers))"
  using assms unfolding check_formula_def Let_def
  by (elim rbind_E) (intro exI conjI, assumption+, simp)

lemma check_amounts_numbers:
  assumes "check_amounts treasury non_issuance flow ledger_total = Inr am"
  shows "rbind (rbind (subscript flow ''distribution'') dict_values) (sum_of ''held_cap_atto'') = Inr (am_retained am)
    \<and> int_at non_issuance [''historical_hack_retained_initial_addresses'', ''not_issued_atto''] = Inr (am_retained am)
    \<and> int_at non_issuance [''existing_non_issuance'', ''not_issued_atto''] = Inr (am_existing am)
    \<and> int_at non_issuance [''totals'', ''remaining_full_claim_after_non_issuance_atto''] = Inr (am_remaining am)
    \<and> am_combined am = am_existing am + am_retained am + am_leak am \<and> am_remaining am + am_combined am = ledger_total
    \<and> (\<not> truthy (am_leak_section am) \<longrightarrow> am_leak am = 0)"
proof -
  from assms obtain vals flow_total retained existing leak_section leak combined remaining u v w where
    "rbind (subscript flow ''distribution'') dict_values = Inr vals" "sum_of ''held_cap_atto'' vals = Inr flow_total"
    "int_at non_issuance [''historical_hack_retained_initial_addresses'', ''not_issued_atto''] = Inr retained"
    "raise_if (retained \<noteq> flow_total) (ValueError ''historical retained-balance totals disagree'') = Inr u"
    "int_at non_issuance [''existing_non_issuance'', ''not_issued_atto''] = Inr existing"
    "(if truthy leak_section then int_key leak_section ''not_issued_atto'' else Inr 0) = Inr leak"
    "raise_if (combined \<noteq> existing + retained + leak) (ValueError ''combined non-issuance total mismatch'') = Inr v"
    "int_at non_issuance [''totals'', ''remaining_full_claim_after_non_issuance_atto''] = Inr remaining"
    "raise_if (remaining + combined \<noteq> ledger_total) (ValueError ''gross claim does not close after non-issuance'') = Inr w"
    "\<lparr>am_existing = existing, am_retained = retained, am_leak_section = leak_section, am_leak = leak,
            am_combined = combined, am_remaining = remaining\<rparr> = am"
    unfolding check_amounts_def by (elim rbind_E) simp
  then show ?thesis by auto
qed

definition retained_ok_row :: "row \<Rightarrow> bool" where
  "retained_ok_row r \<longleftrightarrow> cell_int r ''retained_cap_atto'' = min (cell_int r ''initial_distribution_atto'') (cell_int r ''cutoff_balance_atto'')
     \<and> r ''migration_treatment'' = Some ''not_issued''"

definition leak_ok_row :: "row \<Rightarrow> bool" where
  "leak_ok_row r \<longleftrightarrow> 0 < cell_int r ''retained_cap_atto'' \<and> cell_int r ''retained_cap_atto'' \<le> cell_int r ''unbacked_credit_atto''
     \<and> cell_int r ''retained_cap_atto'' + cell_int r ''prior_non_issuance_atto'' \<le> cell_int r ''cutoff_native_claim_atto''"

lemma check_retained_numbers:
  assumes "check_retained non_issuance is_file csv retained = Inr ()"
  shows "retained = (\<Sum>r\<leftarrow>af_rows csv. cell_int r ''retained_cap_atto'') \<and> list_all retained_ok_row (af_rows csv)
    \<and> distinct (map (\<lambda>r. address_cell r ''address_hex'') (af_rows csv))"
proof -
  from assms obtain s where s: "fold_r (check_retained_row is_file) ([], 0) (af_rows csv) = Inr s"
    and "raise_if (snd s \<noteq> retained) (ValueError ''retained non-issuance CSV total mismatch'') = Inr ()"
    unfolding check_retained_def by (elim rbind_E) blast
  then show ?thesis using retained_rows [OF s] by (simp add: retained_ok_row_def [abs_def])
qed

lemma check_leak_csv_numbers:
  assumes "check_leak_csv non_issuance am assets name csv = Inr ()"
  shows "am_leak am = (\<Sum>r\<leftarrow>af_rows csv. cell_int r ''retained_cap_atto'') \<and> list_all leak_ok_row (af_rows csv)"
proof -
  from assms obtain n where n: "fold_r check_leak_amount 0 (af_rows csv) = Inr n"
    and "\<exists>u. raise_or (any_r [not_r (is_key (am_leak_section am) ''positive_addresses'' (JInt (int (length (af_rows csv))))),
         Inr (n \<noteq> am_leak am)]) (ValueError ''revert-leak non-issuance CSV total mismatch'') = Inr u"
    unfolding check_leak_csv_def by (elim rbind_E) blast
  then have "n = am_leak am" unfolding raise_or_Inr any_r_False by simp
  then show ?thesis using leak_rows [OF n] by (simp add: leak_ok_row_def [abs_def])
qed

lemma check_csvs_E:
  assumes "check_csvs fs am = Inr ()"
  obtains path csv where "rf_retained_csv fs path = Inr csv"
    and "check_retained (rf_non_issuance fs) (rf_is_evidence fs) csv (am_retained am) = Inr ()"
    and "truthy (am_leak_section am) \<Longrightarrow> \<exists>name leak_csv assets asset_name. rf_leak_csv fs name = Inr leak_csv
      \<and> check_leak_csv (rf_non_issuance fs) am assets asset_name leak_csv = Inr ()"
proof -
  from assms obtain path csv assets where "rf_retained_csv fs path = Inr csv"
    and "check_retained (rf_non_issuance fs) (rf_is_evidence fs) csv (am_retained am) = Inr ()"
    and rest: "(if truthy (am_leak_section am)
       then rbind (rbind (at_path (rf_non_issuance fs) [''sources'', ''revert_leak_retention'', ''name'']) text_of) (\<lambda>name.
            rbind (rf_leak_csv fs (path_name name)) (\<lambda>leak_csv.
              check_leak_csv (rf_non_issuance fs) am assets (path_name (''revert-leak-retention-20260923/'' @ path_name name)) leak_csv))
       else Inr ()) = Inr ()"
    unfolding check_csvs_def by (elim rbind_E) simp
  moreover have "\<exists>name leak_csv assets asset_name. rf_leak_csv fs name = Inr leak_csv
      \<and> check_leak_csv (rf_non_issuance fs) am assets asset_name leak_csv = Inr ()" if "truthy (am_leak_section am)"
    using rest unfolding if_P [OF that] by (elim rbind_E) blast
  ultimately show ?thesis using that by blast
qed

subsection \<open>Properties\<close>

text \<open>
  C13. A passed reconciliation explains the gap. The claims of the two shards are the formula plus the state gap; the gap is
  the sum of the listed components, and it is also exactly the closure's adjustments at the cutoff, the deficit that existed
  before, the net effect of the max-rate error and the rounding drift; the total of the claim ledger is the
  formula plus the claim gap; and the formula that the formula file reconstructs from genesis, pre-staking rewards and
  wrapper rewards is the formula of the historical closure at the cutoff, computed from other files.
\<close>

theorem reconciliation_explains_gap:
  assumes "verify_reconciliation fs = Inr p"
  shows "\<exists>cl c by_name formula deficit net rounding components genesis pre_staking accumulator base_wrappers cutoff_wrappers.
      calculate (rf_document fs) (rf_closure_input fs) = Inr cl \<and> point_named cl ''cutoff'' = Inr c
    \<and> list_key (rf_reconciliation fs) ''components'' = Inr components \<and> sum_of ''atto'' components = Inr (pr_state_gap p)
    \<and> int_at (rf_reconciliation fs) [''pre_existing_net_deficit'', ''net_atto''] = Inr deficit
    \<and> named_components components = Inr by_name \<and> by_name ''post_2023_max_rate_net_effect_at_cleanup'' = Some net
    \<and> by_name ''post_top_max_rate_rounding_drift'' = Some rounding
    \<and> int_key (rf_formula_input fs) ''genesis_atto'' = Inr genesis
    \<and> int_key (rf_formula_input fs) ''pre_staking_rewards_atto'' = Inr pre_staking
    \<and> int_key (rf_formula_input fs) ''base_accumulator_atto'' = Inr accumulator
    \<and> int_key (rf_formula_input fs) ''base_wrapper_rewards_atto'' = Inr base_wrappers
    \<and> int_key (rf_formula_input fs) ''cutoff_wrapper_rewards_atto'' = Inr cutoff_wrappers
    \<and> formula = genesis + pre_staking + (accumulator + (cutoff_wrappers - base_wrappers))
    \<and> cl_genesis cl + cl_pre_staking cl + cp_accumulator c = formula
    \<and> cp_shard0 c + cp_shard1 c = formula + pr_state_gap p
    \<and> pr_state_gap p = sum_list (map snd (cp_adjustments c)) + deficit + net + rounding
    \<and> int_key (rf_ledger fs) ''total_claim_atto'' = Inr (formula + pr_claim_gap p)"
proof -
  from assms obtain gap known formula cutoff first_residual cl am where gap: "check_gap (rf_reconciliation fs) = Inr gap"
    and known: "check_known (rf_reconciliation fs) (gp_components gap) = Inr known" and formula: "check_formula (rf_formula_input fs) = Inr formula"
    and cutoff: "check_cutoff (rf_cutoff_supply fs) (rf_ledger fs) (rf_receipts fs) gap formula = Inr cutoff"
    and cl: "calculate (rf_document fs) (rf_closure_input fs) = Inr cl"
    and history: "check_history cl (rf_reconciliation fs) gap known cutoff = Inr first_residual"
    and am: "check_amounts (rf_treasury fs) (rf_non_issuance fs) (rf_flow fs) (cu_total cutoff) = Inr am"
    and csvs: "check_csvs fs am = Inr ()"
    and p: "p = \<lparr>pr_state_gap = gp_state_gap gap, pr_claim_gap = gp_claim_gap gap, pr_known_peak = kn_known_peak known,
            pr_not_issued = am_combined am\<rparr>" by (rule verify_reconciliation_E)
  from check_history_numbers [OF history] obtain c where c: "point_named cl ''cutoff'' = Inr c" "cp_gap c = gp_state_gap gap"
      "cp_shard0 c = cu_shard0 cutoff" "cp_shard1 c = cu_shard1 cutoff"
      "cp_residual c = first_residual + kn_max_rate_net known + kn_rounding known"
    and deficit: "int_at (rf_reconciliation fs) [''pre_existing_net_deficit'', ''net_atto''] = Inr first_residual" by blast
  from calculate_measured [OF cl point_named_mem [OF c(1)]] obtain previous point
    where "measure_point (rf_document fs) (cl_genesis cl + cl_pre_staking cl) previous point = Inr c" by blast
  note numbers = measured_numbers [OF this] check_cutoff_numbers [OF cutoff]
  from check_known_rounding [OF known] obtain by_name where named: "named_components (gp_components gap) = Inr by_name"
    "by_name ''post_top_max_rate_rounding_drift'' = Some (kn_rounding known)"
    "by_name ''post_2023_max_rate_net_effect_at_cleanup'' = Some (kn_max_rate_net known)" by blast
  from check_formula_numbers [OF formula] obtain genesis pre_staking accumulator base_wrappers cutoff_wrappers where f:
    "int_key (rf_formula_input fs) ''genesis_atto'' = Inr genesis" "int_key (rf_formula_input fs) ''pre_staking_rewards_atto'' = Inr pre_staking"
    "int_key (rf_formula_input fs) ''base_accumulator_atto'' = Inr accumulator"
    "int_key (rf_formula_input fs) ''base_wrapper_rewards_atto'' = Inr base_wrappers"
    "int_key (rf_formula_input fs) ''cutoff_wrapper_rewards_atto'' = Inr cutoff_wrappers"
    "formula = genesis + pre_staking + (accumulator + (cutoff_wrappers - base_wrappers))" by blast
  have "cl_genesis cl + cl_pre_staking cl + cp_accumulator c = formula" "cp_shard0 c + cp_shard1 c = formula + pr_state_gap p"
      "pr_state_gap p = sum_list (map snd (cp_adjustments c)) + first_residual + kn_max_rate_net known + kn_rounding known"
    using numbers c(2-5) by (simp_all add: p)
  moreover have "int_key (rf_ledger fs) ''total_claim_atto'' = Inr (formula + pr_claim_gap p)"
    using numbers(2) by (simp add: p)
  moreover have "list_key (rf_reconciliation fs) ''components'' = Inr (gp_components gap)" "sum_of ''atto'' (gp_components gap) = Inr (pr_state_gap p)"
    using check_gap_numbers [OF gap] by (auto simp: p rbind_eq_Inr)
  ultimately show ?thesis using cl c(1) deficit named f by blast
qed

text \<open>
  C14. The amounts that are not issued are covered by the CSV files. After a pass, the total not issued is the existing
  inventories, the retained balances and the leaked credit; with the remaining claim it makes up the total of the
  claim ledger; the retained amount is the sum over the rows of the retained CSV, with no address twice and every cap the
  smaller of distribution and balance; and a leaked amount is the sum of positive rows within credit and native claim.
\<close>

theorem reconciliation_not_issued:
  assumes "verify_reconciliation fs = Inr p"
  shows "\<exists>existing retained leak remaining total path csv.
      int_at (rf_non_issuance fs) [''existing_non_issuance'', ''not_issued_atto''] = Inr existing
    \<and> int_at (rf_non_issuance fs) [''historical_hack_retained_initial_addresses'', ''not_issued_atto''] = Inr retained
    \<and> int_at (rf_non_issuance fs) [''totals'', ''remaining_full_claim_after_non_issuance_atto''] = Inr remaining
    \<and> int_key (rf_ledger fs) ''total_claim_atto'' = Inr total
    \<and> pr_not_issued p = existing + retained + leak \<and> remaining + pr_not_issued p = total
    \<and> rf_retained_csv fs path = Inr csv \<and> retained = (\<Sum>r\<leftarrow>af_rows csv. cell_int r ''retained_cap_atto'')
    \<and> list_all retained_ok_row (af_rows csv) \<and> distinct (map (\<lambda>r. address_cell r ''address_hex'') (af_rows csv))
    \<and> (leak = 0 \<or> (\<exists>name leak_csv. rf_leak_csv fs name = Inr leak_csv
        \<and> leak = (\<Sum>r\<leftarrow>af_rows leak_csv. cell_int r ''retained_cap_atto'') \<and> list_all leak_ok_row (af_rows leak_csv)))"
proof -
  from assms obtain gap known formula cutoff first_residual cl am where gap: "check_gap (rf_reconciliation fs) = Inr gap"
    and known: "check_known (rf_reconciliation fs) (gp_components gap) = Inr known" and formula: "check_formula (rf_formula_input fs) = Inr formula"
    and cutoff: "check_cutoff (rf_cutoff_supply fs) (rf_ledger fs) (rf_receipts fs) gap formula = Inr cutoff"
    and cl: "calculate (rf_document fs) (rf_closure_input fs) = Inr cl"
    and history: "check_history cl (rf_reconciliation fs) gap known cutoff = Inr first_residual"
    and am: "check_amounts (rf_treasury fs) (rf_non_issuance fs) (rf_flow fs) (cu_total cutoff) = Inr am"
    and csvs: "check_csvs fs am = Inr ()"
    and p: "p = \<lparr>pr_state_gap = gp_state_gap gap, pr_claim_gap = gp_claim_gap gap, pr_known_peak = kn_known_peak known,
            pr_not_issued = am_combined am\<rparr>" by (rule verify_reconciliation_E)
  from csvs obtain path csv where csv: "rf_retained_csv fs path = Inr csv"
    and kept_rows: "check_retained (rf_non_issuance fs) (rf_is_evidence fs) csv (am_retained am) = Inr ()"
    and leaks: "truthy (am_leak_section am) \<Longrightarrow> \<exists>name leak_csv assets asset_name. rf_leak_csv fs name = Inr leak_csv
      \<and> check_leak_csv (rf_non_issuance fs) am assets asset_name leak_csv = Inr ()" by (rule check_csvs_E) blast
  have "am_leak am = 0 \<or> (\<exists>name leak_csv. rf_leak_csv fs name = Inr leak_csv
        \<and> am_leak am = (\<Sum>r\<leftarrow>af_rows leak_csv. cell_int r ''retained_cap_atto'') \<and> list_all leak_ok_row (af_rows leak_csv))"
  proof (cases "truthy (am_leak_section am)")
    case True
    from leaks [OF this] obtain name leak_csv assets asset_name where "rf_leak_csv fs name = Inr leak_csv"
      "check_leak_csv (rf_non_issuance fs) am assets asset_name leak_csv = Inr ()" by blast
    with check_leak_csv_numbers show ?thesis by blast
  next
    case False
    then show ?thesis using check_amounts_numbers [OF am] by blast
  qed
  moreover note check_retained_numbers [OF kept_rows] check_amounts_numbers [OF am] check_cutoff_numbers [OF cutoff]
  ultimately show ?thesis using csv unfolding p by (intro exI [of _ "am_existing am"] exI [of _ "am_retained am"] exI [of _ "am_leak am"]
      exI [of _ "am_remaining am"] exI [of _ "cu_total cutoff"] exI [of _ path] exI [of _ csv]) simp
qed

lemma subscript_summary: "subscript (flow_summary now outputs audits x) ''distribution''
    = Inr (JDict (map (\<lambda>(i, d). (i, distribution_json d)) (fx_distribution x)))"
  by (simp add: flow_summary_def getitem_def)

lemma held_of_summary: "sum_of ''held_cap_atto'' (map (snd \<circ> (\<lambda>(i, d). (i, distribution_json d))) ds) = Inr (\<Sum>e\<leftarrow>ds. di_held (snd e))"
  by (induction ds) (auto simp: sum_of_def int_key_def distribution_json_def getitem_def py_int_py_str rbind_eq_Inr split: prod.splits)

text \<open>
  C15. The retained amount is what the exploit-flow export found held. If the flow summary that the reconciliation reads is
  the one the export wrote, a pass means that the amount not issued for retained balances is the sum of the held caps of
  the incidents, and with what was moved it makes up what the contracts distributed.
\<close>

theorem retained_equals_held:
  assumes "verify_reconciliation fs = Inr p" and "export_flow node0 node1 audit0 audit1 = Inr x"
    and "rf_flow fs = flow_summary now outputs audits x" and "accounts_nonnegative node0"
  shows "\<exists>retained. int_at (rf_non_issuance fs) [''historical_hack_retained_initial_addresses'', ''not_issued_atto''] = Inr retained
    \<and> retained = (\<Sum>e\<leftarrow>fx_distribution x. di_held (snd e))
    \<and> retained + (\<Sum>e\<leftarrow>fx_distribution x. di_moved (snd e)) = (\<Sum>e\<leftarrow>fx_distribution x. di_distributed (snd e))
    \<and> 0 \<le> retained"
proof -
  from assms(1) obtain gap known formula cutoff first_residual cl am where gap: "check_gap (rf_reconciliation fs) = Inr gap"
    and known: "check_known (rf_reconciliation fs) (gp_components gap) = Inr known" and formula: "check_formula (rf_formula_input fs) = Inr formula"
    and cutoff: "check_cutoff (rf_cutoff_supply fs) (rf_ledger fs) (rf_receipts fs) gap formula = Inr cutoff"
    and cl: "calculate (rf_document fs) (rf_closure_input fs) = Inr cl"
    and history: "check_history cl (rf_reconciliation fs) gap known cutoff = Inr first_residual"
    and am: "check_amounts (rf_treasury fs) (rf_non_issuance fs) (rf_flow fs) (cu_total cutoff) = Inr am"
    and csvs: "check_csvs fs am = Inr ()"
    and p: "p = \<lparr>pr_state_gap = gp_state_gap gap, pr_claim_gap = gp_claim_gap gap, pr_known_peak = kn_known_peak known,
            pr_not_issued = am_combined am\<rparr>" by (rule verify_reconciliation_E)
  have "am_retained am = (\<Sum>e\<leftarrow>fx_distribution x. di_held (snd e))"
    using check_amounts_numbers [OF am] by (simp add: assms(3) subscript_summary dict_values_def held_of_summary)
  moreover have closes: "di_held d + di_moved d = di_distributed d \<and> 0 \<le> di_held d" if "(i, d) \<in> set (fx_distribution x)" for i d
    by (rule export_distribution [OF assms(2) that assms(4)])
  have "(\<Sum>e\<leftarrow>es. di_held (snd e)) + (\<Sum>e\<leftarrow>es. di_moved (snd e)) = (\<Sum>e\<leftarrow>es. di_distributed (snd e)) \<and> 0 \<le> (\<Sum>e\<leftarrow>es. di_held (snd e))"
    if "set es \<subseteq> set (fx_distribution x)" for es
    using that by (induction es) (use closes in fastforce)+
  from this [OF subset_refl] have "(\<Sum>e\<leftarrow>fx_distribution x. di_held (snd e)) + (\<Sum>e\<leftarrow>fx_distribution x. di_moved (snd e))
      = (\<Sum>e\<leftarrow>fx_distribution x. di_distributed (snd e)) \<and> 0 \<le> (\<Sum>e\<leftarrow>fx_distribution x. di_held (snd e))" .
  ultimately show ?thesis using check_amounts_numbers [OF am] by simp
qed

text \<open>
  Result files that close: the shards hold 96, the formula is 80, 7 are pending. The flow summary is a parameter, with
  3 held in it.
\<close>

definition example_component :: "string \<Rightarrow> int \<Rightarrow> json" where
  "example_component name n = JDict [(''name'', JStr name), (''atto'', JStr (py_str n))]"

definition example_policy :: "(string \<times> json) list" where
  "example_policy = [(''treasury_destination'', JNull), (''available_for_other_use'', JBool False),
     (''old_chain_gross_claim_changed'', JBool False), (''migration_allocation_reduced'', JBool True),
     (''fixed_erc20_total_supply_changed'', JBool False), (''composite_policy_summary'', JStr (''results/'' @ COMPOSITE_SUMMARY)),
     (''migration_treatment'', JStr ''not_issued'')]"

definition example_reconciliation :: json where
  "example_reconciliation = JDict
     [(''components'', JList [example_component ''trace_proven_cross_shard_rollback_leakage'' 4,
         example_component ''canonical_state_proven_source_debit_absence'' 1, example_component ''december_2023_repeated_undelegation_mint'' 2,
         example_component ''post_2023_max_rate_net_effect_at_cleanup'' 3, example_component ''post_top_max_rate_rounding_drift'' (- 1),
         example_component ''pre_existing_net_deficit'' 7]),
      (''state_resident_formula_gap_atto'', JStr ''16''), (''supported_pending_receipts_outside_state_atto'', JStr ''7''),
      (''claim_adjusted_formula_gap_atto'', JStr ''23''),
      (''known_unauthorized_net_cutoff_component'', JDict [(''atto'', JStr ''10'')]),
      (''known_unauthorized_peak_claim_inflation'', JDict [(''atto'', JStr ''16'')]),
      (''post_2023_max_rate'', JDict [(''net_state_formula_effect_at_cleanup_atto'', JStr ''3''),
         (''activation_inclusive_peak_duplicated_claim_exposure_atto'', JStr ''9''),
         (''post_checkpoint_peak_duplicated_claim_exposure_atto'', JStr ''8''),
         (''activation_opening_duplicated_claim_exposure_atto'', JStr ''1''),
         (''accounting_interpretation'', JDict [(''peak_exposure_is_not_second_liquid_payout_total'', JBool True)]),
         (''stale_undelegation_liabilities_removed_at_cleanup_atto'', JStr ''4''),
         (''formula_counted_validator_rewards_not_committed_atto'', JStr ''1''),
         (''claim_exposure_cleanup_equation_closure_atto'', JStr ''0''), (''measured_net_effect_through_october_atto'', JStr ''3'')]),
      (''pre_existing_net_deficit'', JDict [(''net_atto'', JStr ''5'')]),
      (''historical_treasury_routing_inventory'', JDict [(''treasury_reclaim_atto'', JStr ''2'')]),
      (''migration_non_issuance_policy'', JDict example_policy)]"

definition example_formula_input :: json where
  "example_formula_input = JDict [(''genesis_atto'', JStr ''50''), (''pre_staking_rewards_atto'', JStr ''10''),
     (''base_accumulator_atto'', JStr ''15''), (''base_wrapper_rewards_atto'', JStr ''2''), (''cutoff_wrapper_rewards_atto'', JStr ''7''),
     (''wrapper_reward_delta_atto'', JStr ''5''), (''reconstructed_accumulator_atto'', JStr ''20''),
     (''formula_before_exclusions_atto'', JStr ''80'')]"

definition example_point :: "string \<Rightarrow> int \<Rightarrow> int \<Rightarrow> json" where
  "example_point name shard0 adjustment = JDict [(''name'', JStr name), (''shard0_claims_atto'', JInt shard0), (''shard1_claims_atto'', JInt 6),
     (''block_reward_accumulator_atto'', JInt 20), (''adjustments_atto'', JDict [(''leaks'', JInt adjustment)])]"

definition example_closure_input :: json where
  "example_closure_input = JDict [(''genesis_atto'', JInt 50), (''pre_staking_rewards_atto'', JInt 10), (''checkpoints'', JList
     [example_point ''post-2023-fix'' 81 2, example_point ''top-max-rate-cleanup'' 85 3, example_point ''cutoff'' 90 9])]"

definition example_non_issuance :: json where
  "example_non_issuance = JDict [(''policy'', JDict example_policy), (''existing_non_issuance'', JDict [(''not_issued_atto'', JStr ''2'')]),
     (''historical_hack_retained_initial_addresses'', JDict [(''not_issued_atto'', JStr ''3''),
        (''overlap_with_existing_non_issuance_addresses'', JList [])]),
     (''revert_leak_credited_recipients'', JDict [(''not_issued_atto'', JStr ''4''), (''positive_addresses'', JInt 1)]),
     (''totals'', JDict [(''not_issued_atto'', JStr ''9''), (''gross_cutoff_claim_atto'', JStr ''103''),
        (''remaining_full_claim_after_non_issuance_atto'', JStr ''94'')]),
     (''outputs'', JDict [(''retained_not_issued_csv'', JStr ''r.csv''), (''retained_not_issued_csv_sha256'', JStr ''d1''),
        (''retained_not_issued_rows'', JInt 1)]),
     (''sources'', JDict [(''revert_leak_retention'', JDict [(''name'', JStr ''x/l.csv''), (''sha256'', JStr ''d2'')])])]"

definition example_asset :: "string \<Rightarrow> string \<Rightarrow> json" where
  "example_asset name digest = JDict [(''name'', JStr name), (''bytes'', JInt 10), (''rows'', JInt 1), (''sha256'', JStr digest)]"

definition example_artifact :: "string \<Rightarrow> row \<Rightarrow> artifact" where
  "example_artifact digest r = \<lparr>af_digest = digest, af_bytes = 10, af_rows = [r]\<rparr>"

definition example_files :: "json \<Rightarrow> reconciliation_files" where
  "example_files flow = \<lparr>rf_reconciliation = example_reconciliation, rf_formula_input = example_formula_input,
     rf_cutoff_supply = JDict [(''account_and_staking_claims_atto'', JStr ''90'')],
     rf_ledger = JDict [(''liquid_shard1_atto'', JStr ''6''), (''total_claim_atto'', JStr ''103''), (''pending_cross_shard_atto'', JStr ''7'')],
     rf_receipts = JDict [(''pending_active_atto'', JStr ''7'')], rf_closure_input = example_closure_input,
     rf_document = (\<lambda>path. Inl (FileNotFoundError path)),
     rf_december = JDict [(''total_atto'', JStr ''2''), (''by_delegator'', JList [JDict [(''atto'', JStr ''2'')]])],
     rf_burn = JDict [(''positive_inaccessible_or_precompile_addresses'', JList []), (''positive_inaccessible_total_atto'', JStr ''0'')],
     rf_precompile = JDict [(''blocks_scanned'', JInt 13697024), (''top_level_staking_precompile_calls'', JInt 79602),
       (''unknown_target_transactions'', JInt 0)],
     rf_treasury = JDict [(''totals_atto'', JDict [(''treasury_reclaim'', JStr ''2'')]), (''policy_status'', JStr ''superseded'')],
     rf_non_issuance = example_non_issuance, rf_flow = flow,
     rf_release = JDict [(''assets'', JList [example_asset ''r.csv'' ''d1'', example_asset ''l.csv'' ''d2''])],
     rf_retained_csv = (\<lambda>_. Inr (example_artifact ''d1'' [''address_hex'' \<mapsto> ''0xAA'', ''retained_cap_atto'' \<mapsto> ''3'',
       ''initial_distribution_atto'' \<mapsto> ''5'', ''cutoff_balance_atto'' \<mapsto> ''3'', ''migration_treatment'' \<mapsto> ''not_issued'',
       ''source_evidence'' \<mapsto> ''e.json''])),
     rf_is_evidence = (\<lambda>path. path = ''e.json''),
     rf_leak_csv = (\<lambda>_. Inr (example_artifact ''d2'' [''retained_cap_atto'' \<mapsto> ''4'', ''unbacked_credit_atto'' \<mapsto> ''4'',
       ''cutoff_native_claim_atto'' \<mapsto> ''9'', ''prior_non_issuance_atto'' \<mapsto> ''1'', ''migration_treatment'' \<mapsto> ''not_issued'']))\<rparr>"

definition example_flow_summary :: json where
  "example_flow_summary = JDict [(''distribution'', JDict [(''may-2025'', JDict [(''held_cap_atto'', JStr ''3'')])])]"

lemma example_passes: "\<exists>p. verify_reconciliation (example_files example_flow_summary) = Inr p"
proof -
  have "is_ok (verify_reconciliation (example_files example_flow_summary))" by code_simp
  then show ?thesis by (simp add: is_ok_iff)
qed

theorem reconciliation_explains_gap_witness:
  "\<exists>p formula. verify_reconciliation (example_files example_flow_summary) = Inr p
     \<and> int_key (rf_ledger (example_files example_flow_summary)) ''total_claim_atto'' = Inr (formula + pr_claim_gap p)"
proof -
  from example_passes obtain p where p: "verify_reconciliation (example_files example_flow_summary) = Inr p" by blast
  from reconciliation_explains_gap [OF p] p show ?thesis by blast
qed

theorem reconciliation_not_issued_witness:
  "\<exists>p remaining total. verify_reconciliation (example_files example_flow_summary) = Inr p
     \<and> int_key (rf_ledger (example_files example_flow_summary)) ''total_claim_atto'' = Inr total \<and> remaining + pr_not_issued p = total"
proof -
  from example_passes obtain p where p: "verify_reconciliation (example_files example_flow_summary) = Inr p" by blast
  from reconciliation_not_issued [OF p] p show ?thesis by blast
qed

definition summary_of_example :: "flow_export \<Rightarrow> json" where
  "summary_of_example = flow_summary 0 ((''t.csv'', ''d''), (''e.csv'', ''d'')) (''a.csv'', ''b.csv'')"

theorem retained_equals_held_witness:
  "\<exists>x p retained. export_flow example_flow_node example_flow_node [example_audit_row] [] = Inr x
     \<and> verify_reconciliation (example_files (summary_of_example x)) = Inr p
     \<and> int_at example_non_issuance [''historical_hack_retained_initial_addresses'', ''not_issued_atto''] = Inr retained
     \<and> retained = (\<Sum>e\<leftarrow>fx_distribution x. di_held (snd e))"
proof -
  have "case export_flow example_flow_node example_flow_node [example_audit_row] [] of
      Inl _ \<Rightarrow> False | Inr x \<Rightarrow> is_ok (verify_reconciliation (example_files (summary_of_example x)))" by code_simp
  then obtain x p where x: "export_flow example_flow_node example_flow_node [example_audit_row] [] = Inr x"
    and p: "verify_reconciliation (example_files (summary_of_example x)) = Inr p" by (auto simp: is_ok_iff split: sum.splits)
  have flow: "rf_flow (example_files (summary_of_example x)) = flow_summary 0 ((''t.csv'', ''d''), (''e.csv'', ''d'')) (''a.csv'', ''b.csv'') x"
    by (simp add: example_files_def summary_of_example_def)
  have "rf_non_issuance (example_files f) = example_non_issuance" for f by (simp add: example_files_def)
  then show ?thesis using retained_equals_held [OF p x flow example_accounts] x p by auto
qed

end
