(* ===== verification/DestinationMap.thy ===== *)
theory DestinationMap
  imports StateDiff ShardBalance
begin

section \<open>Destination blocks of receipts: \<open>map-cx-receipt-destinations.py\<close>\<close>

text \<open>
  For every receipt that leaves for a shard, the script asks that shard's node where it was consumed, in batches, and
  writes a row with the block or with \<open>not_found\<close>. The rows are what \<open>historical-shard1-balance.py\<close> reads as
  credits.
\<close>

subsection \<open>The node\<close>

text \<open>\<open>retry_last n k f\<close>: \<open>n\<close> more attempts after the k-th; the last error is raised again.\<close>

fun retry_last :: "nat \<Rightarrow> nat \<Rightarrow> (nat \<Rightarrow> 'a result) \<Rightarrow> 'a result" where
  "retry_last 0 k f = f k"
| "retry_last (Suc n) k f = (case f k of Inr x \<Rightarrow> Inr x | Inl e \<Rightarrow> retry_last n (Suc k) f)"

definition list_response :: "json \<Rightarrow> json list result" where
  "list_response v = (case v of JList vs \<Rightarrow> Inr vs | _ \<Rightarrow> Inl (ValueError ''expected batch response''))"

definition destination_batch :: "exchange \<Rightarrow> int \<Rightarrow> json \<Rightarrow> json list result" where
  "destination_batch exchange retries requests = retry_last (nat (retries - 1)) 0 (\<lambda>k. rbind (exchange k requests) list_response)"

subsection \<open>Rows\<close>

record selected_receipt =
  se_tx_hash :: string
  se_block :: int
  se_shard :: int
  se_amount :: string

definition select_receipt :: "int \<Rightarrow> int \<Rightarrow> row \<Rightarrow> selected_receipt option result" where
  "select_receipt destination_shard minimum r =
     rbind (rbind (required r [''destination_shard'', ''to_shard'']) py_int) (\<lambda>shard.
     rbind (rbind (required r [''source_block'']) py_int) (\<lambda>block.
       if shard \<noteq> destination_shard \<or> block < minimum then Inr None
       else rbind (required r [''tx_hash'', ''receipt_tx_hash'']) (\<lambda>h.
            rbind (required r [''amount_atto'', ''value_atto'']) (\<lambda>amount.
              Inr (Some \<lparr>se_tx_hash = lower h, se_block = block, se_shard = shard, se_amount = amount\<rparr>)))))"

definition selected_rows :: "row list \<Rightarrow> int \<Rightarrow> int \<Rightarrow> selected_receipt list result" where
  "selected_rows rs destination_shard minimum =
     rbind (map_r (select_receipt destination_shard minimum) rs) (\<lambda>os. Inr (concat (map (case_option [] (\<lambda>x. [x])) os)))"

record mapped_receipt =
  mp_receipt :: selected_receipt
  mp_status :: string
  mp_block :: "int option"
  mp_block_hash :: json

definition destination_request :: "nat \<times> selected_receipt \<Rightarrow> json" where
  "destination_request ir = rpc_request ''hmyv2_getCXReceiptByHash'' [JStr (se_tx_hash (snd ir))] (int (fst ir))"

definition map_receipt :: "(json \<times> json) list \<Rightarrow> nat \<times> selected_receipt \<Rightarrow> mapped_receipt result" where
  "map_receipt items ir = (let r = snd ir in
     case item_with_id (int (fst ir)) items of
       None \<Rightarrow> Inl (KeyError ''id'')
     | Some item \<Rightarrow>
         rbind (rpc_error item) (\<lambda>_.
         rbind (get_default item ''result'' JNull) (\<lambda>receipt.
           if receipt = JNull
           then Inr \<lparr>mp_receipt = r, mp_status = ''not_found'', mp_block = None, mp_block_hash = JStr []\<rparr>
           else rbind (rbind (subscript receipt ''hash'') text_of) (\<lambda>h.
                rbind (raise_if (lower h \<noteq> se_tx_hash r) (ValueError ''hash mismatch'')) (\<lambda>_.
                rbind (rbind (subscript receipt ''value'') int_of) (\<lambda>v. rbind (py_int (se_amount r)) (\<lambda>amount.
                rbind (raise_if (v \<noteq> amount) (ValueError ''value mismatch'')) (\<lambda>_.
                rbind (rbind (subscript receipt ''blockNumber'') int_of) (\<lambda>b.
                rbind (get_default receipt ''blockHash'' (JStr [])) (\<lambda>block_hash.
                  Inr \<lparr>mp_receipt = r, mp_status = ''applied'', mp_block = Some b, mp_block_hash = block_hash\<rparr>))))))))))"

definition map_chunk :: "(json \<Rightarrow> json list result) \<Rightarrow> (nat \<times> selected_receipt) list \<Rightarrow> mapped_receipt list result" where
  "map_chunk batch chunk =
     rbind (batch (JList (map destination_request chunk))) (\<lambda>response.
     rbind (keyed_items (JList response)) (\<lambda>items. map_r (map_receipt items) chunk))"

definition map_destinations ::
  "(json \<Rightarrow> json list result) \<Rightarrow> int \<Rightarrow> int \<Rightarrow> int \<Rightarrow> int \<Rightarrow> bool \<Rightarrow> row list \<Rightarrow> mapped_receipt list result" where
  "map_destinations batch batch_size retries destination_shard minimum allow_missing rs =
     rbind (raise_if (batch_size \<le> 0 \<or> retries \<le> 0) (ValueError ''batch size and retries must be positive'')) (\<lambda>_.
     rbind (selected_rows rs destination_shard minimum) (\<lambda>selected.
     rbind (batches batch_size (enumerate 0 selected)) (\<lambda>chunks.
     rbind (map_r (map_chunk batch) chunks) (\<lambda>mapped_chunks. let mapped = concat mapped_chunks in
     rbind (raise_if (list_ex (\<lambda>m. mp_status m = ''not_found'') mapped \<and> \<not> allow_missing)
       (ValueError ''destination receipts not found'')) (\<lambda>_. Inr mapped)))))"

text \<open>The row written: \<open>csv\<close> prints integers in decimal and \<open>None\<close> as the empty text.\<close>

definition mapped_cells :: "mapped_receipt \<Rightarrow> row" where
  "mapped_cells m = (let r = mp_receipt m in
     [''tx_hash'' \<mapsto> se_tx_hash r, ''source_block'' \<mapsto> py_str (se_block r), ''destination_shard'' \<mapsto> py_str (se_shard r),
      ''amount_atto'' \<mapsto> se_amount r, ''destination_status'' \<mapsto> mp_status m,
      ''destination_block'' \<mapsto> (case mp_block m of None \<Rightarrow> [] | Some b \<Rightarrow> py_str b),
      ''destination_block_hash'' \<mapsto> csv_text (mp_block_hash m)])"

definition map_receipt_destinations ::
  "exchange \<Rightarrow> int \<Rightarrow> int \<Rightarrow> int \<Rightarrow> int \<Rightarrow> bool \<Rightarrow> row list \<Rightarrow> row list result" where
  "map_receipt_destinations exchange batch_size retries destination_shard minimum allow_missing rs =
     rbind (map_destinations (destination_batch exchange retries) batch_size retries destination_shard minimum allow_missing rs)
       (\<lambda>mapped. Inr (map mapped_cells mapped))"

subsection \<open>What the rows say\<close>

definition receipt_amount :: "selected_receipt \<Rightarrow> int" where
  "receipt_amount r = (case py_int (se_amount r) of Inl _ \<Rightarrow> 0 | Inr n \<Rightarrow> n)"

text \<open>Every receipt is applied, with its hash and its value confirmed, or unknown.\<close>

definition mapped_ok :: "selected_receipt \<Rightarrow> mapped_receipt \<Rightarrow> bool" where
  "mapped_ok r m \<longleftrightarrow> mp_receipt m = r
     \<and> (mp_status m = ''not_found'' \<and> mp_block m = None \<or> mp_status m = ''applied'' \<and> mp_block m \<noteq> None \<and> is_ok (py_int (se_amount r)))"

lemma map_receipt_ok: "map_receipt items ir = Inr m \<Longrightarrow> mapped_ok (snd ir) m"
  by (auto simp: map_receipt_def Let_def rbind_eq_Inr mapped_ok_def is_ok_iff split: option.splits if_split_asm)

lemma map_chunk_ok: "map_chunk batch chunk = Inr ms \<Longrightarrow> list_all2 mapped_ok (map snd chunk) ms"
  by (auto simp: map_chunk_def rbind_eq_Inr map_r_eq_Inr list_all2_map1 intro: map_receipt_ok elim!: list_all2_mono)

lemma map_chunks_ok:
  "list_all2 (\<lambda>c ms. map_chunk batch c = Inr ms) chunks mss \<Longrightarrow> list_all2 mapped_ok (map snd (concat chunks)) (concat mss)"
  by (induction rule: list_all2_induct) (auto intro!: list_all2_appendI dest: map_chunk_ok)

lemma map_destinations_ok:
  assumes "map_destinations batch batch_size retries shard minimum allow rs = Inr mapped"
  obtains selected where "selected_rows rs shard minimum = Inr selected" and "list_all2 mapped_ok selected mapped"
    and "allow \<or> list_all (\<lambda>m. mp_status m = ''applied'') mapped"
proof -
  from assms obtain selected chunks mss where pos: "0 < batch_size" and s: "selected_rows rs shard minimum = Inr selected"
    and chunks: "batches batch_size (enumerate 0 selected) = Inr chunks" and mss: "map_r (map_chunk batch) chunks = Inr mss"
    and mapped: "mapped = concat mss" and all: "\<not> (list_ex (\<lambda>m. mp_status m = ''not_found'') mapped \<and> \<not> allow)"
    unfolding map_destinations_def Let_def by (elim rbind_E) auto
  have "concat chunks = enumerate 0 selected" using chunks pos by (auto simp: batches_def concat_slices)
  then have ok: "list_all2 mapped_ok selected mapped"
    using map_chunks_ok [OF mss [unfolded map_r_eq_Inr]] by (simp add: mapped)
  have "mp_status m = ''applied'' \<or> mp_status m = ''not_found''" if "m \<in> set mapped" for m
    using list_all2_right [OF ok that] by (auto simp: mapped_ok_def)
  then have "allow \<or> list_all (\<lambda>m. mp_status m = ''applied'') mapped" using all by (auto simp: list_all_iff list_ex_iff)
  with that s ok show ?thesis by blast
qed

lemma selected_shard: "selected_rows rs shard minimum = Inr selected \<Longrightarrow> r \<in> set selected \<Longrightarrow> se_shard r = shard \<and> minimum \<le> se_block r"
  by (fastforce simp: selected_rows_def select_receipt_def rbind_eq_Inr split: option.splits if_split_asm dest!: map_r_elem)

lemma required_nonempty: "required r names = Inr s \<Longrightarrow> s \<noteq> []"
  by (auto simp: required_def getitem_eq_Inr find_Some_iff split: option.splits)

lemma selected_amount: "selected_rows rs shard minimum = Inr selected \<Longrightarrow> r \<in> set selected \<Longrightarrow> se_amount r \<noteq> []"
  by (fastforce simp: selected_rows_def select_receipt_def rbind_eq_Inr split: option.splits if_split_asm
      dest!: map_r_elem dest: required_nonempty)

definition applied_within :: "int \<Rightarrow> int \<Rightarrow> mapped_receipt \<Rightarrow> bool" where
  "applied_within checkpoint cutoff m \<longleftrightarrow> (case mp_block m of None \<Rightarrow> False | Some b \<Rightarrow> in_window checkpoint cutoff b)"

lemma later_credit_mapped:
  assumes "mapped_ok r m" and "se_shard r = 1" and "se_amount r \<noteq> []"
  shows "later_credit checkpoint cutoff st (mapped_cells m)
    = Inr (if applied_within checkpoint cutoff m then (fst st + 1, snd st + receipt_amount (mp_receipt m)) else st)"
proof (cases "mp_block m")
  case None
  then show ?thesis using assms(1) by (auto simp: mapped_ok_def later_credit_def mapped_cells_def Let_def applied_within_def)
next
  case (Some b)
  then have m: "mp_receipt m = r" "mp_status m = ''applied''" and "is_ok (py_int (se_amount r))" using assms(1) by (auto simp: mapped_ok_def)
  then obtain n where n: "py_int (se_amount r) = Inr n" by (auto simp: is_ok_iff)
  let ?r = "mapped_cells m"
  have cells: "?r ''destination_status'' = Some ''applied''" "?r ''destination_shard'' = Some (py_str 1)"
      "?r ''destination_block'' = Some (py_str b)" "?r ''amount_atto'' = Some (se_amount r)"
    by (simp_all add: mapped_cells_def Let_def m Some assms(2))
  have "row_integer ?r [''destination_shard'', ''to_shard''] = Inr 1" "row_integer ?r [''destination_block''] = Inr b"
      "row_integer ?r [''amount_atto'', ''value_atto''] = Inr n"
    by (simp_all add: row_integer_def nonempty_cell_def getitem_def cells assms(3) py_int_py_str n)
  then show ?thesis by (simp add: later_credit_def cells add_amount_def applied_within_def Some receipt_amount_def m n)
qed

lemma sum_credits_mapped:
  "list_all2 mapped_ok rs ms \<Longrightarrow> \<forall>r \<in> set rs. se_shard r = 1 \<and> se_amount r \<noteq> [] \<Longrightarrow>
     fold_r (later_credit checkpoint cutoff) st (map mapped_cells ms)
       = Inr (fst st + int (length (filter (applied_within checkpoint cutoff) ms)),
              snd st + (\<Sum>m\<leftarrow>filter (applied_within checkpoint cutoff) ms. receipt_amount (mp_receipt m)))"
  by (induction arbitrary: st rule: list_all2_induct) (simp_all add: later_credit_mapped)

subsection \<open>Properties\<close>

text \<open>
  The destination map accounts for every receipt. Whatever the node answers and however the requests are cut into
  batches, a successful run has one row for each selected receipt, in order: either the node confirmed its hash and amount and
  the row has the block, or the row says \<open>not_found\<close> and missing receipts were allowed. On the rows for shard 1 the
  credit sum of the shard-1 balance then succeeds, with the number and the amount of the receipts applied in the window.
\<close>

theorem destinations_feed_balance:
  assumes "map_destinations batch batch_size retries 1 minimum allow_missing rs = Inr mapped"
  shows "\<exists>selected. selected_rows rs 1 minimum = Inr selected \<and> list_all2 mapped_ok selected mapped
    \<and> (allow_missing \<or> list_all (\<lambda>m. mp_status m = ''applied'') mapped)
    \<and> sum_later_credits (map mapped_cells mapped) checkpoint cutoff
        = Inr (int (length (filter (applied_within checkpoint cutoff) mapped)),
               \<Sum>m\<leftarrow>filter (applied_within checkpoint cutoff) mapped. receipt_amount (mp_receipt m))"
proof -
  from assms obtain selected where s: "selected_rows rs 1 minimum = Inr selected" and ok: "list_all2 mapped_ok selected mapped"
    and all: "allow_missing \<or> list_all (\<lambda>m. mp_status m = ''applied'') mapped" by (rule map_destinations_ok)
  have "\<forall>r \<in> set selected. se_shard r = 1 \<and> se_amount r \<noteq> []" using selected_shard [OF s] selected_amount [OF s] by blast
  from sum_credits_mapped [OF ok this, of checkpoint cutoff "(0, 0)"] s ok all show ?thesis by (simp add: sum_later_credits_def)
qed

text \<open>Two receipts in batches of one, the second not consumed yet.\<close>

definition example_receipt :: "string \<Rightarrow> row" where
  "example_receipt h = [''destination_shard'' \<mapsto> ''1'', ''source_block'' \<mapsto> ''7'', ''tx_hash'' \<mapsto> h, ''value_atto'' \<mapsto> ''30'']"

definition example_destination :: exchange where
  "example_destination k requests = Inr (if k = 0 then JNull else JList [JDict [(''id'', JInt 0), (''result'',
       JDict [(''hash'', JStr ''0xA1''), (''value'', JInt 30), (''blockNumber'', JInt 12)])], JDict [(''id'', JInt 1)]])"

theorem destinations_feed_balance_witness:
  "\<exists>mapped. map_destinations (destination_batch example_destination 5) 1 5 1 0 True [example_receipt ''0xa1'', example_receipt ''0xa2''] = Inr mapped
     \<and> sum_later_credits (map mapped_cells mapped) 10 20 = Inr (1, 30)"
proof -
  have "case map_destinations (destination_batch example_destination 5) 1 5 1 0 True [example_receipt ''0xa1'', example_receipt ''0xa2''] of
      Inl _ \<Rightarrow> False | Inr mapped \<Rightarrow> length (filter (applied_within 10 20) mapped) = 1
        \<and> map (receipt_amount \<circ> mp_receipt) (filter (applied_within 10 20) mapped) = [30]" by code_simp
  then obtain mapped where m: "map_destinations (destination_batch example_destination 5) 1 5 1 0 True [example_receipt ''0xa1'', example_receipt ''0xa2''] = Inr mapped"
    and one: "length (filter (applied_within 10 20) mapped) = 1" "map (receipt_amount \<circ> mp_receipt) (filter (applied_within 10 20) mapped) = [30]"
    by (auto split: sum.splits)
  from destinations_feed_balance [OF m, of 10 20] one m show ?thesis by (auto simp: o_def)
qed

end
