(* ===== verification/Validators.thy ===== *)
theory Validators
  imports Rpc Bech32 Closure "HOL-Library.Product_Lexorder"
begin

section \<open>Scanning all validators: \<open>undelegation-mint-reconcile.py\<close> and \<open>historical-staking-rpc.py\<close>\<close>

text \<open>
  Both scripts read every validator of the chain at one block, page by page, until the node answers an empty page. The
  first adds up what the undelegations of December 2023 were paid repeatedly, the second what every delegator holds in
  delegations, undelegations and rewards. The node is the parameter \<open>fetch\<close>: its answer for each page. It need not
  ever answer an empty page, so the loop \<open>while True\<close> is a partial function, and \<open>None\<close> stands for a run that does not
  return.
\<close>

subsection \<open>The pages\<close>

partial_function (option) scan :: "(nat \<Rightarrow> json result) \<Rightarrow> ('s \<Rightarrow> json \<Rightarrow> 's result) \<Rightarrow> nat \<Rightarrow> 's \<Rightarrow> 's result option" where
  "scan fetch book page s = (case fetch page of
       Inl e \<Rightarrow> Some (Inl e)
     | Inr answer \<Rightarrow>
         if \<not> truthy answer then Some (Inr s)
         else (case book s answer of Inl e \<Rightarrow> Some (Inl e) | Inr s' \<Rightarrow> scan fetch book (Suc page) s'))"

declare scan.simps [code]

definition validator_page :: "exchange \<Rightarrow> int \<Rightarrow> nat \<Rightarrow> json result" where
  "validator_page exchange block page =
     rpc_some exchange ''hmyv2_getAllValidatorInformationByBlockNumber'' [JInt (int page), JInt block]"

text \<open>What the pages before page \<open>n\<close> hold.\<close>

fun pages_before :: "(nat \<Rightarrow> json result) \<Rightarrow> nat \<Rightarrow> json list" where
  "pages_before fetch 0 = []"
| "pages_before fetch (Suc n) = pages_before fetch n @ (case rbind (fetch n) iter of Inl _ \<Rightarrow> [] | Inr vs \<Rightarrow> vs)"

text \<open>The loop over the items of a page, with the counter of validators.\<close>

definition book_page :: "('s \<Rightarrow> json \<Rightarrow> 's result) \<Rightarrow> int \<times> 's \<Rightarrow> json \<Rightarrow> (int \<times> 's) result" where
  "book_page book s answer = rbind (iter answer) (\<lambda>batch.
     rbind (fold_r book (snd s) batch) (\<lambda>t. Inr (fst s + int (length batch), t)))"

text \<open>A run that ends has booked the pages before the first empty one.\<close>

definition stops_at :: "(nat \<Rightarrow> json result) \<Rightarrow> nat \<Rightarrow> bool" where
  "stops_at fetch n \<longleftrightarrow> (\<exists>v. fetch n = Inr v \<and> \<not> truthy v) \<and> (\<forall>k<n. \<exists>v. fetch k = Inr v \<and> truthy v)"

lemma scan_pages:
  assumes "scan fetch (book_page book) page s = Some (Inr t)"
  shows "\<exists>n\<ge>page. (\<exists>v. fetch n = Inr v \<and> \<not> truthy v) \<and> (\<forall>k. page \<le> k \<and> k < n \<longrightarrow> (\<exists>v. fetch k = Inr v \<and> truthy v))
    \<and> (\<exists>batch. pages_before fetch n = pages_before fetch page @ batch
        \<and> fst t = fst s + int (length batch) \<and> fold_r book (snd s) batch = Inr (snd t))"
proof -
  let ?P = "\<lambda>f page s t. \<exists>n\<ge>page. (\<exists>v. f n = Inr v \<and> \<not> truthy v) \<and> (\<forall>k. page \<le> k \<and> k < n \<longrightarrow> (\<exists>v. f k = Inr v \<and> truthy v))
    \<and> (\<exists>batch. pages_before f n = pages_before f page @ batch \<and> fst t = fst s + int (length batch) \<and> fold_r book (snd s) batch = Inr (snd t))"
  have "\<forall>t. r = Inr t \<longrightarrow> b = book_page book \<longrightarrow> ?P f p s t" if "scan f b p s = Some r" for f b p s r
  proof (rule scan.raw_induct [where P = "\<lambda>f b p s r. \<forall>t. r = Inr t \<longrightarrow> b = book_page book \<longrightarrow> ?P f p s t", OF _ that], intro allI impI)
    fix sc :: "(nat \<Rightarrow> json result) \<Rightarrow> (int \<times> 'a \<Rightarrow> json \<Rightarrow> (int \<times> 'a) result) \<Rightarrow> nat \<Rightarrow> int \<times> 'a \<Rightarrow> (int \<times> 'a) result option"
      and f :: "nat \<Rightarrow> json result" and b p s r t
    assume IH: "\<And>f b p s r. sc f b p s = Some r \<Longrightarrow> \<forall>t. r = Inr t \<longrightarrow> b = book_page book \<longrightarrow> ?P f p s t"
      and eq: "(case f p of Inl e \<Rightarrow> Some (Inl e) | Inr answer \<Rightarrow> if \<not> truthy answer then Some (Inr s)
        else (case b s answer of Inl e \<Rightarrow> Some (Inl e) | Inr s' \<Rightarrow> sc f b (Suc p) s')) = Some r"
      and r: "r = Inr t" and b: "b = book_page book"
    from eq r obtain answer where answer: "f p = Inr answer" by (auto split: sum.splits)
    show "?P f p s t"
    proof (cases "truthy answer")
      case False
      then show ?thesis using eq answer r by (intro exI [of _ p]) auto
    next
      case True
      with eq answer r b obtain s' where s': "book_page book s answer = Inr s'" and rest: "sc f b (Suc p) s' = Some (Inr t)"
        by (auto split: sum.splits)
      from s' obtain vs where vs: "iter answer = Inr vs" and fst: "fst s' = fst s + int (length vs)" and snd: "fold_r book (snd s) vs = Inr (snd s')"
        by (auto simp: book_page_def rbind_eq_Inr)
      from IH [OF rest] b obtain n batch where n: "Suc p \<le> n" "\<exists>v. f n = Inr v \<and> \<not> truthy v"
        and full: "\<forall>k. Suc p \<le> k \<and> k < n \<longrightarrow> (\<exists>v. f k = Inr v \<and> truthy v)"
        and pages: "pages_before f n = pages_before f (Suc p) @ batch" and len: "fst t = fst s' + int (length batch)"
        and run: "fold_r book (snd s') batch = Inr (snd t)" by blast
      have "\<exists>v. f k = Inr v \<and> truthy v" if "p \<le> k" "k < n" for k
        using full that answer True by (cases "k = p") auto
      moreover have "pages_before f n = pages_before f p @ (vs @ batch)" using pages by (simp add: answer vs)
      moreover have "fold_r book (snd s) (vs @ batch) = Inr (snd t)" using snd run by (simp add: fold_r_append)
      ultimately show ?thesis using n fst len by (intro exI [of _ n] conjI) (auto intro!: exI [of _ "vs @ batch"])
    qed
  qed
  then show ?thesis using assms by blast
qed

lemma scan_booked:
  assumes "scan fetch (book_page book) 0 (0, s) = Some (Inr t)"
  obtains n where "stops_at fetch n" and "fst t = int (length (pages_before fetch n))" and "fold_r book s (pages_before fetch n) = Inr (snd t)"
  using scan_pages [OF assms] by (auto simp: stops_at_def)

text \<open>A run does not return exactly if every page has validators that can be booked: \<open>steps\<close> is the first \<open>n\<close> pages.\<close>

fun steps :: "(nat \<Rightarrow> json result) \<Rightarrow> ('s \<Rightarrow> json \<Rightarrow> 's result) \<Rightarrow> nat \<Rightarrow> nat \<Rightarrow> 's \<Rightarrow> 's result" where
  "steps fetch book page 0 s = Inr s"
| "steps fetch book page (Suc n) s = rbind (fetch page) (\<lambda>answer.
     if truthy answer then rbind (book s answer) (steps fetch book (Suc page) n) else Inl IndexError)"

lemma scan_returns_from: "\<not> is_ok (steps fetch book page n s) \<Longrightarrow> \<exists>r. scan fetch book page s = Some r"
proof (induction n arbitrary: page s)
  case (Suc n)
  have IH: "\<exists>r. scan fetch book (Suc page) s' = Some r" if "\<not> is_ok (steps fetch book (Suc page) n s')" for s'
    using Suc.IH that by blast
  show ?case using Suc.prems by (subst scan.simps) (auto simp: is_ok_rbind split: sum.splits if_splits dest: IH)
qed simp

lemma scan_ends:
  assumes "scan fetch book page s = Some r"
  shows "\<exists>n. \<not> is_ok (steps fetch book page n s)"
proof (rule scan.raw_induct [where P = "\<lambda>f b p s r. \<exists>n. \<not> is_ok (steps f b p n s)", OF _ assms], goal_cases)
  case (1 sc f b p s r)
  show ?case
  proof (cases "f p")
    case (Inl e)
    then show ?thesis by (intro exI [of _ "Suc 0"]) simp
  next
    case (Inr v)
    show ?thesis
    proof (cases "truthy v \<and> is_ok (b s v)")
      case True
      then obtain t where t: "b s v = Inr t" by (auto simp: is_ok_iff)
      with 1(2) Inr True have "sc f b (Suc p) t = Some r" by simp
      then obtain n where "\<not> is_ok (steps f b (Suc p) n t)" using 1(1) by blast
      then show ?thesis using Inr True t by (intro exI [of _ "Suc n"]) simp
    next
      case False
      then show ?thesis using Inr by (intro exI [of _ "Suc 0"]) (auto simp: is_ok_rbind split: sum.splits)
    qed
  qed
qed

lemma scan_None: "scan fetch book page s = None \<longleftrightarrow> (\<forall>n. is_ok (steps fetch book page n s))"
  using scan_returns_from scan_ends by (metis not_None_eq)

lemma steps_stop: "fetch (page + n) = Inr v \<Longrightarrow> \<not> truthy v \<Longrightarrow> \<not> is_ok (steps fetch book page (Suc n) s)"
proof (induction n arbitrary: page s)
  case (Suc n)
  have IH: "\<not> is_ok (steps fetch book (Suc page) (Suc n) t)" for t by (rule Suc.IH) (use Suc.prems in simp_all)
  show ?case unfolding steps.simps(2) [of fetch book page "Suc n"] is_ok_rbind
    by (auto split: sum.splits simp del: steps.simps simp: is_ok_rbind IH)
qed simp

lemma scan_returns: "fetch n = Inr v \<Longrightarrow> \<not> truthy v \<Longrightarrow> \<exists>r. scan fetch book 0 s = Some r"
  by (rule scan_returns_from [OF steps_stop [of fetch 0 n]]) simp_all

subsection \<open>The repeated undelegations of December 2023\<close>

text \<open>
  The addresses in the answers are texts, as the node's interface documents; on anything else the model stops, where the script
  would use the value as a dictionary key.
\<close>

record mint_entry =
  me_validator :: string
  me_delegator :: string
  me_epoch :: int
  me_amount :: int
  me_payouts :: int

definition repeated_mint :: "mint_entry \<Rightarrow> int" where
  "repeated_mint e = me_amount e * me_payouts e"

record mint_state =
  ms_validators :: "(string, int) dict"
  ms_delegators :: "(string, int) dict"
  ms_entries :: "mint_entry list"
  ms_names :: "string list"
  ms_count :: int

definition no_mint :: mint_state where
  "no_mint = \<lparr>ms_validators = [], ms_delegators = [], ms_entries = [], ms_names = [], ms_count = 0\<rparr>"

definition lock_period :: int where
  "lock_period = 7"

definition add_mint :: "mint_entry \<Rightarrow> mint_state \<Rightarrow> mint_state" where
  "add_mint e s = s\<lparr>ms_delegators := adjust 0 (me_delegator e) (\<lambda>n. n + repeated_mint e) (ms_delegators s),
     ms_entries := ms_entries s @ [e], ms_names := add_label (me_delegator e) (ms_names s), ms_count := ms_count s + 1\<rparr>"

text \<open>One undelegation: nothing when it was not paid again, otherwise its entry.\<close>

definition mint_entry_of :: "int \<Rightarrow> json \<Rightarrow> json \<Rightarrow> json \<Rightarrow> mint_entry option result" where
  "mint_entry_of last_paid_epoch validator delegation undelegation =
     rbind (rbind (subscript undelegation ''epoch'') int_of) (\<lambda>epoch. let payouts = last_paid_epoch - (epoch + lock_period) in
       if payouts \<le> 0 then Inr None
       else rbind (rbind (subscript undelegation ''amount'') int_of) (\<lambda>amount.
            rbind (rbind (subscript delegation ''delegator-address'') text_of) (\<lambda>delegator.
            rbind (rbind (subscript validator ''address'') text_of) (\<lambda>address.
              Inr (Some \<lparr>me_validator = address, me_delegator = delegator, me_epoch = epoch, me_amount = amount,
                me_payouts = payouts\<rparr>)))))"

definition mint_undelegation :: "int \<Rightarrow> json \<Rightarrow> json \<Rightarrow> int \<times> mint_state \<Rightarrow> json \<Rightarrow> (int \<times> mint_state) result" where
  "mint_undelegation last_paid_epoch validator delegation vs undelegation =
     rbind (mint_entry_of last_paid_epoch validator delegation undelegation) (\<lambda>found.
       Inr (case found of None \<Rightarrow> vs | Some e \<Rightarrow> (fst vs + repeated_mint e, add_mint e (snd vs))))"

definition mint_delegation :: "int \<Rightarrow> json \<Rightarrow> int \<times> mint_state \<Rightarrow> json \<Rightarrow> (int \<times> mint_state) result" where
  "mint_delegation last_paid_epoch validator vs delegation =
     rbind (rbind (subscript delegation ''undelegations'') iter) (\<lambda>undelegations.
       fold_r (mint_undelegation last_paid_epoch validator delegation) vs undelegations)"

definition mint_validator :: "int \<Rightarrow> mint_state \<Rightarrow> json \<Rightarrow> mint_state result" where
  "mint_validator last_paid_epoch s information =
     rbind (subscript information ''validator'') (\<lambda>validator.
     rbind (rbind (subscript validator ''delegations'') iter) (\<lambda>delegations.
     rbind (fold_r (mint_delegation last_paid_epoch validator) (0, s) delegations) (\<lambda>(validator_total, s').
       if validator_total = 0 then Inr s'
       else rbind (rbind (subscript validator ''address'') text_of) (\<lambda>address.
         Inr (s'\<lparr>ms_validators := AList.update address validator_total (ms_validators s')\<rparr>)))))"

text \<open>The report, largest amounts first.\<close>

definition largest_first :: "(string, int) dict \<Rightarrow> (string \<times> int) list" where
  "largest_first d = sort_key (\<lambda>kv. (- snd kv, fst kv)) d"

definition amount_json :: "string \<Rightarrow> string \<times> int \<Rightarrow> json" where
  "amount_json name kv = JDict [(name, JStr (fst kv)), (''atto'', JStr (py_str (snd kv))), (''one'', JStr (one_floor (snd kv)))]"

definition entry_json :: "mint_entry \<Rightarrow> json" where
  "entry_json e = JDict [(''validator'', JStr (me_validator e)), (''delegator'', JStr (me_delegator e)),
     (''undelegation_epoch'', JInt (me_epoch e)), (''amount_atto'', JStr (py_str (me_amount e))),
     (''repeated_payouts'', JInt (me_payouts e)), (''mint_atto'', JStr (py_str (repeated_mint e))),
     (''mint_one'', JStr (one_floor (repeated_mint e)))]"

definition entry_order :: "mint_entry \<Rightarrow> string \<times> string \<times> int" where
  "entry_order e = (me_validator e, me_delegator e, me_epoch e)"

definition mint_report :: "string \<Rightarrow> int \<Rightarrow> json \<Rightarrow> int \<Rightarrow> int \<Rightarrow> mint_state \<Rightarrow> json" where
  "mint_report url block block_hash epoch scanned s = (let minted = sum_list (map snd (ms_validators s)) in JDict
     [(''rpc'', JStr url), (''block'', JInt block), (''block_hash'', block_hash), (''epoch'', JInt epoch),
      (''last_paid_epoch'', JInt (epoch - 1)), (''lock_period'', JInt lock_period), (''validators_scanned'', JInt scanned),
      (''affected_validators'', JInt (int (length (ms_validators s)))),
      (''affected_delegators'', JInt (int (length (ms_names s)))),
      (''bad_undelegation_entries'', JInt (ms_count s)),
      (''total_atto'', JStr (py_str minted)), (''total_one'', JStr (one_floor minted)),
      (''by_validator'', JList (map (amount_json ''validator'') (largest_first (ms_validators s)))),
      (''by_delegator'', JList (map (amount_json ''delegator'') (largest_first (ms_delegators s)))),
      (''entries'', JList (map entry_json (sort_key entry_order (ms_entries s))))])"

text \<open>The whole run: \<open>None\<close> if the pages never end.\<close>

definition scan_mints :: "exchange \<Rightarrow> int \<Rightarrow> int \<Rightarrow> (int \<times> mint_state) result option" where
  "scan_mints exchange block epoch = scan (validator_page exchange block) (book_page (mint_validator (epoch - 1))) 0 (0, no_mint)"

definition reconstruct_mint :: "exchange \<Rightarrow> string \<Rightarrow> int \<Rightarrow> json result option" where
  "reconstruct_mint exchange url block =
     (case rbind (rpc_some exchange ''hmyv2_getBlockByNumber'' [JInt block, JDict [(''fullTx'', JBool False)]]) (\<lambda>header.
             rbind (rbind (subscript header ''epoch'') int_of) (\<lambda>epoch. Inr (header, epoch))) of
        Inl e \<Rightarrow> Some (Inl e)
      | Inr (header, epoch) \<Rightarrow> map_option (\<lambda>ended. rbind ended (\<lambda>(scanned, s).
          rbind (subscript header ''hash'') (\<lambda>h. Inr (mint_report url block h epoch scanned s))))
          (scan_mints exchange block epoch))"

subsection \<open>What every delegator holds: \<open>historical-staking-rpc.py\<close>\<close>

text \<open>A claim: active delegation, pending undelegation, unclaimed reward.\<close>

type_synonym staking_claim = "int \<times> int \<times> int"

definition claim_plus :: "staking_claim \<Rightarrow> staking_claim \<Rightarrow> staking_claim" where
  "claim_plus a b = (fst a + fst b, fst (snd a) + fst (snd b), snd (snd a) + snd (snd b))"

definition staking_delegation :: "json \<Rightarrow> (string \<times> staking_claim) result" where
  "staking_delegation delegation =
     rbind (rbind (rbind (subscript delegation ''delegator-address'') text_of) staking_decode_address) (\<lambda>address.
     rbind (rbind (subscript delegation ''amount'') int_of) (\<lambda>amount.
     rbind (rbind (subscript delegation ''undelegations'') iter) (\<lambda>undelegations.
     rbind (map_r (\<lambda>item. rbind (subscript item ''amount'') int_of) undelegations) (\<lambda>amounts.
     rbind (rbind (subscript delegation ''reward'') int_of) (\<lambda>reward.
       Inr (address, amount, sum_list amounts, reward))))))"

definition add_staking :: "(string, staking_claim) dict \<Rightarrow> json \<Rightarrow> (string, staking_claim) dict result" where
  "add_staking claims delegation = rbind (staking_delegation delegation) (\<lambda>(address, c).
     Inr (adjust (0, 0, 0) address (\<lambda>held. claim_plus held c) claims))"

definition staking_validator :: "(string, staking_claim) dict \<Rightarrow> json \<Rightarrow> (string, staking_claim) dict result" where
  "staking_validator claims information =
     rbind (rbind (rbind (subscript information ''validator'') (\<lambda>v. subscript v ''delegations'')) iter) (\<lambda>delegations.
       fold_r add_staking claims delegations)"

definition staking_columns :: "string list" where
  "staking_columns = [''active_delegation_atto'', ''pending_undelegation_atto'', ''unclaimed_reward_atto'']"

definition staking_row :: "string \<times> staking_claim \<Rightarrow> row" where
  "staking_row kv = (case kv of (address, active, pending, reward) \<Rightarrow>
     [''address'' \<mapsto> address, ''active_delegation_atto'' \<mapsto> py_str active, ''pending_undelegation_atto'' \<mapsto> py_str pending,
      ''unclaimed_reward_atto'' \<mapsto> py_str reward])"

record staking_summary =
  ss_block :: int
  ss_validators :: int
  ss_delegators :: int
  ss_active :: int
  ss_pending :: int
  ss_reward :: int

definition staking_report :: "int \<Rightarrow> int \<times> (string, staking_claim) dict \<Rightarrow> row list \<times> staking_summary" where
  "staking_report block s = (case s of (validators, claims) \<Rightarrow>
     (map staking_row (sort_key fst claims),
      \<lparr>ss_block = block, ss_validators = validators, ss_delegators = int (length claims),
       ss_active = total_of fst claims, ss_pending = total_of (fst \<circ> snd) claims, ss_reward = total_of (snd \<circ> snd) claims\<rparr>))"

definition historical_staking :: "exchange \<Rightarrow> int \<Rightarrow> (row list \<times> staking_summary) result option" where
  "historical_staking exchange block =
     map_option (\<lambda>ended. rbind ended (\<lambda>s. Inr (staking_report block s)))
       (scan (validator_page exchange block) (book_page staking_validator) 0 (0, []))"

end
