(* ===== verification/ValidatorsProofs.thy ===== *)
theory ValidatorsProofs
  imports Validators Reconciliation
begin

section \<open>What the validator scans add up to\<close>

text \<open>
  The reference for both scans: the delegations and undelegations of a list of validators, read off the answers without any
  running state. The first property says what the reconstruction of the December 2023 mint reports and that the final
  reconciliation accepts it, the second what the staking rows hold, the third when the scans return.
\<close>

subsection \<open>The reference\<close>

definition member_items :: "json \<Rightarrow> string \<Rightarrow> json list" where
  "member_items v k = (case rbind (subscript v k) iter of Inl _ \<Rightarrow> [] | Inr vs \<Rightarrow> vs)"

definition mints_of_delegation :: "int \<Rightarrow> json \<Rightarrow> json \<Rightarrow> mint_entry list" where
  "mints_of_delegation last_paid validator delegation = concat (map (\<lambda>u.
     case mint_entry_of last_paid validator delegation u of Inr (Some e) \<Rightarrow> [e] | _ \<Rightarrow> []) (member_items delegation ''undelegations''))"

definition mints_of :: "int \<Rightarrow> json \<Rightarrow> mint_entry list" where
  "mints_of last_paid information = (case subscript information ''validator'' of Inl _ \<Rightarrow> []
     | Inr validator \<Rightarrow> concat (map (mints_of_delegation last_paid validator) (member_items validator ''delegations'')))"

text \<open>The undelegations of a validator, each with its epoch and amount, and which were paid again.\<close>

definition undelegations_of :: "json \<Rightarrow> json list" where
  "undelegations_of information = (case subscript information ''validator'' of Inl _ \<Rightarrow> []
     | Inr validator \<Rightarrow> concat (map (\<lambda>d. member_items d ''undelegations'') (member_items validator ''delegations'')))"

definition int_member :: "json \<Rightarrow> string \<Rightarrow> int" where
  "int_member v k = (case rbind (subscript v k) int_of of Inl _ \<Rightarrow> 0 | Inr n \<Rightarrow> n)"

definition undelegated :: "json \<Rightarrow> int \<times> int" where
  "undelegated u = (int_member u ''epoch'', int_member u ''amount'')"

definition paid_again :: "int \<Rightarrow> json \<Rightarrow> bool" where
  "paid_again last_paid u \<longleftrightarrow> int_member u ''epoch'' + 7 < last_paid"

definition minted_by :: "int \<Rightarrow> json \<Rightarrow> int" where
  "minted_by last_paid information = sum_list (map repeated_mint (mints_of last_paid information))"

definition address_of :: "json \<Rightarrow> string" where
  "address_of information = (case rbind (rbind (subscript information ''validator'') (\<lambda>v. subscript v ''address'')) text_of of
     Inl _ \<Rightarrow> [] | Inr a \<Rightarrow> a)"

definition affected :: "int \<Rightarrow> json list \<Rightarrow> json list" where
  "affected last_paid infos = filter (\<lambda>i. minted_by last_paid i \<noteq> 0) infos"

subsection \<open>The loops book the reference\<close>

lemma mint_undelegations:
  "fold_r (mint_undelegation last_paid validator delegation) vs us = Inr vs' \<Longrightarrow>
     (let es = concat (map (\<lambda>u. case mint_entry_of last_paid validator delegation u of Inr (Some e) \<Rightarrow> [e] | _ \<Rightarrow> []) us)
      in fst vs' = fst vs + sum_list (map repeated_mint es) \<and> snd vs' = foldl (\<lambda>s e. add_mint e s) (snd vs) es)"
proof (induction us arbitrary: vs)
  case (Cons u us)
  from Cons.prems obtain found where found: "mint_entry_of last_paid validator delegation u = Inr found"
    and rest: "fold_r (mint_undelegation last_paid validator delegation)
      (case found of None \<Rightarrow> vs | Some e \<Rightarrow> (fst vs + repeated_mint e, add_mint e (snd vs))) us = Inr vs'"
    unfolding fold_r.simps mint_undelegation_def [of _ _ _ vs] by (elim rbind_E) simp
  show ?case using Cons.IH [OF rest] found by (cases found) (simp_all add: Let_def)
qed simp

lemma mint_delegations:
  "fold_r (mint_delegation last_paid validator) vs ds = Inr vs' \<Longrightarrow>
     (let es = concat (map (mints_of_delegation last_paid validator) ds)
      in fst vs' = fst vs + sum_list (map repeated_mint es) \<and> snd vs' = foldl (\<lambda>s e. add_mint e s) (snd vs) es)"
proof (induction ds arbitrary: vs)
  case (Cons d ds)
  from Cons.prems obtain us vt where us: "rbind (subscript d ''undelegations'') iter = Inr us"
    and first: "fold_r (mint_undelegation last_paid validator d) vs us = Inr vt"
    and rest: "fold_r (mint_delegation last_paid validator) vt ds = Inr vs'"
    unfolding fold_r.simps mint_delegation_def [of _ _ vs] by (elim rbind_E) (simp add: rbind_eq_Inr)
  have "mints_of_delegation last_paid validator d
      = concat (map (\<lambda>u. case mint_entry_of last_paid validator d u of Inr (Some e) \<Rightarrow> [e] | _ \<Rightarrow> []) us)"
    by (simp add: mints_of_delegation_def member_items_def us)
  then show ?case using Cons.IH [OF rest] mint_undelegations [OF first] by (simp add: Let_def)
qed simp

lemma add_mints_fields:
  "ms_validators (foldl (\<lambda>s e. add_mint e s) s es) = ms_validators s"
  "ms_entries (foldl (\<lambda>s e. add_mint e s) s es) = ms_entries s @ es"
  by (induction es arbitrary: s) (simp_all add: add_mint_def)

lemma add_mints_validators: "foldl (\<lambda>s e. add_mint e s) (s\<lparr>ms_validators := d\<rparr>) es = foldl (\<lambda>s e. add_mint e s) s es\<lparr>ms_validators := d\<rparr>"
proof (induction es arbitrary: s)
  case (Cons e es)
  have "add_mint e (s\<lparr>ms_validators := d\<rparr>) = add_mint e s\<lparr>ms_validators := d\<rparr>" by (simp add: add_mint_def)
  then show ?case using Cons.IH by simp
qed simp

text \<open>What the loop over the validators leaves behind.\<close>

definition booked_mints :: "int \<Rightarrow> json list \<Rightarrow> mint_state \<Rightarrow> mint_state" where
  "booked_mints last_paid infos s = foldl (\<lambda>s e. add_mint e s) s (concat (map (mints_of last_paid) infos))
     \<lparr>ms_validators := foldl (\<lambda>d i. AList.update (address_of i) (minted_by last_paid i) d) (ms_validators s) (affected last_paid infos)\<rparr>"

lemma mint_validator_books:
  assumes "mint_validator last_paid s i = Inr t"
  shows "t = booked_mints last_paid [i] s"
proof -
  from assms obtain v ds n s' where v: "subscript i ''validator'' = Inr v" and ds: "rbind (subscript v ''delegations'') iter = Inr ds"
    and run: "fold_r (mint_delegation last_paid v) (0, s) ds = Inr (n, s')"
    and t: "if n = 0 then t = s' else \<exists>a. rbind (subscript v ''address'') text_of = Inr a
      \<and> t = s'\<lparr>ms_validators := AList.update a n (ms_validators s')\<rparr>"
  proof -
    from assms obtain v w ds p where v: "subscript i ''validator'' = Inr v" and ds: "subscript v ''delegations'' = Inr w" "iter w = Inr ds"
      and run: "fold_r (mint_delegation last_paid v) (0, s) ds = Inr p"
      and t: "(if fst p = 0 then Inr (snd p) else rbind (rbind (subscript v ''address'') text_of) (\<lambda>a.
        Inr (snd p\<lparr>ms_validators := AList.update a (fst p) (ms_validators (snd p))\<rparr>))) = Inr t"
      unfolding mint_validator_def case_prod_unfold by (elim rbind_E) blast
    from t have "if fst p = 0 then t = snd p else \<exists>a. rbind (subscript v ''address'') text_of = Inr a
        \<and> t = snd p\<lparr>ms_validators := AList.update a (fst p) (ms_validators (snd p))\<rparr>" by (auto simp: rbind_eq_Inr)
    with v ds run show ?thesis by (intro that [of v ds "fst p" "snd p"]) simp_all
  qed
  have es: "mints_of last_paid i = concat (map (mints_of_delegation last_paid v) ds)"
    by (simp add: mints_of_def v member_items_def ds)
  have n: "n = minted_by last_paid i" and s': "s' = foldl (\<lambda>s e. add_mint e s) s (mints_of last_paid i)"
    using mint_delegations [OF run] by (simp_all add: Let_def minted_by_def es)
  have same: "s' = s'\<lparr>ms_validators := ms_validators s\<rparr>" using add_mints_fields(1) by (simp add: s')
  show ?thesis
  proof (cases "n = 0")
    case True
    then have "t = s'" using t by simp
    then show ?thesis using same True by (simp add: booked_mints_def affected_def s' [symmetric] n [symmetric])
  next
    case False
    with t obtain a where a: "rbind (subscript v ''address'') text_of = Inr a"
      and t: "t = s'\<lparr>ms_validators := AList.update a n (ms_validators s')\<rparr>" by auto
    have "address_of i = a" by (simp add: address_of_def v a)
    moreover have "ms_validators s' = ms_validators s" using add_mints_fields(1) by (simp add: s')
    ultimately show ?thesis using False t by (simp add: booked_mints_def affected_def s' [symmetric] n [symmetric])
  qed
qed

lemma mint_validators_book:
  "fold_r (mint_validator last_paid) s infos = Inr t \<Longrightarrow> t = booked_mints last_paid infos s"
proof (induction infos arbitrary: s)
  case Nil
  then show ?case by (simp add: booked_mints_def affected_def)
next
  case (Cons i infos)
  from Cons.prems obtain u where u: "mint_validator last_paid s i = Inr u" and rest: "fold_r (mint_validator last_paid) u infos = Inr t"
    by (auto simp: rbind_eq_Inr)
  show ?case using Cons.IH [OF rest] mint_validator_books [OF u]
    by (simp add: booked_mints_def affected_def add_mints_validators add_mints_fields)
qed

text \<open>Every undelegation was read, and the entries are those that were paid again.\<close>

lemma mint_entry_read:
  "mint_entry_of last_paid v d u = Inr found \<Longrightarrow> (case found of None \<Rightarrow> \<not> paid_again last_paid u
     | Some e \<Rightarrow> paid_again last_paid u \<and> (me_epoch e, me_amount e) = undelegated u)"
  by (auto simp: mint_entry_of_def rbind_eq_Inr Let_def lock_period_def paid_again_def undelegated_def int_member_def split: if_split_asm)

lemma undelegations_read:
  "fold_r (mint_undelegation last_paid validator delegation) vs us = Inr vs' \<Longrightarrow>
     map (\<lambda>e. (me_epoch e, me_amount e)) (concat (map (\<lambda>u. case mint_entry_of last_paid validator delegation u of
        Inr (Some e) \<Rightarrow> [e] | _ \<Rightarrow> []) us)) = map undelegated (filter (paid_again last_paid) us)"
proof (induction us arbitrary: vs)
  case (Cons u us)
  from Cons.prems obtain found vt where found: "mint_entry_of last_paid validator delegation u = Inr found"
    and rest: "fold_r (mint_undelegation last_paid validator delegation) vt us = Inr vs'"
    unfolding fold_r.simps mint_undelegation_def [of _ _ _ vs] by (elim rbind_E) blast
  show ?case using Cons.IH [OF rest] mint_entry_read [OF found] found by (cases found) simp_all
qed simp

lemma delegations_read:
  "fold_r (mint_delegation last_paid validator) vs ds = Inr vs' \<Longrightarrow>
     map (\<lambda>e. (me_epoch e, me_amount e)) (concat (map (mints_of_delegation last_paid validator) ds))
       = map undelegated (filter (paid_again last_paid) (concat (map (\<lambda>d. member_items d ''undelegations'') ds)))"
proof (induction ds arbitrary: vs)
  case (Cons d ds)
  from Cons.prems obtain us vt where us: "rbind (subscript d ''undelegations'') iter = Inr us"
    and first: "fold_r (mint_undelegation last_paid validator d) vs us = Inr vt"
    and rest: "fold_r (mint_delegation last_paid validator) vt ds = Inr vs'"
    unfolding fold_r.simps mint_delegation_def [of _ _ vs] by (elim rbind_E) (simp add: rbind_eq_Inr)
  have "map (\<lambda>e. (me_epoch e, me_amount e)) (mints_of_delegation last_paid validator d)
      = map undelegated (filter (paid_again last_paid) (member_items d ''undelegations''))"
    using undelegations_read [OF first] by (simp add: mints_of_delegation_def member_items_def us)
  then show ?case using Cons.IH [OF rest] by simp
qed simp

lemma validators_read:
  "fold_r (mint_validator last_paid) s infos = Inr t \<Longrightarrow>
     map (\<lambda>e. (me_epoch e, me_amount e)) (concat (map (mints_of last_paid) infos))
       = map undelegated (filter (paid_again last_paid) (concat (map undelegations_of infos)))"
proof (induction infos arbitrary: s)
  case (Cons i infos)
  from Cons.prems obtain u where u: "mint_validator last_paid s i = Inr u" and rest: "fold_r (mint_validator last_paid) u infos = Inr t"
    by (auto simp: rbind_eq_Inr)
  from u obtain v w ds p where v: "subscript i ''validator'' = Inr v" and ds: "subscript v ''delegations'' = Inr w" "iter w = Inr ds"
    and run: "fold_r (mint_delegation last_paid v) (0, s) ds = Inr p"
    unfolding mint_validator_def case_prod_unfold by (elim rbind_E) blast
  have "map (\<lambda>e. (me_epoch e, me_amount e)) (mints_of last_paid i) = map undelegated (filter (paid_again last_paid) (undelegations_of i))"
    using delegations_read [OF run] by (simp add: mints_of_def undelegations_of_def v member_items_def [of v] ds)
  then show ?case using Cons.IH [OF rest] by simp
qed simp

subsection \<open>The dictionaries of the result\<close>

lemma add_mints_delegators:
  "distinct (keys (ms_delegators s)) \<Longrightarrow>
     total_of (\<lambda>n. n) (ms_delegators (foldl (\<lambda>s e. add_mint e s) s es)) = total_of (\<lambda>n. n) (ms_delegators s) + sum_list (map repeated_mint es)
     \<and> distinct (keys (ms_delegators (foldl (\<lambda>s e. add_mint e s) s es)))"
proof (induction es arbitrary: s)
  case (Cons e es)
  then show ?case
    using Cons.IH [of "add_mint e s"] by (simp add: add_mint_def total_of_adjust distinct_adjust)
qed simp

lemma update_absent: "k \<notin> fst ` set d \<Longrightarrow> AList.update k v d = d @ [(k, v)]"
  by (induction d) auto

lemma updates_distinct:
  "distinct (map f xs) \<Longrightarrow> f ` set xs \<inter> fst ` set d = {} \<Longrightarrow>
     foldl (\<lambda>d x. AList.update (f x) (g x) d) d xs = d @ map (\<lambda>x. (f x, g x)) xs"
proof (induction xs arbitrary: d)
  case (Cons x xs)
  have "f x \<notin> fst ` set d" using Cons.prems(2) by auto
  then have "AList.update (f x) (g x) d = d @ [(f x, g x)]" by (rule update_absent)
  then show ?case using Cons.IH [of "d @ [(f x, g x)]"] Cons.prems by auto
qed simp

lemma sum_affected: "sum_list (map (minted_by last_paid) (affected last_paid infos))
    = sum_list (map repeated_mint (concat (map (mints_of last_paid) infos)))"
  by (induction infos) (auto simp: affected_def minted_by_def)

lemma sum_of_amounts: "sum_of ''atto'' (map (amount_json name) kvs) = Inr (sum_list (map snd kvs))" if "name \<noteq> ''atto''"
proof -
  have "int_key (amount_json name kv) ''atto'' = Inr (snd kv)" for kv
    using that by (simp add: int_key_def amount_json_def getitem_def py_int_py_str)
  then have "map_r (\<lambda>v. int_key v ''atto'') (map (amount_json name) kvs) = Inr (map snd kvs)"
    by (induction kvs) simp_all
  then show ?thesis by (simp add: sum_of_def)
qed

lemma total_of_id: "total_of (\<lambda>n. n) d = sum_list (map snd d)"
  by (simp add: total_of_def)

lemma largest_first_sum: "sum_list (map snd (largest_first d)) = total_of (\<lambda>n. n) d"
  by (simp add: largest_first_def sum_list_sort_key total_of_def)

lemma mint_entry_paid:
  "mint_entry_of last_paid v d u = Inr (Some e) \<Longrightarrow> 0 < me_payouts e \<and> me_payouts e = last_paid - (me_epoch e + 7)"
  by (auto simp: mint_entry_of_def rbind_eq_Inr Let_def lock_period_def split: if_split_asm)

lemma mints_of_paid: "e \<in> set (mints_of last_paid i) \<Longrightarrow> 0 < me_payouts e \<and> me_payouts e = last_paid - (me_epoch e + 7)"
  by (auto simp: mints_of_def mints_of_delegation_def split: sum.splits option.splits dest: mint_entry_paid [OF sym])

subsection \<open>Properties\<close>

text \<open>The run of the reconstruction, as the reference sees it.\<close>

lemma reconstruct_mint_booked:
  assumes "reconstruct_mint exchange url block = Some (Inr report)"
  obtains header epoch h n where
    "rpc_some exchange ''hmyv2_getBlockByNumber'' [JInt block, JDict [(''fullTx'', JBool False)]] = Inr header"
    and "rbind (subscript header ''epoch'') int_of = Inr epoch" and "stops_at (validator_page exchange block) n"
    and "report = mint_report url block h epoch (int (length (pages_before (validator_page exchange block) n)))
      (booked_mints (epoch - 1) (pages_before (validator_page exchange block) n) no_mint)"
    and "map (\<lambda>e. (me_epoch e, me_amount e)) (concat (map (mints_of (epoch - 1)) (pages_before (validator_page exchange block) n)))
       = map undelegated (filter (paid_again (epoch - 1)) (concat (map undelegations_of (pages_before (validator_page exchange block) n))))"
proof -
  from assms obtain header epoch ended where
    header: "rpc_some exchange ''hmyv2_getBlockByNumber'' [JInt block, JDict [(''fullTx'', JBool False)]] = Inr header"
    "rbind (subscript header ''epoch'') int_of = Inr epoch"
    and ended: "scan_mints exchange block epoch = Some ended"
    and last: "rbind ended (\<lambda>(scanned, s). rbind (subscript header ''hash'') (\<lambda>h. Inr (mint_report url block h epoch scanned s))) = Inr report"
    unfolding reconstruct_mint_def by (auto simp: rbind_eq_Inr split: sum.splits)
  from last obtain scanned s h where e: "ended = Inr (scanned, s)" and report: "report = mint_report url block h epoch scanned s"
    by (auto simp: rbind_eq_Inr)
  from ended [unfolded e scan_mints_def] obtain n where n: "stops_at (validator_page exchange block) n"
    and "scanned = int (length (pages_before (validator_page exchange block) n))"
    and run: "fold_r (mint_validator (epoch - 1)) no_mint (pages_before (validator_page exchange block) n) = Inr s"
    by (auto elim!: scan_booked)
  then show ?thesis using that [OF header n] report mint_validators_book [OF run] validators_read [OF run] by blast
qed

lemma booked_report:
  defines "es \<equiv> \<lambda>last_paid infos. concat (map (mints_of last_paid) infos)"
  assumes "report = mint_report url block h epoch scanned (booked_mints last_paid infos no_mint)"
  shows "subscript report ''entries'' = Inr (JList (map entry_json (sort_key entry_order (es last_paid infos))))"
    and "rbind (list_key report ''by_delegator'') (sum_of ''atto'') = Inr (sum_list (map repeated_mint (es last_paid infos)))"
    and "distinct (map address_of (affected last_paid infos)) \<Longrightarrow>
      int_key report ''total_atto'' = Inr (sum_list (map repeated_mint (es last_paid infos)))"
proof -
  let ?s = "booked_mints last_paid infos no_mint"
  have entries: "ms_entries ?s = es last_paid infos" and delegators: "total_of (\<lambda>n. n) (ms_delegators ?s) = sum_list (map repeated_mint (es last_paid infos))"
    using add_mints_delegators [of no_mint "es last_paid infos"]
    by (simp_all add: booked_mints_def es_def add_mints_fields no_mint_def dict_simps)
  show "subscript report ''entries'' = Inr (JList (map entry_json (sort_key entry_order (es last_paid infos))))"
    by (simp add: assms(2) mint_report_def Let_def getitem_def entries)
  show "rbind (list_key report ''by_delegator'') (sum_of ''atto'') = Inr (sum_list (map repeated_mint (es last_paid infos)))"
    by (simp add: assms(2) mint_report_def Let_def getitem_def list_key_def sum_of_amounts largest_first_sum delegators)
  assume d: "distinct (map address_of (affected last_paid infos))"
  have "ms_validators ?s = map (\<lambda>i. (address_of i, minted_by last_paid i)) (affected last_paid infos)"
    using updates_distinct [OF d, of "[]" "minted_by last_paid"] by (simp add: booked_mints_def no_mint_def)
  then have "sum_list (map snd (ms_validators ?s)) = sum_list (map repeated_mint (es last_paid infos))"
    using sum_affected [of last_paid infos] by (simp add: es_def o_def)
  then show "int_key report ''total_atto'' = Inr (sum_list (map repeated_mint (es last_paid infos)))"
    by (simp add: assms(2) mint_report_def Let_def getitem_def int_key_def py_int_py_str)
qed

text \<open>
  C29. The reconstructed mint is what the node's answers add up to. A run that returns a report has read the epoch of the
  block from its header, the last paid epoch being the one before it, and the pages of validators up to the first empty one.
  Its entries are, in the order of validators, exactly the undelegations in those pages more than seven epochs older than the
  last paid epoch, each paid once for every epoch beyond, and the delegators' sums add up to the mints of the entries. So the
  reconciliation accepts the report at most with that amount, and does accept it with that amount if the addresses of the
  affected validators are distinct.
\<close>

theorem reconstructed_mint_accepted:
  assumes "reconstruct_mint exchange url block = Some (Inr report)"
  shows "\<exists>header epoch n. let last_paid = epoch - 1; infos = pages_before (validator_page exchange block) n;
      es = concat (map (mints_of last_paid) infos); minted = sum_list (map repeated_mint es) in
    rpc_some exchange ''hmyv2_getBlockByNumber'' [JInt block, JDict [(''fullTx'', JBool False)]] = Inr header
    \<and> rbind (subscript header ''epoch'') int_of = Inr epoch
    \<and> stops_at (validator_page exchange block) n
    \<and> subscript report ''last_paid_epoch'' = Inr (JInt last_paid)
    \<and> subscript report ''entries'' = Inr (JList (map entry_json (sort_key entry_order es)))
    \<and> map (\<lambda>e. (me_epoch e, me_amount e)) es = map undelegated (filter (paid_again last_paid) (concat (map undelegations_of infos)))
    \<and> (\<forall>e \<in> set es. 0 < me_payouts e \<and> me_payouts e = last_paid - (me_epoch e + 7))
    \<and> (\<forall>amount. check_december report amount = Inr () \<longrightarrow> amount = minted)
    \<and> (distinct (map address_of (affected last_paid infos)) \<longrightarrow> check_december report minted = Inr ())"
proof -
  from assms obtain header epoch h n where
    header: "rpc_some exchange ''hmyv2_getBlockByNumber'' [JInt block, JDict [(''fullTx'', JBool False)]] = Inr header"
    "rbind (subscript header ''epoch'') int_of = Inr epoch" and n: "stops_at (validator_page exchange block) n"
    and report: "report = mint_report url block h epoch (int (length (pages_before (validator_page exchange block) n)))
      (booked_mints (epoch - 1) (pages_before (validator_page exchange block) n) no_mint)"
    and read: "map (\<lambda>e. (me_epoch e, me_amount e)) (concat (map (mints_of (epoch - 1)) (pages_before (validator_page exchange block) n)))
       = map undelegated (filter (paid_again (epoch - 1)) (concat (map undelegations_of (pages_before (validator_page exchange block) n))))"
    by (rule reconstruct_mint_booked)
  note facts = booked_report [OF report]
  have last: "subscript report ''last_paid_epoch'' = Inr (JInt (epoch - 1))"
    by (simp add: report mint_report_def Let_def getitem_def)
  show ?thesis unfolding Let_def
    by (intro exI [of _ header] exI [of _ epoch] exI [of _ n] conjI header n last facts(1) read allI impI)
      (auto simp: check_december_def facts(2,3) rbind_eq_Inr dest: mints_of_paid)
qed

text \<open>A node with one page: one validator, whose delegator was paid twice for one undelegation and rightly for another.\<close>

definition example_delegation :: json where
  "example_delegation = JDict [(''delegator-address'', JStr ''one132ggm0mgxdt4l8etud9e5gzpv8psgx30p7hxsq''), (''amount'', JInt 100), (''reward'', JInt 5),
     (''undelegations'', JList [JDict [(''epoch'', JInt 10), (''amount'', JInt 30)], JDict [(''epoch'', JInt 12), (''amount'', JInt 4)]])]"

definition example_answer :: "int \<Rightarrow> json \<Rightarrow> json" where
  "example_answer page second = (case second of
     JDict _ \<Rightarrow> JDict [(''epoch'', JInt 20), (''hash'', JStr ''0xb'')]
   | _ \<Rightarrow> JList (if page = 0
       then [JDict [(''validator'', JDict [(''address'', JStr ''one1v''), (''delegations'', JList [example_delegation])])]] else []))"

definition example_chain :: exchange where
  "example_chain k request = (case subscript request ''params'' of
     Inr (JList (JInt page # second # _)) \<Rightarrow> Inr (JDict [(''result'', example_answer page second)])
   | _ \<Rightarrow> Inl (OSError ''timeout''))"

lemma example_pages:
  "validator_page example_chain 7 0 = Inr (JList [JDict [(''validator'',
       JDict [(''address'', JStr ''one1v''), (''delegations'', JList [example_delegation])])]])"
  "validator_page example_chain 7 1 = Inr (JList [])"
  by code_simp+

theorem reconstructed_mint_accepted_witness:
  "\<exists>report. reconstruct_mint example_chain ''node'' 7 = Some (Inr report) \<and> check_december report 60 = Inr ()
     \<and> (\<forall>amount. check_december report amount = Inr () \<longrightarrow> amount = 60)"
proof -
  have "case reconstruct_mint example_chain ''node'' 7 of Some (Inr report) \<Rightarrow> check_december report 60 = Inr () | _ \<Rightarrow> False"
    by code_simp
  then obtain report where report: "reconstruct_mint example_chain ''node'' 7 = Some (Inr report)" and ok: "check_december report 60 = Inr ()"
    by (auto split: option.splits sum.splits)
  obtain minted where "\<forall>amount. check_december report amount = Inr () \<longrightarrow> amount = minted"
    using reconstructed_mint_accepted [OF report, unfolded Let_def] by (elim exE conjE)
  with ok have "\<forall>amount. check_december report amount = Inr () \<longrightarrow> amount = 60" by metis
  with report ok show ?thesis by blast
qed

subsection \<open>The staking rows\<close>

text \<open>All delegations of a list of validators, and the claims they make.\<close>

definition delegations_of :: "json list \<Rightarrow> json list" where
  "delegations_of infos = concat (map (\<lambda>i. case subscript i ''validator'' of Inl _ \<Rightarrow> [] | Inr v \<Rightarrow> member_items v ''delegations'') infos)"

definition claims_sum :: "(staking_claim \<Rightarrow> int) \<Rightarrow> (string \<times> staking_claim) list \<Rightarrow> int" where
  "claims_sum part cs = sum_list (map (part \<circ> snd) cs)"

lemma staking_loop:
  "fold_r staking_validator claims infos = Inr claims' \<Longrightarrow> fold_r add_staking claims (delegations_of infos) = Inr claims'"
proof (induction infos arbitrary: claims)
  case (Cons i infos)
  from Cons.prems obtain c where c: "staking_validator claims i = Inr c" and rest: "fold_r staking_validator c infos = Inr claims'"
    unfolding fold_r.simps by (elim rbind_E) blast
  from c obtain v w ds where v: "subscript i ''validator'' = Inr v" and ds: "subscript v ''delegations'' = Inr w" "iter w = Inr ds"
    and first: "fold_r add_staking claims ds = Inr c"
    unfolding staking_validator_def by (elim rbind_E) blast
  have "delegations_of (i # infos) = ds @ delegations_of infos" by (simp add: delegations_of_def v member_items_def ds)
  then show ?case using first Cons.IH [OF rest] by (simp add: fold_r_append)
qed (simp add: delegations_of_def)

definition staking_claims :: "json list \<Rightarrow> (string \<times> staking_claim) list" where
  "staking_claims ds = concat (map (\<lambda>d. case staking_delegation d of Inl _ \<Rightarrow> [] | Inr c \<Rightarrow> [c]) ds)"

definition book_claim :: "(string, staking_claim) dict \<Rightarrow> string \<times> staking_claim \<Rightarrow> (string, staking_claim) dict result" where
  "book_claim claims c = Inr (adjust (0, 0, 0) (fst c) (\<lambda>held. claim_plus held (snd c)) claims)"

lemma add_staking_claims:
  "fold_r add_staking claims ds = Inr claims' \<Longrightarrow>
     list_all2 (\<lambda>d c. staking_delegation d = Inr c) ds (staking_claims ds) \<and> fold_r book_claim claims (staking_claims ds) = Inr claims'"
proof (induction ds arbitrary: claims)
  case (Cons d ds)
  from Cons.prems obtain u where u: "add_staking claims d = Inr u" and rest: "fold_r add_staking u ds = Inr claims'"
    unfolding fold_r.simps by (elim rbind_E) blast
  from u obtain c where c: "staking_delegation d = Inr c" and u: "book_claim claims c = Inr u"
    by (auto simp: add_staking_def rbind_eq_Inr book_claim_def)
  then have "staking_claims (d # ds) = c # staking_claims ds" by (simp add: staking_claims_def)
  then show ?case using Cons.IH [OF rest] c u by simp
qed (simp add: staking_claims_def)

interpretation active: tallying_loop book_claim "\<lambda>d. d" "(0, 0, 0)" fst "\<lambda>_. True" fst "fst \<circ> snd"
  by unfold_locales (auto simp: book_claim_def claim_plus_def)

interpretation pending: tallying_loop book_claim "\<lambda>d. d" "(0, 0, 0)" fst "\<lambda>_. True" "fst \<circ> snd" "fst \<circ> snd \<circ> snd"
  by unfold_locales (auto simp: book_claim_def claim_plus_def)

interpretation reward: tallying_loop book_claim "\<lambda>d. d" "(0, 0, 0)" fst "\<lambda>_. True" "snd \<circ> snd" "snd \<circ> snd \<circ> snd"
  by unfold_locales (auto simp: book_claim_def claim_plus_def)

text \<open>Each entry of the dictionary, and its totals.\<close>

definition claim_of :: "string \<Rightarrow> (string \<times> staking_claim) list \<Rightarrow> staking_claim" where
  "claim_of a cs = (let own = filter (\<lambda>c. fst c = a) cs in (claims_sum fst own, claims_sum (fst \<circ> snd) own, claims_sum (snd \<circ> snd) own))"

lemma booked_claims:
  assumes "fold_r book_claim [] cs = Inr d"
  shows "distinct (keys d)" and "set (keys d) = fst ` set cs" and "entry (0, 0, 0) d a = claim_of a cs"
    and "total_of fst d = claims_sum fst cs" and "total_of (fst \<circ> snd) d = claims_sum (fst \<circ> snd) cs"
    and "total_of (snd \<circ> snd) d = claims_sum (snd \<circ> snd) cs"
proof -
  show "distinct (keys d)" "total_of fst d = claims_sum fst cs"
    using active.run_total [OF assms] by (simp_all add: dict_simps claims_sum_def)
  show "total_of (fst \<circ> snd) d = claims_sum (fst \<circ> snd) cs"
    using pending.run_total [OF assms] by (simp add: dict_simps claims_sum_def o_assoc)
  show "total_of (snd \<circ> snd) d = claims_sum (snd \<circ> snd) cs"
    using reward.run_total [OF assms] by (simp add: dict_simps claims_sum_def o_assoc)
  show "set (keys d) = fst ` set cs" using active.run_keys [OF assms] by simp
  show "entry (0, 0, 0) d a = claim_of a cs"
    using active.run_entry [OF assms, of a] pending.run_entry [OF assms, of a] reward.run_entry [OF assms, of a]
    by (simp add: dict_simps claim_of_def Let_def claims_sum_def o_assoc prod_eq_iff)
qed

lemma entry_of_member: "distinct (keys d) \<Longrightarrow> kv \<in> set d \<Longrightarrow> snd kv = entry z d (fst kv)"
  by (cases kv) (simp add: entry_def get_or_def)

text \<open>
  The staking rows account for every delegation. When \<open>historical-staking-rpc.py\<close> ends, every delegation on the pages up
  to the first empty one had a decodable address and readable amounts; the rows are in the order of the addresses, one for
  each delegator, with the sums of the delegator's own delegations, and the printed totals are the sums over all of them.
\<close>

theorem staking_rows_complete:
  assumes "historical_staking exchange block = Some (Inr (rs, summary))"
  shows "\<exists>n. let infos = pages_before (validator_page exchange block) n; ds = delegations_of infos; cs = staking_claims ds;
      addresses = sort (remdups (map fst cs)) in
    stops_at (validator_page exchange block) n
    \<and> list_all2 (\<lambda>d c. staking_delegation d = Inr c) ds cs
    \<and> rs = map (\<lambda>a. staking_row (a, claim_of a cs)) addresses
    \<and> summary = \<lparr>ss_block = block, ss_validators = int (length infos), ss_delegators = int (length addresses),
        ss_active = claims_sum fst cs, ss_pending = claims_sum (fst \<circ> snd) cs, ss_reward = claims_sum (snd \<circ> snd) cs\<rparr>"
proof -
  from assms obtain v d where run: "scan (validator_page exchange block) (book_page staking_validator) 0 (0, []) = Some (Inr (v, d))"
    and out: "staking_report block (v, d) = (rs, summary)"
    unfolding historical_staking_def by (auto simp: rbind_eq_Inr)
  from run obtain n where n: "stops_at (validator_page exchange block) n"
    and v: "v = int (length (pages_before (validator_page exchange block) n))"
    and fold: "fold_r staking_validator [] (pages_before (validator_page exchange block) n) = Inr d"
    by (auto elim: scan_booked)
  define cs where "cs = staking_claims (delegations_of (pages_before (validator_page exchange block) n))"
  have all: "list_all2 (\<lambda>d c. staking_delegation d = Inr c) (delegations_of (pages_before (validator_page exchange block) n)) cs"
    and "fold_r book_claim [] cs = Inr d"
    using add_staking_claims [OF staking_loop [OF fold]] by (simp_all add: cs_def)
  note d = booked_claims [OF this(2)]
  have sorted: "map fst (sort_key fst d) = sort (remdups (map fst cs))"
  proof (rule sorted_distinct_set_unique)
    have "distinct (map fst (sort_key fst d)) \<longleftrightarrow> distinct (keys d)" by (intro mset_eq_imp_distinct_iff) simp
    then show "distinct (map fst (sort_key fst d))" using d(1) by simp
  qed (use d(2) in simp_all)
  have "sort_key fst d = map (\<lambda>a. (a, claim_of a cs)) (map fst (sort_key fst d))"
    using entry_of_member [OF d(1), of _ "(0, 0, 0)"] by (auto simp: d(3) intro!: map_idI [symmetric])
  then have "rs = map (\<lambda>a. staking_row (a, claim_of a cs)) (sort (remdups (map fst cs)))"
    using out unfolding sorted by (auto simp: staking_report_def)
  moreover have "length d = length (sort (remdups (map fst cs)))" using sorted by (metis length_map length_sort)
  then have "summary = \<lparr>ss_block = block, ss_validators = v, ss_delegators = int (length (sort (remdups (map fst cs)))),
        ss_active = claims_sum fst cs, ss_pending = claims_sum (fst \<circ> snd) cs, ss_reward = claims_sum (snd \<circ> snd) cs\<rparr>"
    using out d(4-6) by (auto simp: staking_report_def)
  ultimately show ?thesis unfolding Let_def using n all v by (intro exI [of _ n]) (simp add: cs_def)
qed

theorem staking_rows_complete_witness:
  "\<exists>rs summary n. historical_staking example_chain 7 = Some (Inr (rs, summary)) \<and> stops_at (validator_page example_chain 7) n
     \<and> ss_active summary = claims_sum fst (staking_claims (delegations_of (pages_before (validator_page example_chain 7) n)))
     \<and> ss_active summary = 100 \<and> ss_pending summary = 34"
proof -
  have "case historical_staking example_chain 7 of Some (Inr (rs, summary)) \<Rightarrow> ss_active summary = 100 \<and> ss_pending summary = 34 | _ \<Rightarrow> False"
    by code_simp
  then obtain rs summary where run: "historical_staking example_chain 7 = Some (Inr (rs, summary))"
    and sums: "ss_active summary = 100" "ss_pending summary = 34"
    by (auto split: option.splits sum.split_asm)
  from staking_rows_complete [OF run, unfolded Let_def] show ?thesis
  proof (elim exE conjE)
    fix n
    assume n: "stops_at (validator_page example_chain 7) n"
    assume "summary = \<lparr>ss_block = 7, ss_validators = int (length (pages_before (validator_page example_chain 7) n)),
      ss_delegators = int (length (sort (remdups (map fst (staking_claims (delegations_of (pages_before (validator_page example_chain 7) n))))))),
      ss_active = claims_sum fst (staking_claims (delegations_of (pages_before (validator_page example_chain 7) n))),
      ss_pending = claims_sum (fst \<circ> snd) (staking_claims (delegations_of (pages_before (validator_page example_chain 7) n))),
      ss_reward = claims_sum (snd \<circ> snd) (staking_claims (delegations_of (pages_before (validator_page example_chain 7) n)))\<rparr>"
    then have "ss_active summary = claims_sum fst (staking_claims (delegations_of (pages_before (validator_page example_chain 7) n)))"
      by (rule ssubst) (rule staking_summary.select_convs)
    with run n sums show ?thesis by (intro exI conjI)
  qed
qed

text \<open>
  C30. The scans return if the node ever answers an empty page. Both scripts then end, with a report or with an exception,
  and they run forever exactly if every page has validators that can be booked.
\<close>

theorem validator_scans_return:
  "(historical_staking exchange block = None \<longleftrightarrow>
      (\<forall>n. is_ok (steps (validator_page exchange block) (book_page staking_validator) 0 n (0, []))))
   \<and> ((\<exists>n v. validator_page exchange block n = Inr v \<and> \<not> truthy v) \<longrightarrow>
      (\<exists>r. historical_staking exchange block = Some r) \<and> (\<exists>r. reconstruct_mint exchange url block = Some r))"
proof (intro conjI impI)
  show "historical_staking exchange block = None \<longleftrightarrow>
      (\<forall>n. is_ok (steps (validator_page exchange block) (book_page staking_validator) 0 n (0, [])))"
    by (simp add: historical_staking_def scan_None)
next
  assume "\<exists>n v. validator_page exchange block n = Inr v \<and> \<not> truthy v"
  then obtain n v where page: "validator_page exchange block n = Inr v" "\<not> truthy v" by blast
  note returns = scan_returns [where fetch = "validator_page exchange block", OF page]
  have "\<exists>r. reconstruct_mint exchange url block = Some r"
    unfolding reconstruct_mint_def scan_mints_def using returns by (auto split: sum.splits)
  then show "\<exists>r. reconstruct_mint exchange url block = Some r" .
  show "\<exists>r. historical_staking exchange block = Some r" unfolding historical_staking_def using returns by auto
qed

theorem validator_scans_return_witness:
  "\<exists>r. historical_staking example_chain 7 = Some r"
proof -
  have "validator_page example_chain 7 1 = Inr (JList []) \<and> \<not> truthy (JList [])" by (simp only: example_pages) simp
  then show ?thesis using validator_scans_return [of example_chain 7] by blast
qed

end
