(* ===== verification/ClaimsDiff.thy ===== *)
theory ClaimsDiff
  imports ValidatorsProofs Address Cells
begin

section \<open>The difference of two claim snapshots: \<open>historical-claims-diff.py\<close>\<close>

text \<open>
  The script joins the difference of the liquid balances with the staking rows of two blocks, which
  \<open>historical-staking-rpc.py\<close> wrote, and reports for every address how its claim changed. The hash of the
  output file is a parameter, a function of the rows written.
\<close>

subsection \<open>Reading\<close>

definition read_claim :: "(string, staking_claim) dict \<Rightarrow> row \<Rightarrow> (string, staking_claim) dict result" where
  "read_claim claims r =
     rbind (map_r (int_cell r) staking_columns) (\<lambda>values.
     rbind (getitem r ''address'') (\<lambda>address.
       Inr (AList.update (lower address) (values ! 0, values ! 1, values ! 2) claims)))"

definition read_staking :: "row list \<Rightarrow> (string, staking_claim) dict result" where
  "read_staking rs = fold_r read_claim [] rs"

record liquid_record =
  lq_key :: string
  lq_old :: int
  lq_new :: int

definition no_liquid :: liquid_record where
  "no_liquid = \<lparr>lq_key = [], lq_old = 0, lq_new = 0\<rparr>"

definition read_liquid :: "(string, liquid_record) dict \<Rightarrow> row \<Rightarrow> (string, liquid_record) dict result" where
  "read_liquid records r =
     rbind (getitem r ''address'') (\<lambda>a. let address = lower a in
     rbind (if address = [] then rbind (getitem r ''secure_key'') (\<lambda>_. Inl (RuntimeError ''missing preimage'')) else Inr ()) (\<lambda>_.
     rbind (getitem r ''secure_key'') (\<lambda>key.
     rbind (int_cell r ''old_balance_atto'') (\<lambda>old.
     rbind (int_cell r ''new_balance_atto'') (\<lambda>new.
       Inr (AList.update address \<lparr>lq_key = key, lq_old = old, lq_new = new\<rparr> records))))))"

subsection \<open>The rows\<close>

record diff_row =
  dw_address :: string
  dw_key :: string
  dw_old_liquid :: int
  dw_new_liquid :: int
  dw_deltas :: "int list"
  dw_old :: staking_claim
  dw_new :: staking_claim
  dw_total :: int

definition diff_row_of ::
  "(string, liquid_record) dict \<Rightarrow> (string, staking_claim) dict \<Rightarrow> (string, staking_claim) dict \<Rightarrow> string \<Rightarrow> diff_row" where
  "diff_row_of records old_staking new_staking address =
     (let liquid = entry no_liquid records address; old = entry (0, 0, 0) old_staking address; new = entry (0, 0, 0) new_staking address;
          deltas = [lq_new liquid - lq_old liquid, fst new - fst old, fst (snd new) - fst (snd old), snd (snd new) - snd (snd old)]
      in \<lparr>dw_address = address, dw_key = lq_key liquid, dw_old_liquid = lq_old liquid, dw_new_liquid = lq_new liquid,
        dw_deltas = deltas, dw_old = old, dw_new = new, dw_total = sum_list deltas\<rparr>)"

definition add_deltas :: "int list \<Rightarrow> diff_row \<Rightarrow> int list" where
  "add_deltas totals r = map (\<lambda>(a, b). a + b) (zip totals (dw_deltas r @ [dw_total r]))"

text \<open>A set has no order: the addresses are taken in the order they were read.\<close>

definition all_addresses ::
  "(string, liquid_record) dict \<Rightarrow> (string, staking_claim) dict \<Rightarrow> (string, staking_claim) dict \<Rightarrow> string list" where
  "all_addresses records old_staking new_staking = remdups (keys records @ keys old_staking @ keys new_staking)"

definition largest_change_first :: "diff_row list \<Rightarrow> diff_row list" where
  "largest_change_first rs = rev (sort_key (\<lambda>r. (dw_total r, dw_address r)) (rev rs))"

definition diff_cells :: "diff_row \<Rightarrow> string list" where
  "diff_cells r = [dw_address r, dw_key r, py_str (dw_old_liquid r), py_str (dw_new_liquid r)] @ map py_str (dw_deltas r)
     @ map py_str [fst (dw_old r), fst (snd (dw_old r)), snd (snd (dw_old r)), fst (dw_new r), fst (snd (dw_new r)), snd (snd (dw_new r)),
       dw_total r]"

definition diff_header :: "string list" where
  "diff_header = [''address'', ''secure_key'', ''old_liquid_atto'', ''new_liquid_atto'', ''liquid_delta_atto'',
     ''active_delegation_delta_atto'', ''pending_undelegation_delta_atto'', ''unclaimed_reward_delta_atto'',
     ''old_active_delegation_atto'', ''old_pending_undelegation_atto'', ''old_unclaimed_reward_atto'',
     ''new_active_delegation_atto'', ''new_pending_undelegation_atto'', ''new_unclaimed_reward_atto'', ''total_claim_delta_atto'']"

record diff_report =
  df_addresses :: int
  df_totals :: "int list"
  df_sha256 :: string
  df_top :: "(string \<times> string) list"
  df_bottom :: "(string \<times> string) list"

definition change_of :: "diff_row \<Rightarrow> string \<times> string" where
  "change_of r = (dw_address r, py_str (dw_total r))"

definition last_twenty :: "'a list \<Rightarrow> 'a list" where
  "last_twenty xs = rev (drop (length xs - 20) xs)"

definition claims_diff :: "(string list list \<Rightarrow> string) \<Rightarrow> row list \<Rightarrow> row list \<Rightarrow> row list \<Rightarrow> (diff_row list \<times> diff_report) result" where
  "claims_diff digest liquid_diff old_rows new_rows =
     rbind (read_staking old_rows) (\<lambda>old_staking.
     rbind (read_staking new_rows) (\<lambda>new_staking.
     rbind (fold_r read_liquid [] liquid_diff) (\<lambda>records.
       let unsorted = map (diff_row_of records old_staking new_staking) (all_addresses records old_staking new_staking);
           totals = foldl add_deltas [0, 0, 0, 0, 0] unsorted;
           rs = largest_change_first unsorted
       in Inr (rs, \<lparr>df_addresses = int (length rs), df_totals = totals, df_sha256 = digest (diff_header # map diff_cells rs),
         df_top = map change_of (take 20 rs), df_bottom = map change_of (last_twenty rs)\<rparr>))))"

subsection \<open>The totals\<close>

lemma add_deltas_sums:
  "\<forall>r \<in> set rs. length (dw_deltas r) = 4 \<Longrightarrow> length totals = 5 \<Longrightarrow>
     foldl add_deltas totals rs = map (\<lambda>i. totals ! i + (\<Sum>r\<leftarrow>rs. (dw_deltas r @ [dw_total r]) ! i)) [0..<5]"
proof (induction rs arbitrary: totals)
  case Nil
  then show ?case using map_nth [of totals] by simp
next
  case (Cons r rs)
  have "add_deltas totals r ! i = totals ! i + (dw_deltas r @ [dw_total r]) ! i" if "i < 5" for i
    using that Cons.prems by (simp add: add_deltas_def)
  moreover have "length (add_deltas totals r) = 5" using Cons.prems by (simp add: add_deltas_def)
  ultimately show ?case using Cons by (auto simp: add.assoc)
qed

lemma read_claim_distinct: "read_claim d r = Inr d' \<Longrightarrow> distinct (keys d) \<Longrightarrow> distinct (keys d')"
  by (auto simp: read_claim_def rbind_eq_Inr intro: distinct_update)

lemma read_liquid_distinct: "read_liquid d r = Inr d' \<Longrightarrow> distinct (keys d) \<Longrightarrow> distinct (keys d')"
  by (auto simp: read_liquid_def rbind_eq_Inr Let_def intro: distinct_update split: if_split_asm)

interpretation claim_reader: invariant_loop read_claim "\<lambda>d. distinct (keys d)"
  by unfold_locales (rule read_claim_distinct)

interpretation liquid_reader: invariant_loop read_liquid "\<lambda>d. distinct (keys d)"
  by unfold_locales (rule read_liquid_distinct)

text \<open>What a run reads and writes.\<close>

lemma claims_diff_parts:
  assumes "claims_diff digest liquid_diff old_rows new_rows = Inr (rs, report)"
  obtains records old new where "fold_r read_liquid [] liquid_diff = Inr records" and "read_staking old_rows = Inr old"
    and "read_staking new_rows = Inr new"
    and "rs = largest_change_first (map (diff_row_of records old new) (all_addresses records old new))"
    and "df_totals report = foldl add_deltas [0, 0, 0, 0, 0] (map (diff_row_of records old new) (all_addresses records old new))"
  using assms unfolding claims_diff_def Let_def by (auto elim!: rbind_E)

lemma diff_totals:
  assumes "distinct (keys records)" and "distinct (keys old)" and "distinct (keys new)"
  defines "rs \<equiv> map (diff_row_of records old new) (all_addresses records old new)"
    and "ds \<equiv> [total_of lq_new records - total_of lq_old records, total_of fst new - total_of fst old,
      total_of (fst \<circ> snd) new - total_of (fst \<circ> snd) old, total_of (snd \<circ> snd) new - total_of (snd \<circ> snd) old]"
  shows "foldl add_deltas [0, 0, 0, 0, 0] rs = ds @ [sum_list ds]"
proof -
  let ?as = "all_addresses records old new"
  have d: "distinct ?as" and sub: "set (keys records) \<subseteq> set ?as" "set (keys old) \<subseteq> set ?as" "set (keys new) \<subseteq> set ?as"
    by (auto simp: all_addresses_def)
  have liquid: "(\<Sum>a\<leftarrow>?as. g (entry no_liquid records a)) = total_of g records" if "g no_liquid = 0" for g :: "liquid_record \<Rightarrow> int"
    by (rule entries_sum) (use assms(1) d sub that in auto)
  have olds: "(\<Sum>a\<leftarrow>?as. g (entry (0, 0, 0) old a)) = total_of g old" if "g (0, 0, 0) = 0" for g :: "staking_claim \<Rightarrow> int"
    by (rule entries_sum) (use assms(2) d sub that in auto)
  have news: "(\<Sum>a\<leftarrow>?as. g (entry (0, 0, 0) new a)) = total_of g new" if "g (0, 0, 0) = 0" for g :: "staking_claim \<Rightarrow> int"
    by (rule entries_sum) (use assms(3) d sub that in auto)
  have liquid0: "lq_new no_liquid = 0" "lq_old no_liquid = 0" by (simp_all add: no_liquid_def)
  note sums = liquid [of lq_new, OF liquid0(1)] liquid [of lq_old, OF liquid0(2)] olds [of fst] olds [of "fst \<circ> snd"] olds [of "snd \<circ> snd"]
    news [of fst] news [of "fst \<circ> snd"] news [of "snd \<circ> snd"]
  have "(\<Sum>r\<leftarrow>rs. (dw_deltas r @ [dw_total r]) ! i) = (ds @ [sum_list ds]) ! i" if "i < 5" for i
  proof -
    have "i = 0 \<or> i = 1 \<or> i = 2 \<or> i = 3 \<or> i = 4" using that by linarith
    then show ?thesis using sums
      by (elim disjE) (simp_all add: rs_def ds_def o_def diff_row_of_def Let_def sum_list_addf sum_list_subtractf)
  qed
  moreover have "foldl add_deltas [0, 0, 0, 0, 0] rs = map (\<lambda>i. [0, 0, 0, 0, 0] ! i + (\<Sum>r\<leftarrow>rs. (dw_deltas r @ [dw_total r]) ! i)) [0..<5]"
    by (rule add_deltas_sums) (auto simp: rs_def diff_row_of_def Let_def)
  moreover have "[0, 0, 0, 0, 0 :: int] ! i = 0" if "i < 5" for i
    using that by (simp add: nth_Cons split: nat.split)
  ultimately have "foldl add_deltas [0, 0, 0, 0, 0] rs = map ((!) (ds @ [sum_list ds])) [0..<5]" by simp
  also have "\<dots> = ds @ [sum_list ds]"
  proof -
    have five: "length (ds @ [sum_list ds]) = 5" by (simp add: ds_def)
    show ?thesis by (rule map_nth [of "ds @ [sum_list ds]", unfolded five])
  qed
  finally show ?thesis .
qed

subsection \<open>The rows that the staking script wrote\<close>

lemma read_staking_rows:
  assumes "distinct as" and "\<forall>a \<in> set as. lower a = a"
  shows "read_staking (map (\<lambda>a. staking_row (a, f a)) as) = Inr (map (\<lambda>a. (a, f a)) as)"
proof -
  have one: "read_claim d (staking_row (a, c)) = Inr (AList.update (lower a) c d)" for d a c
    by (cases c) (simp add: read_claim_def staking_columns_def staking_row_def int_cell_def getitem_def py_int_py_str)
  have "fold_r read_claim d (map (\<lambda>a. staking_row (a, f a)) as) = Inr (d @ map (\<lambda>a. (a, f a)) as)"
    if "distinct as" "\<forall>a \<in> set as. lower a = a" "set as \<inter> fst ` set d = {}" for d
    using that
  proof (induction as arbitrary: d)
    case (Cons a as)
    have "AList.update (lower a) (f a) d = d @ [(a, f a)]" using Cons.prems by (simp add: update_absent)
    moreover have "set as \<inter> fst ` set (d @ [(a, f a)]) = {}" using Cons.prems by auto
    ultimately show ?case using Cons.IH [of "d @ [(a, f a)]"] Cons.prems by (simp add: one)
  qed simp
  from this [of "[]"] assms show ?thesis by (simp add: read_staking_def)
qed

text \<open>A dictionary read from the rows of a run: its totals are those the run printed.\<close>

lemma read_run:
  assumes "historical_staking exchange block = Some (Inr (rs, summary))"
  obtains d where "read_staking rs = Inr d" and "distinct (keys d)" and "total_of fst d = ss_active summary"
    and "total_of (fst \<circ> snd) d = ss_pending summary" and "total_of (snd \<circ> snd) d = ss_reward summary"
    and "rs = map staking_row d"
proof -
  from assms obtain v d where run: "scan (validator_page exchange block) (book_page staking_validator) 0 (0, []) = Some (Inr (v, d))"
    and out: "staking_report block (v, d) = (rs, summary)"
    unfolding historical_staking_def by (auto simp: rbind_eq_Inr)
  from run obtain n where "fold_r staking_validator [] (pages_before (validator_page exchange block) n) = Inr d"
    by (auto elim: scan_booked)
  note books = add_staking_claims [OF staking_loop [OF this]]
  note d = booked_claims [OF books [THEN conjunct2]]
  let ?cs = "staking_claims (delegations_of (pages_before (validator_page exchange block) n))"
  have low: "lower a = a" if "a \<in> fst ` set ?cs" for a
  proof -
    from that obtain c where "c \<in> set ?cs" and a: "a = fst c" by blast
    with list_all2_right [OF books [THEN conjunct1]] obtain x where "staking_delegation x = Inr c" by blast
    then obtain t where "decode_one t = Inr a"
      by (auto simp: staking_delegation_def rbind_eq_Inr a staking_decode_address_def)
    then show ?thesis using decode_one_lower by blast
  qed
  let ?d = "sort_key fst d"
  have keys: "distinct (keys ?d)" using d(1) by (metis mset_eq_imp_distinct_iff mset_map mset_sort)
  have rs: "rs = map staking_row ?d" using out by (simp add: staking_report_def)
  have pairs: "map (\<lambda>a. (a, entry (0, 0, 0) d a)) (keys ?d) = ?d"
    using entry_of_member [OF d(1), of _ "(0, 0, 0)"] by (auto intro!: map_idI)
  then have "rs = map (\<lambda>a. staking_row (a, entry (0, 0, 0) d a)) (keys ?d)" unfolding rs by (metis (no_types, lifting) map_map o_apply map_cong)
  moreover have "\<forall>a \<in> set (keys ?d). lower a = a" using low d(2) by simp
  ultimately have read: "read_staking rs = Inr ?d" using read_staking_rows [OF keys] pairs by simp
  have "total_of g ?d = total_of g d" for g :: "staking_claim \<Rightarrow> int"
    by (simp add: total_of_def sum_list_sort_key)
  moreover have "total_of fst d = ss_active summary \<and> total_of (fst \<circ> snd) d = ss_pending summary \<and> total_of (snd \<circ> snd) d = ss_reward summary"
    using out by (auto simp: staking_report_def)
  ultimately show ?thesis using that [OF read keys _ _ _ rs] by simp
qed

subsection \<open>Properties\<close>

lemma largest_change_sorted:
  assumes "distinct (map dw_address rs)"
  shows "sorted_wrt (\<lambda>r s. (dw_total s, dw_address s) < (dw_total r, dw_address r)) (largest_change_first rs)"
proof -
  let ?k = "\<lambda>r. (dw_total r, dw_address r)" and ?ks = "sort_key (\<lambda>r. (dw_total r, dw_address r)) (rev rs)"
  have same: "map snd (map ?k ?ks) = map dw_address ?ks" by simp
  have "distinct (map dw_address ?ks) \<longleftrightarrow> distinct (map dw_address rs)" by (intro mset_eq_imp_distinct_iff) simp
  then have "distinct (map snd (map ?k ?ks))" using assms unfolding same by (rule iffD2)
  then have "distinct (map ?k ?ks)" by (rule distinct_map [THEN iffD1, THEN conjunct1])
  then have "sorted_wrt (<) (map ?k ?ks)" unfolding strict_sorted_iff by (intro conjI sorted_sort_key)
  then show ?thesis by (simp add: largest_change_first_def sorted_wrt_map sorted_wrt_rev)
qed

definition claim_total :: "staking_claim \<Rightarrow> int" where
  "claim_total c = fst c + fst (snd c) + snd (snd c)"

definition held_before :: "(string, liquid_record) dict \<Rightarrow> (string, staking_claim) dict \<Rightarrow> string \<Rightarrow> int" where
  "held_before records claims a = lq_old (entry no_liquid records a) + claim_total (entry (0, 0, 0) claims a)"

definition held_after :: "(string, liquid_record) dict \<Rightarrow> (string, staking_claim) dict \<Rightarrow> string \<Rightarrow> int" where
  "held_after records claims a = lq_new (entry no_liquid records a) + claim_total (entry (0, 0, 0) claims a)"

text \<open>
  The difference of two snapshots closes. Run on the rows of two staking scans, the script reports as changes of the
  delegations, undelegations and rewards the differences of the totals the two scans printed, as change of the liquid balances
  the sum over the liquid difference, and as total their sum, which is the sum of the rows. There is exactly one row for
  every address of the three files, with the change of all it holds, in strictly decreasing order of that change.
\<close>

theorem claims_diff_of_runs:
  assumes old_run: "historical_staking exchange old_block = Some (Inr (old_rows, old))"
    and new_run: "historical_staking exchange' new_block = Some (Inr (new_rows, new))"
    and "claims_diff digest liquid_diff old_rows new_rows = Inr (rs, report)"
  shows "\<exists>records old_claims new_claims. fold_r read_liquid [] liquid_diff = Inr records
    \<and> read_staking old_rows = Inr old_claims \<and> read_staking new_rows = Inr new_claims
    \<and> (let ds = [total_of lq_new records - total_of lq_old records, ss_active new - ss_active old,
        ss_pending new - ss_pending old, ss_reward new - ss_reward old]
       in df_totals report = ds @ [sum_list ds] \<and> sum_list (map dw_total rs) = sum_list ds)
    \<and> set (map dw_address rs) = set (keys records) \<union> set (keys old_claims) \<union> set (keys new_claims)
    \<and> (\<forall>r \<in> set rs. dw_total r = held_after records new_claims (dw_address r) - held_before records old_claims (dw_address r))
    \<and> sorted_wrt (\<lambda>r s. (dw_total s, dw_address s) < (dw_total r, dw_address r)) rs"
proof -
  from assms(3) obtain records c d where records: "fold_r read_liquid [] liquid_diff = Inr records" and c: "read_staking old_rows = Inr c"
    and d: "read_staking new_rows = Inr d" and rs: "rs = largest_change_first (map (diff_row_of records c d) (all_addresses records c d))"
    and totals: "df_totals report = foldl add_deltas [0, 0, 0, 0, 0] (map (diff_row_of records c d) (all_addresses records c d))"
    by (rule claims_diff_parts)
  let ?as = "all_addresses records c d" and ?us = "map (diff_row_of records c d) (all_addresses records c d)"
  obtain c' where c': "read_staking old_rows = Inr c'" "distinct (keys c')" "total_of fst c' = ss_active old"
      "total_of (fst \<circ> snd) c' = ss_pending old" "total_of (snd \<circ> snd) c' = ss_reward old" using old_run by (rule read_run)
  obtain d' where d': "read_staking new_rows = Inr d'" "distinct (keys d')" "total_of fst d' = ss_active new"
      "total_of (fst \<circ> snd) d' = ss_pending new" "total_of (snd \<circ> snd) d' = ss_reward new" using new_run by (rule read_run)
  have [simp]: "c' = c" "d' = d" using c c'(1) d d'(1) by simp_all
  have "distinct (keys records)" using liquid_reader.run_inv [OF _ records] by simp
  note sums = diff_totals [OF this c'(2) [simplified] d'(2) [simplified]]
  have sum: "sum_list (map dw_total rs) = df_totals report ! 4"
  proof -
    have "df_totals report ! 4 = (\<Sum>r\<leftarrow>?us. dw_total r)"
      unfolding totals by (subst add_deltas_sums) (auto simp: diff_row_of_def Let_def nth_append o_def)
    then show ?thesis unfolding rs largest_change_first_def
      by (simp only: rev_map [symmetric] sum_list_rev sum_list_sort_key)
  qed
  have addresses: "map dw_address ?us = ?as" by (simp add: o_def diff_row_of_def Let_def)
  then have "distinct (map dw_address ?us)" by (simp add: all_addresses_def)
  note sorted = largest_change_sorted [OF this, folded rs]
  have us: "set rs = set ?us" by (simp add: rs largest_change_first_def)
  then have set: "set (map dw_address rs) = set ?as" using addresses by (metis set_map)
  have rows: "\<forall>r \<in> set rs. \<exists>a. r = diff_row_of records c d a" unfolding us by auto
  have "\<forall>r \<in> set rs. dw_total r = held_after records d (dw_address r) - held_before records c (dw_address r)"
    using rows by (auto simp: diff_row_of_def Let_def held_after_def held_before_def claim_total_def)
  moreover have "set ?as = set (keys records) \<union> set (keys c) \<union> set (keys d)" by (auto simp: all_addresses_def)
  moreover note sums = sums [folded totals, unfolded c'(3-5) [simplified] d'(3-5) [simplified]]
  have "let ds = [total_of lq_new records - total_of lq_old records, ss_active new - ss_active old,
      ss_pending new - ss_pending old, ss_reward new - ss_reward old]
    in df_totals report = ds @ [sum_list ds] \<and> sum_list (map dw_total rs) = sum_list ds"
    using sums sum by (simp add: Let_def)
  ultimately show ?thesis using records c d set sorted by blast
qed

text \<open>One staker between two blocks, whose liquid balance grows from 5 to 9.\<close>

definition example_liquid :: row where
  "example_liquid = [''address'' \<mapsto> ''0xAA'', ''secure_key'' \<mapsto> ''k'', ''old_balance_atto'' \<mapsto> ''5'', ''new_balance_atto'' \<mapsto> ''9'']"

lemma returned: "(case m of Some (Inr x) \<Rightarrow> P x | _ \<Rightarrow> False) \<Longrightarrow> \<exists>x. m = Some (Inr x) \<and> P x"
  by (auto split: option.split_asm sum.split_asm)

theorem claims_diff_of_runs_witness:
  "\<exists>old_rows old new_rows new rs report. historical_staking example_chain 7 = Some (Inr (old_rows, old))
     \<and> historical_staking example_chain 8 = Some (Inr (new_rows, new))
     \<and> claims_diff (\<lambda>_. []) [example_liquid] old_rows new_rows = Inr (rs, report) \<and> sum_list (map dw_total rs) = 4 \<and> length rs = 2"
proof -
  have "case historical_staking example_chain 7 of Some (Inr p) \<Rightarrow> (case historical_staking example_chain 8 of Some (Inr q) \<Rightarrow>
      (case claims_diff (\<lambda>_. []) [example_liquid] (fst p) (fst q) of Inl _ \<Rightarrow> False | Inr d \<Rightarrow> df_totals (snd d) = [4, 0, 0, 0, 4] \<and> length (fst d) = 2)
    | _ \<Rightarrow> False) | _ \<Rightarrow> False" by code_simp
  from returned [OF this] obtain p where p: "historical_staking example_chain 7 = Some (Inr p)"
    and rest: "case historical_staking example_chain 8 of Some (Inr q) \<Rightarrow>
      (case claims_diff (\<lambda>_. []) [example_liquid] (fst p) (fst q) of Inl _ \<Rightarrow> False | Inr d \<Rightarrow> df_totals (snd d) = [4, 0, 0, 0, 4] \<and> length (fst d) = 2)
    | _ \<Rightarrow> False" by blast
  from returned [OF rest] obtain q where q: "historical_staking example_chain 8 = Some (Inr q)"
    and "case claims_diff (\<lambda>_. []) [example_liquid] (fst p) (fst q) of Inl _ \<Rightarrow> False
      | Inr d \<Rightarrow> df_totals (snd d) = [4, 0, 0, 0, 4] \<and> length (fst d) = 2"
    by blast
  then obtain d where d: "claims_diff (\<lambda>_. []) [example_liquid] (fst p) (fst q) = Inr d" and t: "df_totals (snd d) = [4, 0, 0, 0, 4]" "length (fst d) = 2"
    by (cases "claims_diff (\<lambda>_. []) [example_liquid] (fst p) (fst q)") simp_all
  obtain a s b t rs report where pairs: "p = (a, s)" "q = (b, t)" "d = (rs, report)" by (cases p; cases q; cases d)
  note runs = p [unfolded pairs] q [unfolded pairs] d [unfolded pairs fst_conv]
  have "df_totals report = [4, 0, 0, 0, 4]" using t(1) by (simp add: pairs)
  with claims_diff_of_runs [OF runs] have "sum_list (map dw_total rs) = 4" unfolding Let_def by (elim exE conjE) simp
  moreover have "length rs = 2" using t(2) by (simp add: pairs)
  ultimately show ?thesis using runs by blast
qed

end
