(* ===== verification/Blacklist.thy ===== *)
theory Blacklist
  imports Address Cells Closure Defaultdict "HOL-Library.Product_Lexorder"
begin

section \<open>Balances of a list of addresses: \<open>blacklisted-address-audit.py\<close>\<close>

text \<open>
  The script looks up every address of a hand-written list in the claims of the cutoff. The list may repeat an address; two
  different texts may not mean the same account. The rows of the claims file that belong to the list must agree on the cutoff
  blocks, and their printed ONE amounts must be those of the atto amounts. File names and digests are parameters of the
  summary.
\<close>

subsection \<open>The list\<close>

definition claim_components :: "string list" where
  "claim_components = [''liquid_shard0'', ''liquid_shard1'', ''active_staked_or_delegated'', ''pending_undelegation'',
     ''unclaimed_staking_reward'', ''pending_cross_shard'', ''total_claim'']"

definition input_addresses :: "string list \<Rightarrow> string list" where
  "input_addresses lines = map strip (filter (\<lambda>line. strip line \<noteq> [] \<and> \<not> starts_with ''#'' (lstrip line)) lines)"

definition count_address :: "(string, int) dict \<Rightarrow> string \<Rightarrow> (string, int) dict" where
  "count_address counts a = adjust 0 a (\<lambda>n. n + 1) counts"

definition address_counts :: "string list \<Rightarrow> (string, int) dict" where
  "address_counts as = foldl count_address [] as"

text \<open>\<open>dict.fromkeys\<close>: the first occurrence of each.\<close>

definition fromkeys :: "'a list \<Rightarrow> 'a list" where
  "fromkeys xs = rev (remdups (rev xs))"

definition decoded_list :: "string list \<Rightarrow> (string \<times> string) list result" where
  "decoded_list unique =
     rbind (map_r (\<lambda>a. rbind (decode_bech32 a) (\<lambda>h. Inr (a, h))) unique) (\<lambda>pairs.
     rbind (raise_if (length (remdups (map snd pairs)) \<noteq> length pairs)
       (ValueError ''different input strings decode to the same 20-byte address'')) (\<lambda>_. Inr pairs))"

subsection \<open>The claims\<close>

definition atto_field :: "string \<Rightarrow> string" where
  "atto_field c = c @ ''_atto''"

definition one_field :: "string \<Rightarrow> string" where
  "one_field c = c @ ''_one''"

definition required_fields :: "string list" where
  "required_fields = [''secure_key'', ''address'', ''claims_shard0_block'', ''claims_shard1_block'', ''nonce_shard0'', ''nonce_shard1'',
     ''code_hash_shard0'', ''code_hash_shard1''] @ map atto_field claim_components @ map one_field claim_components"

text \<open>The rows found so far, by address, and the set of cutoff pairs.\<close>

type_synonym found_claims = "(string, row) dict \<times> (int \<times> int) list"

definition find_claim :: "string list \<Rightarrow> found_claims \<Rightarrow> row \<Rightarrow> found_claims result" where
  "find_claim wanted s r =
     rbind (getitem r ''address'') (\<lambda>text. let address = lower text in
       if address \<notin> set wanted then Inr s
       else if address \<in> set (keys (fst s)) then Inl (ValueError ''duplicate claim row'')
       else rbind (int_cell r ''claims_shard0_block'') (\<lambda>block0.
            rbind (int_cell r ''claims_shard1_block'') (\<lambda>block1.
              Inr (fst s @ [(address, r)], add_label (block0, block1) (snd s)))))"

definition find_claims :: "string list \<Rightarrow> string list \<Rightarrow> row list \<Rightarrow> ((string, row) dict \<times> int \<times> int) result" where
  "find_claims wanted header rs =
     rbind (raise_if (list_ex (\<lambda>f. f \<notin> set header) required_fields) (ValueError ''claim CSV is missing fields'')) (\<lambda>_.
     rbind (fold_r (find_claim wanted) ([], []) rs) (\<lambda>(found, pairs).
       case pairs of [p] \<Rightarrow> Inr (found, p) | _ \<Rightarrow> Inl (ValueError ''unexpected cutoff pairs'')))"

subsection \<open>The rows\<close>

record listed_row =
  lr_order :: int
  lr_bech32 :: string
  lr_hex :: string
  lr_count :: int
  lr_claim :: "row option"
  lr_values :: "(string \<times> int) list"

definition component_value :: "row option \<Rightarrow> string \<Rightarrow> (string \<times> int) result" where
  "component_value claim c = (case claim of
     None \<Rightarrow> Inr (c, 0)
   | Some r \<Rightarrow> rbind (int_cell r (atto_field c)) (\<lambda>v.
       rbind (getitem r (one_field c)) (\<lambda>printed.
       rbind (raise_if (printed \<noteq> one_floor v) (ValueError ''atto/ONE mismatch'')) (\<lambda>_. Inr (c, v)))))"

definition listed_row_of :: "(string, int) dict \<Rightarrow> (string, row) dict \<Rightarrow> nat \<times> string \<times> string \<Rightarrow> listed_row result" where
  "listed_row_of counts found n = (case n of (index, address, h) \<Rightarrow> let claim = map_of found h in
     rbind (map_r (component_value claim) claim_components) (\<lambda>vs.
       Inr \<lparr>lr_order = int index, lr_bech32 = address, lr_hex = h, lr_count = entry 0 counts address, lr_claim = claim,
         lr_values = vs\<rparr>))"

definition copied_fields :: "string list" where
  "copied_fields = [''secure_key'', ''nonce_shard0'', ''nonce_shard1'', ''code_hash_shard0'', ''code_hash_shard1'']"

definition copied_cells :: "row option \<Rightarrow> (string \<times> string) list" where
  "copied_cells claim = map (\<lambda>f. (f, case claim of None \<Rightarrow> [] | Some r \<Rightarrow> get_or r f [])) copied_fields"

definition listed_cells :: "listed_row \<Rightarrow> row" where
  "listed_cells r = map_of ([(''input_order'', py_str (lr_order r)), (''address_bech32'', lr_bech32 r), (''address_hex'', lr_hex r),
     (''duplicate_count_in_input'', py_str (lr_count r)),
     (''cutoff_row_present'', if lr_claim r = None then ''false'' else ''true'')] @ copied_cells (lr_claim r)
     @ map (\<lambda>(c, v). (atto_field c, py_str v)) (lr_values r) @ map (\<lambda>(c, v). (one_field c, one_floor v)) (lr_values r)
     @ [(''migration_action'', ''not_set_by_balance_audit'')])"

definition value_of :: "string \<Rightarrow> listed_row \<Rightarrow> int" where
  "value_of c r = get_or (map_of (lr_values r)) c 0"

definition component_totals :: "listed_row list \<Rightarrow> (string \<times> int) list" where
  "component_totals rs = map (\<lambda>c. (c, sum_list (map (value_of c) rs))) claim_components"

subsection \<open>The summary\<close>

record listed_args =
  la_addresses :: string
  la_addresses_sha256 :: string
  la_claims :: string
  la_claims_sha256 :: string
  la_csv :: string
  la_csv_sha256 :: string

definition positive_listed :: "listed_row list \<Rightarrow> listed_row list" where
  "positive_listed rs = filter (\<lambda>r. value_of ''total_claim'' r > 0) rs"

definition top_listed :: "listed_row list \<Rightarrow> listed_row list" where
  "top_listed rs = take 10 (sort_key (\<lambda>r. (- value_of ''total_claim'' r, lr_bech32 r)) (positive_listed rs))"

definition top_json :: "listed_row \<Rightarrow> json" where
  "top_json r = JDict [(''address_bech32'', JStr (lr_bech32 r)), (''address_hex'', JStr (lr_hex r)),
     (''total_claim_atto'', JStr (py_str (value_of ''total_claim'' r))), (''total_claim_one'', JStr (one_floor (value_of ''total_claim'' r)))]"

record listed_audit =
  ld_rows :: "listed_row list"
  ld_totals :: "(string \<times> int) list"
  ld_cutoff :: "int \<times> int"
  ld_entries :: int
  ld_counts :: "(string, int) dict"
  ld_found :: int

definition listed_summary :: "listed_args \<Rightarrow> listed_audit \<Rightarrow> json" where
  "listed_summary args d = (let rs = ld_rows d in JDict
     [(''status'', JStr ''passed''), (''addresses_input'', JStr (la_addresses args)), (''addresses_input_sha256'', JStr (la_addresses_sha256 args)),
      (''claims_input'', JStr (la_claims args)), (''claims_input_sha256_from_cutoff_manifest'', JStr (lower (la_claims_sha256 args))),
      (''cutoff'', JDict [(''shard0_block'', JInt (fst (ld_cutoff d))), (''shard1_block'', JInt (snd (ld_cutoff d)))]),
      (''input_entries'', JInt (ld_entries d)), (''unique_addresses'', JInt (int (length rs))),
      (''duplicate_entries'', JDict (map (\<lambda>(a, n). (a, JInt n)) (filter (\<lambda>(a, n). n > 1) (sort_key fst (ld_counts d))))),
      (''positive_claim_addresses'', JInt (int (length (positive_listed rs)))),
      (''zero_or_absent_addresses'', JInt (int (length rs) - int (length (positive_listed rs)))),
      (''cutoff_rows_present'', JInt (ld_found d)),
      (''component_totals_atto'', JDict (map (\<lambda>(c, v). (c, JStr (py_str v))) (ld_totals d))),
      (''component_totals_one'', JDict (map (\<lambda>(c, v). (c, JStr (one_floor v))) (ld_totals d))),
      (''zero_or_absent_address_list'', JList (map (\<lambda>r. JStr (lr_bech32 r)) (filter (\<lambda>r. value_of ''total_claim'' r = 0) rs))),
      (''top_ten_by_total_claim'', JList (map top_json (top_listed rs))),
      (''migration_policy'', JDict [(''action'', JStr ''none; join this balance audit to incident-specific evidence before routing''),
        (''deduct_from_total_claim'', JBool False)]),
      (''csv_output'', JStr (la_csv args)), (''csv_output_sha256'', JStr (la_csv_sha256 args))])"

definition listed_balances :: "string list \<Rightarrow> string list \<Rightarrow> row list \<Rightarrow> listed_audit result" where
  "listed_balances lines header claims = (let as = input_addresses lines; counts = address_counts as in
     rbind (decoded_list (fromkeys as)) (\<lambda>pairs.
     rbind (find_claims (map snd pairs) header claims) (\<lambda>(found, cutoff).
     rbind (map_r (listed_row_of counts found) (enumerate 1 pairs)) (\<lambda>rs.
       Inr \<lparr>ld_rows = rs, ld_totals = component_totals rs, ld_cutoff = cutoff, ld_entries = int (length as),
         ld_counts = counts, ld_found = int (length found)\<rparr>))))"

definition listed_header :: "string list" where
  "listed_header = [''input_order'', ''address_bech32'', ''address_hex'', ''duplicate_count_in_input'', ''cutoff_row_present'', ''secure_key'']
     @ map atto_field claim_components @ map one_field claim_components
     @ [''nonce_shard0'', ''nonce_shard1'', ''code_hash_shard0'', ''code_hash_shard1'', ''migration_action'']"

subsection \<open>The list\<close>

lemma fromkeys_simps: "distinct (fromkeys xs)" "set (fromkeys xs) = set xs"
  by (simp_all add: fromkeys_def)

lemma decoded_list_Inr:
  assumes "decoded_list unique = Inr pairs"
  shows "map fst pairs = unique" and "\<And>p. p \<in> set pairs \<Longrightarrow> decode_bech32 (fst p) = Inr (snd p)" and "distinct (map snd pairs)"
proof -
  from assms have run: "list_all2 (\<lambda>a p. rbind (decode_bech32 a) (\<lambda>h. Inr (a, h)) = Inr p) unique pairs"
    and len: "length (remdups (map snd pairs)) = length (map snd pairs)"
    by (auto simp: decoded_list_def rbind_eq_Inr map_r_eq_Inr)
  show "map fst pairs = unique" using list_all2_map_eq [OF run, of fst "\<lambda>a. a"] by (auto simp: rbind_eq_Inr)
  show "decode_bech32 (fst p) = Inr (snd p)" if "p \<in> set pairs" for p
    using list_all2_right [OF run that] by (auto simp: rbind_eq_Inr)
  from len show "distinct (map snd pairs)" by (simp only: length_remdups_eq remdups_id_iff_distinct)
qed

interpretation counting: conserving_loop "\<lambda>counts a. Inr (count_address counts a)" "\<lambda>d. entry 0 d b" "\<lambda>a. if a = b then 1 else 0 :: int"
  by unfold_locales (simp add: count_address_def dict_simps)

lemma address_counts_fold: "fold_r (\<lambda>counts a. Inr (count_address counts a)) d as = Inr (foldl count_address d as)"
  by (induction as arbitrary: d) simp_all

lemma entry_address_counts: "entry 0 (address_counts as) b = int (count_list as b)"
proof -
  have "(\<Sum>a\<leftarrow>as. if a = b then 1 else 0 :: int) = int (count_list as b)" by (induction as) simp_all
  then show ?thesis using counting.run_total [OF address_counts_fold [of "[]" as], where b = b] by (simp add: address_counts_def dict_simps)
qed

lemma sum_counts: "(\<Sum>b\<leftarrow>fromkeys as. int (count_list as b)) = int (length as)"
proof -
  have "(\<Sum>b\<leftarrow>fromkeys as. int (count_list as b)) = (\<Sum>b \<in> set as. int (count_list as b))"
    using sum_list_distinct_conv_sum_set [OF fromkeys_simps(1) [of as]] by (simp add: fromkeys_simps)
  then show ?thesis by (simp add: sum_count_set [of as, OF subset_refl finite_set] flip: of_nat_sum)
qed

subsection \<open>The claims\<close>

abbreviation claim_address :: "row \<Rightarrow> string" where
  "claim_address r \<equiv> address_cell r ''address''"

definition at_cutoff :: "int \<times> int \<Rightarrow> row \<Rightarrow> bool" where
  "at_cutoff p r \<longleftrightarrow> int_cell r ''claims_shard0_block'' = Inr (fst p) \<and> int_cell r ''claims_shard1_block'' = Inr (snd p)"

lemma find_claim_Inr:
  assumes "find_claim wanted s r = Inr s'"
  shows "if claim_address r \<in> set wanted
    then claim_address r \<notin> set (keys (fst s)) \<and> (\<exists>p. at_cutoff p r \<and> s' = (fst s @ [(claim_address r, r)], add_label p (snd s)))
    else s' = s"
  using assms by (auto simp: find_claim_def rbind_eq_Inr Let_def at_cutoff_def simp del: set_map dest!: address_cell_Inr split: if_split_asm)

lemma find_claims_run:
  "fold_r (find_claim wanted) s rs = Inr s' \<Longrightarrow> distinct (keys (fst s)) \<Longrightarrow>
     fst s' = fst s @ map (\<lambda>r. (claim_address r, r)) (filter (\<lambda>r. claim_address r \<in> set wanted) rs) \<and> distinct (keys (fst s'))
     \<and> set (snd s) \<subseteq> set (snd s') \<and> (\<forall>r \<in> set rs. claim_address r \<in> set wanted \<longrightarrow> (\<exists>p \<in> set (snd s'). at_cutoff p r))"
proof (induction rs arbitrary: s)
  case (Cons r rs)
  from Cons.prems(1) obtain t where t: "find_claim wanted s r = Inr t" and rest: "fold_r (find_claim wanted) t rs = Inr s'"
    by (auto simp: rbind_eq_Inr)
  show ?case
  proof (cases "claim_address r \<in> set wanted")
    case True
    with find_claim_Inr [OF t] obtain p where new: "claim_address r \<notin> set (keys (fst s))" and p: "at_cutoff p r"
      and t': "t = (fst s @ [(claim_address r, r)], add_label p (snd s))" by auto
    have "distinct (keys (fst t))" using Cons.prems(2) new by (auto simp: t')
    note IH = Cons.IH [OF rest this]
    have "p \<in> set (snd s')" "set (snd s) \<subseteq> set (snd s')" using IH by (auto simp: t' add_label_def split: if_split_asm)
    with IH p True show ?thesis by (auto simp: t' simp del: set_map)
  next
    case False
    then have "t = s" using find_claim_Inr [OF t] by simp
    moreover from this have "distinct (keys (fst t))" using Cons.prems(2) by simp
    ultimately show ?thesis using Cons.IH [OF rest] False by (auto simp del: set_map)
  qed
qed simp

lemma find_claims_Inr:
  assumes "find_claims wanted header rs = Inr (found, p)"
  shows "found = map (\<lambda>r. (claim_address r, r)) (filter (\<lambda>r. claim_address r \<in> set wanted) rs)" and "distinct (keys found)"
    and "\<And>r. r \<in> set rs \<Longrightarrow> claim_address r \<in> set wanted \<Longrightarrow> at_cutoff p r" and "set required_fields \<subseteq> set header"
proof -
  from assms obtain s where run: "fold_r (find_claim wanted) ([], []) rs = Inr s" and found: "fst s = found" and p: "snd s = [p]"
    and "\<not> list_ex (\<lambda>f. f \<notin> set header) required_fields"
  proof -
    from assms obtain s where run: "fold_r (find_claim wanted) ([], []) rs = Inr s"
      and one: "(case snd s of [p] \<Rightarrow> Inr (fst s, p) | _ \<Rightarrow> Inl (ValueError ''unexpected cutoff pairs'')) = Inr (found, p)"
      and all: "\<not> list_ex (\<lambda>f. f \<notin> set header) required_fields"
      unfolding find_claims_def case_prod_unfold by (elim rbind_E) simp
    from one have "fst s = found \<and> snd s = [p]" by (cases "snd s"; cases "tl (snd s)") simp_all
    with that run all show ?thesis by blast
  qed
  then show "set required_fields \<subseteq> set header" by (auto simp: list_ex_iff)
  from find_claims_run [OF run] found p
  show "found = map (\<lambda>r. (claim_address r, r)) (filter (\<lambda>r. claim_address r \<in> set wanted) rs)" "distinct (keys found)"
    "\<And>r. r \<in> set rs \<Longrightarrow> claim_address r \<in> set wanted \<Longrightarrow> at_cutoff p r" by auto
qed

subsection \<open>The rows\<close>

lemma component_values:
  assumes "map_r (component_value claim) cs = Inr vs"
  shows "map fst vs = cs" and "c \<in> set cs \<Longrightarrow> distinct cs \<Longrightarrow> get_or (map_of vs) c 0 = (case claim of None \<Rightarrow> 0 | Some r \<Rightarrow> cell_int r (atto_field c))"
proof -
  have one: "fst p = c \<and> snd p = (case claim of None \<Rightarrow> 0 | Some r \<Rightarrow> cell_int r (atto_field c))" if "component_value claim c = Inr p" for c p
    using that by (auto simp: component_value_def rbind_eq_Inr int_cell_Inr split: option.split_asm)
  from assms have run: "list_all2 (\<lambda>c p. component_value claim c = Inr p) cs vs" by (simp add: map_r_eq_Inr)
  show keys: "map fst vs = cs" using list_all2_map_eq [OF run, of fst "\<lambda>c. c"] one by auto
  assume c: "c \<in> set cs" and d: "distinct cs"
  then have "c \<in> fst ` set vs" using keys by (metis set_map)
  then obtain p where p: "p \<in> set vs" "fst p = c" by blast
  with list_all2_right [OF run] obtain c' where "component_value claim c' = Inr p" by blast
  from one [OF this] p(2) have "snd p = (case claim of None \<Rightarrow> 0 | Some r \<Rightarrow> cell_int r (atto_field c))" by (elim conjE) (simp only:)
  moreover have "map_of vs c = Some (snd p)" using p keys d by (metis map_of_eq_Some_iff prod.collapse)
  ultimately show "get_or (map_of vs) c 0 = (case claim of None \<Rightarrow> 0 | Some r \<Rightarrow> cell_int r (atto_field c))"
    by (simp add: get_or_def)
qed

lemma distinct_components: "distinct claim_components"
  by (simp add: claim_components_def)

lemma listed_row_Inr:
  assumes "listed_row_of counts found (index, address, h) = Inr r"
  shows "lr_order r = int index" "lr_bech32 r = address" "lr_hex r = h" "lr_count r = entry 0 counts address" "lr_claim r = map_of found h"
    and "map fst (lr_values r) = claim_components"
    and "c \<in> set claim_components \<Longrightarrow> value_of c r = cell_int (get_or (map_of found) h Map.empty) (atto_field c)"
proof -
  from assms obtain vs where vs: "map_r (component_value (map_of found h)) claim_components = Inr vs"
    and r: "r = \<lparr>lr_order = int index, lr_bech32 = address, lr_hex = h, lr_count = entry 0 counts address, lr_claim = map_of found h, lr_values = vs\<rparr>"
    by (auto simp: listed_row_of_def rbind_eq_Inr Let_def)
  show "lr_order r = int index" "lr_bech32 r = address" "lr_hex r = h" "lr_count r = entry 0 counts address" "lr_claim r = map_of found h"
    "map fst (lr_values r) = claim_components" using component_values(1) [OF vs] by (simp_all add: r)
  have "cell_int Map.empty f = 0" for f by (simp add: cell_int_def int_cell_def getitem_def)
  then show "value_of c r = cell_int (get_or (map_of found) h Map.empty) (atto_field c)" if "c \<in> set claim_components"
    using component_values(2) [OF vs that distinct_components] by (simp add: r value_of_def get_or_def split: option.split)
qed

text \<open>The parts of a successful run.\<close>

lemma listed_balances_parts:
  assumes "listed_balances lines header claims = Inr d"
  obtains pairs found where "decoded_list (fromkeys (input_addresses lines)) = Inr pairs"
    and "find_claims (map snd pairs) header claims = Inr (found, ld_cutoff d)"
    and "list_all2 (\<lambda>n r. listed_row_of (address_counts (input_addresses lines)) found n = Inr r) (enumerate 1 pairs) (ld_rows d)"
    and "ld_totals d = component_totals (ld_rows d)" and "ld_entries d = int (length (input_addresses lines))"
    and "ld_found d = int (length found)"
proof -
  from assms obtain pairs q rs where pairs: "decoded_list (fromkeys (input_addresses lines)) = Inr pairs"
    and q: "find_claims (map snd pairs) header claims = Inr q"
    and rs: "map_r (listed_row_of (address_counts (input_addresses lines)) (fst q)) (enumerate 1 pairs) = Inr rs"
    and d: "\<lparr>ld_rows = rs, ld_totals = component_totals rs, ld_cutoff = snd q, ld_entries = int (length (input_addresses lines)),
      ld_counts = address_counts (input_addresses lines), ld_found = int (length (fst q))\<rparr> = d"
    unfolding listed_balances_def Let_def case_prod_unfold by (elim rbind_E) simp
  show ?thesis by (rule that [OF pairs, of "fst q"]) (use q rs d in \<open>auto simp: map_r_eq_Inr\<close>)
qed

lemma enumerated:
  assumes "list_all2 (\<lambda>n r. P n r) (enumerate k xs) rs" and "\<And>i x r. P (i, x) r \<Longrightarrow> f r = g x"
  shows "map f rs = map g xs"
proof -
  have "map f rs = map (g \<circ> snd) (enumerate k xs)"
    by (rule list_all2_map_eq [OF assms(1)]) (use assms(2) in \<open>auto simp: split_paired_all\<close>)
  then show ?thesis by (simp flip: map_map)
qed

lemma listed_rows_fields:
  assumes "list_all2 (\<lambda>n r. listed_row_of counts found n = Inr r) (enumerate k pairs) rs"
  shows "map lr_bech32 rs = map fst pairs" and "map lr_hex rs = map snd pairs" and "map lr_count rs = map (\<lambda>p. entry 0 counts (fst p)) pairs"
    and "c \<in> set claim_components \<Longrightarrow> map (value_of c) rs = map (\<lambda>p. cell_int (get_or (map_of found) (snd p) Map.empty) (atto_field c)) pairs"
  by (rule enumerated [OF assms], case_tac x, simp add: listed_row_Inr)+

text \<open>The cells of a row.\<close>

lemma map_of_graph: "c \<in> set cs \<Longrightarrow> map_of (map (\<lambda>c. (c, f c)) cs) c = Some (f c)"
  by (induction cs) auto

lemma map_of_skip: "k \<notin> set (map fst xs) \<Longrightarrow> map_of (xs @ ys) k = map_of ys k"
  by (induction xs) auto

lemma map_of_field:
  assumes "inj field" and "c \<in> fst ` set vs"
  shows "map_of (map (\<lambda>(c, v). (field c, f v)) vs @ ys) (field c) = Some (f (get_or (map_of vs) c 0))"
  using assms(2) by (induction vs) (auto simp: get_or_def inj_eq [OF assms(1)])

lemma inj_fields: "inj atto_field" "inj one_field"
  by (simp_all add: inj_def atto_field_def one_field_def)

definition leading_fields :: "string list" where
  "leading_fields = [''input_order'', ''address_bech32'', ''address_hex'', ''duplicate_count_in_input'', ''cutoff_row_present''] @ copied_fields"

lemma different_fields:
  "\<forall>c \<in> set claim_components. atto_field c \<notin> set leading_fields \<and> one_field c \<notin> set (leading_fields @ map atto_field claim_components)"
  by code_simp

lemma listed_cells_shape:
  assumes "map fst (lr_values r) = claim_components"
  shows "dom (listed_cells r) = set listed_header"
    and "c \<in> set claim_components \<Longrightarrow> listed_cells r (atto_field c) = Some (py_str (value_of c r))"
    and "c \<in> set claim_components \<Longrightarrow> listed_cells r (one_field c) = Some (one_floor (value_of c r))"
proof -
  define lead where "lead = [(''input_order'', py_str (lr_order r)), (''address_bech32'', lr_bech32 r), (''address_hex'', lr_hex r),
     (''duplicate_count_in_input'', py_str (lr_count r)),
     (''cutoff_row_present'', if lr_claim r = None then ''false'' else ''true'')] @ copied_cells (lr_claim r)"
  define attos where "attos = map (\<lambda>(c, v). (atto_field c, py_str v)) (lr_values r)"
  define ones where "ones = map (\<lambda>(c, v). (one_field c, one_floor v)) (lr_values r)"
  have cells: "listed_cells r = map_of (lead @ attos @ ones @ [(''migration_action'', ''not_set_by_balance_audit'')])"
    by (simp add: listed_cells_def lead_def attos_def ones_def)
  have leads: "map fst lead = leading_fields" by (simp add: lead_def leading_fields_def copied_cells_def o_def)
  have "map fst attos = map atto_field (map fst (lr_values r))" "map fst ones = map one_field (map fst (lr_values r))"
    by (simp_all add: attos_def ones_def o_def case_prod_unfold)
  then have names: "map fst attos = map atto_field claim_components" "map fst ones = map one_field claim_components"
    unfolding assms .
  have "dom (listed_cells r) = set (map fst lead) \<union> set (map fst attos) \<union> set (map fst ones) \<union> {''migration_action''}"
    unfolding cells dom_map_of_conv_image_fst by auto
  then show "dom (listed_cells r) = set listed_header"
    unfolding leads names by (auto simp: leading_fields_def copied_fields_def listed_header_def)
  assume c: "c \<in> set claim_components"
  have in_values: "c \<in> fst ` set (lr_values r)" using c assms by (metis set_map)
  have "atto_field c \<notin> set (map fst lead)" using different_fields c unfolding leads by blast
  then show "listed_cells r (atto_field c) = Some (py_str (value_of c r))"
    unfolding cells attos_def value_of_def by (simp only: map_of_skip map_of_field [OF inj_fields(1) in_values] not_False_eq_True)
  have "one_field c \<notin> set (map fst (lead @ attos))" using different_fields c unfolding map_append leads names by blast
  then have "map_of ((lead @ attos) @ ones @ [(''migration_action'', ''not_set_by_balance_audit'')]) (one_field c) = Some (one_floor (value_of c r))"
    unfolding ones_def value_of_def by (simp only: map_of_skip map_of_field [OF inj_fields(2) in_values] not_False_eq_True)
  then show "listed_cells r (one_field c) = Some (one_floor (value_of c r))" by (simp only: cells append_assoc)
qed

subsection \<open>Properties\<close>

definition listed_claims :: "listed_audit \<Rightarrow> row list \<Rightarrow> row list" where
  "listed_claims d claims = filter (\<lambda>r. claim_address r \<in> set (map lr_hex (ld_rows d))) claims"

text \<open>
  C16. The totals are those of the claims. After a successful audit each total is the sum of its column over the rows and also
  over the rows of the claims file that belong to a listed address, however often and in whatever order the list names the
  addresses; all of these rows are at the reported cutoff blocks, none is missing from or counted twice in the number found,
  and the counts of the rows add up to the number of entries of the list.
\<close>

theorem listed_totals:
  assumes "listed_balances lines header claims = Inr d" and "c \<in> set claim_components"
  shows "map_of (ld_totals d) c = Some (sum_list (map (value_of c) (ld_rows d)))
    \<and> map_of (ld_totals d) c = Some (\<Sum>r\<leftarrow>listed_claims d claims. cell_int r (atto_field c))
    \<and> (\<forall>r \<in> set (listed_claims d claims). at_cutoff (ld_cutoff d) r)
    \<and> ld_found d = int (length (listed_claims d claims))
    \<and> sum_list (map lr_count (ld_rows d)) = ld_entries d"
proof -
  let ?as = "input_addresses lines"
  from assms(1) obtain pairs found where pairs: "decoded_list (fromkeys ?as) = Inr pairs"
    and found: "find_claims (map snd pairs) header claims = Inr (found, ld_cutoff d)"
    and rows: "list_all2 (\<lambda>n r. listed_row_of (address_counts ?as) found n = Inr r) (enumerate 1 pairs) (ld_rows d)"
    and totals: "ld_totals d = component_totals (ld_rows d)" and n: "ld_entries d = int (length ?as)"
    and k: "ld_found d = int (length found)"
    by (rule listed_balances_parts)
  note p = decoded_list_Inr [OF pairs] and f = find_claims_Inr [OF found] and fields = listed_rows_fields [OF rows]
  have own: "found = map (\<lambda>r. (claim_address r, r)) (listed_claims d claims)" using f(1) by (simp add: listed_claims_def fields(2))
  have total: "map_of (ld_totals d) c = Some (sum_list (map (value_of c) (ld_rows d)))"
    using assms(2) by (simp add: totals component_totals_def map_of_graph)
  have none: "cell_int Map.empty (atto_field c) = 0" by (simp add: cell_int_def int_cell_def getitem_def)
  have "sum_list (map (value_of c) (ld_rows d)) = (\<Sum>h\<leftarrow>map snd pairs. cell_int (entry Map.empty found h) (atto_field c))"
    unfolding fields(4) [OF assms(2)] entry_def by (simp add: o_def)
  also have "\<dots> = total_of (\<lambda>r. cell_int r (atto_field c)) found"
    by (rule entries_sum [OF f(2) p(3)]) (use f(1) none in auto)
  also have "\<dots> = (\<Sum>r\<leftarrow>listed_claims d claims. cell_int r (atto_field c))" by (simp add: own total_of_def o_def)
  finally have claims: "sum_list (map (value_of c) (ld_rows d)) = (\<Sum>r\<leftarrow>listed_claims d claims. cell_int r (atto_field c))" .
  have "map lr_count (ld_rows d) = map (\<lambda>a. int (count_list ?as a)) (fromkeys ?as)"
    unfolding fields(3) by (simp add: entry_address_counts o_def flip: p(1))
  then have "sum_list (map lr_count (ld_rows d)) = ld_entries d" by (simp add: sum_counts n)
  moreover have "\<forall>r \<in> set (listed_claims d claims). at_cutoff (ld_cutoff d) r" using f(3) by (simp add: listed_claims_def fields(2))
  ultimately show ?thesis using total claims k own by simp
qed

text \<open>
  C17. The rows are well formed. There is one row for each different text of the list, in the order of first occurrence and
  numbered from 1; its hexadecimal address is the decoded text, with the prefix, 40 lower-case digits and no other row
  sharing it; and the row written has exactly the columns of the header, where each component's two columns print the same
  amount, in atto and in ONE.
\<close>

theorem listed_rows_well_formed:
  assumes "listed_balances lines header claims = Inr d"
  shows "map lr_order (ld_rows d) = map int [1..<Suc (length (ld_rows d))]
    \<and> map lr_bech32 (ld_rows d) = fromkeys (input_addresses lines) \<and> distinct (map lr_hex (ld_rows d))
    \<and> (\<forall>r \<in> set (ld_rows d). decode_bech32 (lr_bech32 r) = Inr (lr_hex r)
        \<and> starts_with ''0x'' (lr_hex r) \<and> length (lr_hex r) = 42 \<and> lower (lr_hex r) = lr_hex r
        \<and> dom (listed_cells r) = set listed_header
        \<and> (\<forall>c \<in> set claim_components. listed_cells r (atto_field c) = Some (py_str (value_of c r))
            \<and> listed_cells r (one_field c) = Some (one_floor (value_of c r))))"
proof -
  from assms obtain pairs found where pairs: "decoded_list (fromkeys (input_addresses lines)) = Inr pairs"
    and rows: "list_all2 (\<lambda>n r. listed_row_of (address_counts (input_addresses lines)) found n = Inr r) (enumerate 1 pairs) (ld_rows d)"
    by (rule listed_balances_parts)
  note p = decoded_list_Inr [OF pairs] and fields = listed_rows_fields [OF rows]
  have "map lr_order (ld_rows d) = map (int \<circ> fst) (enumerate 1 pairs)"
    by (rule list_all2_map_eq [OF rows]) (auto simp: listed_row_Inr split_paired_all)
  also have "\<dots> = map int [1..<Suc (length (ld_rows d))]"
    using list_all2_lengthD [OF rows] by (simp flip: map_map)
  finally have order: "map lr_order (ld_rows d) = map int [1..<Suc (length (ld_rows d))]" .
  have row: "decode_bech32 (lr_bech32 r) = Inr (lr_hex r) \<and> map fst (lr_values r) = claim_components" if r: "r \<in> set (ld_rows d)" for r
  proof -
    from list_all2_right [OF rows r] obtain i a h where n: "(i, a, h) \<in> set (enumerate 1 pairs)"
      and row: "listed_row_of (address_counts (input_addresses lines)) found (i, a, h) = Inr r" by (auto simp: split_paired_all)
    have "(a, h) \<in> set pairs" using n by (metis enumerate_eq_zip set_zip_rightD)
    then show ?thesis using p(2) [of "(a, h)"] listed_row_Inr [OF row] by simp
  qed
  have canonical: "starts_with ''0x'' (lr_hex r) \<and> length (lr_hex r) = 42 \<and> lower (lr_hex r) = lr_hex r" if r: "r \<in> set (ld_rows d)" for r
    using row [OF r] decode_one_lower [of "lr_bech32 r" "lr_hex r"] unfolding decoders_agree by blast
  have "map lr_bech32 (ld_rows d) = fromkeys (input_addresses lines)" "distinct (map lr_hex (ld_rows d))"
    unfolding fields(1,2) using p by simp_all
  with order show ?thesis using row canonical listed_cells_shape by (intro conjI ballI) blast+
qed

text \<open>A list with a comment and a repeated address; the claims have a row for one of its two addresses and one for another.\<close>

definition example_lines :: "string list" where
  "example_lines = [''# reported'', ''one132ggm0mgxdt4l8etud9e5gzpv8psgx30p7hxsq '', ''one1td6g8sh02r7skyqtl46qdlgu0ed5lp259uut7x'',
     [], ''one132ggm0mgxdt4l8etud9e5gzpv8psgx30p7hxsq'']"

definition example_claim :: "string \<Rightarrow> row" where
  "example_claim h = map_of ([(''address'', h), (''secure_key'', ''k''), (''claims_shard0_block'', ''90''), (''claims_shard1_block'', ''80''),
       (''nonce_shard0'', ''1''), (''nonce_shard1'', ''0''), (''code_hash_shard0'', []), (''code_hash_shard1'', [])]
     @ map (\<lambda>c. (atto_field c, ''5'')) claim_components @ map (\<lambda>c. (one_field c, ''0.000000000000000005'')) claim_components)"

definition example_claims :: "row list" where
  "example_claims = [example_claim ''0x8A908dbf6833575f9f2be34b9a204161c3041a2f'', example_claim ''0x00'']"

lemma example_listed:
  "case listed_balances example_lines required_fields example_claims of Inl _ \<Rightarrow> False
   | Inr d \<Rightarrow> length (ld_rows d) = 2 \<and> map_of (ld_totals d) ''total_claim'' = Some 5 \<and> ld_found d = 1 \<and> ld_entries d = 3"
  by code_simp

theorem listed_totals_witness:
  "\<exists>d. listed_balances example_lines required_fields example_claims = Inr d \<and> length (listed_claims d example_claims) = 1
     \<and> sum_list (map lr_count (ld_rows d)) = 3"
proof -
  from example_listed obtain d where d: "listed_balances example_lines required_fields example_claims = Inr d"
    and n: "ld_found d = 1" "ld_entries d = 3"
    by (cases "listed_balances example_lines required_fields example_claims") simp_all
  have "''total_claim'' \<in> set claim_components" by (simp add: claim_components_def)
  from listed_totals [OF d this] d n show ?thesis by auto
qed

theorem listed_rows_well_formed_witness:
  "\<exists>d. listed_balances example_lines required_fields example_claims = Inr d \<and> length (ld_rows d) = 2
     \<and> (\<forall>r \<in> set (ld_rows d). length (lr_hex r) = 42)"
proof -
  from example_listed obtain d where d: "listed_balances example_lines required_fields example_claims = Inr d" and n: "length (ld_rows d) = 2"
    by (cases "listed_balances example_lines required_fields example_claims") simp_all
  from listed_rows_well_formed [OF d] have "\<forall>r \<in> set (ld_rows d). length (lr_hex r) = 42" by blast
  with d n show ?thesis by blast
qed

end
