(* ===== verification/Filetree.thy ===== *)
theory Filetree
  imports Pybase Defaultdict "HOL-Library.Product_Lexorder"
begin

section \<open>Files, and the lines of a checksum manifest\<close>

text \<open>
  The release scripts work on a directory tree: a dictionary from paths, written relative to the repository and
  without \<open>.\<close> and \<open>..\<close>, to contents. A JSON document is its tree, any other file its text. What a content's size,
  SHA-256 digest and number of CSV records are is a parameter of the model, the record \<open>measures\<close>. The checksum
  manifests are text files with one line \<open>digest  size  path\<close> for each file; writing and reading them is here.
\<close>

subsection \<open>The tree\<close>

datatype content = Document json | Raw string

type_synonym tree = "(string, content) dict"

record measures =
  size_of :: "content \<Rightarrow> int"
  digest_of :: "content \<Rightarrow> string"
  rows_of :: "content \<Rightarrow> int"

abbreviation is_file :: "tree \<Rightarrow> string \<Rightarrow> bool" where
  "is_file files path \<equiv> map_of files path \<noteq> None"

definition read_file :: "tree \<Rightarrow> string \<Rightarrow> content result" where
  "read_file files path = (case map_of files path of None \<Rightarrow> Inl (FileNotFoundError path) | Some c \<Rightarrow> Inr c)"

definition write_file :: "string \<Rightarrow> content \<Rightarrow> tree \<Rightarrow> tree" where
  "write_file path c files = AList.update path c files"

definition document_of :: "content \<Rightarrow> json result" where
  "document_of c = (case c of Document v \<Rightarrow> Inr v | Raw _ \<Rightarrow> Inl (ValueError ''not a JSON document''))"

definition text_of_file :: "content \<Rightarrow> string result" where
  "text_of_file c = (case c of Raw s \<Rightarrow> Inr s | Document _ \<Rightarrow> Inl (ValueError ''not a text file''))"

definition is_directory :: "tree \<Rightarrow> string \<Rightarrow> bool" where
  "is_directory files path \<longleftrightarrow> list_ex (starts_with (path @ ''/'')) (keys files)"

definition partial_path :: "string \<Rightarrow> string" where
  "partial_path path = path @ ''.partial''"

text \<open>\<open>root / name\<close>, and the names of the files directly in a directory.\<close>

definition under :: "string \<Rightarrow> string \<Rightarrow> string" where
  "under root name = (if starts_with ''/'' name then name else root @ ''/'' @ name)"

definition file_names :: "tree \<Rightarrow> string \<Rightarrow> string list" where
  "file_names files root = map (drop (Suc (length root)))
     (filter (\<lambda>p. starts_with (root @ ''/'') p \<and> CHR ''/'' \<notin> set (drop (Suc (length root)) p)) (keys files))"

lemma map_of_write [simp]: "map_of (write_file path c files) p = (if p = path then Some c else map_of files p)"
  by (simp add: write_file_def update_conv')

lemma read_file_Inr: "read_file files path = Inr c \<longleftrightarrow> map_of files path = Some c"
  by (auto simp: read_file_def split: option.splits)

lemma set_keys: "set (keys files) = {p. is_file files p}"
  by (auto simp: map_of_eq_None_iff)

lemma file_names_iff: "CHR ''/'' \<notin> set name \<Longrightarrow> name \<in> set (file_names files root) \<longleftrightarrow> is_file files (root @ ''/'' @ name)"
proof -
  assume plain: "CHR ''/'' \<notin> set name"
  have path: "p = root @ ''/'' @ drop (Suc (length root)) p" if "starts_with (root @ ''/'') p" for p
    using that by (metis append_assoc append_take_drop_id length_append_singleton starts_with_def)
  have "name \<in> set (file_names files root) \<longleftrightarrow> (\<exists>p \<in> set (keys files). starts_with (root @ ''/'') p \<and> drop (Suc (length root)) p = name)"
    using plain unfolding file_names_def set_map [of "drop (Suc (length root))"] set_filter by blast
  also have "\<dots> \<longleftrightarrow> root @ ''/'' @ name \<in> set (keys files)"
  proof
    assume "root @ ''/'' @ name \<in> set (keys files)"
    moreover have "starts_with (root @ ''/'') (root @ ''/'' @ name)" using starts_with_append [of "root @ ''/''" name] by simp
    ultimately show "\<exists>p \<in> set (keys files). starts_with (root @ ''/'') p \<and> drop (Suc (length root)) p = name" by force
  qed (metis path)
  finally show ?thesis by (simp only: set_keys mem_Collect_eq)
qed

lemma file_names_plain: "name \<in> set (file_names files root) \<Longrightarrow> CHR ''/'' \<notin> set name"
  by (auto simp: file_names_def)

subsection \<open>Lines\<close>

text \<open>\<open>s.split(sep, n)\<close> for a non-empty separator.\<close>

fun break_at :: "string \<Rightarrow> string \<Rightarrow> (string \<times> string) option" where
  "break_at sep [] = None"
| "break_at sep (c # cs) = (if starts_with sep (c # cs) then Some ([], drop (length sep) (c # cs))
     else map_option (\<lambda>(a, b). (c # a, b)) (break_at sep cs))"

fun split_at_most :: "nat \<Rightarrow> string \<Rightarrow> string \<Rightarrow> string list" where
  "split_at_most 0 sep s = [s]"
| "split_at_most (Suc n) sep s = (case break_at sep s of None \<Rightarrow> [s] | Some (a, b) \<Rightarrow> a # split_at_most n sep b)"

definition newline :: char where
  "newline = char_of (10::nat)"

definition carriage_return :: char where
  "carriage_return = char_of (13::nat)"

text \<open>
  Text mode with universal newlines: a carriage return, alone or before a newline, is read as one newline. The flag says
  that the character before was a carriage return.
\<close>

fun universal :: "bool \<Rightarrow> string \<Rightarrow> string" where
  "universal after_return [] = []"
| "universal after_return (c # s) =
     (if c = carriage_return then newline # universal True s
      else if c = newline \<and> after_return then universal False s
      else c # universal False s)"

text \<open>\<open>for line in file\<close>, each without its newline.\<close>

definition text_lines :: "string \<Rightarrow> string list" where
  "text_lines s = (let ls = split_on newline [] (universal False s) in if last ls = [] then butlast ls else ls)"

text \<open>A text that is read back as it was written within one line.\<close>

definition one_line :: "string \<Rightarrow> bool" where
  "one_line s \<longleftrightarrow> newline \<notin> set s \<and> carriage_return \<notin> set s"

type_synonym checksum = "string \<times> string \<times> int"

text \<open>A row is path, digest and size, in this order, as the scripts sort them.\<close>

definition checksum_line :: "checksum \<Rightarrow> string" where
  "checksum_line r = (case r of (path, digest, n) \<Rightarrow> digest @ ''  '' @ py_str n @ ''  '' @ path)"

definition manifest_text :: "checksum list \<Rightarrow> string" where
  "manifest_text rs = concat (map (\<lambda>r. checksum_line r @ [newline]) rs)"

definition read_checksum :: "string \<Rightarrow> (string \<times> string \<times> string) result" where
  "read_checksum line = (case split_at_most 2 ''  '' line of
     [digest, n, relative] \<Rightarrow> Inr (digest, n, relative)
   | _ \<Rightarrow> Inl (ValueError ''not enough values to unpack''))"

lemma split_on_line: "sep \<notin> set a \<Longrightarrow> split_on sep acc (a @ sep # s) = (rev acc @ a) # split_on sep [] s"
  by (induction a arbitrary: acc) auto

lemma split_on_nonempty [simp]: "split_on sep acc s \<noteq> []"
  by (induction sep acc s rule: split_on.induct) auto

lemma one_line_simps [simp]: "one_line []" "one_line (c # s) \<longleftrightarrow> c \<noteq> newline \<and> c \<noteq> carriage_return \<and> one_line s"
    "one_line (s @ t) \<longleftrightarrow> one_line s \<and> one_line t"
  by (auto simp: one_line_def)

lemma newline_not_return: "newline \<noteq> carriage_return"
  by code_simp

lemma universal_plain: "carriage_return \<notin> set s \<Longrightarrow> universal False s = s"
  by (induction s) auto

lemma text_lines_text: "\<forall>l \<in> set ls. one_line l \<Longrightarrow> text_lines (concat (map (\<lambda>l. l @ [newline]) ls)) = ls"
proof -
  assume ls: "\<forall>l \<in> set ls. one_line l"
  then have "carriage_return \<notin> set (concat (map (\<lambda>l. l @ [newline]) ls))"
    using newline_not_return by (auto simp: one_line_def)
  moreover have "split_on newline [] (concat (map (\<lambda>l. l @ [newline]) ls)) = ls @ [[]]"
    using ls by (induction ls) (simp_all add: split_on_line one_line_def)
  ultimately show ?thesis by (simp add: text_lines_def universal_plain)
qed

lemma break_at_first:
  "CHR '' '' \<notin> set a \<Longrightarrow> break_at ''  '' (a @ ''  '' @ b) = Some (a, b)"
proof (induction a)
  case Nil
  show ?case by (simp add: starts_with_def)
next
  case (Cons c a)
  then show ?case by (auto simp: starts_with_def)
qed

definition plain_digest :: "string \<Rightarrow> bool" where
  "plain_digest d \<longleftrightarrow> CHR '' '' \<notin> set d \<and> one_line d"

lemma py_str_plain: "CHR '' '' \<notin> set (py_str n)" "one_line (py_str n)"
proof -
  have "\<forall>c \<in> set (py_str n). \<not> is_space c"
    using nat_str_ordinary [of "nat n"] nat_str_ordinary [of "nat (- n)"] unfolding py_str_def by (simp add: is_space_def)
  moreover have "is_space CHR '' ''" "is_space newline" "is_space carriage_return" by code_simp+
  ultimately show "CHR '' '' \<notin> set (py_str n)" "one_line (py_str n)" unfolding one_line_def by blast+
qed

lemma read_checksum_line:
  assumes "plain_digest digest"
  shows "read_checksum (checksum_line (path, digest, n)) = Inr (digest, py_str n, path)"
proof -
  have d: "CHR '' '' \<notin> set digest" using assms by (simp add: plain_digest_def)
  have "split_at_most 2 ''  '' (digest @ ''  '' @ py_str n @ ''  '' @ path) = [digest, py_str n, path]"
    by (simp only: numeral_2_eq_2 split_at_most.simps break_at_first [OF d] break_at_first [OF py_str_plain(1)] option.case prod.case)
  then show ?thesis by (simp only: read_checksum_def checksum_line_def prod.case list.case)
qed

lemma manifest_lines:
  assumes "\<forall>r \<in> set rs. plain_digest (fst (snd r)) \<and> one_line (fst r)"
  shows "text_lines (manifest_text rs) = map checksum_line rs"
proof -
  have "one_line (checksum_line r)" if "r \<in> set rs" for r
  proof -
    have "one_line '' ''" by code_simp
    then show ?thesis using assms that py_str_plain(2) by (cases r) (auto simp: checksum_line_def plain_digest_def)
  qed
  then show ?thesis using text_lines_text [of "map checksum_line rs"] by (simp add: manifest_text_def o_def)
qed

end
