(* ===== verification/Package.thy ===== *)
theory Package
  imports Reconciliation Filetree
begin

section \<open>Packaging the results: \<open>package-results.py\<close>\<close>

text \<open>
  The packager copies the results of a local accounting tree into the public directory: machine paths in the JSON documents
  are replaced, labels that later reviews corrected are renamed, policy fields are added, and an index lists every file
  with its size, rows and digests. The files are a tree of contents.
\<close>

subsection \<open>Text and documents without machine paths\<close>

text \<open>\<open>value.replace(old, new)\<close>.\<close>

function replace_text :: "string \<Rightarrow> string \<Rightarrow> string \<Rightarrow> string" where
  "replace_text old new s = (if s = [] \<or> old = [] then s
     else if starts_with old s then new @ replace_text old new (drop (length old) s)
     else hd s # replace_text old new (tl s))"
  by pat_completeness auto
termination by (relation "measure (\<lambda>(old, new, s). length s)") auto

declare replace_text.simps [simp del]

definition machine_prefixes :: "string list" where
  "machine_prefixes = [''/Users/'', ''/home/'', ''/mnt/'', ''/data/'']"

definition text_replacements :: "(string \<times> string) list" where
  "text_replacements =
    [(''local/harmony-balance-accounting/artifacts/supply-reconciliation-20260911/'', ''results/2026-09-11/''),
     (''local/harmony-balance-accounting/'', ''source://harmony-balance-accounting/'')]"

definition normalize_string :: "string \<Rightarrow> string" where
  "normalize_string s = (let t = foldl (\<lambda>v (old, new). replace_text old new v) s text_replacements in
     if list_ex (\<lambda>p. starts_with p t) machine_prefixes then ''redacted://'' @ path_name t else t)"

fun normalize :: "json \<Rightarrow> json" where
  "normalize (JDict kvs) = JDict (map (\<lambda>(k, v). (k, normalize v)) kvs)"
| "normalize (JList vs) = JList (map normalize vs)"
| "normalize (JStr s) = JStr (normalize_string s)"
| "normalize v = v"

subsection \<open>Renaming and changing fields\<close>

type_synonym fields = "(string \<times> json) list"

definition rename_key :: "fields \<Rightarrow> string \<times> string \<Rightarrow> fields" where
  "rename_key kvs names = (case map_of kvs (fst names) of
     None \<Rightarrow> kvs
   | Some v \<Rightarrow> AList.update (snd names) v (AList.delete (fst names) kvs))"

definition set_key :: "string \<Rightarrow> json \<Rightarrow> fields \<Rightarrow> fields" where
  "set_key k v kvs = AList.update k v kvs"

text \<open>\<open>value[k][\<dots>] = \<dots>\<close>: the member must be a dictionary.\<close>

definition change_member :: "string \<Rightarrow> (fields \<Rightarrow> fields result) \<Rightarrow> fields \<Rightarrow> fields result" where
  "change_member k f kvs = (case map_of kvs k of
     None \<Rightarrow> Inl (KeyError k)
   | Some (JDict d) \<Rightarrow> rbind (f d) (\<lambda>d'. Inr (AList.update k (JDict d') kvs))
   | Some _ \<Rightarrow> Inl (TypeError ''does not support item assignment''))"

definition name_item :: "json list \<Rightarrow> nat \<times> string \<Rightarrow> json list result" where
  "name_item vs n = (if fst n \<ge> length vs then Inl IndexError
     else (case vs ! fst n of
       JDict d \<Rightarrow> Inr (vs[fst n := JDict (set_key ''name'' (JStr (snd n)) d)])
     | _ \<Rightarrow> Inl (TypeError ''does not support item assignment'')))"

subsection \<open>Corrected labels\<close>

text \<open>The names are collected in a set: lists and dictionaries are not hashable.\<close>

definition hashable :: "json \<Rightarrow> json result" where
  "hashable v = (case v of JList _ \<Rightarrow> Inl (TypeError ''unhashable type'') | JDict _ \<Rightarrow> Inl (TypeError ''unhashable type'') | _ \<Rightarrow> Inr v)"

definition cross_shard_component_names :: "fields \<Rightarrow> string list result" where
  "cross_shard_component_names reconciliation =
     rbind (iter (get_or (map_of reconciliation) ''components'' (JList []))) (\<lambda>components.
     rbind (map_r (\<lambda>c. rbind (subscript c ''name'') hashable) components) (\<lambda>names.
       let legacy = ''proven_cross_shard_rollback_leakage'';
           halves = [''trace_proven_cross_shard_rollback_leakage'', ''canonical_state_proven_source_debit_absence''];
           present = filter (\<lambda>n. JStr n \<in> set names) halves
       in if JStr legacy \<in> set names \<and> present \<noteq> []
          then Inl (ValueError ''reconciliation mixes legacy and split cross-shard components'')
          else if JStr legacy \<in> set names then Inr [legacy]
          else if present \<noteq> [] \<and> length present \<noteq> length halves
          then Inl (ValueError ''split cross-shard reconciliation requires both evidence components'')
          else if present \<noteq> [] then Inr halves
          else Inl (ValueError ''reconciliation has no cross-shard evidence component'')))"

definition opening_renames :: "(string \<times> string) list" where
  "opening_renames =
    [(''activation_inclusive_gross_duplicate_payout_atto'', ''activation_inclusive_peak_duplicated_claim_exposure_atto''),
     (''activation_inclusive_gross_duplicate_payout_one'', ''activation_inclusive_peak_duplicated_claim_exposure_one''),
     (''opening_duplicate_payout_atto'', ''opening_duplicated_claim_exposure_atto''),
     (''opening_duplicate_payout_one'', ''opening_duplicated_claim_exposure_one''),
     (''post_checkpoint_gross_duplicate_payout_atto'', ''post_checkpoint_peak_duplicated_claim_exposure_atto''),
     (''post_checkpoint_gross_duplicate_payout_one'', ''post_checkpoint_peak_duplicated_claim_exposure_one'')]"

definition opening_finding :: "string" where
  "opening_finding =
    ''three age-seven liquid releases not counted by the first-incident reconstruction left the same principal in pending undelegation state when validator-wrapper persistence failed''"

definition opening_interpretation :: "json" where
  "opening_interpretation =
    JDict [(''age_seven_liquid_release_paid_once'', JBool True),
     (''pending_claim_failed_to_clear'', JBool True),
     (''another_liquid_payout_after_age_seven_proved'', JBool False),
     (''effect'', JStr ''liquid principal and the stale pending claim represented the same value twice until cleanup or redelegation'')]"

definition opening_scope :: "string" where
  "opening_scope =
    ''the opening exposure is absent from the first-incident reconstruction, which stops at paid epoch 1731, and from the post-checkpoint exposure reconstruction, which starts after block 51,150,847''"

definition peak_definition :: "string" where
  "peak_definition =
    ''combined peak claim inflation: actual unsupported credits from the December and cross-shard incidents plus the max-rate value temporarily represented both as released liquid and as a stale pending claim; this is not a total of second liquid payouts, and burn-address balances are not deducted''"

definition max_rate_renames :: "(string \<times> string) list" where
  "max_rate_renames =
    [(''activation_inclusive_gross_duplicate_payouts_atto'', ''activation_inclusive_peak_duplicated_claim_exposure_atto''),
     (''activation_inclusive_gross_duplicate_payouts_one'', ''activation_inclusive_peak_duplicated_claim_exposure_one''),
     (''activation_opening_duplicate_payouts_atto'', ''activation_opening_duplicated_claim_exposure_atto''),
     (''activation_opening_duplicate_payouts_one'', ''activation_opening_duplicated_claim_exposure_one''),
     (''gross_cleanup_reward_equation_closure_atto'', ''claim_exposure_cleanup_equation_closure_atto''),
     (''gross_cleanup_reward_equation_closure_one'', ''claim_exposure_cleanup_equation_closure_one''),
     (''gross_duplicate_payout_breakdown'', ''duplicated_claim_exposure_breakdown''),
     (''net_retained_mint_at_cleanup_atto'', ''net_state_formula_effect_at_cleanup_atto''),
     (''net_retained_mint_at_cleanup_one'', ''net_state_formula_effect_at_cleanup_one''),
     (''post_checkpoint_gross_duplicate_payouts_atto'', ''post_checkpoint_peak_duplicated_claim_exposure_atto''),
     (''post_checkpoint_gross_duplicate_payouts_one'', ''post_checkpoint_peak_duplicated_claim_exposure_one'')]"

definition max_rate_confidence :: "string" where
  "max_rate_confidence =
    ''very high; peak duplicated claim exposure, cleanup, and omitted rewards match the measured interval effect within the recorded sub-nano-ONE closure''"

definition max_rate_interpretation :: "json" where
  "max_rate_interpretation =
    JDict [(''age_seven_behavior'', JStr ''principal was released to liquid once, but failed wrapper persistence left the same principal as a pending claim''),
     (''age_over_seven_behavior'', JStr ''the MaxRate rule suppressed another liquid payout and tried to remove the stale entry without payment''),
     (''realization_path'', JStr ''a stale pending claim could be redelegated into active stake without removing the already released liquid''),
     (''cleanup'', JStr ''TopMaxRate removed stale pending claims; it did not debit liquid balances''),
     (''peak_exposure_is_not_second_liquid_payout_total'', JBool True)]"

definition breakdown_names :: "string list" where
  "breakdown_names =
    [''stale pending claims represented alongside already released liquid at cleanup, adjusted for partial redelegations'',
     ''stale pending claims fully consumed by redelegation before cleanup'',
     ''age-eight flagged stale claims omitted by the published greater-than-eight filter; not proved second liquid payouts'']"

definition residual_definition :: "string" where
  "residual_definition =
    ''post-checkpoint duplicated claim exposure after the offset from formula-counted validator rewards that failed to persist, plus sub-nano-ONE accounting differences''"

definition correct_opening :: "fields \<Rightarrow> fields" where
  "correct_opening kvs = set_key ''scope_note'' (JStr opening_scope) (set_key ''accounting_interpretation'' opening_interpretation
     (set_key ''finding'' (JStr opening_finding) (foldl rename_key kvs opening_renames)))"

definition included_components :: "string list \<Rightarrow> json" where
  "included_components names = JList (map JStr names)"

definition name_breakdown :: "fields \<Rightarrow> fields result" where
  "name_breakdown kvs = (case map_of kvs ''duplicated_claim_exposure_breakdown'' of
     None \<Rightarrow> Inl (KeyError ''duplicated_claim_exposure_breakdown'')
   | Some (JList vs) \<Rightarrow> rbind (fold_r name_item vs (enumerate 0 breakdown_names)) (\<lambda>vs'.
       Inr (set_key ''duplicated_claim_exposure_breakdown'' (JList vs') kvs))
   | Some _ \<Rightarrow> Inl (TypeError ''does not support item assignment''))"

definition correct_max_rate :: "fields \<Rightarrow> fields result" where
  "correct_max_rate kvs =
     rbind (name_breakdown (set_key ''accounting_interpretation'' max_rate_interpretation
       (set_key ''causal_confidence'' (JStr max_rate_confidence) (foldl rename_key kvs max_rate_renames)))) (\<lambda>kvs'.
       Inr (set_key ''pre_cleanup_net_formula_residual_increase_definition'' (JStr residual_definition) kvs'))"

definition correct_reconciliation :: "fields \<Rightarrow> fields result" where
  "correct_reconciliation kvs =
     rbind (cross_shard_component_names kvs) (\<lambda>cross_shard.
     rbind (change_member ''known_unauthorized_peak_claim_inflation'' (\<lambda>peak.
         Inr (set_key ''includes'' (included_components ([''december_2023_repeated_undelegation_mint'',
             ''post_2023_max_rate_activation_inclusive_peak_duplicated_claim_exposure''] @ cross_shard))
           (set_key ''definition'' (JStr peak_definition) peak)))
       (rename_key kvs (''known_unauthorized_gross_creation'', ''known_unauthorized_peak_claim_inflation''))) (\<lambda>kvs1.
     rbind (change_member ''known_unauthorized_net_cutoff_component'' (\<lambda>net.
         Inr (set_key ''includes'' (included_components ([''december_2023_repeated_undelegation_mint'',
             ''post_2023_max_rate_net_effect_at_cleanup''] @ cross_shard)) net)) kvs1) (\<lambda>kvs2.
       change_member ''post_2023_max_rate'' correct_max_rate kvs2)))"

definition correct_max_rate_labels :: "fields \<Rightarrow> string \<Rightarrow> fields result" where
  "correct_max_rate_labels kvs target =
     (let opened = if target = ''max-rate-opening-payout-audit.json'' then correct_opening kvs else kvs in
      if target = ''reconciliation.json'' then correct_reconciliation opened else Inr opened)"

subsection \<open>Policy fields\<close>

definition component_summary :: json where
  "component_summary = JStr ''results/2026-09-16/migration-non-issuance-summary.json''"

definition composite_summary :: json where
  "composite_summary = JStr ''results/2026-09-17/migration-policy-reconciliation.json''"

definition reconciliation_policy :: json where
  "reconciliation_policy = JDict [(''incident_component_summary'', component_summary), (''composite_policy_summary'', composite_summary),
     (''old_chain_gross_claim_changed'', JBool False), (''migration_allocation_reduced'', JBool True),
     (''fixed_erc20_total_supply_changed'', JBool False), (''treasury_destination'', JNull), (''available_for_other_use'', JBool False)]"

definition burn_policy :: json where
  "burn_policy = JDict [(''old_chain_balance_accounting'', JStr ''included''), (''migration_allocation'', JStr ''not_issued''),
     (''fixed_erc20_total_supply_changed'', JBool False), (''treasury_destination'', JNull), (''available_for_other_use'', JBool False),
     (''incident_non_issuance_component_summary'', component_summary), (''composite_policy_summary'', composite_summary)]"

definition add_summaries :: "fields \<Rightarrow> fields" where
  "add_summaries kvs = set_key ''composite_policy_summary'' composite_summary
     (set_key ''incident_non_issuance_component_summary'' component_summary kvs)"

definition superseded_targets :: "string list" where
  "superseded_targets = [''extra-mint-blacklist-reclaim-summary.json'', ''treasury-reclaim-inventory-summary.json'']"

definition historical_targets :: "string list" where
  "historical_targets = [''blacklisted-address-cutoff-summary.json'', ''reported-wallet-theft-perpetrator-cutoff-summary.json'',
     ''wallet-theft-report-coverage.json'']"

definition correct_migration_policy_labels :: "fields \<Rightarrow> string \<Rightarrow> fields result" where
  "correct_migration_policy_labels kvs target =
     (if target = ''reconciliation.json''
      then rbind (change_member ''historical_treasury_routing_inventory'' (\<lambda>historical.
             Inr (set_key ''current_treatment'' (JStr ''the reviewed amount is not issued on the replacement chain'')
               (set_key ''policy_status'' (JStr ''superseded'') historical)))
             (rename_key kvs (''treasury_reclaim_inventory'', ''historical_treasury_routing_inventory''))) (\<lambda>kvs'.
           Inr (set_key ''migration_non_issuance_policy'' reconciliation_policy kvs'))
      else if target \<in> set superseded_targets
      then Inr (add_summaries (set_key ''current_treatment''
             (JStr ''the selected amount is not issued on the replacement chain; the historical treasury calculation is retained only as evidence'')
             (set_key ''policy_status'' (JStr ''superseded'') (rename_key kvs (''policy'', ''historical_treasury_policy'')))))
      else if target \<in> set historical_targets
      then Inr (add_summaries (rename_key kvs (''migration_policy'', ''historical_migration_policy'')))
      else if target = ''burn-address-audit.json'' then Inr (set_key ''migration_treatment'' burn_policy kvs)
      else Inr kvs)"

subsection \<open>One document\<close>

definition provenance_notes :: "(string \<times> string) list" where
  "provenance_notes =
    [(''reconciliation.json'', ''Synthesis of database, RPC, and curated incident evidence; cutoff formula and historical closure are independently recomputed by verify-reconciliation.py.''),
     (''source-audit-summary.json'', ''Exact non-overlapping receipt totals with mechanism proof separated from independent source-debit-absence evidence.''),
     (''source-audit-verification.json'', ''Identity-set, evidence-digest, classification-transition, and aggregate-preservation checks for the archival rerun.''),
     (''burn-address-audit.json'', ''Transaction and cutoff-state evidence with curated burn-address classification.''),
     (''max-rate-opening-payout-audit.json'', ''Opening-boundary evidence assembled from recorded historical RPC checks; the broader peak claim-exposure decomposition remains curated.''),
     (''extra-mint-blacklist-burn-path-audit.json'', ''Assembled from a recorded top-level transaction-history check; no standalone generator was preserved.''),
     (''wallet-theft-report-coverage.json'', ''Addresses extracted from named investigation reports; not a legal attribution.''),
     (''blacklist-operations-history.json'', ''Git and operations-history extraction; not chain state.''),
     (''extra-mint-blacklist-reclaim.csv'', ''Superseded historical treasury calculation; the selected amount is now not issued.''),
     (''extra-mint-blacklist-reclaim-summary.json'', ''Superseded historical treasury calculation; the selected amount is now not issued.''),
     (''treasury-reclaim-inventory.csv'', ''Superseded historical treasury-routing inventory retained as calculation evidence.''),
     (''treasury-reclaim-inventory-summary.json'', ''Superseded historical treasury-routing inventory retained as calculation evidence.'')]"

definition normalization_text :: "string \<Rightarrow> string" where
  "normalization_text target = ''absolute machine paths replaced; factual numeric fields unchanged''
     @ (if target \<in> set [''reconciliation.json'', ''max-rate-opening-payout-audit.json'']
        then ''; max-rate accounting labels corrected'' else [])
     @ (if target \<in> set ([''reconciliation.json'', ''burn-address-audit.json''] @ superseded_targets)
        then ''; superseded treasury policy marked'' else [])"

definition provenance :: "string \<Rightarrow> string \<Rightarrow> string \<Rightarrow> string \<Rightarrow> json" where
  "provenance classification source_name source_hash target = JDict [(''classification'', JStr classification),
     (''source_name'', JStr source_name), (''source_sha256'', JStr source_hash), (''normalization'', JStr (normalization_text target)),
     (''note'', JStr (get_or (map_of provenance_notes) target []))]"

definition packaged_document :: "string \<Rightarrow> string \<Rightarrow> string \<Rightarrow> string \<Rightarrow> json \<Rightarrow> fields result" where
  "packaged_document target classification source_name source_hash v = (case normalize v of
     JDict kvs \<Rightarrow> rbind (correct_max_rate_labels kvs target) (\<lambda>kvs1.
       rbind (correct_migration_policy_labels kvs1 target) (\<lambda>kvs2.
         Inr (set_key ''_provenance'' (provenance classification source_name source_hash target) kvs2)))
   | _ \<Rightarrow> Inl (ValueError ''expected JSON object''))"

subsection \<open>The files\<close>

record index_entry =
  ix_path :: string
  ix_classification :: json
  ix_bytes :: int
  ix_rows :: "int option"
  ix_sha256 :: string
  ix_source_sha256 :: string

definition package_one ::
  "measures \<Rightarrow> string \<Rightarrow> bool \<Rightarrow> tree \<times> index_entry list \<Rightarrow> string \<times> string \<times> string \<Rightarrow> (tree \<times> index_entry list) result" where
  "package_one m output overwrite st mapping = (case (st, mapping) of ((files, entries), (source, name, classification)) \<Rightarrow>
     rbind (read_file files source) (\<lambda>c. let target = output @ ''/'' @ name; source_hash = digest_of m c in
          rbind (raise_if ((is_file files target \<and> \<not> overwrite) \<or> is_file files (partial_path target)) (FileExistsError target)) (\<lambda>_.
          rbind (if ends_with ''.json'' source
                 then rbind (document_of c) (\<lambda>v.
                      rbind (packaged_document name classification (path_name source) source_hash v) (\<lambda>kvs. Inr (Document (JDict kvs), None)))
                 else Inr (c, Some (rows_of m c))) (\<lambda>(written, row_count).
            Inr (write_file target written files, entries @ [\<lparr>ix_path = name, ix_classification = JStr classification, ix_bytes = size_of m written,
              ix_rows = row_count, ix_sha256 = digest_of m written, ix_source_sha256 = source_hash\<rparr>])))))"

definition result_mappings :: "string \<Rightarrow> string \<Rightarrow> string \<Rightarrow> (string \<times> string \<times> string) list" where
  "result_mappings accounting supply cutoff =
    [(supply @ ''/reconciliation.json'', ''reconciliation.json'', ''curated external evidence''),
     (supply @ ''/december-2023-undelegation-mint-reconstruction.json'', ''december-2023-undelegation-mint-reconstruction.json'', ''RPC-derived''),
     (supply @ ''/max-rate-opening-payout-audit.json'', ''max-rate-opening-payout-audit.json'', ''curated external evidence''),
     (supply @ ''/burn-address-audit.json'', ''burn-address-audit.json'', ''curated external evidence''),
     (supply @ ''/staking-precompile-target-audit-summary.json'', ''staking-precompile-target-audit-summary.json'', ''database-derived''),
     (supply @ ''/blacklisted-address-cutoff.csv'', ''blacklisted-address-cutoff.csv'', ''database-derived''),
     (supply @ ''/blacklisted-address-cutoff-summary.json'', ''blacklisted-address-cutoff-summary.json'', ''database-derived''),
     (supply @ ''/extra-mint-blacklist-burn-path-audit.json'', ''extra-mint-blacklist-burn-path-audit.json'', ''curated external evidence''),
     (supply @ ''/extra-mint-blacklist-reclaim.csv'', ''extra-mint-blacklist-reclaim.csv'', ''policy scenario''),
     (supply @ ''/extra-mint-blacklist-reclaim-summary.json'', ''extra-mint-blacklist-reclaim-summary.json'', ''policy scenario''),
     (supply @ ''/reported-wallet-theft-perpetrator-cutoff.csv'', ''reported-wallet-theft-perpetrator-cutoff.csv'', ''database-derived''),
     (supply @ ''/reported-wallet-theft-perpetrator-cutoff-summary.json'', ''reported-wallet-theft-perpetrator-cutoff-summary.json'', ''database-derived''),
     (supply @ ''/wallet-theft-report-coverage.json'', ''wallet-theft-report-coverage.json'', ''curated external evidence''),
     (supply @ ''/blacklist-operations-history.json'', ''blacklist-operations-history.json'', ''curated external evidence''),
     (supply @ ''/treasury-reclaim-inventory.csv'', ''treasury-reclaim-inventory.csv'', ''policy scenario''),
     (supply @ ''/treasury-reclaim-inventory-summary.json'', ''treasury-reclaim-inventory-summary.json'', ''policy scenario''),
     (cutoff @ ''/cross-shard-supply-cutoff.json'', ''cross-shard-supply-cutoff.json'', ''database-derived''),
     (cutoff @ ''/cutoff-reconciliation.verify.json'', ''cutoff-reconciliation.verify.json'', ''database-derived''),
     (cutoff @ ''/state/actual-supply-cutoff.json'', ''actual-supply-cutoff.json'', ''database-derived''),
     (cutoff @ ''/claims/actual-supply-ledger-cutoff-summary.json'', ''actual-supply-ledger-cutoff-summary.json'', ''database-derived''),
     (cutoff @ ''/interval-audit/shard0-summary.json'', ''cutoff-interval-shard0-summary.json'', ''RPC-derived''),
     (cutoff @ ''/interval-audit/shard1-summary.json'', ''cutoff-interval-shard1-summary.json'', ''RPC-derived''),
     (accounting @ ''/historical-exploit-flow-summary.json'', ''historical-exploit-flow-summary.json'', ''RPC-derived'')]"

definition source_audit_mappings :: "string \<Rightarrow> (string \<times> string \<times> string) list" where
  "source_audit_mappings supply =
    [(supply @ ''/source-audit-summary.json'', ''source-audit-summary.json'', ''RPC and canonical-state evidence''),
     (supply @ ''/source-audit-verification.json'', ''source-audit-verification.json'', ''verification-derived'')]"

text \<open>Which results are packaged: the two files of the source audit belong together.\<close>

definition all_mappings :: "tree \<Rightarrow> string \<Rightarrow> (string \<times> string \<times> string) list result" where
  "all_mappings files accounting =
     (let supply = accounting @ ''/artifacts/supply-reconciliation-20260911''; cutoff = accounting @ ''/artifacts/cutoff-20260910'';
          mappings = result_mappings accounting supply cutoff; audits = source_audit_mappings supply in
      rbind (read_file files (supply @ ''/reconciliation.json'')) (\<lambda>c.
          rbind (document_of c) (\<lambda>v.
          rbind (case v of JDict kvs \<Rightarrow> cross_shard_component_names kvs | _ \<Rightarrow> Inl (AttributeError ''get'')) (\<lambda>names.
            let evidence = map (\<lambda>a. is_file files (fst a)) audits in
            if names \<noteq> [''proven_cross_shard_rollback_leakage''] \<or> list_ex id evidence
            then if \<not> list_all id evidence then Inl (FileNotFoundError ''source-audit evidence package is incomplete'')
                 else Inr (take 1 mappings @ audits @ drop 1 mappings)
            else Inr mappings))))"

definition entry_json_of :: "index_entry \<Rightarrow> json" where
  "entry_json_of e = JDict [(''path'', JStr (ix_path e)), (''classification'', ix_classification e), (''bytes'', JInt (ix_bytes e)),
     (''rows'', (case ix_rows e of None \<Rightarrow> JNull | Some n \<Rightarrow> JInt n)), (''sha256'', JStr (ix_sha256 e)),
     (''source_sha256'', JStr (ix_source_sha256 e))]"

definition index_document :: "string \<Rightarrow> index_entry list \<Rightarrow> json" where
  "index_document name entries = JDict [(''schema_version'', JInt 1), (''result_set'', JStr name),
     (''entries'', JList (map entry_json_of entries))]"

definition package_results :: "measures \<Rightarrow> tree \<Rightarrow> string \<Rightarrow> string \<Rightarrow> bool \<Rightarrow> tree result" where
  "package_results m files accounting output overwrite =
     rbind (all_mappings files accounting) (\<lambda>mappings.
     rbind (fold_r (package_one m output overwrite) (files, []) mappings) (\<lambda>(files', entries).
       let index = output @ ''/index.json'' in
       rbind (raise_if (is_file files' (partial_path index)) (FileExistsError (partial_path index))) (\<lambda>_.
         Inr (write_file index (Document (index_document ''2026-09-11'' (sort_key ix_path entries))) files'))))"

end
