(* ===== verification/Manifest.thy ===== *)
theory Manifest
  imports Package
begin

section \<open>Indexes and checksum manifests of the results and of the sources\<close>

text \<open>
  Four scripts keep the published files and their checksums together: \<open>update-result-index.py\<close> writes the index of one
  dated set of results, \<open>update-results-manifest.py\<close> and \<open>update-source-manifest.py\<close> write the manifests, and
  \<open>verify-results.py\<close> and \<open>verify-source-manifest.py\<close> check them. What git lists as public files is a parameter.
\<close>

subsection \<open>Dated sets of results\<close>

text \<open>\<open>sorted(results_root.glob("20*"))\<close>, restricted to directories with an index.\<close>

definition index_of_set :: "string \<Rightarrow> string" where
  "index_of_set root = root @ ''/index.json''"

definition set_of_path :: "string \<Rightarrow> string \<Rightarrow> string option" where
  "set_of_path results path = (case split_on CHR ''/'' [] (drop (Suc (length results)) path) of
     [name, file_name] \<Rightarrow> if starts_with (results @ ''/'') path \<and> starts_with ''20'' name \<and> file_name = ''index.json'' then Some name else None
   | _ \<Rightarrow> None)"

definition dated_sets :: "tree \<Rightarrow> string \<Rightarrow> string list" where
  "dated_sets files results = sort (remdups (concat (map (\<lambda>p. case set_of_path results p of None \<Rightarrow> [] | Some n \<Rightarrow> [n]) (keys files))))"

subsection \<open>Indexing one set\<close>

text \<open>\<open>path.suffix\<close>, from the last dot on, unless it is the first or the last character.\<close>

definition suffix_of :: "string \<Rightarrow> string" where
  "suffix_of name = (let k = Suc (length (takeWhile (\<lambda>c. c \<noteq> CHR ''.'') (rev name))) in
     if 1 < k \<and> k < length name then drop (length name - k) name else [])"

definition index_files :: "string list" where
  "index_files = [''index.json'', ''README.md'']"

text \<open>The digest of a JSON value in its canonical spelling is a parameter.\<close>

definition indexed_document :: "measures \<Rightarrow> (json \<Rightarrow> string) \<Rightarrow> tree \<Rightarrow> string \<Rightarrow> string \<Rightarrow> index_entry result" where
  "indexed_document m source_digest files root name =
     (if suffix_of name = ''.json''
      then rbind (read_file files (root @ ''/'' @ name)) (\<lambda>c.
           rbind (document_of c) (\<lambda>v.
           rbind (get_default v ''_provenance'' (JDict [])) (\<lambda>provenance.
           rbind (get_default provenance ''classification'' JNull) (\<lambda>classification.
           rbind (raise_if (\<not> truthy classification) (ValueError ''missing provenance classification'')) (\<lambda>_.
           rbind (get_default v ''sources'' provenance) (\<lambda>sources.
             Inr \<lparr>ix_path = name, ix_classification = classification, ix_bytes = size_of m c, ix_rows = None,
               ix_sha256 = digest_of m c, ix_source_sha256 = source_digest sources\<rparr>))))))
      else if suffix_of name = ''.csv'' then Inl (ValueError ''CSV classification must be supplied by a packager'')
      else Inl (ValueError ''unsupported result file''))"

definition update_result_index :: "measures \<Rightarrow> (json \<Rightarrow> string) \<Rightarrow> tree \<Rightarrow> string \<Rightarrow> tree result" where
  "update_result_index m source_digest files root =
     rbind (raise_if (\<not> is_directory files root) (FileNotFoundError root)) (\<lambda>_.
     rbind (map_r (indexed_document m source_digest files root) (sort (filter (\<lambda>n. n \<notin> set index_files) (file_names files root)))) (\<lambda>entries.
     rbind (raise_if (is_file files (partial_path (index_of_set root))) (FileExistsError (partial_path (index_of_set root)))) (\<lambda>_.
       Inr (write_file (index_of_set root) (Document (index_document (path_name root) entries)) files))))"

subsection \<open>Checking one set\<close>

text \<open>The state of the loop over the entries: the names indexed and the files expected in the manifest.\<close>

type_synonym expected = "string list \<times> string list"

definition json_differs :: "json \<Rightarrow> json \<Rightarrow> bool" where
  "json_differs a b \<longleftrightarrow> \<not> py_eq a b"

definition check_indexed :: "measures \<Rightarrow> tree \<Rightarrow> string \<Rightarrow> expected \<Rightarrow> json \<Rightarrow> expected result" where
  "check_indexed m files root s item =
     rbind (rbind (subscript item ''path'') text_of) (\<lambda>name. let path = under root name in
     rbind (read_file files path) (\<lambda>c.
     rbind (subscript item ''bytes'') (\<lambda>n.
     rbind (raise_if (json_differs (JInt (size_of m c)) n) (ValueError ''size mismatch'')) (\<lambda>_.
     rbind (subscript item ''sha256'') (\<lambda>d.
     rbind (raise_if (json_differs (JStr (digest_of m c)) d) (ValueError ''hash mismatch'')) (\<lambda>_.
     rbind (subscript item ''rows'') (\<lambda>r.
     rbind (raise_if (r \<noteq> JNull \<and> json_differs (JInt (rows_of m c)) r) (ValueError ''row-count mismatch'')) (\<lambda>_.
       Inr (add_label (path_name path) (fst s), add_label path (snd s))))))))))"

definition check_set :: "measures \<Rightarrow> tree \<Rightarrow> string list \<times> int \<Rightarrow> string \<Rightarrow> (string list \<times> int) result" where
  "check_set m files s root =
     rbind (rbind (read_file files (index_of_set root)) document_of) (\<lambda>index.
     rbind (subscript index ''schema_version'') (\<lambda>version.
     rbind (raise_if (json_differs version (JInt 1)) (ValueError ''unsupported result index schema'')) (\<lambda>_.
     rbind (subscript index ''result_set'') (\<lambda>name.
     rbind (raise_if (json_differs name (JStr (path_name root))) (ValueError ''result-set name mismatch'')) (\<lambda>_.
     rbind (rbind (subscript index ''entries'') iter) (\<lambda>entries.
     rbind (fold_r (check_indexed m files root) ([], fst s) entries) (\<lambda>(indexed, expected).
     rbind (raise_if (list_ex (\<lambda>n. n \<notin> set (indexed @ index_files)) (file_names files root)) (ValueError ''unindexed result files'')) (\<lambda>_.
       let expected1 = add_label (index_of_set root) expected; readme = root @ ''/README.md'' in
       Inr (if is_file files readme then add_label readme expected1 else expected1, snd s + int (length indexed))))))))))"

subsection \<open>Checking the manifest\<close>

definition RESULTS_MANIFEST :: string where
  "RESULTS_MANIFEST = ''manifests/results.sha256''"

definition check_manifest_line :: "measures \<Rightarrow> tree \<Rightarrow> string list \<times> int \<Rightarrow> string \<Rightarrow> (string list \<times> int) result" where
  "check_manifest_line m files s line =
     rbind (read_checksum line) (\<lambda>(digest, n, relative).
     rbind (read_file files relative) (\<lambda>c.
     rbind (py_int n) (\<lambda>bytes.
     rbind (raise_if (size_of m c \<noteq> bytes) (ValueError ''manifest size mismatch'')) (\<lambda>_.
     rbind (raise_if (digest_of m c \<noteq> digest) (ValueError ''manifest hash mismatch'')) (\<lambda>_.
       Inr (add_label relative (fst s), snd s + 1))))))"

record results_checked =
  rc_sets :: int
  rc_indexed :: int
  rc_manifested :: int

definition verify_results :: "measures \<Rightarrow> tree \<Rightarrow> string \<Rightarrow> string list option \<Rightarrow> results_checked result" where
  "verify_results m files results only =
     (let roots = (case only of Some (d # ds) \<Rightarrow> d # ds | _ \<Rightarrow> map (\<lambda>n. results @ ''/'' @ n) (dated_sets files results)) in
      rbind (raise_if (roots = []) (ValueError ''no dated result sets found'')) (\<lambda>_.
      rbind (fold_r (check_set m files) ([results @ ''/README.md''], 0) roots) (\<lambda>(expected, indexed).
      rbind (rbind (read_file files RESULTS_MANIFEST) text_of_file) (\<lambda>text.
      rbind (fold_r (check_manifest_line m files) ([], 0) (text_lines text)) (\<lambda>(paths, manifested).
      rbind (raise_if (set paths \<noteq> set expected) (ValueError ''result manifest mismatch'')) (\<lambda>_.
        Inr \<lparr>rc_sets = int (length roots), rc_indexed = indexed, rc_manifested = manifested\<rparr>))))))"

subsection \<open>Writing the manifest\<close>

definition set_paths :: "tree \<Rightarrow> string \<Rightarrow> string \<Rightarrow> string list result" where
  "set_paths files results name = (let root = results @ ''/'' @ name in
     rbind (rbind (read_file files (index_of_set root)) document_of) (\<lambda>index.
     rbind (subscript index ''result_set'') (\<lambda>recorded.
     rbind (raise_if (json_differs recorded (JStr name)) (ValueError ''result-set name mismatch'')) (\<lambda>_.
     rbind (rbind (subscript index ''entries'') iter) (\<lambda>entries.
     rbind (map_r (\<lambda>e. rbind (rbind (subscript e ''path'') text_of) (\<lambda>p. Inr (under root p))) entries) (\<lambda>paths.
       Inr (paths @ [index_of_set root] @ (if is_file files (root @ ''/README.md'') then [root @ ''/README.md''] else []))))))))"

definition checksum_of_file :: "measures \<Rightarrow> tree \<Rightarrow> string \<Rightarrow> checksum result" where
  "checksum_of_file m files path = rbind (read_file files path) (\<lambda>c. Inr (path, digest_of m c, size_of m c))"

definition write_manifest :: "string \<Rightarrow> checksum list \<Rightarrow> tree \<Rightarrow> tree result" where
  "write_manifest path rs files =
     rbind (raise_if (is_file files (partial_path path)) (FileExistsError (partial_path path))) (\<lambda>_.
       Inr (write_file path (Raw (manifest_text (sort rs))) files))"

definition update_results_manifest :: "measures \<Rightarrow> tree \<Rightarrow> tree result" where
  "update_results_manifest m files = (let results = ''results'' in
     rbind (map_r (set_paths files results) (dated_sets files results)) (\<lambda>paths.
     rbind (raise_if (dated_sets files results = []) (ValueError ''no dated result sets found'')) (\<lambda>_.
     rbind (map_r (checksum_of_file m files) ((results @ ''/README.md'') # concat paths)) (\<lambda>rs.
       write_manifest RESULTS_MANIFEST rs files))))"

subsection \<open>The manifest of the sources\<close>

definition SOURCE_MANIFEST :: string where
  "SOURCE_MANIFEST = ''manifests/source.sha256''"

text \<open>\<open>public_files\<close>: what git lists, without the manifest itself and without deleted files.\<close>

definition public_file :: "(string \<Rightarrow> bool) \<Rightarrow> tree \<Rightarrow> string \<Rightarrow> string list result" where
  "public_file is_symlink files relative =
     (if relative = SOURCE_MANIFEST then Inr []
      else if is_symlink relative then Inl (ValueError ''public package contains symlink'')
      else if is_file files relative then Inr [relative]
      else if is_directory files relative then Inl (FileNotFoundError relative) else Inr [])"

definition public_files :: "(string \<Rightarrow> bool) \<Rightarrow> string list \<Rightarrow> tree \<Rightarrow> string list result" where
  "public_files is_symlink listed files =
     rbind (map_r (public_file is_symlink files) (sort (filter (\<lambda>p. p \<noteq> []) listed))) (\<lambda>ps. Inr (concat ps))"

definition update_source_manifest :: "measures \<Rightarrow> (string \<Rightarrow> bool) \<Rightarrow> string list \<Rightarrow> tree \<Rightarrow> tree result" where
  "update_source_manifest m is_symlink listed files =
     rbind (public_files is_symlink listed files) (\<lambda>paths.
     rbind (raise_if (\<not> distinct paths) (ValueError ''duplicate manifest path'')) (\<lambda>_.
     rbind (map_r (checksum_of_file m files) paths) (\<lambda>rs. write_manifest SOURCE_MANIFEST rs files)))"

definition read_source_line :: "(string, string \<times> int) dict \<Rightarrow> string \<Rightarrow> (string, string \<times> int) dict result" where
  "read_source_line listed line =
     rbind (read_checksum line) (\<lambda>(digest, n, relative).
     rbind (raise_if (relative \<in> set (keys listed)) (ValueError ''duplicate manifest path'')) (\<lambda>_.
     rbind (py_int n) (\<lambda>bytes. Inr (AList.update relative (digest, bytes) listed))))"

definition check_source :: "measures \<Rightarrow> tree \<Rightarrow> (string, string \<times> int) dict \<Rightarrow> string \<Rightarrow> unit result" where
  "check_source m files listed relative =
     rbind (getitem (map_of listed) relative) (\<lambda>(digest, bytes).
     rbind (read_file files relative) (\<lambda>c.
     rbind (raise_if (size_of m c \<noteq> bytes) (ValueError ''source manifest size mismatch'')) (\<lambda>_.
       raise_if (digest_of m c \<noteq> digest) (ValueError ''source manifest hash mismatch''))))"

definition verify_source_manifest :: "measures \<Rightarrow> (string \<Rightarrow> bool) \<Rightarrow> string list \<Rightarrow> tree \<Rightarrow> int result" where
  "verify_source_manifest m is_symlink git_list files =
     rbind (rbind (read_file files SOURCE_MANIFEST) text_of_file) (\<lambda>text.
     rbind (fold_r read_source_line [] (text_lines text)) (\<lambda>listed.
     rbind (public_files is_symlink git_list files) (\<lambda>expected.
     rbind (raise_if (set (keys listed) \<noteq> set expected) (ValueError ''source manifest file set mismatch'')) (\<lambda>_.
     rbind (map_r (check_source m files listed) (remdups expected)) (\<lambda>_. Inr (int (length listed)))))))"

end
