(* ===== verification/ManifestProofs.thy ===== *)
theory ManifestProofs
  imports Manifest
begin

section \<open>What is written is verified\<close>

text \<open>
  The manifests written by the update scripts pass the verification scripts, for the sources and, set by set, for the results;
  a result set that the packager wrote is one that passes. Conversely a passed verification pins the digest and the size
  of every public file.
\<close>

subsection \<open>Paths\<close>

lemma split_on_parts: "split_on sep acc (a @ sep # s) = split_on sep acc a @ split_on sep [] s"
  by (induction a arbitrary: acc) auto

lemma split_on_single: "sep \<notin> set s \<Longrightarrow> split_on sep acc s = [rev acc @ s]"
  by (induction s arbitrary: acc) auto

lemma path_name_under: "CHR ''/'' \<notin> set name \<Longrightarrow> name \<noteq> [] \<Longrightarrow> name \<noteq> ''.'' \<Longrightarrow> path_name (root @ ''/'' @ name) = name"
  by (simp add: path_name_def split_on_parts split_on_single)

lemma under_results: "under (''results/'' @ name) p \<noteq> RESULTS_MANIFEST"
  by (auto simp: under_def RESULTS_MANIFEST_def starts_with_iff)

lemma keys_write: "set (keys (write_file path c files)) = insert path (set (keys files))"
  by (simp only: set_keys) auto

lemma keys_update: "keys (write_file path c files) = (if path \<in> set (keys files) then keys files else keys files @ [path])"
  by (induction files) (auto simp: write_file_def)

lemma file_names_write:
  "\<not> starts_with (root @ ''/'') path \<Longrightarrow> file_names (write_file path c files) root = file_names files root"
  by (simp add: file_names_def keys_update)

lemma sort_remdups_cong: "set xs = set ys \<Longrightarrow> sort (remdups xs) = sort (remdups ys)"
  for xs :: "'a::linorder list"
  by (rule sorted_distinct_set_unique) simp_all

lemma dated_sets_iff: "n \<in> set (dated_sets files results) \<longleftrightarrow> (\<exists>p \<in> set (keys files). set_of_path results p = Some n)"
proof -
  have "n \<in> set (case set_of_path results p of None \<Rightarrow> [] | Some k \<Rightarrow> [k]) \<longleftrightarrow> set_of_path results p = Some n" for p
    by (auto split: option.split)
  then show ?thesis unfolding dated_sets_def set_sort set_remdups set_concat set_map [of "\<lambda>p. case set_of_path results p of None \<Rightarrow> [] | Some n \<Rightarrow> [n]"]
    by blast
qed

subsection \<open>Writing a manifest leaves the sets as they are\<close>

lemma dated_sets_write:
  assumes "set_of_path results path = None"
  shows "dated_sets (write_file path c files) results = dated_sets files results"
proof -
  have "set (dated_sets (write_file path c files) results) = set (dated_sets files results)"
    unfolding set_eq_iff dated_sets_iff keys_write using assms by auto
  then show ?thesis unfolding dated_sets_def by (intro sort_remdups_cong) (simp add: dated_sets_def)
qed

lemma results_manifest_no_set: "set_of_path ''results'' RESULTS_MANIFEST = None"
  by code_simp

lemma read_file_other: "p \<noteq> path \<Longrightarrow> read_file (write_file path c files) p = read_file files p"
  by (simp add: read_file_def)

text \<open>Whether a set passes does not depend on files elsewhere.\<close>

lemma check_set_elsewhere:
  assumes "\<And>q. map_of files' (under root q) = map_of files (under root q)"
  shows "check_set m files' s root = check_set m files s root"
proof -
  have plain: "map_of files' (root @ CHR ''/'' # q) = map_of files (root @ CHR ''/'' # q)" if "\<not> starts_with ''/'' q" for q
    using assms [of q] that by (simp add: under_def)
  have item: "check_indexed m files' root = check_indexed m files root"
    unfolding check_indexed_def fun_eq_iff Let_def by (simp add: read_file_def assms)
  have index: "read_file files' (index_of_set root) = read_file files (index_of_set root)"
    using plain [of "''index.json''"] by (simp add: index_of_set_def read_file_def starts_with_def)
  have readme: "is_file files' (root @ ''/README.md'') = is_file files (root @ ''/README.md'')"
    using plain [of "''README.md''"] by (simp add: starts_with_def)
  have "n \<in> set (file_names files' root) \<longleftrightarrow> n \<in> set (file_names files root)" for n
  proof (cases "CHR ''/'' \<in> set n")
    case False
    then have "\<not> starts_with ''/'' n" by (auto simp: starts_with_iff)
    with plain [OF this] show ?thesis using file_names_iff [OF False] by simp
  qed (use file_names_plain in blast)
  then have names: "list_ex P (file_names files' root) = list_ex P (file_names files root)" for P
    by (auto simp: list_ex_iff)
  show ?thesis unfolding check_set_def item index Let_def names readme ..
qed

lemma check_set_manifest:
  "check_set m (write_file RESULTS_MANIFEST c files) s (''results/'' @ n) = check_set m files s (''results/'' @ n)"
  unfolding check_set_elsewhere [of "write_file RESULTS_MANIFEST c files" "''results/'' @ n" files, OF map_of_write [THEN trans, OF if_not_P, OF under_results]] ..

subsection \<open>The files expected after a set are those the update lists\<close>

lemma set_add_label [simp]: "set (add_label l ls) = insert l (set ls)"
  by (auto simp: add_label_def)

lemma check_indexed_path:
  assumes "check_indexed m files root s item = Inr t"
  shows "\<exists>p. rbind (subscript item ''path'') text_of = Inr p \<and> is_file files (under root p)
    \<and> set (snd t) = insert (under root p) (set (snd s))"
  using assms unfolding check_indexed_def Let_def by (elim rbind_E) (auto simp: read_file_Inr)

lemma check_indexed_paths:
  "fold_r (check_indexed m files root) s es = Inr t \<Longrightarrow>
     \<exists>ps. map_r (\<lambda>e. rbind (rbind (subscript e ''path'') text_of) (\<lambda>p. Inr (under root p))) es = Inr ps
       \<and> set (snd t) = set (snd s) \<union> set ps \<and> (\<forall>p \<in> set ps. is_file files p)"
proof (induction es arbitrary: s)
  case (Cons item es)
  from Cons.prems obtain u where u: "check_indexed m files root s item = Inr u" and rest: "fold_r (check_indexed m files root) u es = Inr t"
    unfolding fold_r.simps by (elim rbind_E) blast
  from check_indexed_path [OF u] obtain p where p: "rbind (subscript item ''path'') text_of = Inr p" "is_file files (under root p)"
      "set (snd u) = insert (under root p) (set (snd s))" by blast
  from Cons.IH [OF rest] obtain ps where ps: "map_r (\<lambda>e. rbind (rbind (subscript e ''path'') text_of) (\<lambda>p. Inr (under root p))) es = Inr ps"
      "set (snd t) = set (snd u) \<union> set ps" "\<forall>p \<in> set ps. is_file files p" by blast
  show ?case using p ps by (intro exI [of _ "under root p # ps"]) auto
qed simp

lemma check_set_paths:
  assumes "check_set m files s (results @ ''/'' @ name) = Inr t" and "path_name (results @ ''/'' @ name) = name"
  shows "\<exists>ps. set_paths files results name = Inr ps \<and> set (fst t) = set (fst s) \<union> set ps \<and> (\<forall>p \<in> set ps. is_file files p)"
proof -
  let ?root = "results @ ''/'' @ name"
  from assms(1) obtain index recorded es q where index: "rbind (read_file files (index_of_set ?root)) document_of = Inr index"
    and recorded: "subscript index ''result_set'' = Inr recorded"
    and same: "\<not> json_differs recorded (JStr (path_name ?root))"
    and es: "rbind (subscript index ''entries'') iter = Inr es"
    and run: "fold_r (check_indexed m files ?root) ([], fst s) es = Inr q"
    and t: "Inr (if is_file files (?root @ ''/README.md'') then add_label (?root @ ''/README.md'') (add_label (index_of_set ?root) (snd q))
        else add_label (index_of_set ?root) (snd q), snd s + int (length (fst q))) = (Inr t :: (string list \<times> int) result)"
  proof -
    from assms(1) obtain c index v recorded w es q where index: "read_file files (index_of_set ?root) = Inr c" "document_of c = Inr index"
      and recorded: "subscript index ''result_set'' = Inr recorded"
      and same: "raise_if (json_differs recorded (JStr (path_name ?root))) (ValueError ''result-set name mismatch'') = Inr v"
      and es: "subscript index ''entries'' = Inr w" "iter w = Inr es"
      and run: "fold_r (check_indexed m files ?root) ([], fst s) es = Inr q"
      and t: "Inr (if is_file files (?root @ ''/README.md'') then add_label (?root @ ''/README.md'') (add_label (index_of_set ?root) (snd q))
          else add_label (index_of_set ?root) (snd q), snd s + int (length (fst q))) = (Inr t :: (string list \<times> int) result)"
      unfolding check_set_def Let_def case_prod_unfold by (elim rbind_E) blast
    show ?thesis by (rule that [OF _ recorded _ _ run t]) (use index same es in auto)
  qed
  from check_indexed_paths [OF run] obtain ps where ps: "map_r (\<lambda>e. rbind (rbind (subscript e ''path'') text_of) (\<lambda>p. Inr (under ?root p))) es = Inr ps"
      "set (snd q) = set (fst s) \<union> set ps" "\<forall>p \<in> set ps. is_file files p" by auto
  have index_file: "is_file files (index_of_set ?root)" using index by (auto simp: rbind_eq_Inr read_file_Inr)
  obtain root where root: "?root = root" by blast
  have paths: "set_paths files results name
      = Inr (ps @ [index_of_set root] @ (if is_file files (root @ ''/README.md'') then [root @ ''/README.md''] else []))"
    using recorded same assms(2) es index ps(1) unfolding set_paths_def Let_def root by (simp add: raise_if_def)
  show ?thesis
    by (intro exI conjI, rule paths) (use t [unfolded root] ps(2,3) index_file [unfolded root] in \<open>auto split: if_split_asm\<close>)
qed

subsection \<open>Reading the manifest back\<close>

definition true_checksum :: "measures \<Rightarrow> tree \<Rightarrow> checksum \<Rightarrow> bool" where
  "true_checksum m files r \<longleftrightarrow> (\<exists>c. map_of files (fst r) = Some c \<and> snd r = (digest_of m c, size_of m c) \<and> plain_digest (digest_of m c))
     \<and> one_line (fst r)"

lemma check_manifest_lines:
  "\<forall>r \<in> set rs. true_checksum m files r \<Longrightarrow>
     \<exists>t. fold_r (check_manifest_line m files) s (map checksum_line rs) = Inr t \<and> set (fst t) = set (fst s) \<union> fst ` set rs
       \<and> snd t = snd s + int (length rs)"
proof (induction rs arbitrary: s)
  case (Cons r rs)
  from Cons.prems obtain c where c: "map_of files (fst r) = Some c" "snd r = (digest_of m c, size_of m c)" "plain_digest (digest_of m c)"
    by (auto simp: true_checksum_def)
  then have "checksum_line r = checksum_line (fst r, digest_of m c, size_of m c)" by (metis prod.collapse)
  then have "check_manifest_line m files s (checksum_line r) = Inr (add_label (fst r) (fst s), snd s + 1)"
    using c by (simp add: check_manifest_line_def read_checksum_line read_file_def py_int_py_str raise_if_def)
  then show ?case using Cons.IH [of "(add_label (fst r) (fst s), snd s + 1)"] Cons.prems by auto
qed simp

lemma read_back:
  assumes "\<forall>r \<in> set rs. true_checksum m files r"
  shows "\<exists>t. fold_r (check_manifest_line m files) ([], 0) (text_lines (manifest_text rs)) = Inr t \<and> set (fst t) = fst ` set rs
    \<and> snd t = int (length rs)"
proof -
  have "text_lines (manifest_text rs) = map checksum_line rs"
    by (rule manifest_lines) (use assms in \<open>auto simp: true_checksum_def\<close>)
  then show ?thesis using check_manifest_lines [OF assms, of "([], 0)"] by auto
qed

text \<open>The state of the loop does not decide whether a set passes.\<close>

lemma check_indexed_any:
  "check_indexed m files root (a, b) e = Inr (a', b') \<Longrightarrow> \<exists>c'. check_indexed m files root (a, c) e = Inr (a', c')"
  by (auto simp: check_indexed_def rbind_eq_Inr Let_def)

lemma check_indexed_run_any:
  "fold_r (check_indexed m files root) (a, b) es = Inr (a', b') \<Longrightarrow> \<exists>c'. fold_r (check_indexed m files root) (a, c) es = Inr (a', c')"
proof (induction es arbitrary: a b c)
  case (Cons e es)
  from Cons.prems obtain x y where one: "check_indexed m files root (a, b) e = Inr (x, y)"
    and rest: "fold_r (check_indexed m files root) (x, y) es = Inr (a', b')"
    unfolding fold_r.simps by (elim rbind_E) auto
  from check_indexed_any [OF one, of c] obtain z where "check_indexed m files root (a, c) e = Inr (x, z)" by blast
  then show ?case using Cons.IH [OF rest, of z] by simp
qed simp

lemma check_set_any:
  assumes "is_ok (check_set m files s root)"
  shows "is_ok (check_set m files s' root)"
proof -
  from assms obtain t where "check_set m files s root = Inr t" by (auto simp: is_ok_iff)
  then obtain c index version u name v w es q x where parts: "read_file files (index_of_set root) = Inr c" "document_of c = Inr index"
      "subscript index ''schema_version'' = Inr version"
      "raise_if (json_differs version (JInt 1)) (ValueError ''unsupported result index schema'') = Inr u"
      "subscript index ''result_set'' = Inr name"
      "raise_if (json_differs name (JStr (path_name root))) (ValueError ''result-set name mismatch'') = Inr v"
      "subscript index ''entries'' = Inr w" "iter w = Inr es"
    and run: "fold_r (check_indexed m files root) ([], fst s) es = Inr q"
    and x: "raise_if (list_ex (\<lambda>n. n \<notin> set (fst q @ index_files)) (file_names files root)) (ValueError ''unindexed result files'') = Inr x"
    unfolding check_set_def Let_def case_prod_unfold by (elim rbind_E) blast
  obtain a b where q: "q = (a, b)" by (cases q)
  from check_indexed_run_any [OF run [unfolded q], of "fst s'"] obtain b' where "fold_r (check_indexed m files root) ([], fst s') es = Inr (a, b')" ..
  with parts x show ?thesis by (simp add: check_set_def Let_def q is_ok_iff del: raise_if_eq_Inr)
qed

lemma split_on_plain: "x \<in> set (split_on sep acc s) \<Longrightarrow> sep \<notin> set acc \<Longrightarrow> sep \<notin> set x"
  by (induction sep acc s rule: split_on.induct) (auto split: if_split_asm)

lemma dated_set_plain:
  assumes "n \<in> set (dated_sets files results)"
  shows "CHR ''/'' \<notin> set n" "starts_with ''20'' n"
proof -
  from assms obtain p where "set_of_path results p = Some n" by (auto simp: dated_sets_iff)
  then obtain f where parts: "split_on CHR ''/'' [] (drop (Suc (length results)) p) = [n, f]" and "starts_with ''20'' n"
    by (auto simp: set_of_path_def split: list.split_asm if_split_asm)
  from parts have "n \<in> set (split_on CHR ''/'' [] (drop (Suc (length results)) p))" by simp
  then show "CHR ''/'' \<notin> set n" by (rule split_on_plain) simp
  show "starts_with ''20'' n" by fact
qed

lemma dated_set_name:
  assumes "n \<in> set (dated_sets files results)"
  shows "path_name (results @ ''/'' @ n) = n"
  by (rule path_name_under [OF dated_set_plain(1) [OF assms]]) (use dated_set_plain(2) [OF assms] in \<open>auto simp: starts_with_def\<close>)

lemma check_sets_paths:
  assumes "\<forall>n \<in> set ns. is_ok (check_set m files ([], 0) (results @ ''/'' @ n)) \<and> path_name (results @ ''/'' @ n) = n"
  shows "\<exists>t pss. fold_r (check_set m files) s (map (\<lambda>n. results @ ''/'' @ n) ns) = Inr t \<and> map_r (set_paths files results) ns = Inr pss
    \<and> set (fst t) = set (fst s) \<union> set (concat pss) \<and> (\<forall>p \<in> set (concat pss). is_file files p)"
  using assms
proof (induction ns arbitrary: s)
  case (Cons n ns)
  have "is_ok (check_set m files s (results @ ''/'' @ n))"
    by (rule check_set_any [of m files "([], 0)"]) (use Cons.prems in simp)
  then obtain u where u: "check_set m files s (results @ ''/'' @ n) = Inr u" by (auto simp: is_ok_iff)
  moreover have "path_name (results @ ''/'' @ n) = n" using Cons.prems by simp
  ultimately obtain ps where ps: "set_paths files results n = Inr ps" "set (fst u) = set (fst s) \<union> set ps" "\<forall>p \<in> set ps. is_file files p"
    using check_set_paths by blast
  from Cons.IH [of u] Cons.prems obtain t pss where "fold_r (check_set m files) u (map (\<lambda>n. results @ ''/'' @ n) ns) = Inr t"
      "map_r (set_paths files results) ns = Inr pss" "set (fst t) = set (fst u) \<union> set (concat pss)" "\<forall>p \<in> set (concat pss). is_file files p"
    by auto
  with u ps show ?case by (intro exI [of _ t] exI [of _ "ps # pss"]) auto
qed simp

lemma other_set_path:
  assumes "n \<noteq> name" "CHR ''/'' \<notin> set n" "CHR ''/'' \<notin> set name"
  shows "under (''results/'' @ n) q \<noteq> (''results/'' @ name) @ ''/'' @ t"
proof
  assume eq: "under (''results/'' @ n) q = (''results/'' @ name) @ ''/'' @ t"
  show False
  proof (cases "starts_with ''/'' q")
    case True
    then show False using eq by (auto simp: under_def starts_with_iff)
  next
    case False
    then have "n @ ''/'' @ q = name @ ''/'' @ t" using eq by (simp add: under_def)
    then have "takeWhile (\<lambda>c. c \<noteq> CHR ''/'') (n @ ''/'' @ q) = takeWhile (\<lambda>c. c \<noteq> CHR ''/'') (name @ ''/'' @ t)" by simp
    moreover have "takeWhile (\<lambda>c. c \<noteq> CHR ''/'') (a @ ''/'' @ b) = a" if "CHR ''/'' \<notin> set a" for a b :: string
      using that by (induction a) auto
    ultimately show False using assms by simp
  qed
qed

lemma set_paths_under:
  assumes "set_paths files ''results'' n = Inr ps" and "x \<in> set ps"
  shows "\<exists>q. x = under (''results/'' @ n) q"
proof -
  obtain root where root: "''results/'' @ n = root" by blast
  from assms(1) obtain qs es where qs: "map_r (\<lambda>e. rbind (rbind (subscript e ''path'') text_of) (\<lambda>p. Inr (under root p))) es = Inr qs"
    and ps: "ps = qs @ [index_of_set root] @ (if is_file files (root @ ''/README.md'') then [root @ ''/README.md''] else [])"
    by (auto simp: set_paths_def Let_def rbind_eq_Inr simp flip: root)
  have "\<exists>q. x = under root q" if "x \<in> set qs" using map_r_elem [OF qs that] by (auto simp: rbind_eq_Inr)
  moreover have "index_of_set root = under root ''index.json''" "root @ ''/README.md'' = under root ''README.md''"
    by (simp_all add: index_of_set_def under_def starts_with_def)
  ultimately show ?thesis using assms(2) unfolding ps root by (auto split: if_split_asm)
qed

lemma set_paths_index: "set_paths files results n = Inr ps \<Longrightarrow> index_of_set (results @ ''/'' @ n) \<in> set ps"
  by (auto simp: set_paths_def Let_def rbind_eq_Inr)

lemma set_paths_other: "set_paths files ''results'' n = Inr ps \<Longrightarrow> RESULTS_MANIFEST \<notin> set ps"
  using set_paths_under under_results by metis

lemma checksums_of_files:
  "\<forall>p \<in> set ps. is_file files p \<Longrightarrow> \<exists>rs. map_r (checksum_of_file m files) ps = Inr rs \<and> map fst rs = ps
     \<and> (\<forall>r \<in> set rs. \<exists>c. map_of files (fst r) = Some c \<and> snd r = (digest_of m c, size_of m c))"
proof (induction ps)
  case (Cons p ps)
  then obtain c rs where c: "map_of files p = Some c" and rs: "map_r (checksum_of_file m files) ps = Inr rs" "map fst rs = ps"
      "\<forall>r \<in> set rs. \<exists>c. map_of files (fst r) = Some c \<and> snd r = (digest_of m c, size_of m c)" by auto
  have "checksum_of_file m files p = Inr (p, digest_of m c, size_of m c)" using c by (simp add: checksum_of_file_def read_file_def)
  then show ?case using c rs by (intro exI [of _ "(p, digest_of m c, size_of m c) # rs"]) simp
qed simp

text \<open>The manifest that the update writes reads back as the paths it was written for.\<close>

lemma updated_manifest:
  assumes pss: "map_r (set_paths files ''results'') ns = Inr pss"
    and rs: "map_r (checksum_of_file m files) (''results/README.md'' # concat pss) = Inr rs"
    and plain: "\<forall>c. plain_digest (digest_of m c)" "\<forall>p \<in> set (keys files). one_line p"
    and files': "files' = write_file RESULTS_MANIFEST (Raw (manifest_text (sort rs))) files"
  shows "\<exists>u. fold_r (check_manifest_line m files') ([], 0) (text_lines (manifest_text (sort rs))) = Inr u
    \<and> set (fst u) = set (''results/README.md'' # concat pss)"
proof -
  let ?ps = "''results/README.md'' # concat pss"
  have other: "RESULTS_MANIFEST \<notin> set ?ps"
    using set_paths_other by (auto simp: RESULTS_MANIFEST_def dest!: map_r_elem [OF pss])
  have "is_ok (map_r (checksum_of_file m files) ?ps)" using rs by (auto simp: is_ok_iff)
  then have "\<forall>p \<in> set ?ps. is_ok (checksum_of_file m files p)" unfolding map_r_is_ok .
  then have "\<forall>p \<in> set ?ps. is_file files p"
    by (auto simp: checksum_of_file_def read_file_def is_ok_iff split: option.splits)
  from checksums_of_files [OF this, of m] rs have fst: "map fst rs = ?ps"
    and true: "\<forall>r \<in> set rs. \<exists>c. map_of files (fst r) = Some c \<and> snd r = (digest_of m c, size_of m c)" by auto
  have paths: "fst ` set rs = set ?ps" using fst by (metis set_map)
  have "\<forall>r \<in> set (sort rs). true_checksum m files' r"
  proof
    fix r assume "r \<in> set (sort rs)"
    then have r: "r \<in> set rs" by simp
    then obtain c where c: "map_of files (fst r) = Some c" "snd r = (digest_of m c, size_of m c)" using true by blast
    then have "fst r \<in> set (keys files)" by (simp only: set_keys mem_Collect_eq) simp
    with plain(2) have line: "one_line (fst r)" by (rule bspec)
    have "fst r \<in> set ?ps" unfolding paths [symmetric] using r by (rule imageI)
    then have "fst r \<noteq> RESULTS_MANIFEST" using other by metis
    then show "true_checksum m files' r" using c plain(1) line by (simp add: true_checksum_def files')
  qed
  from read_back [OF this] show ?thesis using paths by auto
qed

lemma update_then_verify:
  assumes sets: "dated_sets files ''results'' \<noteq> []"
    and ok: "\<forall>n \<in> set (dated_sets files ''results''). is_ok (check_set m files ([], 0) (''results/'' @ n))"
    and readme: "is_file files ''results/README.md''" and no_partial: "\<not> is_file files (partial_path RESULTS_MANIFEST)"
    and plain: "\<forall>c. plain_digest (digest_of m c)" "\<forall>p \<in> set (keys files). one_line p"
  shows "\<exists>files' r. update_results_manifest m files = Inr files' \<and> verify_results m files' ''results'' None = Inr r"
proof -
  let ?ns = "dated_sets files ''results''" and ?roots = "map (\<lambda>n. ''results'' @ ''/'' @ n) (dated_sets files ''results'')"
  have "\<forall>n \<in> set ?ns. is_ok (check_set m files ([], 0) (''results'' @ ''/'' @ n)) \<and> path_name (''results'' @ ''/'' @ n) = n"
    using ok dated_set_name [of _ files "''results''"] by simp
  from check_sets_paths [OF this, of "([''results/README.md''], 0)"]
  obtain t pss where t: "fold_r (check_set m files) ([''results/README.md''], 0) ?roots = Inr t"
    and pss: "map_r (set_paths files ''results'') ?ns = Inr pss"
    and expected: "set (fst t) = set (fst ([''results/README.md''], 0 :: int)) \<union> set (concat pss)"
    and all: "\<forall>p \<in> set (concat pss). is_file files p" by blast
  obtain rs where rs: "map_r (checksum_of_file m files) (''results/README.md'' # concat pss) = Inr rs"
    using checksums_of_files [of "''results/README.md'' # concat pss" files m] all readme by auto
  define files' where "files' = write_file RESULTS_MANIFEST (Raw (manifest_text (sort rs))) files"
  have update: "update_results_manifest m files = Inr files'"
    using rs sets no_partial by (simp add: update_results_manifest_def Let_def pss write_manifest_def files'_def raise_if_def)
  from updated_manifest [OF pss rs plain files'_def] obtain u where
    u: "fold_r (check_manifest_line m files') ([], 0) (text_lines (manifest_text (sort rs))) = Inr u"
    and listed: "set (fst u) = set (''results/README.md'' # concat pss)" by blast
  have same: "check_set m files' s (''results'' @ ''/'' @ n) = check_set m files s (''results'' @ ''/'' @ n)" for s n
    using check_set_manifest by (simp add: files'_def)
  have "fold_r (check_set m files') s ?roots = fold_r (check_set m files) s ?roots" for s
    by (rule fold_r_cong) (use same in auto)
  moreover have "dated_sets files' ''results'' = ?ns" unfolding files'_def by (rule dated_sets_write [OF results_manifest_no_set])
  moreover have "read_file files' RESULTS_MANIFEST = Inr (Raw (manifest_text (sort rs)))" by (simp add: files'_def read_file_def)
  ultimately have "\<exists>r. verify_results m files' ''results'' None = Inr r"
    unfolding verify_results_def Let_def using sets t u expected listed by (simp add: text_of_file_def raise_if_def case_prod_unfold)
  with update show ?thesis by blast
qed

text \<open>
  C22. Checking one set alone never passes when there are two: after an update of the manifest, the verification restricted to
  one dated set raises, because it compares the manifest of all sets with the files of the chosen one. Digests have no blank,
  and neither digests nor paths have a line break.
\<close>

theorem single_set_refused:
  assumes update: "update_results_manifest m files = Inr files'"
    and sets: "n \<in> set (dated_sets files ''results'')" "k \<in> set (dated_sets files ''results'')" "k \<noteq> n"
    and plain: "\<forall>c. plain_digest (digest_of m c)" "\<forall>p \<in> set (keys files). one_line p"
  shows "\<exists>e. verify_results m files' ''results'' (Some [''results/'' @ n]) = Inl e"
proof (rule ccontr)
  assume "\<not> ?thesis"
  then obtain r where run: "verify_results m files' ''results'' (Some [''results/'' @ n]) = Inr r"
    by (cases "verify_results m files' ''results'' (Some [''results/'' @ n])") auto
  let ?ns = "dated_sets files ''results''"
  from update obtain pss rs where pss: "map_r (set_paths files ''results'') ?ns = Inr pss"
    and rs: "map_r (checksum_of_file m files) (''results/README.md'' # concat pss) = Inr rs"
    and files': "files' = write_file RESULTS_MANIFEST (Raw (manifest_text (sort rs))) files"
    unfolding update_results_manifest_def Let_def write_manifest_def by (auto simp: rbind_eq_Inr)
  from updated_manifest [OF pss rs plain files'] obtain u where
    u: "fold_r (check_manifest_line m files') ([], 0) (text_lines (manifest_text (sort rs))) = Inr u"
    and listed: "set (fst u) = set (''results/README.md'' # concat pss)" by blast
  have manifest: "rbind (read_file files' RESULTS_MANIFEST) text_of_file = Inr (manifest_text (sort rs))"
    by (simp add: files' read_file_def text_of_file_def)
  from run manifest u obtain t v where t: "check_set m files' ([''results/README.md''], 0) (''results'' @ ''/'' @ n) = Inr t"
    and v: "raise_if (set (fst u) \<noteq> set (fst t)) (ValueError ''result manifest mismatch'') = Inr v"
    unfolding verify_results_def Let_def case_prod_unfold by (auto simp: rbind_eq_Inr)
  from check_set_paths [OF t] dated_set_name [OF sets(1)] obtain ps where ps: "set_paths files' ''results'' n = Inr ps"
    and expected: "set (fst t) = insert ''results/README.md'' (set ps)" by auto
  obtain q where "q \<in> set pss" "index_of_set (''results'' @ ''/'' @ k) \<in> set q"
    using map_r_at [OF pss sets(2)] set_paths_index by blast
  then have "index_of_set (''results'' @ ''/'' @ k) \<in> set (fst t)" using listed v by (auto simp: raise_if_def split: if_split_asm)
  moreover have "index_of_set (''results'' @ ''/'' @ k) \<noteq> ''results/README.md''" by (auto simp: index_of_set_def)
  ultimately have "index_of_set (''results'' @ ''/'' @ k) \<in> set ps" unfolding expected by blast
  from set_paths_under [OF ps this] obtain q where q: "index_of_set (''results'' @ ''/'' @ k) = under (''results/'' @ n) q" by blast
  have index: "index_of_set (''results'' @ ''/'' @ k) = (''results/'' @ k) @ ''/'' @ ''index.json''" by (simp add: index_of_set_def)
  show False
    using other_set_path [OF sets(3) [symmetric] dated_set_plain(1) [OF sets(1)] dated_set_plain(1) [OF sets(2)], of q "''index.json''"]
    unfolding q [symmetric] index by blast
qed

subsection \<open>The manifest of the sources\<close>

lemma update_new: "k \<notin> set (keys d) \<Longrightarrow> AList.update k v d = d @ [(k, v)]"
  by (induction d) auto

lemma read_source_lines:
  "\<forall>r \<in> set rs. plain_digest (fst (snd r)) \<Longrightarrow> distinct (map fst (d @ rs)) \<Longrightarrow>
     fold_r read_source_line d (map checksum_line rs) = Inr (d @ rs)"
proof (induction rs arbitrary: d)
  case (Cons r rs)
  obtain path digest n where r: "r = (path, digest, n)" by (cases r)
  have fresh: "path \<notin> set (keys d)" using Cons.prems(2) r by auto
  have "read_source_line d (checksum_line r) = Inr (AList.update path (digest, n) d)"
    using fresh Cons.prems(1) by (simp add: r read_source_line_def read_checksum_line py_int_py_str raise_if_def)
  then have "read_source_line d (checksum_line r) = Inr (d @ [r])" using update_new [OF fresh] by (simp add: r)
  then show ?case using Cons.IH [of "d @ [r]"] Cons.prems by simp
qed simp

lemma is_directory_write: "is_directory (write_file path c files) p \<longleftrightarrow> is_directory files p \<or> starts_with (p @ ''/'') path"
  unfolding is_directory_def list_ex_iff keys_write by blast

lemma public_file_write:
  assumes "relative \<noteq> ''manifests''"
  shows "public_file sl (write_file SOURCE_MANIFEST c files) relative = public_file sl files relative"
proof -
  have "\<not> starts_with (relative @ ''/'') SOURCE_MANIFEST"
  proof
    assume "starts_with (relative @ ''/'') SOURCE_MANIFEST"
    then obtain t where t: "''manifests/source.sha256'' = relative @ CHR ''/'' # t" by (auto simp: starts_with_iff SOURCE_MANIFEST_def)
    then have "takeWhile (\<lambda>c. c \<noteq> CHR ''/'') (relative @ CHR ''/'' # t) = ''manifests''" by (simp flip: t)
    moreover have "CHR ''/'' \<notin> set relative"
    proof
      assume "CHR ''/'' \<in> set relative"
      then have "1 < length (filter (\<lambda>c. c = CHR ''/'') (relative @ CHR ''/'' # t))"
        by (auto simp: filter_empty_conv)
      then show False by (simp flip: t)
    qed
    moreover have "takeWhile (\<lambda>c. c \<noteq> CHR ''/'') relative = relative" if "CHR ''/'' \<notin> set relative"
      using that by (auto simp: takeWhile_eq_all_conv)
    ultimately show False using assms by (simp add: takeWhile_tail)
  qed
  then show ?thesis by (simp add: public_file_def is_directory_write)
qed

lemma public_files_are: "public_files sl listed files = Inr ps \<Longrightarrow> p \<in> set ps \<Longrightarrow> p \<noteq> SOURCE_MANIFEST \<and> is_file files p \<and> \<not> sl p"
proof -
  assume "public_files sl listed files = Inr ps" and p: "p \<in> set ps"
  then obtain pss where pss: "map_r (public_file sl files) (sort (filter (\<lambda>p. p \<noteq> []) listed)) = Inr pss" and "ps = concat pss"
    by (auto simp: public_files_def rbind_eq_Inr)
  then obtain qs where qs: "qs \<in> set pss" "p \<in> set qs" using p by auto
  from map_r_elem [OF pss qs(1)] obtain l where "public_file sl files l = Inr qs" by blast
  then show ?thesis using qs(2) by (auto simp: public_file_def split: if_split_asm)
qed

text \<open>
  C21. Round trip of the source manifest: after a successful update the verification passes on the new tree and counts every
  public file once. Digests have no blank, neither digests nor paths have a line break (a newline or a carriage return, at both
  of which the text mode of the verifier ends a line), and git does not list the directory of the manifest itself as a file.
\<close>

theorem source_manifest_round_trip:
  assumes update: "update_source_manifest m sl listed files = Inr files'"
    and plain: "\<forall>c. plain_digest (digest_of m c)" "\<forall>p \<in> set (keys files). one_line p"
    and no_dir: "''manifests'' \<notin> set listed"
  shows "\<exists>ps. public_files sl listed files = Inr ps \<and> verify_source_manifest m sl listed files' = Inr (int (length ps))"
proof -
  from update obtain ps u rs where ps: "public_files sl listed files = Inr ps" and u: "raise_if (\<not> distinct ps) (ValueError ''duplicate manifest path'') = Inr u"
    and run: "map_r (checksum_of_file m files) ps = Inr rs" and w: "write_manifest SOURCE_MANIFEST rs files = Inr files'"
    unfolding update_source_manifest_def by (elim rbind_E) blast
  have files': "files' = write_file SOURCE_MANIFEST (Raw (manifest_text (sort rs))) files"
    using w by (auto simp: write_manifest_def rbind_eq_Inr)
  have "\<forall>p \<in> set ps. is_file files p" using public_files_are [OF ps] by blast
  from checksums_of_files [OF this, of m] run have fst: "map fst rs = ps"
    and true: "\<forall>r \<in> set rs. \<exists>c. map_of files (fst r) = Some c \<and> snd r = (digest_of m c, size_of m c)" by auto
  have "distinct ps" using u by (simp add: raise_if_def split: if_split_asm)
  then have d: "distinct (map fst rs)" by (simp add: fst)
  then have "distinct (map fst (sort rs))" by (simp add: distinct_map)
  moreover have "\<forall>r \<in> set (sort rs). plain_digest (fst (snd r)) \<and> one_line (fst r)"
  proof
    fix r assume "r \<in> set (sort rs)"
    then obtain c where c: "map_of files (fst r) = Some c" "snd r = (digest_of m c, size_of m c)" using true by auto
    then have "fst r \<in> set (keys files)" by (simp only: set_keys mem_Collect_eq) simp
    with plain(2) have "one_line (fst r)" by (rule bspec)
    with c plain(1) show "plain_digest (fst (snd r)) \<and> one_line (fst r)" by simp
  qed
  ultimately have read: "fold_r read_source_line [] (text_lines (manifest_text (sort rs))) = Inr (sort rs)"
    using read_source_lines [of "sort rs" "[]"] by (simp add: manifest_lines)
  have same: "map_r (public_file sl files') (sort (filter (\<lambda>p. p \<noteq> []) listed)) = map_r (public_file sl files) (sort (filter (\<lambda>p. p \<noteq> []) listed))"
    unfolding files' by (rule map_r_cong [OF refl public_file_write]) (use no_dir in auto)
  have public: "public_files sl listed files' = Inr ps"
    using ps unfolding public_files_def same .
  have "check_source m files' (sort rs) p = Inr ()" if "p \<in> set ps" for p
  proof -
    from that have "p \<in> fst ` set rs" unfolding fst [symmetric] set_map .
    then obtain r where r: "r \<in> set rs" "fst r = p" by blast
    then obtain c where c: "map_of files p = Some c" "snd r = (digest_of m c, size_of m c)" using true by blast
    have "map_of (sort rs) p = Some (snd r)"
      by (rule map_of_is_SomeI) (use r d in \<open>auto simp: distinct_map\<close>)
    then show ?thesis using c public_files_are [OF ps that] by (simp add: check_source_def getitem_def read_file_def files' raise_if_def)
  qed
  then have "\<exists>us. map_r (check_source m files' (sort rs)) (remdups ps) = Inr us"
    unfolding is_ok_iff [symmetric] map_r_is_ok set_remdups by (auto simp: is_ok_iff)
  moreover have "set (keys (sort rs)) = set ps" unfolding fst [symmetric] set_map set_sort ..
  ultimately have "verify_source_manifest m sl listed files' = Inr (int (length rs))"
    using read public by (auto simp: verify_source_manifest_def files' read_file_def text_of_file_def raise_if_def)
  moreover have "length rs = length ps" using fst by (metis length_map)
  ultimately show ?thesis using ps by auto
qed

lemma check_source_pins:
  assumes "check_source m files listed p = Inr u"
  shows "\<exists>c. map_of files p = Some c \<and> map_of listed p = Some (digest_of m c, size_of m c)"
  using assms by (auto simp: check_source_def rbind_eq_Inr getitem_def read_file_Inr raise_if_def split: option.split_asm if_split_asm)

lemma verified_sources:
  assumes "verify_source_manifest m sl listed files = Inr n"
  shows "\<exists>t d ps. map_of files SOURCE_MANIFEST = Some (Raw t) \<and> fold_r read_source_line [] (text_lines t) = Inr d
    \<and> public_files sl listed files = Inr ps \<and> set ps = set (keys d)
    \<and> (\<forall>p \<in> set ps. \<exists>c. map_of files p = Some c \<and> map_of d p = Some (digest_of m c, size_of m c))"
proof -
  from assms obtain c t d ps u us where raw: "read_file files SOURCE_MANIFEST = Inr c" "text_of_file c = Inr t"
    and d: "fold_r read_source_line [] (text_lines t) = Inr d" and ps: "public_files sl listed files = Inr ps"
    and same: "raise_if (set (keys d) \<noteq> set ps) (ValueError ''source manifest file set mismatch'') = Inr u"
    and us: "map_r (check_source m files d) (remdups ps) = Inr us"
    unfolding verify_source_manifest_def by (elim rbind_E) blast
  have "\<exists>c. map_of files p = Some c \<and> map_of d p = Some (digest_of m c, size_of m c)" if "p \<in> set ps" for p
  proof -
    have "is_ok (map_r (check_source m files d) (remdups ps))" using us by (auto simp: is_ok_iff)
    then have "is_ok (check_source m files d p)" using that by (simp add: map_r_is_ok)
    then show ?thesis using check_source_pins by (auto simp: is_ok_iff)
  qed
  moreover have "set ps = set (keys d)" using same by (simp add: raise_if_def split: if_split_asm)
  moreover have "c = Raw t" using raw(2) by (simp add: text_of_file_def split: content.splits)
  ultimately show ?thesis using raw(1) d ps by (auto simp: read_file_Inr)
qed

text \<open>
  C20. A verified source manifest pins the sources: two trees that carry the same manifest and both pass, whatever git lists in
  each, have the same public files, with equal digests and sizes.
\<close>

theorem verified_sources_pinned:
  assumes "verify_source_manifest m sl listed files = Inr n" and "verify_source_manifest m sl' listed' files' = Inr n'"
    and "map_of files' SOURCE_MANIFEST = map_of files SOURCE_MANIFEST"
  shows "\<exists>ps ps'. public_files sl listed files = Inr ps \<and> public_files sl' listed' files' = Inr ps' \<and> set ps' = set ps
    \<and> (\<forall>p \<in> set ps. \<exists>c c'. map_of files p = Some c \<and> map_of files' p = Some c' \<and> digest_of m c' = digest_of m c \<and> size_of m c' = size_of m c)"
proof -
  from verified_sources [OF assms(1)] obtain t d ps where one: "map_of files SOURCE_MANIFEST = Some (Raw t)" "fold_r read_source_line [] (text_lines t) = Inr d"
      "public_files sl listed files = Inr ps" "set ps = set (keys d)"
      "\<forall>p \<in> set ps. \<exists>c. map_of files p = Some c \<and> map_of d p = Some (digest_of m c, size_of m c)" by blast
  from verified_sources [OF assms(2)] obtain t' d' ps' where two: "map_of files' SOURCE_MANIFEST = Some (Raw t')" "fold_r read_source_line [] (text_lines t') = Inr d'"
      "public_files sl' listed' files' = Inr ps'" "set ps' = set (keys d')"
      "\<forall>p \<in> set ps'. \<exists>c. map_of files' p = Some c \<and> map_of d' p = Some (digest_of m c, size_of m c)" by blast
  have "d' = d" using one(1,2) two(1,2) assms(3) by simp
  then show ?thesis using one two by (metis Pair_inject option.inject)
qed

subsection \<open>Witnesses\<close>

definition example_measures :: measures where
  "example_measures = \<lparr>size_of = (\<lambda>c. case c of Raw s \<Rightarrow> int (length s) | Document _ \<Rightarrow> 0),
     digest_of = (\<lambda>c. case c of Raw s \<Rightarrow> py_str (int (length s)) | Document _ \<Rightarrow> ''d''), rows_of = (\<lambda>_. 0)\<rparr>"

definition example_sources :: "string \<Rightarrow> tree" where
  "example_sources greeting = [(''README.md'', Raw greeting), (''scripts/a.py'', Raw ''x'')]"

definition example_listed :: "string list" where
  "example_listed = [''scripts/a.py'', ''README.md'', SOURCE_MANIFEST, ''deleted.md'']"

lemma example_plain: "plain_digest (digest_of example_measures c)"
proof (cases c)
  case (Document v)
  have "CHR '' '' \<notin> set ''d'' \<and> one_line ''d''" by code_simp
  then show ?thesis by (simp add: Document example_measures_def plain_digest_def)
next
  case (Raw s)
  then show ?thesis using py_str_plain by (simp add: example_measures_def plain_digest_def)
qed

lemma source_manifest_round_trip_witness:
  "\<exists>files'. update_source_manifest example_measures (\<lambda>_. False) example_listed (example_sources ''hello'') = Inr files' \<and>
     verify_source_manifest example_measures (\<lambda>_. False) example_listed files' = Inr 2"
proof -
  have "is_ok (update_source_manifest example_measures (\<lambda>_. False) example_listed (example_sources ''hello''))" by code_simp
  then obtain files' where u: "update_source_manifest example_measures (\<lambda>_. False) example_listed (example_sources ''hello'') = Inr files'"
    by (auto simp: is_ok_iff)
  have "\<forall>p \<in> set (keys (example_sources ''hello'')). one_line p" "''manifests'' \<notin> set example_listed" by code_simp+
  from source_manifest_round_trip [OF u _ this] example_plain
  obtain ps where ps: "public_files (\<lambda>_. False) example_listed (example_sources ''hello'') = Inr ps"
    and v: "verify_source_manifest example_measures (\<lambda>_. False) example_listed files' = Inr (int (length ps))" by blast
  have "public_files (\<lambda>_. False) example_listed (example_sources ''hello'') = Inr [''README.md'', ''scripts/a.py'']" by code_simp
  with ps v u show ?thesis by auto
qed

text \<open>Two trees with texts of one length: the digest of the example does not tell them apart, and both pass.\<close>

definition example_verified :: "string \<Rightarrow> tree" where
  "example_verified greeting = write_file SOURCE_MANIFEST (Raw (manifest_text [(''README.md'', ''5'', 5), (''scripts/a.py'', ''1'', 1)]))
     (example_sources greeting)"

lemma verified_sources_pinned_witness:
  "\<exists>c c'. map_of (example_verified ''hello'') ''README.md'' = Some c \<and> map_of (example_verified ''jello'') ''README.md'' = Some c'
     \<and> digest_of example_measures c' = digest_of example_measures c"
proof -
  have "verify_source_manifest example_measures (\<lambda>_. False) example_listed (example_verified ''hello'') = Inr 2"
    "verify_source_manifest example_measures (\<lambda>_. False) (rev example_listed) (example_verified ''jello'') = Inr 2" by code_simp+
  moreover have "map_of (example_verified ''jello'') SOURCE_MANIFEST = map_of (example_verified ''hello'') SOURCE_MANIFEST"
    by (simp add: example_verified_def)
  ultimately obtain ps where ps: "public_files (\<lambda>_. False) example_listed (example_verified ''hello'') = Inr ps"
    and pinned: "\<forall>p \<in> set ps. \<exists>c c'. map_of (example_verified ''hello'') p = Some c \<and> map_of (example_verified ''jello'') p = Some c'
      \<and> digest_of example_measures c' = digest_of example_measures c
      \<and> size_of example_measures c' = size_of example_measures c"
    using verified_sources_pinned by blast
  have "public_files (\<lambda>_. False) example_listed (example_verified ''hello'') = Inr [''README.md'', ''scripts/a.py'']" by code_simp
  with ps have "''README.md'' \<in> set ps" by auto
  with pinned show ?thesis by blast
qed

text \<open>Two dated sets with an index and nothing else.\<close>

definition example_index :: "string \<Rightarrow> content" where
  "example_index name = Document (JDict [(''schema_version'', JInt 1), (''result_set'', JStr name), (''entries'', JList [])])"

definition example_sets :: tree where
  "example_sets = [(''results/README.md'', Raw ''x''), (''results/2026/index.json'', example_index ''2026''),
     (''results/2027/index.json'', example_index ''2027'')]"

lemma single_set_refused_witness:
  "\<exists>files. update_results_manifest example_measures example_sets = Inr files
     \<and> is_ok (verify_results example_measures files ''results'' None)
     \<and> (\<exists>e. verify_results example_measures files ''results'' (Some [''results/'' @ ''2026'']) = Inl e)"
proof -
  have sets: "''2026'' \<in> set (dated_sets example_sets ''results'')" "''2027'' \<in> set (dated_sets example_sets ''results'')"
    "dated_sets example_sets ''results'' \<noteq> []"
    "\<forall>n \<in> set (dated_sets example_sets ''results''). is_ok (check_set example_measures example_sets ([], 0) (''results/'' @ n))"
    "is_file example_sets ''results/README.md''" "\<not> is_file example_sets (partial_path RESULTS_MANIFEST)"
    "\<forall>p \<in> set (keys example_sets). one_line p" by code_simp+
  from update_then_verify [OF sets(3-6) _ sets(7)] example_plain
  obtain files r where update: "update_results_manifest example_measures example_sets = Inr files"
    and "verify_results example_measures files ''results'' None = Inr r" by blast
  moreover have "\<exists>e. verify_results example_measures files ''results'' (Some [''results/'' @ ''2026'']) = Inl e"
    using single_set_refused [OF update sets(1,2) _ _ sets(7)] example_plain by blast
  ultimately show ?thesis by (auto simp: is_ok_iff)
qed

end
