(* ===== verification/PackageProofs.thy ===== *)
theory PackageProofs
  imports ManifestProofs
begin

section \<open>Packaged results are verified\<close>

text \<open>
  The packager and the two results scripts together: a packaged set has a true index, leaves every other set as it was, and
  passes the verification once the manifest has been written. Its documents hold no machine path in a value, and in a key only
  what the source had there; the lemmas for that are in the locale \<open>key_rule\<close>, for any condition on keys that every key without
  a leading slash meets, and interpreted twice.
\<close>

subsection \<open>What the packager leaves behind\<close>

text \<open>A row of the index tells the truth about a file of the tree.\<close>

definition true_entry :: "measures \<Rightarrow> tree \<Rightarrow> string \<Rightarrow> index_entry \<Rightarrow> bool" where
  "true_entry m files output e \<longleftrightarrow> (\<exists>c. map_of files (output @ ''/'' @ ix_path e) = Some c \<and> ix_bytes e = size_of m c
     \<and> ix_sha256 e = digest_of m c \<and> (case ix_rows e of None \<Rightarrow> True | Some n \<Rightarrow> n = rows_of m c))"

definition target_of :: "string \<times> string \<times> string \<Rightarrow> string" where
  "target_of = fst \<circ> snd"

lemma package_one_step:
  assumes "package_one m output ow (files, es) mp = Inr st"
  shows "\<exists>w e. st = (write_file (output @ ''/'' @ target_of mp) w files, es @ [e]) \<and> ix_path e = target_of mp
    \<and> true_entry m (write_file (output @ ''/'' @ target_of mp) w files) output e"
proof -
  obtain source name cls where mp: "mp = (source, name, cls)" by (cases mp)
  obtain w rc e where "st = (write_file (output @ ''/'' @ name) w files, es @ [e])" "ix_path e = name" "ix_bytes e = size_of m w"
      "ix_sha256 e = digest_of m w" "ix_rows e = rc" "rc = None \<or> rc = Some (rows_of m w)"
    using assms unfolding mp package_one_def Let_def case_prod_unfold
    by (auto simp: rbind_eq_Inr split: if_split_asm)
  then show ?thesis by (intro exI [of _ w] exI [of _ e]) (auto simp: mp target_of_def true_entry_def split: option.split)
qed

lemma packaged_run:
  assumes "fold_r (package_one m output ow) (files, es) mps = Inr (files', es')"
    and "distinct (map ix_path es @ map target_of mps)" and "\<forall>e \<in> set es. true_entry m files output e"
  shows "map ix_path es' = map ix_path es @ map target_of mps
    \<and> (\<forall>e \<in> set es'. true_entry m files' output e)
    \<and> (\<forall>p. (\<forall>t \<in> set (map target_of mps). p \<noteq> output @ ''/'' @ t) \<longrightarrow> map_of files' p = map_of files p)
    \<and> (\<forall>mp \<in> set mps. is_file files' (output @ ''/'' @ target_of mp))"
  using assms
proof (induction mps arbitrary: files es)
  case (Cons mp mps)
  from Cons.prems(1) obtain st where one: "package_one m output ow (files, es) mp = Inr st"
    and rest: "fold_r (package_one m output ow) st mps = Inr (files', es')" by (auto simp: rbind_eq_Inr)
  from package_one_step [OF one] obtain w e where st: "st = (write_file (output @ ''/'' @ target_of mp) w files, es @ [e])"
    and e: "ix_path e = target_of mp" "true_entry m (write_file (output @ ''/'' @ target_of mp) w files) output e" by blast
  let ?files = "write_file (output @ ''/'' @ target_of mp) w files"
  have "true_entry m ?files output d" if "d \<in> set es" for d
  proof -
    have "ix_path d \<noteq> target_of mp" using Cons.prems(2) imageI [OF that, of ix_path] by auto
    then show ?thesis using Cons.prems(3) that by (simp add: true_entry_def)
  qed
  then have true: "\<forall>d \<in> set (es @ [e]). true_entry m ?files output d" using e(2) by simp
  have "distinct (map ix_path (es @ [e]) @ map target_of mps)" using Cons.prems(2) e(1) by simp
  note run = Cons.IH [OF rest [unfolded st] this true]
  have "is_file files' (output @ ''/'' @ target_of mp)"
  proof -
    from run have "map ix_path es' = map ix_path es @ target_of mp # map target_of mps" using e(1) by simp
    then have "target_of mp \<in> ix_path ` set es'" by (metis in_set_conv_decomp image_set)
    then show ?thesis using run by (auto simp: true_entry_def)
  qed
  then show ?case using run e(1) by auto
qed auto

lemma same_json [simp]: "\<not> json_differs v v"
  by (simp add: json_differs_def py_eq_def split: option.split)

lemma entry_checked:
  assumes "true_entry m files root e" and "CHR ''/'' \<notin> set (ix_path e)" and "ix_path e \<noteq> []" and "ix_path e \<noteq> ''.''"
  shows "check_indexed m files root s (entry_json_of e) = Inr (add_label (ix_path e) (fst s), add_label (root @ ''/'' @ ix_path e) (snd s))"
proof -
  have "under root (ix_path e) = root @ ''/'' @ ix_path e" using assms(2) by (auto simp: under_def starts_with_iff)
  then show ?thesis using assms path_name_under [of "ix_path e" root]
    by (auto simp: check_indexed_def entry_json_of_def true_entry_def read_file_def raise_if_def split: option.splits)
qed

lemma entries_checked:
  "\<forall>e \<in> set es. true_entry m files root e \<and> CHR ''/'' \<notin> set (ix_path e) \<and> ix_path e \<noteq> [] \<and> ix_path e \<noteq> ''.'' \<Longrightarrow>
     \<exists>t. fold_r (check_indexed m files root) s (map entry_json_of es) = Inr t \<and> set (fst t) = set (fst s) \<union> ix_path ` set es"
proof (induction es arbitrary: s)
  case (Cons e es)
  from Cons.prems have one: "check_indexed m files root s (entry_json_of e)
      = Inr (add_label (ix_path e) (fst s), add_label (root @ ''/'' @ ix_path e) (snd s))" by (intro entry_checked) auto
  show ?case using Cons.IH [of "(add_label (ix_path e) (fst s), add_label (root @ ''/'' @ ix_path e) (snd s))"] Cons.prems by (auto simp: one)
qed simp

lemma packaged_set_checked:
  assumes index: "map_of files (index_of_set root) = Some (Document (index_document name es))" and "path_name root = name"
    and true: "\<forall>e \<in> set es. true_entry m files root e \<and> CHR ''/'' \<notin> set (ix_path e) \<and> ix_path e \<noteq> [] \<and> ix_path e \<noteq> ''.''"
    and known: "\<forall>n \<in> set (file_names files root). n \<in> ix_path ` set es \<union> set index_files"
  shows "is_ok (check_set m files s root)"
proof -
  from entries_checked [OF true, of "([], fst s)"] obtain t where "fold_r (check_indexed m files root) ([], fst s) (map entry_json_of es) = Inr t"
    and names: "set (fst t) = ix_path ` set es" by auto
  moreover have "\<not> list_ex (\<lambda>n. n \<notin> set (fst t @ index_files)) (file_names files root)" using known names by (auto simp: list_ex_iff)
  ultimately show ?thesis using index assms(2)
    by (simp add: check_set_def index_document_def read_file_def document_of_def raise_if_def Let_def case_prod_unfold)
qed

lemma result_names:
  "all_mappings files accounting = Inr mps \<Longrightarrow> distinct (map target_of mps) \<and>
     (\<forall>t \<in> set (map target_of mps). CHR ''/'' \<notin> set t \<and> t \<noteq> [] \<and> t \<noteq> ''.'' \<and> t \<noteq> ''index.json'' \<and> one_line t)"
proof -
  assume "all_mappings files accounting = Inr mps"
  let ?names = "\<lambda>audits. map target_of (take 1 (result_mappings [] [] [])) @ audits @ map target_of (drop 1 (result_mappings [] [] []))"
  from \<open>all_mappings files accounting = Inr mps\<close> have "map target_of mps = ?names (map target_of (source_audit_mappings [])) \<or> map target_of mps = ?names []"
    by (auto simp: all_mappings_def Let_def rbind_eq_Inr result_mappings_def source_audit_mappings_def target_of_def split: if_split_asm)
  moreover have "distinct (?names a) \<and> (\<forall>t \<in> set (?names a). CHR ''/'' \<notin> set t \<and> t \<noteq> [] \<and> t \<noteq> ''.'' \<and> t \<noteq> ''index.json'' \<and> one_line t)"
     if "a = [] \<or> a = map target_of (source_audit_mappings [])" for a
    using that by (elim disjE; hypsubst) code_simp+
  ultimately show ?thesis by metis
qed

lemma packaged_tree:
  assumes run: "package_results m files accounting root ow = Inr files'" and mps: "all_mappings files accounting = Inr mps"
  shows "\<exists>es. map_of files' (index_of_set root) = Some (Document (index_document ''2026-09-11'' es))
    \<and> ix_path ` set es = set (map target_of mps) \<and> (\<forall>e \<in> set es. true_entry m files' root e)
    \<and> (\<forall>p. (\<forall>n \<in> insert ''index.json'' (set (map target_of mps)). p \<noteq> root @ ''/'' @ n) \<longrightarrow> map_of files' p = map_of files p)
    \<and> (\<forall>n \<in> insert ''index.json'' (set (map target_of mps)). is_file files' (root @ ''/'' @ n))"
proof -
  from run mps obtain mid es0 where fold: "fold_r (package_one m root ow) (files, []) mps = Inr (mid, es0)"
    and files': "files' = write_file (index_of_set root) (Document (index_document ''2026-09-11'' (sort_key ix_path es0))) mid"
    by (auto simp: package_results_def Let_def rbind_eq_Inr index_of_set_def)
  note names = result_names [OF mps]
  have "distinct (map ix_path [] @ map target_of mps)" using names by simp
  from packaged_run [OF fold this] have paths: "map ix_path es0 = map target_of mps" and true: "\<forall>e \<in> set es0. true_entry m mid root e"
    and same: "\<forall>p. (\<forall>t \<in> set (map target_of mps). p \<noteq> root @ ''/'' @ t) \<longrightarrow> map_of mid p = map_of files p"
    and there: "\<forall>mp \<in> set mps. is_file mid (root @ ''/'' @ target_of mp)" by simp_all
  have "true_entry m files' root e" if "e \<in> set es0" for e
  proof -
    have "ix_path e \<in> set (map target_of mps)" using imageI [OF that, of ix_path] paths by (metis set_map)
    then have "ix_path e \<noteq> ''index.json''" using names by blast
    then show ?thesis using true that by (simp add: true_entry_def files' index_of_set_def)
  qed
  moreover have "ix_path ` set es0 = set (map target_of mps)" using paths by (metis set_map)
  ultimately show ?thesis using same there
    by (intro exI [of _ "sort_key ix_path es0"]) (simp add: files' index_of_set_def)
qed

lemma set_of_path_in_set:
  assumes "CHR ''/'' \<notin> set name" "CHR ''/'' \<notin> set n" "starts_with ''20'' name"
  shows "set_of_path results ((results @ ''/'' @ name) @ ''/'' @ n) = (if n = ''index.json'' then Some name else None)"
proof -
  have "drop (Suc (length results)) ((results @ ''/'' @ name) @ ''/'' @ n) = name @ ''/'' @ n" by simp
  moreover have "split_on CHR ''/'' [] (name @ ''/'' @ n) = [name, n]" using assms by (simp add: split_on_parts split_on_single)
  moreover have "starts_with (results @ ''/'') ((results @ ''/'' @ name) @ ''/'' @ n)" by (auto simp: starts_with_iff)
  ultimately show ?thesis using assms(3) by (simp add: set_of_path_def)
qed

definition packaged_set :: string where
  "packaged_set = ''2026-09-11''"

lemma packaged_set_plain: "CHR ''/'' \<notin> set packaged_set" "starts_with ''20'' packaged_set" "packaged_set \<noteq> []" "packaged_set \<noteq> ''.''"
  "one_line packaged_set" "one_line ''results/''" "newline \<noteq> CHR ''/''" "one_line ''index.json''"
  by code_simp+

lemma packaged_set_passes:
  assumes run: "package_results m files accounting root ow = Inr files'" and mps: "all_mappings files accounting = Inr mps"
    and name: "path_name root = packaged_set"
    and known: "\<forall>n \<in> set (file_names files root). n \<in> set (map target_of mps) \<union> set index_files"
  shows "is_ok (check_set m files' s root)"
proof -
  let ?new = "insert ''index.json'' (set (map target_of mps))"
  note names = result_names [OF mps]
  from packaged_tree [OF run mps] obtain es where index: "map_of files' (index_of_set root) = Some (Document (index_document packaged_set es))"
    and paths: "ix_path ` set es = set (map target_of mps)" and true: "\<forall>e \<in> set es. true_entry m files' root e"
    and same: "\<And>p. (\<forall>n \<in> ?new. p \<noteq> root @ ''/'' @ n) \<Longrightarrow> map_of files' p = map_of files p" unfolding packaged_set_def [symmetric] by auto
  show ?thesis
  proof (rule packaged_set_checked [OF index name])
    show "\<forall>e \<in> set es. true_entry m files' root e \<and> CHR ''/'' \<notin> set (ix_path e) \<and> ix_path e \<noteq> [] \<and> ix_path e \<noteq> ''.''"
      using true names paths by blast
    show "\<forall>n \<in> set (file_names files' root). n \<in> ix_path ` set es \<union> set index_files"
    proof
      fix n assume n: "n \<in> set (file_names files' root)"
      have slash: "CHR ''/'' \<notin> set n" using n by (rule file_names_plain)
      have there: "is_file files' (root @ ''/'' @ n)" by (rule iffD1 [OF file_names_iff [OF slash] n])
      have listed: "''index.json'' \<in> set index_files" by (simp add: index_files_def)
      show "n \<in> ix_path ` set es \<union> set index_files"
      proof (cases "n \<in> ?new")
        case True
        then show ?thesis unfolding paths using listed by (elim insertE) (simp_all only: Un_iff simp_thms)
      next
        case False
        then have "\<forall>k \<in> ?new. root @ ''/'' @ n \<noteq> root @ ''/'' @ k" by auto
        then have "is_file files (root @ ''/'' @ n)" using there by (simp only: same not_False_eq_True)
        then have "n \<in> set (file_names files root)" unfolding file_names_iff [OF slash] .
        with known have "n \<in> set (map target_of mps) \<union> set index_files" by (rule bspec)
        then show ?thesis unfolding paths .
      qed
    qed
  qed
qed

lemma package_then_sets:
  assumes run: "package_results m files accounting (''results/'' @ packaged_set) ow = Inr files'" and mps: "all_mappings files accounting = Inr mps"
    and known: "\<forall>n \<in> set (file_names files (''results/'' @ packaged_set)). n \<in> set (map target_of mps) \<union> set index_files"
    and others: "\<forall>n \<in> set (dated_sets files ''results''). n \<noteq> packaged_set \<longrightarrow> is_ok (check_set m files ([], 0) (''results/'' @ n))"
  shows "set (dated_sets files' ''results'') = insert packaged_set (set (dated_sets files ''results''))"
    and "\<forall>n \<in> set (dated_sets files' ''results''). is_ok (check_set m files' ([], 0) (''results/'' @ n))"
proof -
  let ?new = "insert ''index.json'' (set (map target_of mps))"
  obtain root where root: "''results/'' @ packaged_set = root" by blast
  note names = result_names [OF mps]
  from packaged_tree [OF run mps] have same: "\<And>p. (\<forall>n \<in> ?new. p \<noteq> root @ ''/'' @ n) \<Longrightarrow> map_of files' p = map_of files p"
    and there: "\<forall>n \<in> ?new. is_file files' (root @ ''/'' @ n)" unfolding root by blast+
  have name: "path_name root = packaged_set" using path_name_under [OF packaged_set_plain(1,3,4), of "''results''"] by (simp flip: root)
  have own: "is_ok (check_set m files' ([], 0) root)"
    using packaged_set_passes [OF run mps] name known unfolding root by blast
  have plain: "CHR ''/'' \<notin> set n" if "n \<in> ?new" for n using names that by auto
  have at: "root @ ''/'' @ n = (''results'' @ ''/'' @ packaged_set) @ ''/'' @ n" for n by (simp flip: root)
  have set_at: "set_of_path ''results'' (root @ ''/'' @ n) = (if n = ''index.json'' then Some packaged_set else None)" if "n \<in> ?new" for n
    unfolding at by (rule set_of_path_in_set [OF packaged_set_plain(1) plain [OF that] packaged_set_plain(2)])
  have keys: "p \<in> set (keys files') \<longleftrightarrow> p \<in> set (keys files) \<or> (\<exists>n \<in> ?new. p = root @ ''/'' @ n)" for p
    unfolding set_keys mem_Collect_eq using same [of p] there by metis
  show sets: "set (dated_sets files' ''results'') = insert packaged_set (set (dated_sets files ''results''))"
  proof (rule set_eqI)
    fix n
    show "n \<in> set (dated_sets files' ''results'') \<longleftrightarrow> n \<in> insert packaged_set (set (dated_sets files ''results''))"
      unfolding dated_sets_iff Bex_def keys insert_iff using set_at by (auto split: if_split_asm)
  qed
  show "\<forall>n \<in> set (dated_sets files' ''results''). is_ok (check_set m files' ([], 0) (''results/'' @ n))"
  proof
    fix n assume "n \<in> set (dated_sets files' ''results'')"
    then consider "n = packaged_set" | "n \<noteq> packaged_set" "n \<in> set (dated_sets files ''results'')" unfolding sets by blast
    then show "is_ok (check_set m files' ([], 0) (''results/'' @ n))"
    proof cases
      case 1
      then show ?thesis using own by (simp only: root)
    next
      case 2
      have "map_of files' (under (''results/'' @ n) q) = map_of files (under (''results/'' @ n) q)" for q
        by (rule same) (use other_set_path [OF 2(1) dated_set_plain(1) [OF 2(2)] packaged_set_plain(1)] in \<open>simp only: root, blast\<close>)
      from check_set_elsewhere [OF this] others 2 show ?thesis by simp
    qed
  qed
qed

text \<open>
  C18. What the packager writes is verified: after a successful run into the dated set of 11 September 2026, updating the results
  manifest succeeds and the verification of all sets passes, provided that before the run the set holds at most packaged files,
  its index and its README, every other dated set passes, the README of the results exists, no partial file of the results
  manifest is left over, no path has a line break (the manifest has one line per file), and no digest has a space or a line
  break.
\<close>

theorem packaged_results_verify:
  assumes run: "package_results m files accounting ''results/2026-09-11'' ow = Inr files'" and mps: "all_mappings files accounting = Inr mps"
    and known: "\<forall>n \<in> set (file_names files ''results/2026-09-11''). n \<in> set (map (fst \<circ> snd) mps) \<union> set index_files"
    and others: "\<forall>n \<in> set (dated_sets files ''results''). n \<noteq> ''2026-09-11'' \<longrightarrow> is_ok (check_set m files ([], 0) (''results/'' @ n))"
    and readme: "is_file files ''results/README.md''" and no_partial: "\<not> is_file files (partial_path RESULTS_MANIFEST)"
    and plain: "\<forall>c. plain_digest (digest_of m c)" "\<forall>p \<in> set (keys files). one_line p"
  shows "\<exists>files'' r. update_results_manifest m files' = Inr files'' \<and> verify_results m files'' ''results'' None = Inr r"
proof -
  have place: "''results/2026-09-11'' = ''results/'' @ packaged_set" by (simp add: packaged_set_def)
  note sets = package_then_sets [OF run [unfolded place] mps known [unfolded place, folded target_of_def] others [folded packaged_set_def]]
  from packaged_tree [OF run [unfolded place] mps] have
    same: "\<And>p. (\<forall>n \<in> insert ''index.json'' (set (map target_of mps)). p \<noteq> (''results/'' @ packaged_set) @ ''/'' @ n) \<Longrightarrow> map_of files' p = map_of files p"
    by auto
  have "is_file files' ''results/README.md''" "\<not> is_file files' (partial_path RESULTS_MANIFEST)"
    using readme no_partial same [of "''results/README.md''"] same [of "partial_path RESULTS_MANIFEST"]
    by (simp_all add: packaged_set_def partial_path_def RESULTS_MANIFEST_def)
  moreover have "\<forall>p \<in> set (keys files'). one_line p"
  proof
    fix p assume p: "p \<in> set (keys files')"
    show "one_line p"
    proof (cases "\<forall>n \<in> insert ''index.json'' (set (map target_of mps)). p \<noteq> (''results/'' @ packaged_set) @ ''/'' @ n")
      case True
      have "p \<in> set (keys files)" using p same [OF True] unfolding set_keys by simp
      with plain(2) show ?thesis by (rule bspec)
    next
      case False
      then obtain n where n: "p = (''results/'' @ packaged_set) @ ''/'' @ n" and mem: "n \<in> insert ''index.json'' (set (map target_of mps))" by blast
      from mem have "one_line n"
      proof
        assume "n = ''index.json''"
        show ?thesis unfolding \<open>n = ''index.json''\<close> by (rule packaged_set_plain(8))
      next
        assume "n \<in> set (map target_of mps)"
        then show ?thesis using result_names [OF mps] by blast
      qed
      then show ?thesis unfolding n set_append using packaged_set_plain(5,6,7) by simp
    qed
  qed
  moreover have "dated_sets files' ''results'' \<noteq> []" using sets(1) by (metis empty_set insert_not_empty)
  ultimately show ?thesis using update_then_verify [OF _ sets(2)] plain(1) by blast
qed

text \<open>The packager succeeds when every source is there, can be packaged, and the output directory is fresh.\<close>

definition packageable :: "tree \<Rightarrow> string \<times> string \<times> string \<Rightarrow> bool" where
  "packageable files mp \<longleftrightarrow> (\<exists>c. map_of files (fst mp) = Some c \<and> (ends_with ''.json'' (fst mp) \<longrightarrow>
     (\<exists>v. c = Document v \<and> (\<forall>cls name h. is_ok (packaged_document (target_of mp) cls name h v)))))"

lemma package_run_ok:
  assumes "\<forall>mp \<in> set mps. packageable files mp \<and> \<not> is_file files (output @ ''/'' @ target_of mp)
      \<and> \<not> is_file files (partial_path (output @ ''/'' @ target_of mp))"
    and "distinct (map target_of mps)"
    and "\<forall>a \<in> set mps. \<forall>b \<in> set mps. fst a \<noteq> output @ ''/'' @ target_of b \<and> partial_path (target_of a) \<noteq> target_of b"
  shows "is_ok (fold_r (package_one m output ow) (files, es) mps)"
  using assms
proof (induction mps arbitrary: files es)
  case (Cons mp mps)
  obtain source name cls where mp: "mp = (source, name, cls)" by (cases mp)
  have name: "target_of mp = name" by (simp add: mp target_of_def)
  from Cons.prems(1) have "packageable files mp" and free: "\<not> is_file files (output @ ''/'' @ name)" "\<not> is_file files (partial_path (output @ ''/'' @ name))"
    using name by auto
  then obtain c where c: "map_of files source = Some c"
    and doc: "ends_with ''.json'' source \<Longrightarrow> \<exists>v. c = Document v \<and> (\<forall>cls n h. is_ok (packaged_document name cls n h v))"
    unfolding packageable_def name by (auto simp: mp)
  have "\<exists>w e. package_one m output ow (files, es) mp = Inr (write_file (output @ ''/'' @ name) w files, es @ [e])"
  proof (cases "ends_with ''.json'' source")
    case True
    from doc [OF True] obtain v where v: "c = Document v" "is_ok (packaged_document name cls (path_name source) (digest_of m c) v)" by blast
    then obtain kvs where "packaged_document name cls (path_name source) (digest_of m c) v = Inr kvs" by (auto simp: is_ok_iff)
    then show ?thesis using c free True v(1) by (simp add: mp package_one_def read_file_def raise_if_def document_of_def Let_def) blast
  next
    case False
    then show ?thesis using c free by (simp add: mp package_one_def read_file_def raise_if_def Let_def) blast
  qed
  then obtain w e where one: "package_one m output ow (files, es) mp = Inr (write_file (output @ ''/'' @ name) w files, es @ [e])" by blast
  let ?files = "write_file (output @ ''/'' @ name) w files"
  have "packageable ?files q \<and> \<not> is_file ?files (output @ ''/'' @ target_of q) \<and> \<not> is_file ?files (partial_path (output @ ''/'' @ target_of q))"
    if q: "q \<in> set mps" for q
  proof -
    have "fst q \<noteq> output @ ''/'' @ name" "partial_path (target_of q) \<noteq> name"
      using Cons.prems(3) q name by (metis list.set_intros)+
    moreover have "target_of q \<noteq> name" using Cons.prems(2) imageI [OF q, of target_of] name by auto
    ultimately show ?thesis using Cons.prems(1) q by (simp add: packageable_def partial_path_def)
  qed
  then have "is_ok (fold_r (package_one m output ow) (?files, es @ [e]) mps)"
    using Cons.prems(2,3) by (intro Cons.IH) auto
  then show ?case by (simp add: one)
qed simp


subsection \<open>An index written by the updater passes\<close>

lemma suffix_plain: "suffix_of n = ''.json'' \<Longrightarrow> n \<noteq> [] \<and> n \<noteq> ''.''"
  by (auto simp: suffix_of_def Let_def split: if_split_asm)

lemma indexed_document_entry:
  assumes "indexed_document m d files root n = Inr e"
  shows "ix_path e = n \<and> true_entry m files root e \<and> n \<noteq> [] \<and> n \<noteq> ''.''"
  using assms suffix_plain [of n] unfolding indexed_document_def
  by (auto simp: rbind_eq_Inr true_entry_def read_file_Inr split: if_split_asm)

text \<open>
  An index that the updater wrote passes the verification of its set, whatever the set held: every file but the index and
  the README is listed with its true size and digest.
\<close>

theorem updated_index_passes:
  assumes "update_result_index m source_digest files root = Inr files'"
  shows "is_ok (check_set m files' s root)"
proof -
  let ?names = "sort (filter (\<lambda>n. n \<notin> set index_files) (file_names files root))"
  from assms obtain es where es: "map_r (indexed_document m source_digest files root) ?names = Inr es"
    and files': "files' = write_file (index_of_set root) (Document (index_document (path_name root) es)) files"
    by (auto simp: update_result_index_def rbind_eq_Inr)
  have entry: "ix_path e \<in> set ?names \<and> true_entry m files root e \<and> ix_path e \<noteq> [] \<and> ix_path e \<noteq> ''.''" if "e \<in> set es" for e
    using map_r_elem [OF es that] indexed_document_entry by blast
  have listed: "''index.json'' \<in> set index_files" by (simp add: index_files_def)
  show ?thesis
  proof (rule packaged_set_checked)
    show "map_of files' (index_of_set root) = Some (Document (index_document (path_name root) es))" by (simp add: files')
    show "\<forall>e \<in> set es. true_entry m files' root e \<and> CHR ''/'' \<notin> set (ix_path e) \<and> ix_path e \<noteq> [] \<and> ix_path e \<noteq> ''.''"
    proof
      fix e assume "e \<in> set es"
      note e = entry [OF this]
      then have "ix_path e \<in> set (file_names files root)" "ix_path e \<noteq> ''index.json''" using listed by auto
      then show "true_entry m files' root e \<and> CHR ''/'' \<notin> set (ix_path e) \<and> ix_path e \<noteq> [] \<and> ix_path e \<noteq> ''.''"
        using e file_names_plain by (auto simp: true_entry_def files' index_of_set_def)
    qed
    show "\<forall>n \<in> set (file_names files' root). n \<in> ix_path ` set es \<union> set index_files"
    proof
      fix n assume n: "n \<in> set (file_names files' root)"
      have slash: "CHR ''/'' \<notin> set n" using n by (rule file_names_plain)
      have there: "is_file files' (root @ ''/'' @ n)" by (rule iffD1 [OF file_names_iff [OF slash] n])
      show "n \<in> ix_path ` set es \<union> set index_files"
      proof (cases "n \<in> set index_files")
        case False
        then have "root @ ''/'' @ n \<noteq> index_of_set root" using listed by (auto simp: index_of_set_def)
        then have same: "map_of files' (root @ ''/'' @ n) = map_of files (root @ ''/'' @ n)" unfolding files' map_of_write by (rule if_not_P)
        have "is_file files (root @ ''/'' @ n)" using there unfolding same .
        then have "n \<in> set (file_names files root)" unfolding file_names_iff [OF slash] .
        then have "n \<in> set ?names" using False by simp
        from map_r_at [OF es this] show ?thesis using indexed_document_entry by blast
      qed blast
    qed
  qed simp
qed

subsection \<open>No machine path is published\<close>

definition machine_path :: "string \<Rightarrow> bool" where
  "machine_path s \<longleftrightarrow> list_ex (\<lambda>p. starts_with p s) machine_prefixes"

text \<open>
  No string value begins with a machine prefix, and every key satisfies \<open>P\<close>: \<open>normalize\<close> replaces paths in
  values and leaves keys as they are.
\<close>

fun redacted :: "(string \<Rightarrow> bool) \<Rightarrow> json \<Rightarrow> bool" where
  "redacted P (JStr s) = (\<not> machine_path s)"
| "redacted P (JList vs) = list_all (redacted P) vs"
| "redacted P (JDict kvs) = list_all (\<lambda>(k, v). P k \<and> redacted P v) kvs"
| "redacted P v = True"

text \<open>The keys of all dictionaries of a document.\<close>

fun json_keys :: "json \<Rightarrow> string list" where
  "json_keys (JList vs) = concat (map json_keys vs)"
| "json_keys (JDict kvs) = concat (map (\<lambda>(k, v). k # json_keys v) kvs)"
| "json_keys v = []"

lemma relative_path: "\<not> starts_with ''/'' s \<Longrightarrow> \<not> machine_path s"
  by (auto simp: machine_path_def machine_prefixes_def starts_with_iff)

lemma relative_redacted: "\<not> starts_with ''/'' s \<Longrightarrow> redacted P (JStr s)"
  by (simp add: relative_path)

lemma text_redacted: "c \<noteq> CHR ''/'' \<Longrightarrow> redacted P (JStr (c # s))"
  by (rule relative_redacted) (simp add: starts_with_def)

lemma normalize_redacted: "\<forall>k \<in> set (json_keys v). P k \<Longrightarrow> redacted P (normalize v)"
proof (induction v rule: normalize.induct)
  case (3 s)
  have "redacted P (JStr (''redacted://'' @ t))" for t by (rule relative_redacted) (simp add: starts_with_def)
  then show ?case by (simp add: normalize_string_def machine_path_def Let_def)
qed (auto simp: list_all_iff)

lemma redacted_mono: "redacted P v \<Longrightarrow> (\<And>k. P k \<Longrightarrow> Q k) \<Longrightarrow> redacted Q v"
  by (induction v rule: json_keys.induct) (auto simp: list_all_iff)

definition relative_key :: "string \<Rightarrow> bool" where
  "relative_key k \<longleftrightarrow> \<not> starts_with ''/'' k"

definition clean :: "(string \<Rightarrow> bool) \<Rightarrow> fields \<Rightarrow> bool" where
  "clean P d \<longleftrightarrow> redacted P (JDict d)"

lemma constants_relative:
  "redacted relative_key opening_interpretation" "redacted relative_key max_rate_interpretation"
  "redacted relative_key (JStr opening_scope)" "redacted relative_key (JStr opening_finding)"
  "redacted relative_key (JStr peak_definition)" "redacted relative_key (JStr max_rate_confidence)"
  "redacted relative_key (JStr residual_definition)"
  "redacted relative_key reconciliation_policy" "redacted relative_key burn_policy" "redacted relative_key component_summary"
  "redacted relative_key composite_summary"
  "list_all (\<lambda>n. redacted relative_key (JStr (snd n))) (enumerate 0 breakdown_names)"
  "list_all (\<lambda>(t, n). redacted relative_key (JStr n)) provenance_notes"
  "list_all (\<lambda>n. relative_key (snd n)) opening_renames" "list_all (\<lambda>n. relative_key (snd n)) max_rate_renames"
  by code_simp+

text \<open>
  What the corrections of the labels keep, for any condition on the keys that every key without a leading slash meets.
\<close>

locale key_rule =
  fixes P :: "string \<Rightarrow> bool"
  assumes relative: "relative_key k \<Longrightarrow> P k"
begin

lemma text_key [simp, intro]: "c \<noteq> CHR ''/'' \<Longrightarrow> P (c # s)"
  by (rule relative) (simp add: relative_key_def starts_with_def)

lemma from_relative: "redacted relative_key v \<Longrightarrow> redacted P v"
  using redacted_mono relative by blast

lemmas constants_redacted = constants_relative(1-11) [THEN from_relative]

lemma breakdown_names_redacted: "list_all (\<lambda>n. redacted P (JStr (snd n))) (enumerate 0 breakdown_names)"
  using constants_relative(12) unfolding list_all_iff by (metis from_relative)

lemma notes_redacted: "list_all (\<lambda>(t, n). redacted P (JStr n)) provenance_notes"
  using constants_relative(13) unfolding list_all_iff case_prod_unfold by (metis from_relative)

lemma renames_relative: "\<forall>n \<in> set opening_renames. P (snd n)" "\<forall>n \<in> set max_rate_renames. P (snd n)"
  using constants_relative(14,15) relative unfolding list_all_iff by blast+

lemma clean_update [intro]: "clean P d \<Longrightarrow> P k \<Longrightarrow> redacted P v \<Longrightarrow> clean P (AList.update k v d)"
  unfolding clean_def by (induction d) auto

lemma clean_set [intro]: "clean P d \<Longrightarrow> P k \<Longrightarrow> redacted P v \<Longrightarrow> clean P (set_key k v d)"
  unfolding set_key_def by (rule clean_update)

lemma clean_delete: "clean P d \<Longrightarrow> clean P (AList.delete k d)"
  unfolding clean_def by (induction d) auto

lemma clean_member: "clean P d \<Longrightarrow> map_of d k = Some v \<Longrightarrow> P k \<and> redacted P v"
  unfolding clean_def by (induction d) (auto split: if_split_asm)

lemma clean_rename [intro]: "clean P d \<Longrightarrow> P (snd n) \<Longrightarrow> clean P (rename_key d n)"
  unfolding rename_key_def by (auto split: option.split intro: clean_update clean_delete dest: clean_member)

lemma clean_renames [intro]: "clean P d \<Longrightarrow> \<forall>n \<in> set ns. P (snd n) \<Longrightarrow> clean P (foldl rename_key d ns)"
  by (induction ns arbitrary: d) (simp_all add: clean_rename)

lemma clean_change:
  assumes "change_member k f d = Inr d'" and "clean P d" and "\<And>x y. f x = Inr y \<Longrightarrow> clean P x \<Longrightarrow> clean P y"
  shows "clean P d'"
proof -
  from assms(1) obtain x y where x: "map_of d k = Some (JDict x)" and y: "f x = Inr y" and d': "d' = AList.update k (JDict y) d"
    unfolding change_member_def by (auto simp: rbind_eq_Inr split: option.splits json.splits)
  have "clean P x" using clean_member [OF assms(2) x] by (simp add: clean_def)
  from assms(3) [OF y this] show ?thesis
    unfolding d' using assms(2) clean_member [OF assms(2) x] by (intro clean_update) (simp_all only: clean_def)
qed

lemma redacted_included: "list_all (\<lambda>n. \<not> starts_with ''/'' n) names \<Longrightarrow> redacted P (included_components names)"
  using relative_redacted by (auto simp: included_components_def list_all_iff)

lemma named_items_redacted:
  "fold_r name_item vs ns = Inr ws \<Longrightarrow> list_all (redacted P) vs \<Longrightarrow> list_all (\<lambda>n. redacted P (JStr (snd n))) ns \<Longrightarrow> list_all (redacted P) ws"
proof (induction ns arbitrary: vs)
  case (Cons n ns)
  from Cons.prems(1) obtain us where us: "name_item vs n = Inr us" and rest: "fold_r name_item us ns = Inr ws" by (auto simp: rbind_eq_Inr)
  from us obtain d where at: "fst n < length vs" "vs ! fst n = JDict d" and us': "us = vs[fst n := JDict (set_key ''name'' (JStr (snd n)) d)]"
    unfolding name_item_def by (auto split: if_split_asm json.splits)
  have "clean P d" using Cons.prems(2) at by (simp only: clean_def) (metis list_all_length)
  then have "redacted P (JDict (set_key ''name'' (JStr (snd n)) d))" using Cons.prems(3) unfolding clean_def [symmetric] by auto
  then have "list_all (redacted P) us" using Cons.prems(2) unfolding us' list_all_iff by (auto dest!: set_update_subset_insert [THEN subsetD])
  then show ?case using Cons.IH [OF rest] Cons.prems(3) by simp
qed simp

lemma opening_redacted: "clean P d \<Longrightarrow> clean P (correct_opening d)"
  unfolding correct_opening_def by (intro clean_set clean_renames constants_redacted renames_relative text_key) simp_all

lemma breakdown_redacted: "name_breakdown d = Inr d' \<Longrightarrow> clean P d \<Longrightarrow> clean P d'"
  unfolding name_breakdown_def
  by (auto simp: rbind_eq_Inr split: option.splits json.splits intro!: clean_set dest!: named_items_redacted dest: clean_member
      intro: breakdown_names_redacted)

lemma max_rate_redacted: "correct_max_rate d = Inr d' \<Longrightarrow> clean P d \<Longrightarrow> clean P d'"
  unfolding correct_max_rate_def
  by (auto simp: rbind_eq_Inr intro!: clean_set clean_renames renames_relative constants_redacted dest!: breakdown_redacted)

lemma cross_shard_redacted: "cross_shard_component_names d = Inr names \<Longrightarrow> list_all (\<lambda>n. \<not> starts_with ''/'' n) names"
  by (auto simp: cross_shard_component_names_def Let_def rbind_eq_Inr starts_with_def list_all_iff split: if_split_asm)

lemma reconciliation_redacted:
  assumes run: "correct_reconciliation d = Inr d'" and "clean P d"
  shows "clean P d'"
proof -
  obtain old_name where old: "''known_unauthorized_gross_creation'' = old_name" by blast
  from run obtain names d1 d2 where names: "cross_shard_component_names d = Inr names"
    and one: "change_member ''known_unauthorized_peak_claim_inflation'' (\<lambda>peak.
         Inr (set_key ''includes'' (included_components ([''december_2023_repeated_undelegation_mint'',
             ''post_2023_max_rate_activation_inclusive_peak_duplicated_claim_exposure''] @ names))
           (set_key ''definition'' (JStr peak_definition) peak)))
       (rename_key d (''known_unauthorized_gross_creation'', ''known_unauthorized_peak_claim_inflation'')) = Inr d1"
    and two: "change_member ''known_unauthorized_net_cutoff_component'' (\<lambda>net.
         Inr (set_key ''includes'' (included_components ([''december_2023_repeated_undelegation_mint'',
             ''post_2023_max_rate_net_effect_at_cleanup''] @ names)) net)) d1 = Inr d2"
    and three: "change_member ''post_2023_max_rate'' correct_max_rate d2 = Inr d'"
    unfolding correct_reconciliation_def by (elim rbind_E) blast
  have included: "redacted P (included_components ([''december_2023_repeated_undelegation_mint'', other] @ names))" if "\<not> starts_with ''/'' other" for other
    using that cross_shard_redacted [OF names] by (intro redacted_included) (auto simp: starts_with_def)
  have "clean P d1"
    by (rule clean_change [OF one clean_rename [OF assms(2)]])
      (use included [of "''post_2023_max_rate_activation_inclusive_peak_duplicated_claim_exposure''"]
        in \<open>auto simp: starts_with_def simp del: redacted.simps intro!: clean_set constants_redacted\<close>)
  then have "clean P d2"
    by (rule clean_change [OF two])
      (use included [of "''post_2023_max_rate_net_effect_at_cleanup''"] in \<open>auto simp: starts_with_def simp del: redacted.simps\<close>)
  then show ?thesis by (rule clean_change [OF three]) (rule max_rate_redacted)
qed

lemma labels_redacted: "correct_max_rate_labels d t = Inr d' \<Longrightarrow> clean P d \<Longrightarrow> clean P d'"
  unfolding correct_max_rate_labels_def Let_def using opening_redacted reconciliation_redacted by (auto split: if_split_asm)

lemma summaries_redacted: "clean P d \<Longrightarrow> clean P (add_summaries d)"
  unfolding add_summaries_def by (intro clean_set constants_redacted text_key) simp_all

lemma policy_redacted:
  assumes run: "correct_migration_policy_labels d t = Inr d'" and "clean P d"
  shows "clean P d'"
proof (cases "t = ''reconciliation.json''")
  case True
  with run obtain e where one: "change_member ''historical_treasury_routing_inventory'' (\<lambda>historical.
             Inr (set_key ''current_treatment'' (JStr ''the reviewed amount is not issued on the replacement chain'')
               (set_key ''policy_status'' (JStr ''superseded'') historical)))
             (rename_key d (''treasury_reclaim_inventory'', ''historical_treasury_routing_inventory'')) = Inr e"
    and d': "d' = set_key ''migration_non_issuance_policy'' reconciliation_policy e"
    by (auto simp: correct_migration_policy_labels_def rbind_eq_Inr simp del: redacted.simps)
  have "clean P e" by (rule clean_change [OF one clean_rename [OF assms(2)]]) (auto simp del: redacted.simps intro!: clean_set text_redacted)
  then show ?thesis unfolding d' by (intro clean_set constants_redacted text_key) simp_all
next
  case False
  then show ?thesis using assms unfolding correct_migration_policy_labels_def
    by (auto split: if_split_asm simp del: redacted.simps intro!: clean_set clean_rename summaries_redacted text_redacted constants_redacted)
qed

lemma note_redacted: "redacted P (JStr (get_or (map_of provenance_notes) t []))"
proof (cases "map_of provenance_notes t")
  case None
  then show ?thesis using relative_redacted [of "[]"] by (simp add: get_or_def starts_with_def del: redacted.simps)
next
  case (Some n)
  then have "(t, n) \<in> set provenance_notes" by (rule map_of_SomeD)
  then show ?thesis using notes_redacted Some by (auto simp: get_or_def list_all_iff simp del: redacted.simps)
qed

lemma packaged_document_redacted:
  assumes run: "packaged_document t cls n h v = Inr kvs" and keys: "\<forall>k \<in> set (json_keys v). P k"
    and "redacted P (JStr cls)" "redacted P (JStr n)" "redacted P (JStr h)"
  shows "redacted P (JDict kvs)"
proof -
  from run obtain d d1 d2 where d: "normalize v = JDict d" and one: "correct_max_rate_labels d t = Inr d1"
    and two: "correct_migration_policy_labels d1 t = Inr d2" and kvs: "kvs = set_key ''_provenance'' (provenance cls n h t) d2"
    unfolding packaged_document_def by (auto simp: rbind_eq_Inr split: json.splits)
  have "clean P d" using normalize_redacted [OF keys] unfolding d clean_def .
  then have "clean P d2" using labels_redacted [OF one] policy_redacted [OF two] by blast
  moreover have "redacted P (JStr (normalization_text t))" unfolding normalization_text_def append.simps by (rule text_redacted) simp
  then have "redacted P (provenance cls n h t)" using assms(3-5) note_redacted [of t] by (simp add: provenance_def)
  ultimately show ?thesis unfolding clean_def [symmetric] kvs by (intro clean_set text_key) simp_all
qed

end

interpretation any_key: key_rule "\<lambda>_. True"
  by unfold_locales simp

interpretation source_key: key_rule "\<lambda>k. \<not> machine_path k \<or> k \<in> K" for K
  by unfold_locales (simp add: relative_key_def relative_path)

lemma packaged_elsewhere:
  assumes "fold_r (package_one m output ow) st mps = Inr st'" and "\<forall>t \<in> set (map target_of mps). p \<noteq> output @ ''/'' @ t"
  shows "map_of (fst st') p = map_of (fst st) p"
  using assms
proof (induction mps arbitrary: st)
  case (Cons mp mps)
  obtain files es where st: "st = (files, es)" by (cases st)
  from Cons.prems(1) obtain st1 where one: "package_one m output ow (files, es) mp = Inr st1"
    and rest: "fold_r (package_one m output ow) st1 mps = Inr st'" unfolding st by (auto simp: rbind_eq_Inr)
  from package_one_step [OF one] Cons.prems(2) have "map_of (fst st1) p = map_of files p" by auto
  then show ?case using Cons.IH [OF rest] Cons.prems(2) by (simp add: st)
qed simp

text \<open>Every packaged file was written by its own step.\<close>

lemma packaged_by:
  assumes "fold_r (package_one m output ow) st mps = Inr (files', es')" and "distinct (map target_of mps)" and "mp \<in> set mps"
  shows "\<exists>st0 files1 es1. package_one m output ow st0 mp = Inr (files1, es1)
    \<and> map_of files' (output @ ''/'' @ target_of mp) = map_of files1 (output @ ''/'' @ target_of mp)
    \<and> ((\<forall>t \<in> set (map target_of mps). p \<noteq> output @ ''/'' @ t) \<longrightarrow> map_of (fst st0) p = map_of (fst st) p)"
  using assms
proof (induction mps arbitrary: st)
  case (Cons q mps)
  from Cons.prems(1) obtain files1 es1 where one: "package_one m output ow st q = Inr (files1, es1)"
    and rest: "fold_r (package_one m output ow) (files1, es1) mps = Inr (files', es')" by (auto simp: rbind_eq_Inr)
  show ?case
  proof (cases "mp \<in> set mps")
    case True
    have "package_one m output ow (fst st, snd st) q = Inr (files1, es1)" using one by simp
    from package_one_step [OF this] have first: "p \<noteq> output @ ''/'' @ target_of q \<Longrightarrow> map_of files1 p = map_of (fst st) p"
      by auto
    from Cons.prems(2) have "distinct (map target_of mps)" by simp
    from Cons.IH [OF rest this True] obtain st0 files2 es2 where "package_one m output ow st0 mp = Inr (files2, es2)"
      "map_of files' (output @ ''/'' @ target_of mp) = map_of files2 (output @ ''/'' @ target_of mp)"
      "(\<forall>t \<in> set (map target_of mps). p \<noteq> output @ ''/'' @ t) \<longrightarrow> map_of (fst st0) p = map_of files1 p"
      unfolding fst_conv by blast
    with first show ?thesis by (intro exI [of _ st0] exI [of _ files2] exI [of _ es2]) simp
  next
    case False
    then have q: "q = mp" using Cons.prems(3) by simp
    have "target_of mp \<notin> set (map target_of mps)" using Cons.prems(2) q by simp
    then have apart: "\<forall>t \<in> set (map target_of mps). output @ ''/'' @ target_of mp \<noteq> output @ ''/'' @ t" by auto
    have "map_of files' (output @ ''/'' @ target_of mp) = map_of files1 (output @ ''/'' @ target_of mp)"
      using packaged_elsewhere [OF rest apart] by simp
    then show ?thesis using one q by blast
  qed
qed simp

lemma path_name_plain: "CHR ''/'' \<notin> set (path_name p)"
proof -
  have part: "CHR ''/'' \<notin> set x" if "x \<in> set (split_on CHR ''/'' [] p)" for x using split_on_plain [OF that] by simp
  show ?thesis
  proof (cases "rev (filter (\<lambda>p. p \<noteq> [] \<and> p \<noteq> ''.'') (split_on CHR ''/'' [] p))")
    case (Cons q qs)
    have "q \<in> set (rev (filter (\<lambda>p. p \<noteq> [] \<and> p \<noteq> ''.'') (split_on CHR ''/'' [] p)))" unfolding Cons by simp
    then have "q \<in> set (split_on CHR ''/'' [] p)" by simp
    then show ?thesis unfolding path_name_def Cons list.case by (rule part)
  qed (simp add: path_name_def)
qed

lemma result_classes:
  assumes "all_mappings files accounting = Inr mps" and "(source, name, classification) \<in> set mps"
  shows "\<not> starts_with ''/'' classification"
proof -
  have "(source, name, classification) \<in> set (result_mappings accounting
        (accounting @ ''/artifacts/supply-reconciliation-20260911'') (accounting @ ''/artifacts/cutoff-20260910'')
      @ source_audit_mappings (accounting @ ''/artifacts/supply-reconciliation-20260911''))"
    using assms by (auto simp: all_mappings_def Let_def rbind_eq_Inr split: if_split_asm dest: in_set_takeD in_set_dropD)
  then have "classification \<in> set (map (snd \<circ> snd) (result_mappings [] [] [] @ source_audit_mappings []))"
    by (auto simp: result_mappings_def source_audit_mappings_def)
  moreover have "list_all (\<lambda>c. \<not> starts_with ''/'' c) (map (snd \<circ> snd) (result_mappings [] [] [] @ source_audit_mappings []))"
    by code_simp
  ultimately show ?thesis unfolding list_all_iff by blast
qed

text \<open>
  C19. Machine paths in the packaged results. Every JSON document is published with no string value, at any depth, that begins
  with one of the four prefixes, although labels were renamed and fields added after the paths were replaced. The keys of
  dictionaries are not rewritten: when the source is not itself a file of the output directory, a key of the published
  document begins with a prefix only if the source document has that key.
\<close>

theorem packaged_documents_redacted:
  assumes run: "package_results m files accounting output ow = Inr files'" and mps: "all_mappings files accounting = Inr mps"
    and mp: "(source, name, classification) \<in> set mps" "ends_with ''.json'' source"
    and digest: "\<forall>c. \<not> starts_with ''/'' (digest_of m c)"
  shows "\<exists>kvs. map_of files' (output @ ''/'' @ name) = Some (Document (JDict kvs)) \<and> redacted (\<lambda>_. True) (JDict kvs)
    \<and> (\<forall>v. map_of files source = Some (Document v) \<and> (\<forall>t \<in> set (map target_of mps). source \<noteq> output @ ''/'' @ t)
          \<longrightarrow> redacted (\<lambda>k. \<not> machine_path k \<or> k \<in> set (json_keys v)) (JDict kvs))"
proof -
  from run mps obtain mid es where fold: "fold_r (package_one m output ow) (files, []) mps = Inr (mid, es)"
    and files': "files' = write_file (output @ ''/index.json'') (Document (index_document ''2026-09-11'' (sort_key ix_path es))) mid"
    by (auto simp: package_results_def Let_def rbind_eq_Inr)
  note names = result_names [OF mps]
  have target: "target_of (source, name, classification) = name" by (simp add: target_of_def)
  from packaged_by [OF fold _ mp(1), of source] names obtain st0 files1 es1 where one: "package_one m output ow st0 (source, name, classification) = Inr (files1, es1)"
    and same: "map_of mid (output @ ''/'' @ name) = map_of files1 (output @ ''/'' @ name)"
    and kept: "(\<forall>t \<in> set (map target_of mps). source \<noteq> output @ ''/'' @ t) \<longrightarrow> map_of (fst st0) source = map_of files source"
    unfolding target fst_conv by blast
  have "name \<in> set (map target_of mps)" using imageI [OF mp(1), of target_of] unfolding target by simp
  then have "name \<noteq> ''index.json''" using names by blast
  then have here: "map_of files' (output @ ''/'' @ name) = map_of files1 (output @ ''/'' @ name)" using same by (simp add: files')
  from one mp(2) obtain w kvs where doc: "packaged_document name classification (path_name source) (digest_of m (Document w)) w = Inr kvs"
    and written: "files1 = write_file (output @ ''/'' @ name) (Document (JDict kvs)) (fst st0)"
    and read: "map_of (fst st0) source = Some (Document w)"
    unfolding package_one_def Let_def case_prod_unfold
    by (auto simp: rbind_eq_Inr read_file_def document_of_def split: option.splits content.splits)
  have c: "redacted P (JStr classification)" for P using result_classes [OF mps mp(1)] by (rule relative_redacted)
  have "\<not> starts_with ''/'' (path_name source)" using path_name_plain [of source] by (auto simp: starts_with_iff)
  then have n: "redacted P (JStr (path_name source))" for P by (rule relative_redacted)
  have h: "redacted P (JStr (digest_of m (Document w)))" for P using digest by (intro relative_redacted) blast
  have "redacted (\<lambda>_. True) (JDict kvs)" by (rule any_key.packaged_document_redacted [OF doc _ c n h]) simp
  moreover have "redacted (\<lambda>k. \<not> machine_path k \<or> k \<in> set (json_keys w)) (JDict kvs)"
    by (rule source_key.packaged_document_redacted [OF doc _ c n h]) simp
  moreover have "map_of files' (output @ ''/'' @ name) = Some (Document (JDict kvs))" using here written by simp
  ultimately show ?thesis using kept read by auto
qed

subsection \<open>Witnesses\<close>

definition example_reconciliation :: json where
  "example_reconciliation = JDict [(''components'', JList [JDict [(''name'', JStr ''proven_cross_shard_rollback_leakage'')]]),
     (''known_unauthorized_gross_creation'', JDict []), (''known_unauthorized_net_cutoff_component'', JDict []),
     (''post_2023_max_rate'', JDict [(''gross_duplicate_payout_breakdown'', JList [JDict [], JDict [], JDict []])]),
     (''treasury_reclaim_inventory'', JDict [(''path'', JStr ''/Users/x/y''), (''/data/z'', JNull)])]"

definition example_mappings :: "(string \<times> string \<times> string) list" where
  "example_mappings = result_mappings ''a'' (''a'' @ ''/artifacts/supply-reconciliation-20260911'') (''a'' @ ''/artifacts/cutoff-20260910'')"

definition example_content :: "string \<times> string \<times> string \<Rightarrow> content" where
  "example_content mp = (if target_of mp = ''reconciliation.json'' then Document example_reconciliation
     else if ends_with ''.json'' (fst mp) then Document (JDict []) else Raw ''x'')"

definition example_accounting :: tree where
  "example_accounting = (''results/README.md'', Raw ''x'') # map (\<lambda>mp. (fst mp, example_content mp)) example_mappings"

lemma example_all_mappings: "all_mappings example_accounting ''a'' = Inr example_mappings"
  by code_simp

lemma example_sources_at: "distinct (map fst example_mappings)"
  "list_all (\<lambda>a. starts_with ''a/'' (fst a) \<and> \<not> ends_with ''.partial'' (target_of a)) example_mappings"
  by code_simp+

lemma example_file: "is_file example_accounting p \<Longrightarrow> p = ''results/README.md'' \<or> starts_with ''a/'' p"
proof -
  assume "is_file example_accounting p"
  then have "p \<in> set (keys example_accounting)" unfolding set_keys by simp
  also have "set (keys example_accounting) = insert ''results/README.md'' (fst ` set example_mappings)"
    unfolding example_accounting_def by (simp add: image_image)
  finally show ?thesis using example_sources_at(2) by (auto simp: list_all_iff)
qed

lemma example_packageable:
  assumes "mp \<in> set example_mappings"
  shows "packageable example_accounting mp"
proof -
  have "starts_with ''a/'' (fst mp)" using example_sources_at(2) assms by (auto simp: list_all_iff)
  then have "fst mp \<noteq> ''results/README.md''" by (auto simp: starts_with_def)
  moreover have "map_of (map (\<lambda>mp. (fst mp, example_content mp)) example_mappings) (fst mp) = Some (example_content mp)"
    by (rule map_of_is_SomeI) (use example_sources_at(1) assms in \<open>auto simp: comp_def\<close>)
  ultimately have "map_of example_accounting (fst mp) = Some (example_content mp)" by (simp add: example_accounting_def)
  moreover have "is_ok (packaged_document t cls n h (JDict []))" if "t \<noteq> ''reconciliation.json''" for t cls n h
    using that by (simp add: packaged_document_def correct_max_rate_labels_def correct_migration_policy_labels_def Let_def)
  moreover have "is_ok (packaged_document ''reconciliation.json'' cls n h example_reconciliation)" for cls n h
    by code_simp
  ultimately show ?thesis by (simp add: packageable_def example_content_def)
qed

lemma example_packaged: "\<exists>files. package_results m example_accounting ''a'' ''results/2026-09-11'' False = Inr files"
proof -
  obtain root where root: "''results/2026-09-11'' = root" by blast
  have fresh: "map_of example_accounting (root @ s) = None" if "s \<noteq> []" for s
    using example_file [of "root @ s"] that by (cases "map_of example_accounting (root @ s)") (auto simp: starts_with_iff simp flip: root)
  have parts: "map_of example_accounting (partial_path (root @ ''/'' @ n)) = None" for n
    using fresh [of "''/'' @ n @ ''.partial''"] by (simp add: partial_path_def)
  have apart: "fst a \<noteq> root @ ''/'' @ target_of b \<and> partial_path (target_of a) \<noteq> target_of b"
    if "a \<in> set example_mappings" "b \<in> set example_mappings" for a b
  proof
    have "starts_with ''a/'' (fst a)" "\<not> ends_with ''.partial'' (target_of b)" using example_sources_at(2) that by (auto simp: list_all_iff)
    moreover have "\<not> starts_with ''a/'' (root @ ''/'' @ target_of b)" by (auto simp: starts_with_iff simp flip: root)
    ultimately show "fst a \<noteq> root @ ''/'' @ target_of b" by (metis (no_types))
    have "ends_with ''.partial'' (partial_path (target_of a))" by (simp add: ends_with_def partial_path_def)
    with \<open>\<not> ends_with ''.partial'' (target_of b)\<close> show "partial_path (target_of a) \<noteq> target_of b" by (metis (no_types))
  qed
  have "distinct (map target_of example_mappings)" using result_names [OF example_all_mappings] by blast
  then have "is_ok (fold_r (package_one m root False) (example_accounting, []) example_mappings)"
    using example_packageable fresh apart parts by (intro package_run_ok) auto
  then obtain files es where run: "fold_r (package_one m root False) (example_accounting, []) example_mappings = Inr (files, es)"
    by (auto simp: is_ok_iff)
  from packaged_run [OF run] \<open>distinct (map target_of example_mappings)\<close>
  have "\<forall>p. (\<forall>t \<in> set (map target_of example_mappings). p \<noteq> root @ ''/'' @ t) \<longrightarrow> map_of files p = map_of example_accounting p" by simp
  moreover have "partial_path (root @ ''/index.json'') \<noteq> root @ ''/'' @ t" if "t \<in> set (map target_of example_mappings)" for t
  proof -
    have "\<not> ends_with ''.partial'' t" using example_sources_at(2) that by (auto simp: list_all_iff)
    moreover have "ends_with ''.partial'' ''index.json.partial''" by code_simp
    ultimately have "t \<noteq> ''index.json.partial''" by (metis (no_types))
    then show ?thesis by (auto simp: partial_path_def)
  qed
  ultimately have "map_of files (partial_path (root @ ''/index.json'')) = None" using fresh [of "partial_path ''/index.json''"] by (simp add: partial_path_def)
  then show ?thesis unfolding root package_results_def example_all_mappings by (simp add: run Let_def raise_if_def)
qed

lemma packaged_results_verify_witness:
  "\<exists>files files' r. package_results example_measures example_accounting ''a'' ''results/2026-09-11'' False = Inr files
     \<and> update_results_manifest example_measures files = Inr files' \<and> verify_results example_measures files' ''results'' None = Inr r"
proof -
  from example_packaged [of example_measures] obtain files where run: "package_results example_measures example_accounting ''a'' ''results/2026-09-11'' False = Inr files" ..
  have empty: "file_names example_accounting ''results/2026-09-11'' = []" "dated_sets example_accounting ''results'' = []" by code_simp+
  have "is_file example_accounting ''results/README.md''" "\<not> is_file example_accounting (partial_path RESULTS_MANIFEST)"
    "list_all (\<lambda>p. one_line p) (keys example_accounting)" by code_simp+
  with packaged_results_verify [OF run example_all_mappings] empty example_plain run show ?thesis
    unfolding list_all_iff by (metis empty_iff list.set(1))
qed

text \<open>A set with one document and its README.\<close>

definition example_one_set :: tree where
  "example_one_set = [(''r/2026/README.md'', Raw ''x''),
     (''r/2026/a.json'', Document (JDict [(''_provenance'', JDict [(''classification'', JStr ''RPC-derived'')])]))]"

lemma updated_index_passes_witness:
  "\<exists>files. update_result_index example_measures (\<lambda>_. ''s'') example_one_set ''r/2026'' = Inr files
     \<and> is_ok (check_set example_measures files ([], 0) ''r/2026'')"
proof -
  have "is_ok (update_result_index example_measures (\<lambda>_. ''s'') example_one_set ''r/2026'')" by code_simp
  then obtain files where u: "update_result_index example_measures (\<lambda>_. ''s'') example_one_set ''r/2026'' = Inr files"
    by (auto simp: is_ok_iff)
  with updated_index_passes [OF u] show ?thesis by blast
qed

lemma packaged_documents_redacted_witness:
  "\<exists>files kvs. package_results (example_measures\<lparr>digest_of := (\<lambda>_. ''ab'')\<rparr>) example_accounting ''a'' ''results/2026-09-11'' False = Inr files
     \<and> map_of files (''results/2026-09-11'' @ ''/'' @ ''reconciliation.json'') = Some (Document (JDict kvs))
     \<and> redacted (\<lambda>k. \<not> machine_path k \<or> k \<in> set (json_keys example_reconciliation)) (JDict kvs)"
proof -
  let ?m = "example_measures\<lparr>digest_of := (\<lambda>_. ''ab'')\<rparr>"
  from example_packaged [of ?m] obtain files where run: "package_results ?m example_accounting ''a'' ''results/2026-09-11'' False = Inr files" ..
  have "hd example_mappings \<in> set example_mappings" by (simp add: example_mappings_def result_mappings_def)
  then have mp: "(''a/artifacts/supply-reconciliation-20260911/reconciliation.json'', ''reconciliation.json'', ''curated external evidence'')
      \<in> set example_mappings" by (simp add: example_mappings_def result_mappings_def)
  have "ends_with ''.json'' ''a/artifacts/supply-reconciliation-20260911/reconciliation.json''" by code_simp
  moreover have "\<not> starts_with ''/'' (digest_of ?m c)" for c by (simp add: starts_with_def)
  moreover have "map_of example_accounting ''a/artifacts/supply-reconciliation-20260911/reconciliation.json'' = Some (Document example_reconciliation)"
    by code_simp
  moreover have "''a/artifacts/supply-reconciliation-20260911/reconciliation.json'' \<noteq> ''results/2026-09-11'' @ ''/'' @ t" for t by simp
  ultimately show ?thesis using packaged_documents_redacted [OF run example_all_mappings mp] run by blast
qed

end
