(* ===== verification/Output.thy ===== *)
theory Output
  imports Filetree
begin

section \<open>How the scripts publish a file\<close>

text \<open>
  Almost every script writes its output to \<open>path.partial\<close>, opened exclusively, and renames it to \<open>path\<close> when it is complete. The
  output step of each script is a list of operations here, with the files its exception handler removes. Any number of runs
  of a script work on one directory at once; a run may raise or be killed between any two operations and between any two
  characters written. A name refers to an inode, so that a run goes on writing to a file that another one renamed or removed.
\<close>

subsection \<open>Operations\<close>

datatype file_op =
    RaiseIfExists string
  | CreateNew string
  | WriteAll string
  | Rename string string

record output_script =
  os_ops :: "file_op list"
  os_cleanup :: "string list"

definition write_partial :: "string \<Rightarrow> file_op list" where
  "write_partial path = [CreateNew (partial_path path), WriteAll (partial_path path), Rename (partial_path path) path]"

definition refuse_existing :: "string \<Rightarrow> file_op list" where
  "refuse_existing path = [RaiseIfExists path, RaiseIfExists (partial_path path)]"

subsection \<open>The scripts\<close>

text \<open>\<open>write_text\<close>, \<open>write_atomic\<close>, \<open>write_csv\<close> and \<open>write_json\<close> with their option to replace.\<close>

definition replaceable_ops :: "bool \<Rightarrow> string \<Rightarrow> file_op list" where
  "replaceable_ops replace path = RaiseIfExists (partial_path path) # (if replace then [] else [RaiseIfExists path]) @ write_partial path"

definition policy_output :: "bool \<Rightarrow> string \<Rightarrow> output_script" where
  "policy_output replace path = \<lparr>os_ops = replaceable_ops replace path, os_cleanup = []\<rparr>"

definition retention_file_output :: "bool \<Rightarrow> string \<Rightarrow> output_script" where
  "retention_file_output replace path = \<lparr>os_ops = replaceable_ops replace path, os_cleanup = []\<rparr>"

definition inventory_csv_output :: "bool \<Rightarrow> string \<Rightarrow> output_script" where
  "inventory_csv_output replace path = \<lparr>os_ops = replaceable_ops replace path, os_cleanup = []\<rparr>"

definition inventory_json_output :: "bool \<Rightarrow> string \<Rightarrow> output_script" where
  "inventory_json_output replace path = \<lparr>os_ops = replaceable_ops replace path, os_cleanup = []\<rparr>"

text \<open>\<open>write_json\<close> of the verifying scripts: it prints when there is no path, and replaces silently.\<close>

definition optional_output :: "string option \<Rightarrow> output_script" where
  "optional_output path = (case path of
     None \<Rightarrow> \<lparr>os_ops = [], os_cleanup = []\<rparr>
   | Some p \<Rightarrow> \<lparr>os_ops = RaiseIfExists (partial_path p) # write_partial p, os_cleanup = []\<rparr>)"

definition closure_output :: "string option \<Rightarrow> output_script" where
  "closure_output = optional_output"

definition formula_output :: "string option \<Rightarrow> output_script" where
  "formula_output = optional_output"

definition shard1_output :: "string option \<Rightarrow> output_script" where
  "shard1_output = optional_output"

text \<open>Scripts that never replace.\<close>

definition source_summary_output :: "string \<Rightarrow> output_script" where
  "source_summary_output path = \<lparr>os_ops = refuse_existing path @ write_partial path, os_cleanup = []\<rparr>"

definition destination_output :: "string \<Rightarrow> output_script" where
  "destination_output path = \<lparr>os_ops = refuse_existing path @ write_partial path, os_cleanup = []\<rparr>"

definition pending_output :: "string \<Rightarrow> output_script" where
  "pending_output path = \<lparr>os_ops = refuse_existing path @ write_partial path, os_cleanup = []\<rparr>"

definition state_diff_output :: "string \<Rightarrow> output_script" where
  "state_diff_output path = \<lparr>os_ops = refuse_existing path @ write_partial path, os_cleanup = []\<rparr>"

definition created_file_output :: "string \<Rightarrow> string \<Rightarrow> output_script" where
  "created_file_output path summary = \<lparr>os_ops = refuse_existing path @ refuse_existing summary @ write_partial path @ write_partial summary,
     os_cleanup = []\<rparr>"

definition flow_output :: "string \<Rightarrow> string \<Rightarrow> string \<Rightarrow> output_script" where
  "flow_output transactions edges summary = \<lparr>os_ops = refuse_existing transactions @ refuse_existing edges @ refuse_existing summary
     @ write_partial transactions @ write_partial edges @ write_partial summary, os_cleanup = []\<rparr>"

text \<open>Scripts whose handler removes the partial files, whoever made them.\<close>

definition ledger_output :: "string \<Rightarrow> string \<Rightarrow> output_script" where
  "ledger_output path summary = \<lparr>os_ops = refuse_existing path @ refuse_existing summary @ write_partial path @ write_partial summary,
     os_cleanup = [partial_path path, partial_path summary]\<rparr>"

definition blacklist_output :: "string \<Rightarrow> string \<Rightarrow> output_script" where
  "blacklist_output path summary = \<lparr>os_ops = refuse_existing path @ refuse_existing summary @ write_partial path @ write_partial summary,
     os_cleanup = [partial_path path, partial_path summary]\<rparr>"

definition mint_output :: "string option \<Rightarrow> output_script" where
  "mint_output path = (case path of
     None \<Rightarrow> \<lparr>os_ops = [], os_cleanup = []\<rparr>
   | Some p \<Rightarrow> \<lparr>os_ops = refuse_existing p @ write_partial p, os_cleanup = [partial_path p]\<rparr>)"

definition interval_output :: "string \<Rightarrow> string \<Rightarrow> string \<Rightarrow> output_script" where
  "interval_output material transactions summary =
     \<lparr>os_ops = refuse_existing material @ refuse_existing transactions @ refuse_existing summary
        @ [CreateNew (partial_path material), CreateNew (partial_path transactions), WriteAll (partial_path material),
           WriteAll (partial_path transactions), Rename (partial_path material) material,
           Rename (partial_path transactions) transactions] @ write_partial summary,
      os_cleanup = [partial_path material, partial_path transactions, partial_path summary]\<rparr>"

subsection \<open>Runs on one directory\<close>

datatype run_status = Running | Cleaning "string list" | Ended

record run =
  rn_todo :: "file_op list"
  rn_handles :: "string \<rightharpoonup> nat"
  rn_written :: "string \<Rightarrow> nat"
  rn_status :: run_status

record directory =
  dr_names :: "string \<rightharpoonup> nat"
  dr_content :: "nat \<Rightarrow> string"
  dr_next :: nat
  dr_runs :: "nat \<Rightarrow> run"

definition new_run :: "output_script \<Rightarrow> run" where
  "new_run sc = \<lparr>rn_todo = os_ops sc, rn_handles = Map.empty, rn_written = (\<lambda>_. 0), rn_status = Running\<rparr>"

definition set_run :: "nat \<Rightarrow> run \<Rightarrow> directory \<Rightarrow> directory" where
  "set_run i r w = w\<lparr>dr_runs := (dr_runs w)(i := r)\<rparr>"

text \<open>
  An exception: the handler runs if there is one and the run is in the \<open>try\<close> block, which begins after the checks for existing
  files.
\<close>

definition before_try :: "run \<Rightarrow> bool" where
  "before_try r = (case rn_todo r of RaiseIfExists _ # _ \<Rightarrow> True | _ \<Rightarrow> False)"

definition raised :: "output_script \<Rightarrow> run \<Rightarrow> run" where
  "raised sc r = r\<lparr>rn_status := if before_try r \<or> os_cleanup sc = [] then Ended else Cleaning (os_cleanup sc)\<rparr>"

text \<open>The next operation of run \<open>i\<close>, which writes \<open>full i p\<close> to \<open>p\<close>, one character at a time.\<close>

fun operate :: "output_script \<Rightarrow> (string \<Rightarrow> string) \<Rightarrow> nat \<Rightarrow> run \<Rightarrow> directory \<Rightarrow> file_op list \<Rightarrow> directory" where
  "operate sc full i r w [] = set_run i (r\<lparr>rn_status := Ended\<rparr>) w"
| "operate sc full i r w (RaiseIfExists p # os) = set_run i (if dr_names w p \<noteq> None then raised sc r else r\<lparr>rn_todo := os\<rparr>) w"
| "operate sc full i r w (CreateNew p # os) =
     (if dr_names w p \<noteq> None then set_run i (raised sc r) w
      else set_run i (r\<lparr>rn_todo := os, rn_handles := (rn_handles r)(p \<mapsto> dr_next w), rn_written := (rn_written r)(p := 0)\<rparr>)
        (w\<lparr>dr_names := (dr_names w)(p \<mapsto> dr_next w), dr_content := (dr_content w)(dr_next w := []), dr_next := Suc (dr_next w)\<rparr>))"
| "operate sc full i r w (WriteAll p # os) = (case rn_handles r p of
     None \<Rightarrow> set_run i (raised sc r) w
   | Some n \<Rightarrow> if rn_written r p < length (full p)
       then set_run i (r\<lparr>rn_written := (rn_written r)(p := Suc (rn_written r p))\<rparr>)
         (w\<lparr>dr_content := (dr_content w)(n := dr_content w n @ [full p ! rn_written r p])\<rparr>)
       else set_run i (r\<lparr>rn_todo := os\<rparr>) w)"
| "operate sc full i r w (Rename p q # os) = (case dr_names w p of
     None \<Rightarrow> set_run i (raised sc r) w
   | Some n \<Rightarrow> set_run i (r\<lparr>rn_todo := os, rn_handles := (rn_handles r)(p := None)\<rparr>) (w\<lparr>dr_names := (dr_names w)(p := None, q \<mapsto> n)\<rparr>))"

text \<open>What happens next to run \<open>i\<close>: its next operation, an exception, or its death.\<close>

datatype event = Proceed | Raise | Kill

definition happen :: "output_script \<Rightarrow> (nat \<Rightarrow> string \<Rightarrow> string) \<Rightarrow> nat \<Rightarrow> event \<Rightarrow> directory \<Rightarrow> directory" where
  "happen sc full i e w = (let r = dr_runs w i in case (rn_status r, e) of
     (Ended, _) \<Rightarrow> w
   | (_, Kill) \<Rightarrow> set_run i (r\<lparr>rn_status := Ended\<rparr>) w
   | (Running, Proceed) \<Rightarrow> operate sc (full i) i r w (rn_todo r)
   | (Running, Raise) \<Rightarrow> set_run i (raised sc r) w
   | (Cleaning _, Raise) \<Rightarrow> set_run i (r\<lparr>rn_status := Ended\<rparr>) w
   | (Cleaning [], _) \<Rightarrow> set_run i (r\<lparr>rn_status := Ended\<rparr>) w
   | (Cleaning (p # ps), _) \<Rightarrow> set_run i (r\<lparr>rn_status := Cleaning ps\<rparr>) (w\<lparr>dr_names := (dr_names w)(p := None)\<rparr>))"

inductive reachable :: "output_script \<Rightarrow> (nat \<Rightarrow> string \<Rightarrow> string) \<Rightarrow> directory \<Rightarrow> directory \<Rightarrow> bool"
  for sc :: output_script and full :: "nat \<Rightarrow> string \<Rightarrow> string" and start :: directory where
  here: "reachable sc full start start"
| there: "reachable sc full start w \<Longrightarrow> reachable sc full start (happen sc full i e w)"

text \<open>All runs are about to begin; the names of the directory refer to different inodes in use.\<close>

definition starting :: "output_script \<Rightarrow> directory \<Rightarrow> bool" where
  "starting sc w \<longleftrightarrow> (\<forall>i. dr_runs w i = new_run sc) \<and> (\<forall>p n. dr_names w p = Some n \<longrightarrow> n < dr_next w)
     \<and> (\<forall>p q n. dr_names w p = Some n \<and> dr_names w q = Some n \<longrightarrow> p = q)"

definition published :: "directory \<Rightarrow> string \<Rightarrow> string option" where
  "published w p = map_option (dr_content w) (dr_names w p)"

end
