(* ===== verification/OutputProofs.thy ===== *)
theory OutputProofs
  imports Output
begin

section \<open>A published file is complete\<close>

text \<open>
  Without a removing handler the exclusive opening of the partial file is enough: however many runs there are and wherever they
  stop, a final name shows what it showed before or the complete output of one run. With the handler it is not: a run that
  finds the partial file in place removes it, although another run is writing it.
\<close>

subsection \<open>Scripts that create, fill and rename\<close>

definition partials :: "file_op list \<Rightarrow> string list" where
  "partials os = concat (map (\<lambda>x. case x of CreateNew p \<Rightarrow> [p] | _ \<Rightarrow> []) os)"

text \<open>The paths opened and the paths filled so far decide what may come next.\<close>

fun orderly :: "string set \<Rightarrow> string set \<Rightarrow> string set \<Rightarrow> file_op list \<Rightarrow> bool" where
  "orderly P opened filled [] = True"
| "orderly P opened filled (RaiseIfExists p # os) = orderly P opened filled os"
| "orderly P opened filled (CreateNew p # os) = (p \<in> P \<and> p \<notin> opened \<and> orderly P (insert p opened) (filled - {p}) os)"
| "orderly P opened filled (WriteAll p # os) = (p \<in> opened \<and> orderly P opened (insert p filled) os)"
| "orderly P opened filled (Rename p q # os) = (p \<in> opened \<and> p \<in> filled \<and> q \<notin> P \<and> orderly P (opened - {p}) (filled - {p}) os)"

definition careful :: "output_script \<Rightarrow> bool" where
  "careful sc \<longleftrightarrow> orderly (set (partials (os_ops sc))) {} {} (os_ops sc) \<and> os_cleanup sc = []"

subsection \<open>The invariant\<close>

definition opened_by :: "run \<Rightarrow> string set" where
  "opened_by r = (if rn_status r = Running then dom (rn_handles r) else {})"

text \<open>A run has exactly written what its handles show, and its remaining operations are in order.\<close>

definition run_ok :: "string set \<Rightarrow> (string \<Rightarrow> string) \<Rightarrow> directory \<Rightarrow> run \<Rightarrow> bool" where
  "run_ok P full w r \<longleftrightarrow> rn_status r \<noteq> Running \<or> (\<exists>filled. orderly P (dom (rn_handles r)) filled (rn_todo r)
     \<and> (\<forall>p n. rn_handles r p = Some n \<longrightarrow> p \<in> P \<and> dr_names w p = Some n \<and> rn_written r p \<le> length (full p)
          \<and> dr_content w n = take (rn_written r p) (full p) \<and> (p \<in> filled \<longrightarrow> rn_written r p = length (full p))))"

definition names_ok :: "directory \<Rightarrow> bool" where
  "names_ok w \<longleftrightarrow> (\<forall>p n. dr_names w p = Some n \<longrightarrow> n < dr_next w)
     \<and> (\<forall>p q n. dr_names w p = Some n \<and> dr_names w q = Some n \<longrightarrow> p = q)"

definition finals_ok :: "string set \<Rightarrow> output_script \<Rightarrow> (nat \<Rightarrow> string \<Rightarrow> string) \<Rightarrow> directory \<Rightarrow> directory \<Rightarrow> bool" where
  "finals_ok P sc full start w \<longleftrightarrow> (\<forall>q. q \<notin> P \<longrightarrow> published w q = published start q
     \<or> (\<exists>i p. Rename p q \<in> set (os_ops sc) \<and> published w q = Some (full i p)))"

definition sound :: "output_script \<Rightarrow> (nat \<Rightarrow> string \<Rightarrow> string) \<Rightarrow> directory \<Rightarrow> directory \<Rightarrow> bool" where
  "sound sc full start w \<longleftrightarrow> names_ok w \<and> (\<forall>i. run_ok (set (partials (os_ops sc))) (full i) w (dr_runs w i))
     \<and> (\<forall>i j. i \<noteq> j \<longrightarrow> opened_by (dr_runs w i) \<inter> opened_by (dr_runs w j) = {})
     \<and> (\<forall>i. set (rn_todo (dr_runs w i)) \<subseteq> set (os_ops sc))
     \<and> (\<forall>i. \<forall>ps. rn_status (dr_runs w i) \<noteq> Cleaning ps)
     \<and> finals_ok (set (partials (os_ops sc))) sc full start w"

lemma set_run_simps [simp]: "dr_names (set_run i r w) = dr_names w" "dr_content (set_run i r w) = dr_content w"
  "dr_next (set_run i r w) = dr_next w" "dr_runs (set_run i r w) = (dr_runs w)(i := r)"
  by (simp_all add: set_run_def)

lemma names_ok_set_run [simp]: "names_ok (set_run i r w) = names_ok w"
  by (simp add: names_ok_def)

lemma run_ok_set_run [simp]: "run_ok P f (set_run i r w) = run_ok P f w"
  by (simp add: run_ok_def fun_eq_iff)

lemma finals_ok_set_run [simp]: "finals_ok P sc full start (set_run i r w) = finals_ok P sc full start w"
  by (simp add: finals_ok_def published_def fun_eq_iff)

text \<open>A step that touches only the run itself.\<close>

lemma sound_set_run:
  assumes "sound sc full start w" and "run_ok (set (partials (os_ops sc))) (full i) w r"
    and "opened_by r \<subseteq> opened_by (dr_runs w i)" and "set (rn_todo r) \<subseteq> set (os_ops sc)" and "\<forall>ps. rn_status r \<noteq> Cleaning ps"
  shows "sound sc full start (set_run i r w)"
  using assms unfolding sound_def by (auto; blast)

lemma sound_end:
  assumes "sound sc full start w" and "rn_status r = Ended" and "set (rn_todo r) \<subseteq> set (os_ops sc)"
  shows "sound sc full start (set_run i r w)"
  by (rule sound_set_run [OF assms(1)]) (use assms in \<open>simp_all add: run_ok_def opened_by_def\<close>)

lemma sound_raised:
  assumes "sound sc full start w" and "careful sc"
  shows "sound sc full start (set_run i (raised sc (dr_runs w i)) w)"
  by (rule sound_end [OF assms(1)]) (use assms in \<open>simp_all add: raised_def careful_def sound_def\<close>)

lemma run_ok_cong:
  assumes "run_ok P f w r"
    and "\<And>p n. rn_status r = Running \<Longrightarrow> rn_handles r p = Some n \<Longrightarrow> dr_names w p = Some n \<Longrightarrow> dr_names w' p = Some n \<and> dr_content w' n = dr_content w n"
  shows "run_ok P f w' r"
proof (cases "rn_status r = Running")
  case True
  with assms(1) obtain filled where order: "orderly P (dom (rn_handles r)) filled (rn_todo r)"
    and at: "\<forall>p n. rn_handles r p = Some n \<longrightarrow> p \<in> P \<and> dr_names w p = Some n \<and> rn_written r p \<le> length (f p)
          \<and> dr_content w n = take (rn_written r p) (f p) \<and> (p \<in> filled \<longrightarrow> rn_written r p = length (f p))"
    unfolding run_ok_def by blast
  from at assms(2) [OF True] have "\<forall>p n. rn_handles r p = Some n \<longrightarrow> p \<in> P \<and> dr_names w' p = Some n \<and> rn_written r p \<le> length (f p)
          \<and> dr_content w' n = take (rn_written r p) (f p) \<and> (p \<in> filled \<longrightarrow> rn_written r p = length (f p))" by metis
  with order show ?thesis unfolding run_ok_def by blast
qed (simp add: run_ok_def)

lemma run_ok_handle: "run_ok P f w r \<Longrightarrow> rn_status r = Running \<Longrightarrow> rn_handles r p = Some n \<Longrightarrow> p \<in> P \<and> dr_names w p = Some n"
  unfolding run_ok_def by blast

lemma other_handle:
  assumes "sound sc full start w" and "j \<noteq> i" and "rn_status (dr_runs w j) = Running" and "rn_status (dr_runs w i) = Running"
    and "rn_handles (dr_runs w j) q = Some k" and "rn_handles (dr_runs w i) p = Some n"
  shows "q \<noteq> p"
proof -
  have "opened_by (dr_runs w j) \<inter> opened_by (dr_runs w i) = {}" using assms(1,2) by (simp add: sound_def)
  moreover have "q \<in> opened_by (dr_runs w j)" "p \<in> opened_by (dr_runs w i)" using assms(3-6) by (auto simp: opened_by_def)
  ultimately show ?thesis by blast
qed

lemma run_okI:
  assumes "orderly P (dom (rn_handles r)) filled (rn_todo r)"
    and "\<And>p n. rn_handles r p = Some n \<Longrightarrow> p \<in> P \<and> dr_names w p = Some n \<and> rn_written r p \<le> length (f p)
          \<and> dr_content w n = take (rn_written r p) (f p) \<and> (p \<in> filled \<longrightarrow> rn_written r p = length (f p))"
  shows "run_ok P f w r"
  using assms unfolding run_ok_def by blast

text \<open>A step of run \<open>i\<close> that changes the directory but not what the other runs hold.\<close>

lemma sound_change:
  assumes "sound sc full start w" and names: "names_ok w'" and runs: "dr_runs w' = dr_runs w"
    and own: "run_ok (set (partials (os_ops sc))) (full i) w' r"
    and others: "\<And>j p n. j \<noteq> i \<Longrightarrow> rn_status (dr_runs w j) = Running \<Longrightarrow> rn_handles (dr_runs w j) p = Some n \<Longrightarrow> dr_names w p = Some n \<Longrightarrow>
        dr_names w' p = Some n \<and> dr_content w' n = dr_content w n"
    and opened: "\<And>p. p \<in> opened_by r \<Longrightarrow> p \<in> opened_by (dr_runs w i) \<or> (\<forall>j. j \<noteq> i \<longrightarrow> p \<notin> opened_by (dr_runs w j))"
    and todo: "set (rn_todo r) \<subseteq> set (os_ops sc)" and status: "\<forall>ps. rn_status r \<noteq> Cleaning ps"
    and finals: "finals_ok (set (partials (os_ops sc))) sc full start w'"
  shows "sound sc full start (set_run i r w')"
proof -
  let ?P = "set (partials (os_ops sc))"
  have "run_ok ?P (full j) w' (dr_runs w j)" if "j \<noteq> i" for j
    by (rule run_ok_cong [where w = w]) (use assms(1) others that in \<open>auto simp: sound_def\<close>)
  moreover have "opened_by r \<inter> opened_by (dr_runs w j) = {}" if "j \<noteq> i" for j
    using opened assms(1) that unfolding sound_def by (metis disjoint_iff)
  ultimately show ?thesis
    using assms(1) names own todo status finals unfolding sound_def by (auto simp: runs Int_commute)
qed

lemma finals_ok_same:
  assumes "finals_ok P sc full start w" and "\<And>q. q \<notin> P \<Longrightarrow> published w' q = published w q"
  shows "finals_ok P sc full start w'"
  using assms unfolding finals_ok_def by simp

lemma sound_create:
  assumes sound: "sound sc full start w" and i: "rn_status (dr_runs w i) = Running" "rn_todo (dr_runs w i) = CreateNew p # os"
    and absent: "dr_names w p = None"
  shows "sound sc full start (operate sc (full i) i (dr_runs w i) w (CreateNew p # os))"
proof -
  let ?r = "dr_runs w i" and ?P = "set (partials (os_ops sc))"
  let ?w = "w\<lparr>dr_names := (dr_names w)(p \<mapsto> dr_next w), dr_content := (dr_content w)(dr_next w := []), dr_next := Suc (dr_next w)\<rparr>"
  let ?r1 = "?r\<lparr>rn_todo := os, rn_handles := (rn_handles ?r)(p \<mapsto> dr_next w), rn_written := (rn_written ?r)(p := 0)\<rparr>"
  have names: "names_ok w" and ok: "run_ok ?P (full i) w ?r" and finals: "finals_ok ?P sc full start w"
    and todo: "set (rn_todo ?r) \<subseteq> set (os_ops sc)" using sound by (simp_all add: sound_def)
  have below: "n < dr_next w" if "dr_names w q = Some n" for q n using names that by (auto simp: names_ok_def)
  from ok i obtain filled where order: "p \<in> ?P" "orderly ?P (insert p (dom (rn_handles ?r))) (filled - {p}) os"
    and at: "\<forall>q n. rn_handles ?r q = Some n \<longrightarrow> q \<in> ?P \<and> dr_names w q = Some n \<and> rn_written ?r q \<le> length (full i q)
          \<and> dr_content w n = take (rn_written ?r q) (full i q) \<and> (q \<in> filled \<longrightarrow> rn_written ?r q = length (full i q))"
    unfolding run_ok_def by auto
  have own: "run_ok ?P (full i) ?w ?r1"
  proof (rule run_okI [of _ _ "filled - {p}"])
    show "orderly ?P (dom (rn_handles ?r1)) (filled - {p}) (rn_todo ?r1)" using order(2) by simp
    fix q n assume q: "rn_handles ?r1 q = Some n"
    show "q \<in> ?P \<and> dr_names ?w q = Some n \<and> rn_written ?r1 q \<le> length (full i q)
          \<and> dr_content ?w n = take (rn_written ?r1 q) (full i q) \<and> (q \<in> filled - {p} \<longrightarrow> rn_written ?r1 q = length (full i q))"
    proof (cases "q = p")
      case True
      then show ?thesis using q order(1) by simp
    next
      case False
      then have "rn_handles ?r q = Some n" using q by simp
      with at have old: "q \<in> ?P \<and> dr_names w q = Some n \<and> rn_written ?r q \<le> length (full i q)
          \<and> dr_content w n = take (rn_written ?r q) (full i q) \<and> (q \<in> filled \<longrightarrow> rn_written ?r q = length (full i q))" by blast
      then have "n \<noteq> dr_next w" using below by blast
      then show ?thesis using old False by simp
    qed
  qed
  have "sound sc full start (set_run i ?r1 ?w)"
  proof (rule sound_change [OF sound _ _ own])
    show "names_ok ?w" using names unfolding names_ok_def by (auto split: if_split_asm) (metis less_SucI less_irrefl)+
    show "set (rn_todo ?r1) \<subseteq> set (os_ops sc)" using todo i by simp
    show "finals_ok ?P sc full start ?w"
      by (rule finals_ok_same [OF finals]) (use order(1) below in \<open>fastforce simp: published_def map_option_case split: option.split\<close>)
    fix q assume "q \<in> opened_by ?r1"
    then have "q \<in> opened_by ?r \<or> q = p" using i by (auto simp: opened_by_def split: if_split_asm)
    moreover have "p \<notin> opened_by (dr_runs w j)" for j
      using sound absent unfolding sound_def opened_by_def by (auto split: if_split_asm dest!: run_ok_handle)
    ultimately show "q \<in> opened_by ?r \<or> (\<forall>j. j \<noteq> i \<longrightarrow> q \<notin> opened_by (dr_runs w j))" by blast
  next
    fix j q n assume "dr_names w q = Some n"
    then show "dr_names ?w q = Some n \<and> dr_content ?w n = dr_content w n" using absent below by auto
  qed (use i in simp_all)
  then show ?thesis using absent by simp
qed

lemma sound_write:
  assumes sound: "sound sc full start w" and i: "rn_status (dr_runs w i) = Running" "rn_todo (dr_runs w i) = WriteAll p # os"
    and n: "rn_handles (dr_runs w i) p = Some n" and more: "rn_written (dr_runs w i) p < length (full i p)"
  shows "sound sc full start (operate sc (full i) i (dr_runs w i) w (WriteAll p # os))"
proof -
  let ?r = "dr_runs w i" and ?P = "set (partials (os_ops sc))"
  let ?w = "w\<lparr>dr_content := (dr_content w)(n := dr_content w n @ [full i p ! rn_written ?r p])\<rparr>"
  let ?r1 = "?r\<lparr>rn_written := (rn_written ?r)(p := Suc (rn_written ?r p))\<rparr>"
  have names: "names_ok w" and ok: "run_ok ?P (full i) w ?r" and finals: "finals_ok ?P sc full start w"
    and todo: "set (rn_todo ?r) \<subseteq> set (os_ops sc)" using sound by (simp_all add: sound_def)
  have same: "q = p" if "dr_names w q = Some n" for q
    using names run_ok_handle [OF ok i(1) n] that unfolding names_ok_def by metis
  from ok i(1) obtain filled where order: "orderly ?P (dom (rn_handles ?r)) filled (rn_todo ?r)"
    and at: "\<And>q k. rn_handles ?r q = Some k \<Longrightarrow> q \<in> ?P \<and> dr_names w q = Some k \<and> rn_written ?r q \<le> length (full i q)
          \<and> dr_content w k = take (rn_written ?r q) (full i q) \<and> (q \<in> filled \<longrightarrow> rn_written ?r q = length (full i q))"
    unfolding run_ok_def by auto
  have "p \<notin> filled" using at [OF n] more by auto
  have own: "run_ok ?P (full i) ?w ?r1"
  proof -
    have "q \<in> ?P \<and> dr_names ?w q = Some k \<and> rn_written ?r1 q \<le> length (full i q)
          \<and> dr_content ?w k = take (rn_written ?r1 q) (full i q) \<and> (q \<in> filled \<longrightarrow> rn_written ?r1 q = length (full i q))"
      if q: "rn_handles ?r1 q = Some k" for q k
    proof (cases "q = p")
      case True
      then show ?thesis using q at [OF n] n more \<open>p \<notin> filled\<close> by (simp add: take_Suc_conv_app_nth)
    next
      case False
      then have "k \<noteq> n" using at [of q k] q same by auto
      then show ?thesis using at [of q k] q False by simp
    qed
    moreover have "orderly ?P (dom (rn_handles ?r1)) filled (rn_todo ?r1)" using order by simp
    ultimately show ?thesis by (intro run_okI)
  qed
  have "sound sc full start (set_run i ?r1 ?w)"
  proof (rule sound_change [OF sound _ _ own])
    show "names_ok ?w" using names by (simp add: names_ok_def)
    show "set (rn_todo ?r1) \<subseteq> set (os_ops sc)" using todo by simp
    have "p \<in> ?P" using at [OF n] by blast
    show "finals_ok ?P sc full start ?w"
    proof (rule finals_ok_same [OF finals])
      fix q assume "q \<notin> ?P"
      then have "dr_names w q \<noteq> Some n" using same \<open>p \<in> ?P\<close> by blast
      then show "published ?w q = published w q" by (cases "dr_names w q") (simp_all add: published_def)
    qed
    fix q assume "q \<in> opened_by ?r1"
    then show "q \<in> opened_by ?r \<or> (\<forall>j. j \<noteq> i \<longrightarrow> q \<notin> opened_by (dr_runs w j))" using i by (simp add: opened_by_def)
  next
    fix j q k assume j: "j \<noteq> i" "rn_status (dr_runs w j) = Running" "rn_handles (dr_runs w j) q = Some k" "dr_names w q = Some k"
    have "q \<noteq> p" by (rule other_handle [OF sound j(1,2) i(1) j(3) n])
    then have "k \<noteq> n" using same j(4) by blast
    then show "dr_names ?w q = Some k \<and> dr_content ?w k = dr_content w k" using j(4) by simp
  qed (use i in simp_all)
  then show ?thesis using n more by simp
qed

lemma sound_rename:
  assumes sound: "sound sc full start w" and i: "rn_status (dr_runs w i) = Running" "rn_todo (dr_runs w i) = Rename p q # os"
  shows "sound sc full start (operate sc (full i) i (dr_runs w i) w (Rename p q # os))"
proof -
  let ?r = "dr_runs w i" and ?P = "set (partials (os_ops sc))"
  have names: "names_ok w" and ok: "run_ok ?P (full i) w ?r" and finals: "finals_ok ?P sc full start w"
    and todo: "set (rn_todo ?r) \<subseteq> set (os_ops sc)" using sound by (simp_all add: sound_def)
  from ok i obtain filled where order: "p \<in> dom (rn_handles ?r)" "p \<in> filled" "q \<notin> ?P"
      "orderly ?P (dom (rn_handles ?r) - {p}) (filled - {p}) os"
    and at: "\<And>s k. rn_handles ?r s = Some k \<Longrightarrow> s \<in> ?P \<and> dr_names w s = Some k \<and> rn_written ?r s \<le> length (full i s)
          \<and> dr_content w k = take (rn_written ?r s) (full i s) \<and> (s \<in> filled \<longrightarrow> rn_written ?r s = length (full i s))"
    unfolding run_ok_def by auto
  from order(1) obtain n where n: "rn_handles ?r p = Some n" by blast
  note here = at [OF n]
  then have complete: "dr_content w n = full i p" using order(2) by simp
  have "q \<noteq> p" using here order(3) by blast
  let ?w = "w\<lparr>dr_names := (dr_names w)(p := None, q \<mapsto> n)\<rparr>"
  let ?r1 = "?r\<lparr>rn_todo := os, rn_handles := (rn_handles ?r)(p := None)\<rparr>"
  have own: "run_ok ?P (full i) ?w ?r1"
  proof -
    have "s \<in> ?P \<and> dr_names ?w s = Some k \<and> rn_written ?r1 s \<le> length (full i s)
          \<and> dr_content ?w k = take (rn_written ?r1 s) (full i s) \<and> (s \<in> filled - {p} \<longrightarrow> rn_written ?r1 s = length (full i s))"
      if s: "rn_handles ?r1 s = Some k" for s k
      using at [of s k] s order(3) by (auto split: if_split_asm)
    moreover have "dom (rn_handles ?r1) = dom (rn_handles ?r) - {p}" by auto
    then have "orderly ?P (dom (rn_handles ?r1)) (filled - {p}) (rn_todo ?r1)" using order(4) by simp
    ultimately show ?thesis by (intro run_okI)
  qed
  have "sound sc full start (set_run i ?r1 ?w)"
  proof (rule sound_change [OF sound _ _ own])
    show "names_ok ?w" using names here unfolding names_ok_def by (auto split: if_split_asm)
    show "set (rn_todo ?r1) \<subseteq> set (os_ops sc)" using todo i by simp
    show "finals_ok ?P sc full start ?w"
    proof -
      have "Rename p q \<in> set (os_ops sc)" using todo i by simp
      moreover have "published ?w q = Some (full i p)" using complete by (simp add: published_def)
      moreover have "published ?w s = published w s" if "s \<noteq> q" "s \<noteq> p" for s using that by (simp add: published_def)
      ultimately show ?thesis using finals here unfolding finals_ok_def by metis
    qed
    fix s assume "s \<in> opened_by ?r1"
    then show "s \<in> opened_by ?r \<or> (\<forall>j. j \<noteq> i \<longrightarrow> s \<notin> opened_by (dr_runs w j))" using i by (auto simp: opened_by_def split: if_split_asm)
  next
    fix j s k assume j: "j \<noteq> i" "rn_status (dr_runs w j) = Running" "rn_handles (dr_runs w j) s = Some k" "dr_names w s = Some k"
    have "s \<noteq> p" by (rule other_handle [OF sound j(1,2) i(1) j(3) n])
    moreover have "run_ok ?P (full j) w (dr_runs w j)" using sound by (simp add: sound_def)
    then have "s \<in> ?P" using run_ok_handle j(2,3) by blast
    then have "s \<noteq> q" using order(3) by blast
    ultimately show "dr_names ?w s = Some k \<and> dr_content ?w k = dr_content w k" using j(4) by simp
  qed (use i in simp_all)
  then show ?thesis using here by simp
qed

lemma sound_operate:
  assumes sound: "sound sc full start w" and careful: "careful sc" and i: "rn_status (dr_runs w i) = Running"
  shows "sound sc full start (operate sc (full i) i (dr_runs w i) w (rn_todo (dr_runs w i)))"
proof -
  let ?r = "dr_runs w i" and ?P = "set (partials (os_ops sc))"
  have ok: "run_ok ?P (full i) w ?r" and todo: "set (rn_todo ?r) \<subseteq> set (os_ops sc)" using sound by (simp_all add: sound_def)
  have advance: "sound sc full start (set_run i (?r\<lparr>rn_todo := os\<rparr>) w)"
    if os: "rn_todo ?r = x # os" and "run_ok ?P (full i) w (?r\<lparr>rn_todo := os\<rparr>)" for x os
    by (rule sound_set_run [OF sound]) (use that todo i in \<open>auto simp: opened_by_def\<close>)
  show ?thesis
  proof (cases "rn_todo ?r")
    case Nil
    then show ?thesis using sound by (simp add: sound_end)
  next
    case (Cons x os)
    show ?thesis
    proof (cases x)
      case (RaiseIfExists p)
      have "run_ok ?P (full i) w (?r\<lparr>rn_todo := os\<rparr>)" using ok i Cons RaiseIfExists by (simp add: run_ok_def)
      then show ?thesis using advance [OF Cons] sound_raised [OF sound careful] by (simp add: Cons RaiseIfExists)
    next
      case (CreateNew p)
      show ?thesis
      proof (cases "dr_names w p")
        case None
        then show ?thesis using sound_create [OF sound i] Cons CreateNew by simp
      next
        case (Some n)
        then show ?thesis using sound_raised [OF sound careful] by (simp add: Cons CreateNew)
      qed
    next
      case (WriteAll p)
      show ?thesis
      proof (cases "rn_handles ?r p")
        case None
        then show ?thesis using sound_raised [OF sound careful] by (simp add: Cons WriteAll)
      next
        case (Some n)
        show ?thesis
        proof (cases "rn_written ?r p < length (full i p)")
          case True
          then show ?thesis using sound_write [OF sound i _ Some] Cons WriteAll by simp
        next
          case False
          from ok i obtain filled where order: "orderly ?P (dom (rn_handles ?r)) filled (rn_todo ?r)"
            and at: "\<forall>p n. rn_handles ?r p = Some n \<longrightarrow> p \<in> ?P \<and> dr_names w p = Some n \<and> rn_written ?r p \<le> length (full i p)
              \<and> dr_content w n = take (rn_written ?r p) (full i p) \<and> (p \<in> filled \<longrightarrow> rn_written ?r p = length (full i p))"
            unfolding run_ok_def by blast
          from at Some have "rn_written ?r p \<le> length (full i p)" by blast
          then have "rn_written ?r p = length (full i p)" using False by simp
          then have "run_ok ?P (full i) w (?r\<lparr>rn_todo := os\<rparr>)"
            using order at Cons WriteAll unfolding run_ok_def by (intro disjI2 exI [of _ "insert p filled"]) auto
          then show ?thesis using advance [OF Cons] False Some by (simp add: Cons WriteAll)
        qed
      qed
    next
      case (Rename p q)
      then show ?thesis using sound_rename [OF sound i] Cons by simp
    qed
  qed
qed

lemma sound_happen:
  assumes "sound sc full start w" and "careful sc"
  shows "sound sc full start (happen sc full i e w)"
proof (cases "rn_status (dr_runs w i)")
  case Running
  have "sound sc full start (set_run i ((dr_runs w i)\<lparr>rn_status := Ended\<rparr>) w)"
    by (rule sound_end [OF assms(1)]) (use assms(1) in \<open>simp_all add: sound_def\<close>)
  then show ?thesis using Running sound_operate [OF assms Running] sound_raised [OF assms]
    by (cases e) (simp_all add: happen_def Let_def)
next
  case (Cleaning ps)
  then show ?thesis using assms(1) unfolding sound_def by blast
next
  case Ended
  then show ?thesis using assms(1) by (simp add: happen_def Let_def)
qed

lemma sound_start: "starting sc start \<Longrightarrow> careful sc \<Longrightarrow> sound sc full start start"
  by (auto simp: sound_def starting_def names_ok_def run_ok_def new_run_def careful_def opened_by_def finals_ok_def)

lemma sound_reachable:
  assumes "reachable sc full start w" and "starting sc start" and "careful sc"
  shows "sound sc full start w"
  using assms by (induction rule: reachable.induct) (auto intro: sound_start sound_happen)

subsection \<open>Published outputs\<close>

lemma partial_path_inject [simp]: "partial_path p = partial_path q \<longleftrightarrow> p = q" "partial_path p \<noteq> p" "p \<noteq> partial_path p"
  by (auto simp: partial_path_def)

definition apart :: "string list \<Rightarrow> bool" where
  "apart ps \<longleftrightarrow> distinct ps \<and> (\<forall>p \<in> set ps. \<forall>q \<in> set ps. p \<noteq> partial_path q)"

lemmas output_defs = write_partial_def refuse_existing_def replaceable_ops_def optional_output_def
  policy_output_def retention_file_output_def inventory_csv_output_def inventory_json_output_def closure_output_def formula_output_def shard1_output_def
  source_summary_output_def destination_output_def pending_output_def state_diff_output_def created_file_output_def flow_output_def
  ledger_output_def blacklist_output_def mint_output_def interval_output_def

lemma careful_output:
  assumes "careful sc" and "starting sc start" and "reachable sc full start w" and "q \<notin> set (partials (os_ops sc))"
  shows "published w q = published start q \<or> (\<exists>i p. Rename p q \<in> set (os_ops sc) \<and> published w q = Some (full i p))"
  using sound_reachable [OF assms(3,2,1)] assms(4) by (simp add: sound_def finals_ok_def)

definition replacing_outputs :: "bool \<Rightarrow> string \<Rightarrow> output_script list" where
  "replacing_outputs r a = [policy_output r a, retention_file_output r a, inventory_csv_output r a, inventory_json_output r a, closure_output (Some a),
     formula_output (Some a), shard1_output (Some a)]"

definition refusing_outputs :: "string \<Rightarrow> string \<Rightarrow> string \<Rightarrow> output_script list" where
  "refusing_outputs a b c = [source_summary_output a, destination_output a, pending_output a, state_diff_output a, created_file_output a b, flow_output a b c]"

lemma careful_outputs:
  assumes "sc \<in> set (replacing_outputs r a @ refusing_outputs a b c)" and "apart [a, b, c]"
  shows "careful sc" "q \<in> {a, b, c} \<Longrightarrow> q \<notin> set (partials (os_ops sc))" "Rename p q \<in> set (os_ops sc) \<Longrightarrow> p = partial_path q"
  using assms by (auto simp: replacing_outputs_def refusing_outputs_def output_defs careful_def partials_def apart_def split: if_split_asm)

text \<open>
  C26. Scripts without a removing handler publish complete files only: with any number of concurrent runs, stopped or raising
  anywhere, every output name shows at all times what it showed at the start or the whole output of one run.
\<close>

theorem published_outputs_complete:
  assumes "sc \<in> set (replacing_outputs r a @ refusing_outputs a b c)" and "apart [a, b, c]"
    and "starting sc start" and "reachable sc full start w" and "q \<in> {a, b, c}"
  shows "published w q = published start q \<or> (\<exists>i. published w q = Some (full i (partial_path q)))"
  using careful_output [OF careful_outputs(1) [OF assms(1,2)] assms(3,4) careful_outputs(2) [OF assms(1,2,5)]]
    careful_outputs(3) [OF assms(1,2)] by blast

subsection \<open>An existing output is kept\<close>

definition is_guard :: "file_op \<Rightarrow> bool" where
  "is_guard x \<longleftrightarrow> (case x of RaiseIfExists _ \<Rightarrow> True | _ \<Rightarrow> False)"

definition waiting :: "string \<Rightarrow> run \<Rightarrow> bool" where
  "waiting q r \<longleftrightarrow> rn_status r \<noteq> Running \<or> (\<exists>gs os. rn_todo r = gs @ RaiseIfExists q # os \<and> list_all is_guard gs)"

definition kept :: "output_script \<Rightarrow> directory \<Rightarrow> string \<Rightarrow> nat \<Rightarrow> directory \<Rightarrow> bool" where
  "kept sc start q n w \<longleftrightarrow> dr_names w q = Some n \<and> dr_content w = dr_content start \<and> (\<forall>i. waiting q (dr_runs w i))
     \<and> (\<forall>i ps. rn_status (dr_runs w i) = Cleaning ps \<longrightarrow> q \<notin> set ps)"

lemma kept_happen:
  assumes kept: "kept sc start q n w" and clean: "q \<notin> set (os_cleanup sc)"
  shows "kept sc start q n (happen sc full i e w)"
proof -
  let ?r = "dr_runs w i"
  have change: "kept sc start q n (set_run i r w)" if "waiting q r" "\<And>ps. rn_status r = Cleaning ps \<Longrightarrow> q \<notin> set ps" for r
    using kept that by (auto simp: kept_def)
  have ended: "kept sc start q n (set_run i (?r\<lparr>rn_status := Ended\<rparr>) w)" by (rule change) (simp_all add: waiting_def)
  have fails: "kept sc start q n (set_run i (raised sc ?r) w)"
    by (rule change) (use clean in \<open>auto simp: waiting_def raised_def split: if_split_asm\<close>)
  show ?thesis
  proof (cases "rn_status ?r")
    case Running
    with kept obtain gs os where todo: "rn_todo ?r = gs @ RaiseIfExists q # os" "list_all is_guard gs"
      unfolding kept_def waiting_def by blast
    have "kept sc start q n (operate sc (full i) i ?r w (rn_todo ?r))"
    proof (cases gs)
      case Nil
      then show ?thesis using todo kept fails by (simp add: kept_def)
    next
      case (Cons g gs')
      then obtain p where g: "g = RaiseIfExists p" using todo(2) by (cases g) (auto simp: is_guard_def)
      have "kept sc start q n (set_run i (?r\<lparr>rn_todo := gs' @ RaiseIfExists q # os\<rparr>) w)"
        by (rule change) (use todo Cons Running in \<open>auto simp: waiting_def\<close>)
      then show ?thesis using fails by (simp add: todo Cons g)
    qed
    then show ?thesis using Running ended fails by (cases e) (simp_all add: happen_def Let_def)
  next
    case (Cleaning ps)
    have "q \<notin> set ps" using kept Cleaning unfolding kept_def by blast
    then have "kept sc start q n (set_run i (?r\<lparr>rn_status := Cleaning qs\<rparr>) (w\<lparr>dr_names := (dr_names w)(p := None)\<rparr>))" if "ps = p # qs" for p qs
      using kept Cleaning that by (auto simp: kept_def waiting_def)
    then show ?thesis using Cleaning ended by (cases e; cases ps) (simp_all add: happen_def Let_def)
  next
    case Ended
    then show ?thesis using kept by (simp add: happen_def Let_def)
  qed
qed

lemma existing_kept:
  assumes "reachable sc full start w" and "starting sc start" and "published start q \<noteq> None"
    and "os_ops sc = gs @ RaiseIfExists q # os" and "list_all is_guard gs" and "q \<notin> set (os_cleanup sc)"
  shows "published w q = published start q"
proof -
  from assms(3) obtain n where n: "dr_names start q = Some n" by (auto simp: published_def)
  from assms(1) have "kept sc start q n w"
  proof (induction rule: reachable.induct)
    case here
    show ?case using assms(2,4,5) n by (auto simp: kept_def waiting_def starting_def new_run_def)
  qed (rule kept_happen [OF _ assms(6)])
  then show ?thesis using n by (simp add: kept_def published_def)
qed

text \<open>
  C27. Scripts that refuse to overwrite leave an existing first output as it was, whatever else happens in the directory; this
  includes the scripts with a removing handler.
\<close>

theorem existing_outputs_kept:
  assumes "sc \<in> set (refusing_outputs a b c @ [ledger_output a b, blacklist_output a b, mint_output (Some a), interval_output a b c])" and "apart [a, b, c]"
    and "starting sc start" and "reachable sc full start w" and "published start a \<noteq> None"
  shows "published w a = published start a"
proof -
  have "\<exists>os. os_ops sc = [] @ RaiseIfExists a # os" "a \<notin> set (os_cleanup sc)"
    using assms(1,2) by (auto simp: refusing_outputs_def output_defs apart_def)
  then obtain os where "os_ops sc = [] @ RaiseIfExists a # os" by blast
  then show ?thesis by (rule existing_kept [OF assms(4,3,5)]) (simp_all add: \<open>a \<notin> set (os_cleanup sc)\<close>)
qed

subsection \<open>The removing handler\<close>

fun happens :: "output_script \<Rightarrow> (nat \<Rightarrow> string \<Rightarrow> string) \<Rightarrow> (nat \<times> event) list \<Rightarrow> directory \<Rightarrow> directory" where
  "happens sc full [] w = w"
| "happens sc full (x # es) w = happens sc full es (happen sc full (fst x) (snd x) w)"

lemma reachable_happens: "reachable sc full start w \<Longrightarrow> reachable sc full start (happens sc full es w)"
  by (induction es arbitrary: w) (simp_all add: reachable.there)

definition empty_directory :: "output_script \<Rightarrow> directory" where
  "empty_directory sc = \<lparr>dr_names = Map.empty, dr_content = (\<lambda>_. []), dr_next = 0, dr_runs = (\<lambda>_. new_run sc)\<rparr>"

lemma empty_starting: "starting sc (empty_directory sc)"
  by (simp add: starting_def empty_directory_def)

definition three_outputs :: "nat \<Rightarrow> string \<Rightarrow> string" where
  "three_outputs i p = (if i = 2 then ''abcd'' else ''xy'')"

text \<open>Run 1 passes its checks, run 0 writes, run 1 fails and removes the partial file of run 0, run 2 begins the next one, and run 0 publishes it.\<close>

definition schedule :: "nat \<Rightarrow> nat \<Rightarrow> nat \<Rightarrow> (nat \<times> event) list" where
  "schedule guards files removals = replicate guards (1, Proceed) @ replicate (guards + 4 * files) (0, Proceed)
     @ replicate (removals + 2) (1, Proceed) @ replicate (guards + files + 1) (2, Proceed) @ [(2, Kill), (0, Proceed), (0, Kill)]"

text \<open>How many checks, files opened together, and files removed the script has.\<close>

definition removing_outputs :: "(output_script \<times> nat \<times> nat \<times> nat) list" where
  "removing_outputs = [(ledger_output ''o'' ''s'', 4, 1, 2), (blacklist_output ''o'' ''s'', 4, 1, 2), (mint_output (Some ''o''), 2, 1, 1),
     (interval_output ''o'' ''t'' ''s'', 6, 2, 3)]"

lemma removing_schedules:
  "list_all (\<lambda>(sc, guards, files, removals). published (happens sc three_outputs (schedule guards files removals) (empty_directory sc)) ''o'' = Some ''a'')
     removing_outputs"
  by code_simp

text \<open>
  C28. The four scripts whose exception handler removes the partial files can publish an incomplete output: three runs in an
  empty directory reach a state where the output name shows a text that is the output of none of them.
\<close>

theorem removing_handler_publishes_incomplete:
  "list_all (\<lambda>sc. \<exists>full start w x. starting sc start \<and> dr_names start = Map.empty \<and> reachable sc full start w
       \<and> published w ''o'' = Some x \<and> (\<forall>i p. full i p \<noteq> x))
     [ledger_output ''o'' ''s'', blacklist_output ''o'' ''s'', mint_output (Some ''o''), interval_output ''o'' ''t'' ''s'']"
proof -
  have any: "\<exists>full start w x. starting sc start \<and> dr_names start = Map.empty \<and> reachable sc full start w \<and> published w ''o'' = Some x \<and> (\<forall>i p. full i p \<noteq> x)"
    if "(sc, guards, files, removals) \<in> set removing_outputs" for sc guards files removals
  proof -
    have "published (happens sc three_outputs (schedule guards files removals) (empty_directory sc)) ''o'' = Some ''a''"
      using removing_schedules that by (auto simp: list_all_iff)
    moreover have "\<forall>i p. three_outputs i p \<noteq> ''a''" by (simp add: three_outputs_def)
    moreover have "reachable sc three_outputs (empty_directory sc) (happens sc three_outputs (schedule guards files removals) (empty_directory sc))"
      by (rule reachable_happens) (rule reachable.here)
    moreover have "dr_names (empty_directory sc) = Map.empty" by (simp add: empty_directory_def)
    ultimately show ?thesis using empty_starting by blast
  qed
  have "(ledger_output ''o'' ''s'', 4, 1, 2) \<in> set removing_outputs" "(blacklist_output ''o'' ''s'', 4, 1, 2) \<in> set removing_outputs"
    "(mint_output (Some ''o''), 2, 1, 1) \<in> set removing_outputs" "(interval_output ''o'' ''t'' ''s'', 6, 2, 3) \<in> set removing_outputs"
    by (simp_all add: removing_outputs_def)
  note found = this [THEN any]
  show ?thesis unfolding list.pred_inject by (intro conjI found) simp
qed

subsection \<open>Witnesses\<close>

lemma published_outputs_complete_witness:
  "\<exists>w i. reachable (retention_file_output False ''o'') three_outputs (empty_directory (retention_file_output False ''o'')) w
     \<and> published w ''o'' = Some (three_outputs i (partial_path ''o''))"
proof -
  let ?sc = "retention_file_output False ''o''"
  let ?w = "happens ?sc three_outputs (replicate 7 (0, Proceed)) (empty_directory ?sc)"
  have reach: "reachable ?sc three_outputs (empty_directory ?sc) ?w" by (rule reachable_happens) (rule reachable.here)
  have "?sc \<in> set (replacing_outputs False ''o'' @ refusing_outputs ''o'' ''s'' ''t'')" by (simp add: replacing_outputs_def)
  moreover have "apart [''o'', ''s'', ''t'']" by (simp add: apart_def partial_path_def)
  ultimately have "published ?w ''o'' = published (empty_directory ?sc) ''o'' \<or> (\<exists>i. published ?w ''o'' = Some (three_outputs i (partial_path ''o'')))"
    by (rule published_outputs_complete [OF _ _ empty_starting reach]) simp
  moreover have "published ?w ''o'' \<noteq> published (empty_directory ?sc) ''o''" by code_simp
  ultimately show ?thesis using reach by blast
qed

definition used_directory :: "output_script \<Rightarrow> directory" where
  "used_directory sc = (empty_directory sc)\<lparr>dr_names := [''o'' \<mapsto> 0], dr_content := (\<lambda>_. ''old''), dr_next := 1\<rparr>"

lemma existing_outputs_kept_witness:
  "\<exists>w. reachable (ledger_output ''o'' ''s'') three_outputs (used_directory (ledger_output ''o'' ''s'')) w
     \<and> rn_status (dr_runs w 0) = Ended \<and> published w ''o'' = Some ''old''"
proof -
  let ?sc = "ledger_output ''o'' ''s''"
  let ?w = "happens ?sc three_outputs [(0, Proceed)] (used_directory ?sc)"
  have reach: "reachable ?sc three_outputs (used_directory ?sc) ?w" by (rule reachable_happens) (rule reachable.here)
  have "apart [''o'', ''s'', ''t'']" by (simp add: apart_def partial_path_def)
  moreover have "starting ?sc (used_directory ?sc)" by (auto simp: starting_def used_directory_def empty_directory_def split: if_split_asm)
  moreover have old: "published (used_directory ?sc) ''o'' = Some ''old''" by (simp add: published_def used_directory_def)
  ultimately have "published ?w ''o'' = Some ''old''"
    using existing_outputs_kept [of ?sc "''o''" "''s''" "''t''", OF _ _ _ reach] by simp
  moreover have "rn_status (dr_runs ?w 0) = Ended" by code_simp
  ultimately show ?thesis using reach by blast
qed

end
