(* ===== verification/Pattern.thy ===== *)
theory Pattern
  imports Pybase
begin

section \<open>Regular expressions\<close>

text \<open>
  What the publication checks use of the module \<open>re\<close>: classes of characters, word boundaries, sequence, alternatives and
  repetition, and \<open>search\<close>. A pattern matches a text between two positions. Without groups that are referred to and without
  lazy or possessive repetition, whether a search succeeds depends on the existence of a match only; \<open>search\<close> computes the ends
  of all matches from a position, and is proved to decide the relation.
\<close>

datatype pattern =
    Chars "char \<Rightarrow> bool"
  | Boundary
  | Empty
  | Seq pattern pattern
  | Alt pattern pattern
  | Star pattern

definition is_digit :: "char \<Rightarrow> bool" where
  "is_digit c \<longleftrightarrow> 48 \<le> (of_char c :: nat) \<and> (of_char c :: nat) \<le> 57"

definition is_word :: "char \<Rightarrow> bool" where
  "is_word c \<longleftrightarrow> is_digit c \<or> (let n = of_char c :: nat in 65 \<le> n \<and> n \<le> 90 \<or> 97 \<le> n \<and> n \<le> 122) \<or> c = CHR ''_''"

definition word_at :: "string \<Rightarrow> nat \<Rightarrow> bool" where
  "word_at s i \<longleftrightarrow> i < length s \<and> is_word (s ! i)"

definition at_boundary :: "string \<Rightarrow> nat \<Rightarrow> bool" where
  "at_boundary s i \<longleftrightarrow> (0 < i \<and> word_at s (i - 1)) \<noteq> word_at s i"

subsection \<open>Abbreviated patterns\<close>

definition literal :: "string \<Rightarrow> pattern" where
  "literal s = foldr (\<lambda>c p. Seq (Chars (\<lambda>d. d = c)) p) s Empty"

definition sequence :: "pattern list \<Rightarrow> pattern" where
  "sequence ps = foldr Seq ps Empty"

definition any_of :: "pattern list \<Rightarrow> pattern" where
  "any_of ps = foldr Alt (butlast ps) (last ps)"

definition at_least :: "nat \<Rightarrow> pattern \<Rightarrow> pattern" where
  "at_least n p = sequence (replicate n p @ [Star p])"

definition maybe :: "pattern \<Rightarrow> pattern" where
  "maybe p = Alt p Empty"

subsection \<open>Matches\<close>

primrec matches :: "pattern \<Rightarrow> string \<Rightarrow> nat \<Rightarrow> nat \<Rightarrow> bool" where
  "matches (Chars P) s = (\<lambda>i j. i < length s \<and> P (s ! i) \<and> j = Suc i)"
| "matches Boundary s = (\<lambda>i j. i = j \<and> at_boundary s i)"
| "matches Empty s = (\<lambda>i j. i = j)"
| "matches (Seq p q) s = matches p s OO matches q s"
| "matches (Alt p q) s = (\<lambda>i j. matches p s i j \<or> matches q s i j)"
| "matches (Star p) s = (matches p s)\<^sup>*\<^sup>*"

text \<open>The ends of a repetition: every turn but the last makes progress, so that the rest of the text bounds their number.\<close>

fun turns :: "(nat \<Rightarrow> nat list) \<Rightarrow> nat \<Rightarrow> nat \<Rightarrow> nat list" where
  "turns f 0 i = [i]"
| "turns f (Suc n) i = i # remdups (concat (map (turns f n) (filter (\<lambda>j. i < j) (f i))))"

primrec ends :: "pattern \<Rightarrow> string \<Rightarrow> nat \<Rightarrow> nat list" where
  "ends (Chars P) s = (\<lambda>i. if i < length s \<and> P (s ! i) then [Suc i] else [])"
| "ends Boundary s = (\<lambda>i. if at_boundary s i then [i] else [])"
| "ends Empty s = (\<lambda>i. [i])"
| "ends (Seq p q) s = (\<lambda>i. remdups (concat (map (ends q s) (ends p s i))))"
| "ends (Alt p q) s = (\<lambda>i. ends p s i @ ends q s i)"
| "ends (Star p) s = (\<lambda>i. turns (ends p s) (length s - i) i)"

definition search :: "pattern \<Rightarrow> string \<Rightarrow> bool" where
  "search p s \<longleftrightarrow> list_ex (\<lambda>i. ends p s i \<noteq> []) [0..<Suc (length s)]"

subsection \<open>The ends are those of the matches\<close>

lemma matches_le: "matches p s i j \<Longrightarrow> i \<le> j \<and> (i \<le> length s \<longrightarrow> j \<le> length s)"
proof (induction p arbitrary: i j)
  case (Seq p q)
  then obtain k where "matches p s i k" "matches q s k j" by auto
  then show ?case using Seq.IH(1) [of i k] Seq.IH(2) [of k j] by auto
next
  case (Star p)
  then have "(matches p s)\<^sup>*\<^sup>* i j" by simp
  then show ?case
  proof (induction rule: rtranclp_induct)
    case (step k l)
    then show ?case using Star.IH [of k l] by auto
  qed simp
qed auto

text \<open>A repetition can leave out the turns that match nothing.\<close>

lemma turns_sound:
  assumes "\<And>i j. j \<in> set (f i) \<Longrightarrow> R i j"
  shows "j \<in> set (turns f n i) \<Longrightarrow> R\<^sup>*\<^sup>* i j"
proof (induction n arbitrary: i)
  case (Suc n)
  then consider "j = i" | k where "k \<in> set (f i)" "j \<in> set (turns f n k)" by auto
  then show ?case using Suc.IH assms by cases (auto intro: converse_rtranclp_into_rtranclp)
qed simp

lemma turns_complete:
  assumes "R\<^sup>*\<^sup>* i j" and "i + n \<ge> L" and "j \<le> L"
    and step: "\<And>i j. i \<le> L \<Longrightarrow> R i j \<Longrightarrow> j \<in> set (f i) \<and> i \<le> j"
    and mono: "\<And>i j. R\<^sup>*\<^sup>* i j \<Longrightarrow> i \<le> j"
  shows "j \<in> set (turns f n i)"
  using assms(1,2)
proof (induction arbitrary: n rule: converse_rtranclp_induct)
  case base
  show ?case by (cases n) auto
next
  case (step i k)
  have le: "i \<le> k" "k \<le> j" using mono step.hyps by auto
  then have k: "k \<in> set (f i)" using assms(3,4) step.hyps(1) by (meson order_trans)
  show ?case
  proof (cases "i < k")
    case True
    then obtain m where n: "n = Suc m" using step.prems le assms(3) by (cases n) auto
    have "j \<in> set (turns f m k)" using step.IH True step.prems n by simp
    then show ?thesis using k True by (auto simp: n)
  next
    case False
    then have "k = i" using le by simp
    then show ?thesis using step.IH step.prems by blast
  qed
qed

lemma ends_iff: "i \<le> length s \<Longrightarrow> j \<in> set (ends p s i) \<longleftrightarrow> matches p s i j"
proof (induction p arbitrary: i j)
  case (Seq p q)
  have "j \<in> set (ends (Seq p q) s i) \<longleftrightarrow> (\<exists>k. k \<in> set (ends p s i) \<and> j \<in> set (ends q s k))" by auto
  also have "\<dots> \<longleftrightarrow> (\<exists>k. matches p s i k \<and> matches q s k j)" using Seq.IH Seq.prems matches_le by blast
  finally show ?case by auto
next
  case (Star p)
  let ?f = "\<lambda>i. if i \<le> length s then ends p s i else []"
  have turns: "turns (ends p s) n k = turns ?f n k" if "k \<le> length s" for n k
    using that
  proof (induction n arbitrary: k)
    case (Suc n)
    have "turns (ends p s) n l = turns ?f n l" if "l \<in> set (ends p s k)" for l
      using Suc that Star.IH [OF Suc.prems] matches_le by blast
    then show ?case using Suc.prems by (auto intro!: arg_cong [where f = remdups] arg_cong [where f = concat] map_cong)
  qed simp
  show ?case
  proof
    assume "j \<in> set (ends (Star p) s i)"
    then have "j \<in> set (turns ?f (length s - i) i)" using turns [OF Star.prems] by simp
    then have "(matches p s)\<^sup>*\<^sup>* i j" by (rule turns_sound [rotated]) (use Star.IH in \<open>auto split: if_split_asm\<close>)
    then show "matches (Star p) s i j" by simp
  next
    assume m: "matches (Star p) s i j"
    have "j \<in> set (turns ?f (length s - i) i)"
    proof (rule turns_complete [where R = "matches p s" and L = "length s"])
      show "(matches p s)\<^sup>*\<^sup>* i j" using m by simp
      show "j \<le> length s" using matches_le [OF m] Star.prems by simp
      show "k \<le> l" if "(matches p s)\<^sup>*\<^sup>* k l" for k l using matches_le [of "Star p" s k l] that by simp
    qed (use Star.IH matches_le Star.prems in auto)
    then show "j \<in> set (ends (Star p) s i)" using turns [OF Star.prems] by simp
  qed
qed auto

lemma search_iff: "search p s \<longleftrightarrow> (\<exists>i j. i \<le> length s \<and> matches p s i j)"
proof -
  have "search p s \<longleftrightarrow> (\<exists>i. i \<le> length s \<and> ends p s i \<noteq> [])"
    by (auto simp: search_def list_ex_iff Bex_def less_Suc_eq_le simp del: upt_Suc)
  also have "\<dots> \<longleftrightarrow> (\<exists>i. i \<le> length s \<and> (\<exists>j. j \<in> set (ends p s i)))" by (simp add: ex_in_conv)
  finally show ?thesis using ends_iff by blast
qed

subsection \<open>Literals\<close>

lemma matches_literal: "i \<le> length s \<Longrightarrow> matches (literal t) s i j \<longleftrightarrow> j = i + length t \<and> j \<le> length s \<and> take (length t) (drop i s) = t"
proof (induction t arbitrary: i)
  case (Cons c t)
  have "matches (literal (c # t)) s i j \<longleftrightarrow> i < length s \<and> s ! i = c \<and> matches (literal t) s (Suc i) j" by (auto simp: literal_def)
  also have "\<dots> \<longleftrightarrow> j = i + length (c # t) \<and> j \<le> length s \<and> take (length (c # t)) (drop i s) = c # t"
  proof (cases "i < length s")
    case True
    then have "drop i s = s ! i # drop (Suc i) s" by (simp add: Cons_nth_drop_Suc)
    then show ?thesis using True Cons.IH [of "Suc i"] by auto
  qed auto
  finally show ?case .
qed (auto simp: literal_def)

lemma search_literal: "search (literal t) s \<longleftrightarrow> (\<exists>a b. s = a @ t @ b)"
proof
  assume "search (literal t) s"
  then obtain i j where i: "i \<le> length s" and m: "matches (literal t) s i j" unfolding search_iff by blast
  from m have "take (length t) (drop i s) = t" unfolding matches_literal [OF i] by blast
  then have "s = take i s @ t @ drop (length t) (drop i s)" by (metis append_take_drop_id)
  then show "\<exists>a b. s = a @ t @ b" by blast
next
  assume "\<exists>a b. s = a @ t @ b"
  then obtain a b where "s = a @ t @ b" by blast
  then have "matches (literal t) s (length a) (length a + length t)" by (simp add: matches_literal)
  then show "search (literal t) s" unfolding search_iff using \<open>s = a @ t @ b\<close>
    by (intro exI [of _ "length a"] exI [of _ "length a + length t"]) simp
qed

end
