(* ===== verification/Publication.thy ===== *)
theory Publication
  imports Pattern Manifest
begin

section \<open>Checks before publication\<close>

text \<open>
  \<open>check-public-package.py\<close> looks for private paths, hosts and keys in every file git would publish,
  \<open>check-numerical-embargo.py\<close> for results that may not be published yet, and \<open>verify-provenance.py\<close> compares the findings and
  the as-run templates with their recorded digests, on a disk of absolute paths of which the repository is a part. The listing of
  git, the bytes of a file and its digest and size are parameters.
\<close>

subsection \<open>Patterns\<close>

abbreviation digit :: pattern where
  "digit \<equiv> Chars is_digit"

definition caseless :: "string \<Rightarrow> pattern" where
  "caseless s = sequence (map (\<lambda>c. Chars (\<lambda>d. lower_char d = lower_char c)) s)"

definition spaces :: "nat \<Rightarrow> pattern" where
  "spaces n = at_least n (Chars is_space)"

definition quote :: char where
  "quote = char_of (34::nat)"

definition MONETARY_RESULT :: pattern where
  "MONETARY_RESULT = any_of
    [sequence [Boundary, digit, Star (Chars (\<lambda>c. is_digit c \<or> c = CHR '','')), literal ''.'', at_least 1 digit, spaces 1, caseless ''ONE'', Boundary],
     sequence [Boundary, any_of [at_least 4 digit, sequence [digit, maybe digit, maybe digit, at_least 1 (sequence [literal '','', digit, digit, digit])]],
       spaces 1, caseless ''ONE'', Boundary],
     sequence [Boundary, at_least 20 digit, spaces 1, caseless ''atto'', maybe (caseless ''-ONE''), Boundary]]"

definition result_words :: "string list" where
  "result_words = [''atto'', ''amount'', ''balance'', ''claim'', ''payout'', ''reclaim'', ''issuance'', ''supply'', ''gap'']"

definition RESULT_JSON_VALUE :: pattern where
  "RESULT_JSON_VALUE = (let quoted = Chars (\<lambda>c. c = quote); other = Star (Chars (\<lambda>c. c \<noteq> quote)) in
     sequence [quoted, other, any_of (map caseless result_words), other, quoted, spaces 0, literal '':'', spaces 0, maybe quoted,
       maybe (literal ''-''), at_least 7 digit, maybe quoted])"

definition FORBIDDEN :: "(string \<times> pattern) list" where
  "FORBIDDEN =
    [(''private macOS path'', literal ''/Users/''),
     (''private Linux home'', sequence [literal ''/home/'', any_of [literal ''ubuntu'', literal ''polymorpher'']]),
     (''private mount'', literal ''/mnt/data''),
     (''production database path'', literal ''/data/harmony_db''),
     (''private RPC hostname'', sequence [Boundary, literal ''rpc.hs'', Boundary]),
     (''archival host IP'', sequence [Boundary, literal ''69.67.149.19'', Boundary]),
     (''private LAN address'', sequence [Boundary, literal ''192.168.'']),
     (''embedded SSH target'', sequence [Boundary, literal ''ubuntu@'']),
     (''private key marker'', sequence [literal ''-----BEGIN '', maybe (any_of [literal ''RSA '', literal ''EC '', literal ''OPENSSH '']),
        literal ''PRIVATE KEY-----''])]"

subsection \<open>The public package\<close>

definition FORBIDDEN_SUFFIXES :: "string list" where
  "FORBIDDEN_SUFFIXES = [''.so'', ''.dylib'', ''.ldb'', ''.sst'', ''.partial'', ''.download'']"

definition MAX_PUBLIC_BYTES :: int where
  "MAX_PUBLIC_BYTES = 1000000"

definition own_path :: string where
  "own_path = ''scripts/check-public-package.py''"

definition file_suffix :: "string \<Rightarrow> string" where
  "file_suffix relative = suffix_of (path_name relative)"

definition package_problems :: "measures \<Rightarrow> (content \<Rightarrow> string) \<Rightarrow> string \<Rightarrow> content \<Rightarrow> string list" where
  "package_problems m bytes relative c =
     (if file_suffix relative \<in> set FORBIDDEN_SUFFIXES then [relative @ '': forbidden generated/binary suffix''] else [])
     @ (if size_of m c > MAX_PUBLIC_BYTES then [relative @ '': exceeds '' @ py_str MAX_PUBLIC_BYTES @ '' bytes''] else [])
     @ (if char_of (0::nat) \<in> set (bytes c) then [relative @ '': contains binary NUL'']
        else map (\<lambda>f. relative @ '': '' @ fst f) (filter (\<lambda>f. search (snd f) (bytes c)) FORBIDDEN))"

definition packaged_file :: "measures \<Rightarrow> (content \<Rightarrow> string) \<Rightarrow> (string \<Rightarrow> bool) \<Rightarrow> tree \<Rightarrow> string \<Rightarrow> (string list \<times> int) result" where
  "packaged_file m bytes is_symlink files relative =
     rbind (raise_if (is_symlink relative) (ValueError ''public package contains symlink'')) (\<lambda>_.
     rbind (read_file files relative) (\<lambda>c.
       Inr (if relative = own_path then ([], 0) else (package_problems m bytes relative c, 1))))"

definition check_public_package :: "measures \<Rightarrow> (content \<Rightarrow> string) \<Rightarrow> (string \<Rightarrow> bool) \<Rightarrow> string list \<Rightarrow> tree \<Rightarrow> int result" where
  "check_public_package m bytes is_symlink listed files =
     rbind (map_r (packaged_file m bytes is_symlink files) (filter (\<lambda>p. p \<noteq> []) listed)) (\<lambda>rs.
     rbind (raise_if (concat (map fst rs) \<noteq> []) (ValueError ''public-package check failed'')) (\<lambda>_. Inr (sum_list (map snd rs))))"

subsection \<open>The embargo\<close>

definition SENSITIVE_PATHS :: "string list" where
  "SENSITIVE_PATHS = [''docs/findings/'', ''results/20'', ''manifests/releases/20'', ''embargoed/'']"

definition SENSITIVE_FILES :: "string list" where
  "SENSITIVE_FILES = [''manifests/results.sha256'']"

definition TEXT_SUFFIXES :: "string list" where
  "TEXT_SUFFIXES = [''.csv'', ''.go'', ''.json'', ''.md'', ''.py'', ''.sh'', ''.txt'', ''.yaml'', ''.yml'']"

definition sensitive :: "string \<Rightarrow> bool" where
  "sensitive relative \<longleftrightarrow> relative \<in> set SENSITIVE_FILES \<or> list_ex (\<lambda>p. starts_with p relative) SENSITIVE_PATHS"

text \<open>\<open>str.splitlines\<close>.\<close>

definition is_break :: "char \<Rightarrow> bool" where
  "is_break c \<longleftrightarrow> (let n = (of_char c :: nat) in (10 \<le> n \<and> n \<le> 13) \<or> (28 \<le> n \<and> n \<le> 30))"

fun split_lines :: "string \<Rightarrow> string \<Rightarrow> string list" where
  "split_lines acc [] = (if acc = [] then [] else [rev acc])"
| "split_lines acc (c # s) =
     (if of_char c = (13::nat) \<and> s \<noteq> [] \<and> of_char (hd s) = (10::nat) then rev acc # split_lines [] (tl s)
      else if is_break c then rev acc # split_lines [] s
      else split_lines (c # acc) s)"

definition splitlines :: "string \<Rightarrow> string list" where
  "splitlines s = split_lines [] s"

definition line_findings :: "string \<Rightarrow> nat \<times> string \<Rightarrow> string list" where
  "line_findings relative nl = (case nl of (n, line) \<Rightarrow>
     (if search MONETARY_RESULT line then [relative @ '':'' @ py_str (int n) @ '': monetary result''] else [])
     @ (if lower (file_suffix relative) = ''.json'' \<and> search RESULT_JSON_VALUE line
        then [relative @ '':'' @ py_str (int n) @ '': numerical result field''] else []))"

definition embargo_findings :: "(content \<Rightarrow> string) \<Rightarrow> tree \<Rightarrow> string \<Rightarrow> string list result" where
  "embargo_findings text_of_content files relative =
     (if lower (file_suffix relative) \<notin> set TEXT_SUFFIXES then Inr []
      else rbind (read_file files relative) (\<lambda>c.
        Inr (concat (map (line_findings relative) (enumerate 1 (splitlines (text_of_content c)))))))"

definition check_numerical_embargo :: "(content \<Rightarrow> string) \<Rightarrow> string list \<Rightarrow> tree \<Rightarrow> int result" where
  "check_numerical_embargo text_of_content listed files = (let published = filter (\<lambda>p. p \<noteq> []) listed in
     rbind (raise_if (list_ex sensitive published) (ValueError ''embargoed files are publishable under current ignore rules'')) (\<lambda>_.
     rbind (map_r (embargo_findings text_of_content files) published) (\<lambda>findings.
     rbind (raise_if (concat findings \<noteq> []) (ValueError ''possible numerical result outside embargo'')) (\<lambda>_. Inr (int (length published))))))"

subsection \<open>Provenance\<close>

text \<open>
  Here the disk is a dictionary from absolute paths, as lists of their parts, to contents: the check must not leave the
  repository, whose root is one of these paths. \<open>(ROOT / relative).resolve()\<close> is modelled on a disk without symbolic links,
  and \<open>relative_to(ROOT)\<close> raises outside the root.
\<close>

type_synonym disk = "(string list, content) dict"

definition read_disk :: "disk \<Rightarrow> string list \<Rightarrow> content result" where
  "read_disk files path = (case map_of files path of
     None \<Rightarrow> Inl (FileNotFoundError (join ''/'' path)) | Some c \<Rightarrow> Inr c)"

definition resolve_part :: "string list \<Rightarrow> string \<Rightarrow> string list" where
  "resolve_part acc part = (if part = [] \<or> part = ''.'' then acc else if part = ''..'' then butlast acc else acc @ [part])"

definition resolved_path :: "string list \<Rightarrow> string \<Rightarrow> string list" where
  "resolved_path root relative =
     foldl resolve_part (if starts_with ''/'' relative then [] else root) (split_on CHR ''/'' [] relative)"

definition checked_path :: "string list \<Rightarrow> string \<Rightarrow> string list result" where
  "checked_path root relative = (let path = resolved_path root relative in
     if take (length root) path = root then Inr path else Inl (ValueError ''is not in the subpath''))"

definition verify_item :: "measures \<Rightarrow> string list \<Rightarrow> disk \<Rightarrow> string \<Rightarrow> string \<Rightarrow> string \<Rightarrow> json \<Rightarrow> unit result" where
  "verify_item m root files base name_key hash_key item =
     rbind (rbind (subscript item name_key) text_of) (\<lambda>name.
     rbind (checked_path root (if base = [] then name else under base name)) (\<lambda>path.
     rbind (read_disk files path) (\<lambda>c.
     rbind (subscript item hash_key) (\<lambda>hash.
       raise_if (json_differs (JStr (digest_of m c)) hash) (ValueError ''hash mismatch'')))))"

definition verify_hashes :: "measures \<Rightarrow> string list \<Rightarrow> disk \<Rightarrow> string list \<Rightarrow> string \<Rightarrow> string \<Rightarrow> string \<Rightarrow> int result" where
  "verify_hashes m root files manifest base name_key hash_key =
     rbind (rbind (read_disk files (root @ manifest)) document_of) (\<lambda>v.
     rbind (rbind (subscript v ''files'') iter) (\<lambda>items.
     rbind (map_r (verify_item m root files base name_key hash_key) items) (\<lambda>_. Inr (int (length items)))))"

definition findings_record :: "string list" where
  "findings_record = [''docs'', ''findings'', ''SOURCE-HASHES.json'']"

definition verify_findings :: "measures \<Rightarrow> string list \<Rightarrow> disk \<Rightarrow> int result" where
  "verify_findings m root files = verify_hashes m root files findings_record [] ''target'' ''published_sha256''"

definition run_templates :: string where
  "run_templates = ''repro/as-run/2026-09-08-11''"

definition templates_record :: "string list" where
  "templates_record = [''repro'', ''as-run'', ''2026-09-08-11'', ''SOURCE-HASHES.json'']"

definition verify_run_templates :: "measures \<Rightarrow> string list \<Rightarrow> disk \<Rightarrow> int result" where
  "verify_run_templates m root files =
     verify_hashes m root files templates_record run_templates ''file'' ''sanitized_sha256''"

definition verify_provenance :: "measures \<Rightarrow> string list \<Rightarrow> disk \<Rightarrow> (int \<times> int) result" where
  "verify_provenance m root files =
     rbind (verify_findings m root files) (\<lambda>n. rbind (verify_run_templates m root files) (\<lambda>k. Inr (n, k)))"

end
