(* ===== verification/PublicationProofs.thy ===== *)
theory PublicationProofs
  imports Publication Closure
begin

section \<open>What passes the publication checks\<close>

text \<open>
  Both checks pass exactly on the trees that satisfy a condition on the matches of their patterns; an amount in the form the
  scripts print it is found by the embargo; and a passed comparison of digests pins every file listed in the two records.
\<close>

subsection \<open>Matches in a text given by its parts\<close>

lemma matches_sequence [simp]: "matches (sequence []) s i j \<longleftrightarrow> i = j"
  "matches (sequence (p # ps)) s i j \<longleftrightarrow> (\<exists>k. matches p s i k \<and> matches (sequence ps) s k j)"
  by (auto simp: sequence_def)

lemma matches_run:
  assumes "\<And>k. i \<le> k \<Longrightarrow> k < j \<Longrightarrow> P (s ! k)" and "i \<le> j" and "j \<le> length s"
  shows "(matches (Chars P) s)\<^sup>*\<^sup>* i j"
  using assms
proof (induction "j - i" arbitrary: i)
  case (Suc n)
  then have "matches (Chars P) s i (Suc i)" by simp
  moreover have "(matches (Chars P) s)\<^sup>*\<^sup>* (Suc i) j" using Suc.hyps(2) Suc.prems by (intro Suc.hyps(1)) auto
  ultimately show ?case by (rule converse_rtranclp_into_rtranclp)
qed simp

lemma matches_at_least:
  assumes "\<And>k. i \<le> k \<Longrightarrow> k < j \<Longrightarrow> P (s ! k)" and "i + n \<le> j" and "j \<le> length s"
  shows "matches (at_least n (Chars P)) s i j"
  using assms
proof (induction n arbitrary: i)
  case 0
  then show ?case using matches_run [of i j P s] by (simp add: at_least_def)
next
  case (Suc n)
  then have "matches (Chars P) s i (Suc i)" by simp
  moreover have "matches (at_least n (Chars P)) s (Suc i) j" using Suc.prems by (intro Suc.IH) auto
  ultimately show ?case unfolding at_least_def replicate_Suc append_Cons matches_sequence(2) by blast
qed

lemma at_least_in:
  assumes "s = a @ w @ b" and "\<forall>c \<in> set w. P c" and "n \<le> length w"
  shows "matches (at_least n (Chars P)) s (length a) (length a + length w)"
  by (rule matches_at_least) (use assms in \<open>auto simp: nth_append\<close>)

lemma star_in:
  assumes "s = a @ w @ b" and "\<forall>c \<in> set w. P c"
  shows "matches (Star (Chars P)) s (length a) (length a + length w)"
  using matches_run [of "length a" "length a + length w" P s] assms by (auto simp: nth_append)

lemma caseless_in:
  assumes "s = a @ u @ b" and "lower u = lower t"
  shows "matches (caseless t) s (length a) (length a + length u)"
  using assms
proof (induction t arbitrary: a u)
  case (Cons c t)
  then obtain d v where u: "u = d # v" "lower_char d = lower_char c" "lower v = lower t"
    by (cases u) (auto simp: lower_Cons)
  have "matches (caseless t) s (length (a @ [d])) (length (a @ [d]) + length v)"
    using Cons.prems(1) u by (intro Cons.IH) auto
  moreover have "matches (Chars (\<lambda>x. lower_char x = lower_char c)) s (length a) (length (a @ [d]))" using Cons.prems(1) u by simp
  ultimately show ?case by (auto simp: caseless_def u(1))
qed (simp add: caseless_def)

lemma boundary_before:
  assumes "s = a @ c # r" and "a = [] \<or> \<not> is_word (last a)" and "is_word c"
  shows "at_boundary s (length a)"
proof -
  have "word_at s (length a)" using assms(1,3) by (simp add: word_at_def)
  moreover have "\<not> (0 < length a \<and> word_at s (length a - 1))"
    using assms(1,2) by (cases a rule: rev_cases) (auto simp: word_at_def nth_append)
  ultimately show ?thesis by (simp add: at_boundary_def)
qed

lemma boundary_after:
  assumes "s = a @ b" and "a \<noteq> []" and "is_word (last a)" and "b = [] \<or> \<not> is_word (hd b)"
  shows "at_boundary s (length a)"
proof -
  have "0 < length a \<and> word_at s (length a - 1)" using assms(1-3) by (cases a rule: rev_cases) (auto simp: word_at_def nth_append)
  moreover have "\<not> word_at s (length a)" using assms(1,4) by (cases b) (auto simp: word_at_def)
  ultimately show ?thesis by (simp add: at_boundary_def)
qed

subsection \<open>Printed amounts\<close>

lemma sequence_step: "matches p s i k \<Longrightarrow> matches (sequence ps) s k j \<Longrightarrow> matches (sequence (p # ps)) s i j"
  by auto

lemma decimal_amount_found:
  assumes s: "s = a @ w @ ''.'' @ f @ sp @ ''ONE'' @ b" and w: "w \<noteq> []" "\<forall>c \<in> set w. is_digit c" and f: "f \<noteq> []" "\<forall>c \<in> set f. is_digit c"
    and sp: "sp \<noteq> []" "\<forall>c \<in> set sp. is_space c"
    and before: "a = [] \<or> \<not> is_word (last a)" and after: "b = [] \<or> \<not> is_word (hd b)"
  shows "search MONETARY_RESULT s"
proof -
  obtain d ds where d: "w = d # ds" using w(1) by (cases w) auto
  have "is_word d" using w(2) by (simp add: d is_word_def)
  then have m0: "matches Boundary s (length a) (length a)"
    using boundary_before [of s a d "ds @ ''.'' @ f @ sp @ ''ONE'' @ b"] before by (simp add: s d)
  have m1: "matches digit s (length a) (length (a @ [d]))" using w(2) by (simp add: s d)
  have m2: "matches (Star (Chars (\<lambda>c. is_digit c \<or> c = CHR '',''))) s (length (a @ [d])) (length (a @ w))"
    using star_in [of s "a @ [d]" ds "''.'' @ f @ sp @ ''ONE'' @ b" "\<lambda>c. is_digit c \<or> c = CHR '',''"] w(2) by (simp add: s d)
  have m3: "matches (literal ''.'') s (length (a @ w)) (length (a @ w @ ''.''))" by (simp add: matches_literal s)
  have m4: "matches (at_least 1 digit) s (length (a @ w @ ''.'')) (length (a @ w @ ''.'' @ f))"
    using at_least_in [of s "a @ w @ ''.''" f "sp @ ''ONE'' @ b" is_digit 1] f by (cases f) (auto simp: s add.assoc)
  have m5: "matches (spaces 1) s (length (a @ w @ ''.'' @ f)) (length (a @ w @ ''.'' @ f @ sp))"
    using at_least_in [of s "a @ w @ ''.'' @ f" sp "''ONE'' @ b" is_space 1] sp unfolding spaces_def by (cases sp) (auto simp: s add.assoc)
  have m6: "matches (caseless ''ONE'') s (length (a @ w @ ''.'' @ f @ sp)) (length (a @ w @ ''.'' @ f @ sp @ ''ONE''))"
    using caseless_in [of s "a @ w @ ''.'' @ f @ sp" "''ONE''" b "''ONE''"] by (simp add: s)
  have "is_word (last (a @ w @ ''.'' @ f @ sp @ ''ONE''))" by (simp add: is_word_def is_digit_def)
  then have m7: "matches Boundary s (length (a @ w @ ''.'' @ f @ sp @ ''ONE'')) (length (a @ w @ ''.'' @ f @ sp @ ''ONE''))"
    using boundary_after [of s "a @ w @ ''.'' @ f @ sp @ ''ONE''" b] after unfolding matches.simps by (simp add: s)
  have "matches (sequence [Boundary, digit, Star (Chars (\<lambda>c. is_digit c \<or> c = CHR '','')), literal ''.'', at_least 1 digit, spaces 1,
      caseless ''ONE'', Boundary]) s (length a) (length (a @ w @ ''.'' @ f @ sp @ ''ONE''))"
    by (rule sequence_step [OF m0] sequence_step [OF m1] sequence_step [OF m2] sequence_step [OF m3] sequence_step [OF m4]
        sequence_step [OF m5] sequence_step [OF m6] sequence_step [OF m7])+ simp
  then have "matches MONETARY_RESULT s (length a) (length (a @ w @ ''.'' @ f @ sp @ ''ONE''))"
    unfolding MONETARY_RESULT_def any_of_def by simp
  moreover have "length a \<le> length s" by (simp add: s)
  ultimately show ?thesis unfolding search_iff by blast
qed

text \<open>What \<open>display_one\<close> writes, followed by its unit.\<close>

lemma is_digit_char: "d < 10 \<Longrightarrow> is_digit (digit_char d)"
  by (simp add: is_digit_def digit_char_def of_char_of)

lemma nat_str_digits: "c \<in> set (nat_str 10 n) \<Longrightarrow> is_digit c"
  using set_nat_str [of 10 c n] is_digit_char by auto

lemma printed_amount_found:
  assumes s: "s = a @ display_one v @ sp @ ''ONE'' @ b" and sp: "sp \<noteq> []" "\<forall>c \<in> set sp. is_space c"
    and before: "a = [] \<or> \<not> is_word (last a)" and after: "b = [] \<or> \<not> is_word (hd b)"
  shows "search MONETARY_RESULT s"
proof -
  let ?sign = "if v < 0 then ''-'' else []" and ?w = "nat_str 10 (nat (\<bar>v\<bar> div ATTO))" and ?f = "zero_padded 18 (\<bar>v\<bar> mod ATTO)"
  have "0 < ATTO" by (simp add: ATTO_def)
  then have w: "py_str (\<bar>v\<bar> div ATTO) = ?w" and m: "0 \<le> \<bar>v\<bar> mod ATTO" by (simp_all add: py_str_def pos_imp_zdiv_neg_iff)
  have parts: "s = (a @ ?sign) @ ?w @ ''.'' @ ?f @ sp @ ''ONE'' @ b" using s by (simp add: display_one_def Let_def w)
  have "is_digit CHR ''0''" by code_simp
  then have "\<forall>c \<in> set ?f. is_digit c" using nat_str_digits m by (auto simp: zero_padded_def py_str_def Let_def)
  moreover have "?f \<noteq> []" by (simp add: zero_padded_def Let_def)
  moreover have "\<not> is_word CHR ''-''" by code_simp
  then have "a @ ?sign = [] \<or> \<not> is_word (last (a @ ?sign))" using before by auto
  ultimately show ?thesis by (intro decimal_amount_found [OF parts nat_str_nonempty _ _ _ sp _ after]) (auto dest: nat_str_digits)
qed

subsection \<open>The embargo\<close>

definition found :: "pattern \<Rightarrow> string \<Rightarrow> bool" where
  "found p s \<longleftrightarrow> (\<exists>i j. i \<le> length s \<and> matches p s i j)"

lemma search_found: "search p s = found p s"
  by (simp add: search_iff found_def)

lemma concat_Nil_iff: "concat xss = [] \<longleftrightarrow> (\<forall>xs \<in> set xss. xs = [])"
  by auto

lemma line_findings_Nil:
  "line_findings p nl = [] \<longleftrightarrow> \<not> found MONETARY_RESULT (snd nl) \<and> \<not> (lower (file_suffix p) = ''.json'' \<and> found RESULT_JSON_VALUE (snd nl))"
  by (cases nl) (simp add: line_findings_def search_found)

lemma set_enumerate_snd: "snd ` set (enumerate n xs) = set xs"
  by (metis list.set_map map_snd_enumerate)

lemma findings_Nil:
  "concat (map (line_findings p) (enumerate n ls)) = [] \<longleftrightarrow>
     (\<forall>l \<in> set ls. \<not> found MONETARY_RESULT l \<and> \<not> (lower (file_suffix p) = ''.json'' \<and> found RESULT_JSON_VALUE l))"
proof -
  have "set ls = snd ` set (enumerate n ls)" by (simp add: set_enumerate_snd)
  then show ?thesis unfolding concat_Nil_iff set_map by (simp add: line_findings_Nil)
qed

lemma embargo_file_iff:
  "embargo_findings t files p = Inr [] \<longleftrightarrow> lower (file_suffix p) \<notin> set TEXT_SUFFIXES
     \<or> (\<exists>c. map_of files p = Some c \<and> (\<forall>l \<in> set (splitlines (t c)). \<not> found MONETARY_RESULT l
          \<and> \<not> (lower (file_suffix p) = ''.json'' \<and> found RESULT_JSON_VALUE l)))"
  unfolding embargo_findings_def by (auto simp: read_file_def findings_Nil split: option.split simp del: concat_eq_Nil_conv)

lemma map_r_all_Nil: "(\<exists>ys. map_r f xs = Inr ys \<and> concat ys = []) \<longleftrightarrow> (\<forall>x \<in> set xs. f x = Inr [])"
proof
  assume "\<exists>ys. map_r f xs = Inr ys \<and> concat ys = []"
  then obtain ys where ys: "map_r f xs = Inr ys" "concat ys = []" by blast
  show "\<forall>x \<in> set xs. f x = Inr []" using map_r_at [OF ys(1)] ys(2) unfolding concat_Nil_iff by metis
next
  assume "\<forall>x \<in> set xs. f x = Inr []"
  then have "map_r f xs = Inr (map (\<lambda>_. []) xs)" by (intro map_r_Inr) blast
  then show "\<exists>ys. map_r f xs = Inr ys \<and> concat ys = []" by (auto simp: concat_Nil_iff)
qed

text \<open>
  The embargo passes exactly if no listed name is sensitive and no line of a listed text file contains a match.
\<close>

lemma embargo_passes_iff:
  "is_ok (check_numerical_embargo t listed files) \<longleftrightarrow> (\<forall>p \<in> set listed. p \<noteq> [] \<longrightarrow> \<not> sensitive p
     \<and> (lower (file_suffix p) \<in> set TEXT_SUFFIXES \<longrightarrow> (\<exists>c. map_of files p = Some c \<and> (\<forall>l \<in> set (splitlines (t c)).
          \<not> found MONETARY_RESULT l \<and> \<not> (lower (file_suffix p) = ''.json'' \<and> found RESULT_JSON_VALUE l)))))"
proof -
  let ?ps = "filter (\<lambda>p. p \<noteq> []) listed"
  have "is_ok (check_numerical_embargo t listed files) \<longleftrightarrow> \<not> list_ex sensitive ?ps
      \<and> (\<exists>fs. map_r (embargo_findings t files) ?ps = Inr fs \<and> concat fs = [])"
    unfolding check_numerical_embargo_def Let_def
    by (cases "map_r (embargo_findings t files) ?ps") (auto simp: is_ok_iff raise_if_def simp del: concat_eq_Nil_conv)
  then show ?thesis unfolding map_r_all_Nil embargo_file_iff list_ex_iff by auto
qed

text \<open>
  C23. A tree that passes the embargo prints no audit amount in the form of the scripts: wherever a line of a listed text file
  contains what \<open>display_one\<close> writes for an integer, of any sign and size, then blanks and the unit ONE, a word character
  adjoins the amount before or the unit after. (Before the sign, such a character can stand only for non-negative amounts.)
\<close>

lemma embargo_stops_printed_amounts:
  assumes "is_ok (check_numerical_embargo t listed files)" and "p \<in> set listed" and "lower (file_suffix p) \<in> set TEXT_SUFFIXES"
    and "map_of files p = Some c" and "a @ display_one v @ sp @ ''ONE'' @ b \<in> set (splitlines (t c))"
    and "sp \<noteq> []" and "list_all is_space sp"
  shows "(a \<noteq> [] \<and> is_word (last a)) \<or> (b \<noteq> [] \<and> is_word (hd b))"
proof (rule ccontr)
  assume "\<not> ?thesis"
  then have "search MONETARY_RESULT (a @ display_one v @ sp @ ''ONE'' @ b)"
    using assms(6,7) by (intro printed_amount_found [OF refl]) (auto simp: list_all_iff)
  moreover have "p \<noteq> []" using assms(3) by (auto simp: file_suffix_def path_name_def suffix_of_def TEXT_SUFFIXES_def)
  ultimately show False using assms(1-5) unfolding embargo_passes_iff search_found by force
qed

definition plain_text :: "content \<Rightarrow> string" where
  "plain_text c = (case c of Raw s \<Rightarrow> s | Document _ \<Rightarrow> [])"

definition example_notes :: tree where
  "example_notes = [(''docs/a.md'', Raw ''1.000000000000000000 ONEs''), (''b.bin'', Raw ''1.0 ONE'')]"

lemma embargo_stops_printed_amounts_witness:
  "is_ok (check_numerical_embargo plain_text [''docs/a.md'', ''b.bin''] example_notes) \<and> is_word CHR ''s''"
proof -
  have ok: "is_ok (check_numerical_embargo plain_text [''docs/a.md'', ''b.bin''] example_notes)" by code_simp
  have "lower (file_suffix ''docs/a.md'') \<in> set TEXT_SUFFIXES" by code_simp
  moreover have "map_of example_notes ''docs/a.md'' = Some (Raw ''1.000000000000000000 ONEs'')" by code_simp
  moreover have "[] @ display_one ATTO @ '' '' @ ''ONE'' @ ''s'' \<in> set (splitlines (plain_text (Raw ''1.000000000000000000 ONEs'')))" by code_simp
  moreover have "list_all is_space '' ''" by code_simp
  ultimately have "is_word (hd ''s'')" using embargo_stops_printed_amounts [OF ok, of "''docs/a.md''" _ "[]" ATTO "'' ''" "''s''"] by simp
  then show ?thesis using ok by simp
qed

text \<open>
  C24. The embargo raises on the documentation of the program itself: the pattern for whole amounts takes the threshold of
  1,000 ONE, which is no result, for one, and line 145 of the process history names it. So no listing with this file passes.
\<close>

lemma process_history_stopped:
  assumes "''docs/process-history.md'' \<in> set listed" and "map_of files ''docs/process-history.md'' = Some c"
    and "''- Kept the inclusive 1,000 ONE snapshot threshold and evaluated it before'' \<in> set (splitlines (t c))"
  shows "\<exists>e. check_numerical_embargo t listed files = Inl e"
proof (rule ccontr)
  assume "\<not> ?thesis"
  then have ok: "is_ok (check_numerical_embargo t listed files)" by (cases "check_numerical_embargo t listed files") auto
  have "lower (file_suffix ''docs/process-history.md'') \<in> set TEXT_SUFFIXES" by code_simp
  then have "\<not> found MONETARY_RESULT ''- Kept the inclusive 1,000 ONE snapshot threshold and evaluated it before''"
    using assms ok unfolding embargo_passes_iff by force
  moreover have "search MONETARY_RESULT ''- Kept the inclusive 1,000 ONE snapshot threshold and evaluated it before''" by code_simp
  ultimately show False unfolding search_found by blast
qed

definition example_history :: tree where
  "example_history = [(''docs/process-history.md'', Raw ''- Kept the inclusive 1,000 ONE snapshot threshold and evaluated it before'')]"

lemma process_history_stopped_witness:
  "\<exists>e. check_numerical_embargo plain_text [''docs/process-history.md''] example_history = Inl e"
  by (rule process_history_stopped [where c = "Raw ''- Kept the inclusive 1,000 ONE snapshot threshold and evaluated it before''"]) code_simp+

subsection \<open>The public package\<close>

lemma package_problems_Nil:
  "package_problems m bytes p c = [] \<longleftrightarrow> file_suffix p \<notin> set FORBIDDEN_SUFFIXES \<and> size_of m c \<le> MAX_PUBLIC_BYTES
     \<and> char_of (0::nat) \<notin> set (bytes c) \<and> list_all (\<lambda>f. \<not> found (snd f) (bytes c)) FORBIDDEN"
  by (auto simp: package_problems_def search_found list_all_iff filter_empty_conv not_less)

lemma packaged_file_ok:
  "(\<exists>r. packaged_file m bytes sl files p = Inr r \<and> fst r = []) \<longleftrightarrow> \<not> sl p \<and> (\<exists>c. map_of files p = Some c
     \<and> (p = own_path \<or> package_problems m bytes p c = []))"
  by (auto simp: packaged_file_def raise_if_def read_file_def rbind_eq_Inr split: option.split)

lemma map_r_all:
  "(\<exists>ys. map_r f xs = Inr ys \<and> (\<forall>y \<in> set ys. P y)) \<longleftrightarrow> (\<forall>x \<in> set xs. \<exists>y. f x = Inr y \<and> P y)"
proof (induction xs)
  case (Cons x xs)
  show ?case unfolding set_simps ball_simps Cons.IH [symmetric] by (auto simp: rbind_eq_Inr)
qed simp

text \<open>
  The public package passes exactly if every listed path is a file and no symbolic link, and every file but the check itself has
  no forbidden suffix, is not too large, has no NUL and matches no forbidden pattern.
\<close>

lemma public_package_passes_iff:
  "is_ok (check_public_package m bytes sl listed files) \<longleftrightarrow> (\<forall>p \<in> set listed. p \<noteq> [] \<longrightarrow> \<not> sl p \<and> (\<exists>c. map_of files p = Some c
     \<and> (p \<noteq> own_path \<longrightarrow> file_suffix p \<notin> set FORBIDDEN_SUFFIXES \<and> size_of m c \<le> MAX_PUBLIC_BYTES \<and> char_of (0::nat) \<notin> set (bytes c)
          \<and> list_all (\<lambda>f. \<not> found (snd f) (bytes c)) FORBIDDEN)))"
proof -
  let ?ps = "filter (\<lambda>p. p \<noteq> []) listed"
  have "is_ok (check_public_package m bytes sl listed files) \<longleftrightarrow>
      (\<exists>rs. map_r (packaged_file m bytes sl files) ?ps = Inr rs \<and> (\<forall>r \<in> set rs. fst r = []))"
    unfolding check_public_package_def
    by (cases "map_r (packaged_file m bytes sl files) ?ps") (auto simp: is_ok_iff raise_if_def)
  then show ?thesis unfolding map_r_all packaged_file_ok package_problems_Nil by auto
qed

subsection \<open>Provenance\<close>

definition plain_part :: "string \<Rightarrow> bool" where
  "plain_part x \<longleftrightarrow> x \<noteq> [] \<and> x \<noteq> ''.'' \<and> x \<noteq> ''..''"

lemma drop_butlast: "set (drop n (butlast xs)) \<subseteq> set (drop n xs)"
  by (metis butlast_conv_take drop_take set_take_subset)

lemma resolved_beyond:
  "\<forall>x \<in> set (drop n acc). plain_part x \<Longrightarrow> \<forall>x \<in> set (drop n (foldl resolve_part acc parts)). plain_part x"
proof (induction parts arbitrary: acc)
  case (Cons p parts)
  have "\<forall>x \<in> set (drop n (resolve_part acc p)). plain_part x"
    using Cons.prems drop_butlast [of n acc] by (auto simp: resolve_part_def plain_part_def drop_Cons' split: if_split_asm)
  then show ?case using Cons.IH by simp
qed simp

lemma checked_path_inside:
  assumes "checked_path root relative = Inr path"
  shows "resolved_path root relative = path \<and> (\<exists>parts. path = root @ parts \<and> list_all plain_part parts)"
proof -
  let ?start = "if starts_with ''/'' relative then [] else root"
  have path: "resolved_path root relative = path" and "take (length root) path = root"
    using assms by (auto simp: checked_path_def Let_def split: if_split_asm)
  then have "path = root @ drop (length root) path" by (metis append_take_drop_id)
  moreover have "\<forall>x \<in> set (drop (length root) ?start). plain_part x" by simp
  from resolved_beyond [OF this] path have "list_all plain_part (drop (length root) path)"
    by (auto simp: resolved_path_def list_all_iff)
  ultimately show ?thesis using path by blast
qed

text \<open>
  The name of an item, resolved as the operating system resolves it, is a path below the root, and what the disk holds there has
  the recorded digest.
\<close>

definition pinned_item :: "measures \<Rightarrow> string list \<Rightarrow> disk \<Rightarrow> string \<Rightarrow> string \<Rightarrow> string \<Rightarrow> json \<Rightarrow> bool" where
  "pinned_item m root files base name_key hash_key item \<longleftrightarrow> (\<exists>name parts c.
     subscript item name_key = Inr (JStr name) \<and> resolved_path root (if base = [] then name else under base name) = root @ parts
     \<and> list_all plain_part parts \<and> map_of files (root @ parts) = Some c \<and> subscript item hash_key = Inr (JStr (digest_of m c)))"

lemma read_disk_Inr: "read_disk files path = Inr c \<longleftrightarrow> map_of files path = Some c"
  by (auto simp: read_disk_def split: option.splits)

lemma not_differs_JStr: "\<not> json_differs (JStr s) v \<Longrightarrow> v = JStr s"
  by (cases v) (auto simp: json_differs_def py_eq_def as_number_def)

lemma if_Inl_Inr: "(if b then Inl e else Inr x) = Inr y \<Longrightarrow> \<not> b"
  by (auto split: if_split_asm)

lemma verify_item_pinned:
  assumes "verify_item m root files base name_key hash_key item = Inr u"
  shows "pinned_item m root files base name_key hash_key item"
proof -
  from assms obtain v name path c hash where name: "subscript item name_key = Inr v" "text_of v = Inr name"
    and path: "checked_path root (if base = [] then name else under base name) = Inr path" and c: "read_disk files path = Inr c"
    and hash: "subscript item hash_key = Inr hash" "\<not> json_differs (JStr (digest_of m c)) hash"
    unfolding verify_item_def raise_if_def by (elim rbind_E) (blast dest: if_Inl_Inr)
  have "v = JStr name" using name(2) by (cases v) auto
  moreover from checked_path_inside [OF path] obtain parts where "path = root @ parts" "list_all plain_part parts"
    and "resolved_path root (if base = [] then name else under base name) = root @ parts" by blast
  ultimately show ?thesis using name c hash not_differs_JStr unfolding pinned_item_def read_disk_Inr by blast
qed

lemma document_of_Inr: "document_of c = Inr v \<Longrightarrow> c = Document v"
  by (cases c) (simp_all add: document_of_def)

lemma verify_hashes_pinned:
  assumes "verify_hashes m root files manifest base name_key hash_key = Inr n"
  shows "\<exists>v items. map_of files (root @ manifest) = Some (Document v) \<and> rbind (subscript v ''files'') iter = Inr items \<and> n = int (length items)
    \<and> list_all (pinned_item m root files base name_key hash_key) items"
proof -
  from assms obtain v items us where doc: "rbind (read_disk files (root @ manifest)) document_of = Inr v" and items: "rbind (subscript v ''files'') iter = Inr items"
    and us: "map_r (verify_item m root files base name_key hash_key) items = Inr us" and n: "n = int (length items)"
    unfolding verify_hashes_def by (elim rbind_E) auto
  have "list_all (pinned_item m root files base name_key hash_key) items"
    unfolding list_all_iff using map_r_at [OF us] verify_item_pinned by (metis (full_types))
  moreover have "map_of files (root @ manifest) = Some (Document v)"
    using doc document_of_Inr unfolding rbind_eq_Inr read_disk_Inr by blast
  ultimately show ?thesis using items n by blast
qed

text \<open>
  C25. A passed provenance check pins what it counts. Both records are documents of the repository, and the name of every item of
  them, after the resolution of dots, is a path below the root of the repository (no name with \<open>..\<close> and no absolute name leads
  elsewhere on the disk) where the disk holds a file with the recorded digest; the reported numbers are the numbers of items.
\<close>

lemma provenance_pinned:
  assumes "verify_provenance m root files = Inr (n, k)"
  shows "\<exists>v items w templates. map_of files (root @ findings_record) = Some (Document v) \<and> rbind (subscript v ''files'') iter = Inr items
    \<and> n = int (length items) \<and> list_all (pinned_item m root files [] ''target'' ''published_sha256'') items
    \<and> map_of files (root @ templates_record) = Some (Document w) \<and> rbind (subscript w ''files'') iter = Inr templates
    \<and> k = int (length templates) \<and> list_all (pinned_item m root files run_templates ''file'' ''sanitized_sha256'') templates"
proof -
  from assms have "verify_hashes m root files findings_record [] ''target'' ''published_sha256'' = Inr n"
    and "verify_hashes m root files templates_record run_templates ''file'' ''sanitized_sha256'' = Inr k"
    unfolding verify_provenance_def verify_findings_def verify_run_templates_def by (auto simp: rbind_eq_Inr)
  from this [THEN verify_hashes_pinned] show ?thesis by blast
qed

text \<open>A repository at \<open>/home/repo\<close>; the disk also holds a file outside it.\<close>

definition example_records :: disk where
  "example_records =
    [([''home'', ''repo'', ''docs'', ''findings'', ''SOURCE-HASHES.json''],
        Document (JDict [(''files'', JList [JDict [(''target'', JStr ''docs/./findings/../a.md''), (''published_sha256'', JStr ''h'')]])])),
     ([''home'', ''repo'', ''repro'', ''as-run'', ''2026-09-08-11'', ''SOURCE-HASHES.json''], Document (JDict [(''files'', JList [])])),
     ([''home'', ''repo'', ''docs'', ''a.md''], Raw ''x''), ([''home'', ''secret''], Raw ''x'')]"

definition example_hashes :: measures where
  "example_hashes = \<lparr>size_of = (\<lambda>_. 1), digest_of = (\<lambda>_. ''h''), rows_of = (\<lambda>_. 0)\<rparr>"

lemma provenance_pinned_witness:
  "verify_provenance example_hashes [''home'', ''repo''] example_records = Inr (1, 0)
     \<and> pinned_item example_hashes [''home'', ''repo''] example_records [] ''target'' ''published_sha256''
          (JDict [(''target'', JStr ''docs/./findings/../a.md''), (''published_sha256'', JStr ''h'')])"
proof -
  let ?item = "JDict [(''target'', JStr ''docs/./findings/../a.md''), (''published_sha256'', JStr ''h'')]"
  have ok: "verify_provenance example_hashes [''home'', ''repo''] example_records = Inr (1, 0)" by code_simp
  obtain v items where v: "map_of example_records ([''home'', ''repo''] @ findings_record) = Some (Document v)" "rbind (subscript v ''files'') iter = Inr items"
    and all: "list_all (pinned_item example_hashes [''home'', ''repo''] example_records [] ''target'' ''published_sha256'') items"
    using provenance_pinned [OF ok] by blast
  have "rbind (subscript (JDict [(''files'', JList [?item])]) ''files'') iter = Inr [?item]" by code_simp
  moreover have "v = JDict [(''files'', JList [?item])]" using v(1) by (simp add: example_records_def findings_record_def)
  ultimately have "items = [?item]" using v(2) by simp
  then show ?thesis using all ok by simp
qed

end
