(* ===== verification/PolicyReport.thy ===== *)
theory PolicyReport
  imports StagePolicy Closure Filetree "HOL-Library.Sublist"
begin

section \<open>The report on the migration policy\<close>

text \<open>
  When every comparison of \<open>migration-policy-reconciliation.py\<close> has passed, the script writes a JSON document with the totals
  it found and then a report in Markdown, which is printed from the document: \<open>policy_document\<close>, \<open>render_report\<close> and
  \<open>write_policy\<close>. The names, paths and digests of the inputs and the encoding of the document are parameters. The lemmas
  at the end say that the report states the sums over the rows of the policy.
\<close>

subsection \<open>The result\<close>

definition counts_document :: "(string, int) dict \<Rightarrow> json" where
  "counts_document d = JDict (map (\<lambda>(k, n). (k, JInt n)) d)"

definition stage_columns :: "stage_stats \<Rightarrow> (string \<times> int) list" where
  "stage_columns v = [(''addresses'', st_addresses v), (''allocation_atto'', st_allocation v)]"

definition sorted_document :: "('v \<Rightarrow> (string \<times> int) list) \<Rightarrow> (string, 'v) dict \<Rightarrow> json" where
  "sorted_document columns d = JDict (map (\<lambda>(k, v). (k, counts_document (columns v))) (sort_key fst d))"

text \<open>Reading \<open>stages[label]\<close> adds the label: after the comparisons the two labels they read are present.\<close>

definition touch_stage :: "string \<Rightarrow> (string, stage_stats) dict \<Rightarrow> (string, stage_stats) dict" where
  "touch_stage label = adjust no_stage label (\<lambda>v. v)"

definition compared_stages :: "stage_state \<Rightarrow> (string, stage_stats) dict" where
  "compared_stages s = touch_stage ''next_stage'' (touch_stage ''initial'' (ss_stages s))"

definition policy_provenance :: json where
  "policy_provenance = JDict
    [(''classification'', JStr ''policy-scenario verification''),
     (''factual_input'', JStr ''cutoff-pinned migration ledger, contract identities, activity, and retained-balance evidence''),
     (''note'', JStr ''stage and non-issuance treatments are user-selected migration policy; gross native supply remains factual'')]"

definition allocation_columns :: "allocation \<Rightarrow> (string \<times> int) list" where
  "allocation_columns a =
    [(''gross_native_snapshot_atto'', al_gross a),
     (''existing_non_issuance_atto'', sp_existing (al_supply a)),
     (''historical_retained_caps_atto'', sp_historical (al_supply a)),
     (''historical_incident_contract_recipients_atto'', sp_retained (al_supply a)),
     (''revert_leak_credited_recipients_atto'', sp_leak (al_supply a)),
     (''wone_retained_not_issued_atto'', al_wone a),
     (''reviewed_contract_non_issuance_atto'', al_contract a),
     (''abandoned_contracts_public_aggregate_atto'', al_wone a + al_contract a),
     (''initial_wallets_atto'', al_initial a),
     (''next_stage_contracts_atto'', al_next_stage a),
     (''deferred_wallets_atto'', al_deferred a),
     (''total_exclusions_atto'', al_gross a - al_migration a),
     (''total_migration_atto'', al_migration a)]"

definition initial_document :: "stage_state \<Rightarrow> json \<Rightarrow> json" where
  "initial_document s since = JDict
    [(''automatic_policy_addresses'', JInt (entry 0 (ss_routing s) ''automatic_policy'')),
     (''manual_routing_addresses'', JInt (entry 0 (ss_routing s) ''exchange_or_manual'')),
     (''validator_wrapper_addresses'', JInt (ss_validators s)),
     (''since_time_utc'', since)]"

definition sources_document :: "(string \<times> string \<times> string) list \<Rightarrow> json" where
  "sources_document sources =
     JDict (map (\<lambda>(name, path, digest). (name, JDict [(''path'', JStr path), (''sha256'', JStr digest)])) sources)"

definition policy_document :: "(string \<times> string \<times> string) list \<Rightarrow> string \<Rightarrow> json \<Rightarrow> stage_state \<Rightarrow> allocation \<Rightarrow> json" where
  "policy_document sources out since s a = JDict
    [(''schema_version'', JInt 1),
     (''status'', JStr ''passed''),
     (''method'', JStr ''independent row-level re-sum of migration-stage policy and cross-repository non-issuance sources''),
     (''_provenance'', policy_provenance),
     (''sources'', sources_document sources),
     (''qualified_rows'', JInt (int (length (ss_seen s)))),
     (''initial_wallets'', initial_document s since),
     (''deferred_below_threshold_after_incident_deductions'', counts_document (stage_columns (ss_below s))),
     (''stages'', sorted_document stage_columns (compared_stages s)),
     (''issuance_treatments'', counts_document (sort_key fst (ss_treatments s))),
     (''contracts'', sorted_document contract_columns (ss_contracts s)),
     (''allocation'', counts_document (allocation_columns a)),
     (''output'', JStr out)]"

subsection \<open>Printing\<close>

text \<open>\<open>f"{n:,}"\<close>: groups of three digits, from the right.\<close>

fun grouped_from_right :: "string \<Rightarrow> string" where
  "grouped_from_right (a # b # c # d # ds) = a # b # c # CHR '','' # grouped_from_right (d # ds)"
| "grouped_from_right ds = ds"

definition grouped :: "int \<Rightarrow> string" where
  "grouped n = (if n < 0 then ''-'' else []) @ rev (grouped_from_right (rev (py_str \<bar>n\<bar>)))"

definition format_grouped :: "json \<Rightarrow> string result" where
  "format_grouped v = (case v of
     JInt n \<Rightarrow> Inr (grouped n)
   | JBool b \<Rightarrow> Inr (if b then ''1'' else ''0'')
   | JStr _ \<Rightarrow> Inl (ValueError ''cannot specify a comma with s'')
   | _ \<Rightarrow> Inl (TypeError ''unsupported format string''))"

text \<open>A line with several cells, as \<open>table\<close> joins them.\<close>

definition table_line :: "string list \<Rightarrow> string" where
  "table_line cells = ''| '' @ join '' | '' cells @ '' |''"

definition table :: "string list \<Rightarrow> string list list \<Rightarrow> string" where
  "table headers rows = join [newline]
     ([table_line headers, ''|'' @ join ''|'' (map (\<lambda>_. ''---'') headers) @ ''|''] @ map table_line rows)"

text \<open>
  The text of the report is a template: what stands in it, \<open>one(result[\<dots>])\<close>, \<open>f"{result[\<dots>]:,}"\<close> and \<open>{result[\<dots>]}\<close>
  with the keys that are read one after the other. \<open>one\<close> is \<open>one_floor\<close>.
\<close>

datatype part =
    Written string
  | Amount "string list"
  | Counted "string list"
  | Printed "string list"

fun fill_part :: "json \<Rightarrow> part \<Rightarrow> string result" where
  "fill_part result (Written s) = Inr s"
| "fill_part result (Amount ks) = rbind (int_at result ks) (\<lambda>n. Inr (one_floor n))"
| "fill_part result (Counted ks) = rbind (at_path result ks) format_grouped"
| "fill_part result (Printed ks) = rbind (at_path result ks) text_of"

datatype segment =
    Inline "part list"
  | Tabular "string list" "part list list"

definition fill_line :: "json \<Rightarrow> part list \<Rightarrow> string result" where
  "fill_line result ps = rbind (map_r (fill_part result) ps) (\<lambda>xs. Inr (concat xs))"

fun fill_segment :: "json \<Rightarrow> segment \<Rightarrow> string result" where
  "fill_segment result (Inline ps) = fill_line result ps"
| "fill_segment result (Tabular headers rows) = rbind (map_r (map_r (fill_part result)) rows) (\<lambda>cells. Inr (table headers cells))"

definition plain :: "string list \<Rightarrow> segment list" where
  "plain ls = map (\<lambda>l. Inline [Written l]) ls"

definition em_dash :: string where
  "em_dash = map char_of [226, 128, 148 :: nat]"

definition open_quote :: string where
  "open_quote = map char_of [226, 128, 156 :: nat]"

definition close_quote :: string where
  "close_quote = map char_of [226, 128, 157 :: nat]"

definition report_title :: "string list" where
  "report_title =
    [''# Migration policy reconciliation'',
     [],
     ''Prepared: `2026-09-17`'',
     [],
     ''This independently re-sums the migration repository's address-level stage'',
     ''policy from shared source artifacts rather than an editorial calculation.'',
     [],
     ''## Result'',
     []]"

definition cohort_text :: "string list" where
  "cohort_text =
    [[],
     ''The initial cohort contains only positive eligible wallets that hold at least'',
     ''1,000 ONE after incident deductions (reviewed non-issuance and retained'',
     ''exploit caps) and have indexed activity in the six calendar months before'']"

definition snapshot_text :: "string list" where
  "snapshot_text =
    [''snapshot-qualified wallets'']"

definition deferral_text :: "string list" where
  "deferral_text =
    [''remaining) fall below 1,000 ONE after those deductions and are deferred with'',
     ''the below-threshold wallets. Reviewed contracts are not'',
     ''present in its activity rows. Exchange/manual routing rows remain allocations;'',
     ''their routing category does not mean non-issuance. In the migration'',
     ''repository's compiled routing, confirmed exchange wallets leave this cohort for'',
     ''the `exchange_manual` stage: they are excluded from the airdrop and delivered'',
     ''manually from the 2050 supply reserve, so the stage-policy count below is an'',
     ''upper bound on the airdropped initial cohort.'']"

definition automatic_text :: "string list" where
  "automatic_text =
    [''automatic-policy rows and'']"

definition including_text :: "string list" where
  "including_text =
    [''rows, including'']"

definition partition_text :: "string list" where
  "partition_text =
    [''validator wallets.'',
     [],
     ''## Reviewed contract partition'',
     []]"

definition label_text :: "string list" where
  "label_text =
    [[],
     open_quote @ ''Abandoned contracts'' @ close_quote @ '' is the approved public aggregate label:'']"

definition conservation_text :: "string list" where
  "conservation_text =
    [''It is not an on-chain abandonment finding.'',
     [],
     ''## Conservation'',
     [],
     ''```text'']"

definition verification_text :: "string list" where
  "verification_text =
    [''```'',
     [],
     ''The fixed premint is unchanged. Not issued means omitted from migration token'',
     ''and vault allocations and retained within the 2050 premint reserve; it is not'',
     ''a burn or treasury transfer.'',
     [],
     ''## Verification'',
     [],
     ''- Address-stage rows are unique and match the recorded SHA-256.'',
     ''- The threshold-qualified stage set is disjoint by stage.'',
     ''- Every initial wallet holds at least 1,000 ONE after incident deductions;'',
     ''  every wallet below that is deferred, and their count and amount match the'',
     ''  stage summary.'',
     ''- Validator wrappers remain wallet accounts.'',
     ''- Contract group amounts, WONE source offset, and both non-issuance inventories'',
     ''  re-sum independently.'',
     ''- Initial + next-stage + deferred equals the total migration allocation.'',
     []]"

definition allocation_table :: "part list list" where
  "allocation_table =
    [[Written ''Initial wallets'', Counted [''stages'', ''initial'', ''addresses''], Amount [''stages'', ''initial'', ''allocation_atto'']],
     [Written ''Next-stage reviewed contracts'', Counted [''stages'', ''next_stage'', ''addresses''], Amount [''stages'', ''next_stage'', ''allocation_atto'']],
     [Written ''Deferred wallets'', Written ''not a destination manifest'', Amount [''allocation'', ''deferred_wallets_atto'']],
     [Written ''Total migration allocation'', Written [], Amount [''allocation'', ''total_migration_atto'']]]"

definition allocation_table_headers :: "string list" where
  "allocation_table_headers = [''Allocation bucket'', ''Addresses'', ''ONE'']"

definition contract_table :: "part list list" where
  "contract_table =
    [[Written ''Multisigs'', Counted [''contracts'', ''multisig'', ''addresses''], Amount [''contracts'', ''multisig'', ''allocation_atto''], Written ''next stage'', Written ''issue after per-address destination approval''],
     [Written ''LayerZero collateral'', Counted [''contracts'', ''layerzero_bridge_collateral'', ''addresses''], Amount [''contracts'', ''layerzero_bridge_collateral'', ''allocation_atto''], Written ''next stage'', Written ''issue after reconciliation''],
     [Written ''1wallet'', Counted [''contracts'', ''onewallet'', ''addresses''], Amount [''contracts'', ''onewallet'', ''allocation_atto''], Written ''next stage'', Written ''issue after recovery destination approval''],
     [Written ''SmartVault'', Counted [''contracts'', ''smartvault'', ''addresses''], Amount [''contracts'', ''smartvault'', ''not_issued_atto''], Written em_dash, Written ''not issued''],
     [Written ''Other reviewed contracts'', Counted [''contracts'', ''other_reviewed_contract'', ''addresses''], Amount [''contracts'', ''other_reviewed_contract'', ''not_issued_atto''], Written em_dash, Written ''not issued'']]"

definition contract_table_headers :: "string list" where
  "contract_table_headers = [''Internal group'', ''Addresses'', ''ONE'', ''Migration stage'', ''Issuance treatment'']"

definition conservation_lines :: "part list list" where
  "conservation_lines =
    [[Written ''gross native snapshot                      '', Amount [''allocation'', ''gross_native_snapshot_atto'']],
     [Written ''- existing non-issuance                    '', Amount [''allocation'', ''existing_non_issuance_atto'']],
     [Written ''- historical retained caps                 '', Amount [''allocation'', ''historical_retained_caps_atto'']],
     [Written ''    incident-contract recipients           '', Amount [''allocation'', ''historical_incident_contract_recipients_atto'']],
     [Written ''    revert-leak credited wallets         '', Amount [''allocation'', ''revert_leak_credited_recipients_atto'']],
     [Written ''- retained WONE backing                     '', Amount [''allocation'', ''wone_retained_not_issued_atto'']],
     [Written ''- reviewed-contract non-issuance            '', Amount [''allocation'', ''reviewed_contract_non_issuance_atto'']],
     [Written ''= total migration allocation               '', Amount [''allocation'', ''total_migration_atto'']]]"

definition report_template :: "segment list" where
  "report_template =
     plain report_title
     @ [Tabular allocation_table_headers allocation_table]
     @ plain cohort_text
     @ map Inline [[Written ''cutoff. `'', Counted [''deferred_below_threshold_after_incident_deductions'', ''addresses''], Written ''`'']]
     @ plain snapshot_text
     @ map Inline [[Written ''(`'', Amount [''deferred_below_threshold_after_incident_deductions'', ''allocation_atto''], Written '' ONE`'']]
     @ plain deferral_text
     @ map Inline [[Written ''It contains `'', Counted [''initial_wallets'', ''automatic_policy_addresses''], Written ''`'']]
     @ plain automatic_text
     @ map Inline [[Written ''`'', Counted [''initial_wallets'', ''manual_routing_addresses''], Written ''` exchange/manual'']]
     @ plain including_text
     @ map Inline [[Written ''`'', Counted [''initial_wallets'', ''validator_wrapper_addresses''], Written ''` verified'']]
     @ plain partition_text
     @ [Tabular contract_table_headers contract_table]
     @ plain label_text
     @ map Inline [[Written ''`'', Amount [''allocation'', ''reviewed_contract_non_issuance_atto''], Written '' + `''],
       [Written ''`'', Amount [''allocation'', ''wone_retained_not_issued_atto''], Written '' = `''],
       [Written ''`'', Amount [''allocation'', ''abandoned_contracts_public_aggregate_atto''], Written '' ONE`.'']]
     @ plain conservation_text
     @ map Inline conservation_lines
     @ plain verification_text
     @ map Inline [[Written ''Machine-readable result: `'', Printed [''output''], Written ''`.'']]"

definition render_report :: "json \<Rightarrow> string result" where
  "render_report result =
     rbind (map_r (subscript result) [''allocation'', ''stages'', ''contracts'']) (\<lambda>_.
     rbind (map_r (fill_segment result) report_template) (\<lambda>ls. Inr (concat (map (\<lambda>l. l @ [newline]) ls))))"

text \<open>
  Writing the two texts. The files are a dictionary from paths to texts; \<open>write_text\<close> refuses when a partial file is left over,
  or when the file is there and \<open>--replace\<close> was not given. The parent directory can be created, and the write itself succeeds.
  The report is rendered before its own guards are reached. The result is the files at the end and how the script ends.
\<close>

type_synonym texts = "(string, string) dict"

definition write_text :: "bool \<Rightarrow> string \<Rightarrow> string \<Rightarrow> texts \<Rightarrow> texts result" where
  "write_text replace_it path written files =
     (if map_of files (partial_path path) \<noteq> None then Inl (FileExistsError (partial_path path))
      else if map_of files path \<noteq> None \<and> \<not> replace_it then Inl (FileExistsError path)
      else Inr (AList.update path written files))"

definition write_policy :: "(json \<Rightarrow> string) \<Rightarrow> bool \<Rightarrow> string \<Rightarrow> string \<Rightarrow> json \<Rightarrow> texts \<Rightarrow> texts \<times> unit result" where
  "write_policy encode replace_it out report result files =
     (case write_text replace_it out (encode result @ [newline]) files of
        Inl e \<Rightarrow> (files, Inl e)
      | Inr files1 \<Rightarrow>
          (case rbind (render_report result) (\<lambda>printed. write_text replace_it report printed files1) of
             Inl e \<Rightarrow> (files1, Inl e)
           | Inr files2 \<Rightarrow> (files2, Inr ())))"

end
