(* ===== verification/PolicyReportProofs.thy ===== *)
theory PolicyReportProofs
  imports PolicyReport
begin

section \<open>What the policy report says\<close>

text \<open>
  The result document has the totals of the booked rows, the report is the template filled from it, and so each line of the
  report is a statement about the rows of the policy. The report is printed exactly if each of five contract groups has a row.
\<close>

subsection \<open>Documents\<close>

lemma at_path_Nil: "at_path v [] = Inr v"
  by (simp add: at_path_def)

lemma at_path_Cons: "at_path v (k # ks) = rbind (subscript v k) (\<lambda>w. at_path w ks)"
  by (simp add: at_path_def)

lemma map_of_sort_key: "distinct (keys d) \<Longrightarrow> map_of (sort_key fst d) = map_of d"
  for d :: "(string, 'v) dict"
proof -
  assume d: "distinct (keys d)"
  have "distinct (map fst (sort_key fst d))"
    by (rule mset_eq_imp_distinct_iff [THEN iffD2, OF _ d]) simp
  then show ?thesis using d by (intro ext) (metis map_of_eq_Some_iff not_None_eq set_sort)
qed

lemma map_of_map_snd: "map_of (map (\<lambda>(k, v). (k, f v)) d) k = map_option f (map_of d k)"
  by (induction d) auto

lemma subscript_counts: "subscript (counts_document d) k = (case map_of d k of None \<Rightarrow> Inl (KeyError k) | Some n \<Rightarrow> Inr (JInt n))"
  by (simp add: counts_document_def getitem_def map_of_map_snd split: option.split)

lemma subscript_sorted:
  "distinct (keys d) \<Longrightarrow> subscript (sorted_document f d) k =
     (case map_of d k of None \<Rightarrow> Inl (KeyError k) | Some v \<Rightarrow> Inr (counts_document (f v)))"
  by (simp add: sorted_document_def getitem_def map_of_map_snd map_of_sort_key split: option.split)

lemma entry_compared: "entry no_stage (compared_stages s) k = entry no_stage (ss_stages s) k"
  by (simp add: compared_stages_def touch_stage_def dict_simps)

lemma keys_compared: "set (keys (compared_stages s)) = {''next_stage'', ''initial''} \<union> set (keys (ss_stages s))"
  by (simp add: compared_stages_def touch_stage_def keys_adjust insert_commute del: set_map)

lemma distinct_compared: "distinct (keys (ss_stages s)) \<Longrightarrow> distinct (keys (compared_stages s))"
  by (simp add: compared_stages_def touch_stage_def distinct_adjust)

subsection \<open>The numbers of the document\<close>

lemma document_fields:
  "subscript (policy_document sources out since s a) ''allocation'' = Inr (counts_document (allocation_columns a))"
  "subscript (policy_document sources out since s a) ''stages'' = Inr (sorted_document stage_columns (compared_stages s))"
  "subscript (policy_document sources out since s a) ''contracts'' = Inr (sorted_document contract_columns (ss_contracts s))"
  "subscript (policy_document sources out since s a) ''initial_wallets'' = Inr (initial_document s since)"
  "subscript (policy_document sources out since s a) ''deferred_below_threshold_after_incident_deductions''
     = Inr (counts_document (stage_columns (ss_below s)))"
  "subscript (policy_document sources out since s a) ''output'' = Inr (JStr out)"
  by (simp_all add: policy_document_def getitem_def)

lemma allocation_at:
  "at_path (policy_document sources out since s a) [''allocation'', k] =
     (case map_of (allocation_columns a) k of None \<Rightarrow> Inl (KeyError k) | Some n \<Rightarrow> Inr (JInt n))"
  by (simp add: at_path_Cons at_path_Nil document_fields subscript_counts split: option.split)

lemma below_at:
  "at_path (policy_document sources out since s a) [''deferred_below_threshold_after_incident_deductions'', k] =
     (case map_of (stage_columns (ss_below s)) k of None \<Rightarrow> Inl (KeyError k) | Some n \<Rightarrow> Inr (JInt n))"
  by (simp add: at_path_Cons at_path_Nil document_fields subscript_counts split: option.split)

lemma stage_at:
  assumes "distinct (keys (ss_stages s))" and "k \<in> {''initial'', ''next_stage''}"
  shows "at_path (policy_document sources out since s a) [''stages'', k, c] =
    (case map_of (stage_columns (entry no_stage (ss_stages s) k)) c of None \<Rightarrow> Inl (KeyError c) | Some n \<Rightarrow> Inr (JInt n))"
proof -
  have "k \<in> set (keys (compared_stages s))" using assms(2) unfolding keys_compared by blast
  then obtain v where v: "map_of (compared_stages s) k = Some v" by (metis map_of_eq_None_iff list.set_map not_None_eq)
  then have "v = entry no_stage (ss_stages s) k" using entry_compared [of s k] by (simp add: entry_def get_or_def)
  then show ?thesis using v distinct_compared [OF assms(1)]
    by (simp add: at_path_Cons at_path_Nil document_fields subscript_sorted subscript_counts split: option.split)
qed

lemma contract_at:
  assumes "distinct (keys (ss_contracts s))"
  shows "at_path (policy_document sources out since s a) [''contracts'', g, c] =
    (if g \<in> set (keys (ss_contracts s))
     then (case map_of (contract_columns (entry no_contract (ss_contracts s) g)) c of None \<Rightarrow> Inl (KeyError c) | Some n \<Rightarrow> Inr (JInt n))
     else Inl (KeyError g))"
proof (cases "map_of (ss_contracts s) g")
  case None
  moreover have "g \<notin> set (keys (ss_contracts s))" using None by (auto simp: map_of_eq_None_iff)
  ultimately show ?thesis using assms(1)
    by (simp add: at_path_Cons at_path_Nil document_fields subscript_sorted del: set_map)
next
  case (Some v)
  then have "entry no_contract (ss_contracts s) g = v" by (simp add: entry_def get_or_def)
  moreover have "g \<in> set (keys (ss_contracts s))" using map_of_SomeD [OF Some] by force
  ultimately show ?thesis using Some assms
    by (simp add: at_path_Cons at_path_Nil document_fields subscript_sorted subscript_counts del: set_map split: option.split)
qed

subsection \<open>Segments\<close>

lemma sublist_concat_elem: "x \<in> set xs \<Longrightarrow> sublist x (concat xs)"
  by (metis concat.simps(2) concat_append split_list sublist_appendI)

lemma sublist_join: "x \<in> set xs \<Longrightarrow> sublist x (join sep xs)"
proof (induction sep xs rule: join.induct)
  case (3 sep s t ts)
  then consider "x = s" | "x \<in> set (t # ts)" by auto
  then show ?case
  proof cases
    case 2
    then have "sublist x (join sep (t # ts))" by (rule "3.IH")
    then show ?thesis by (metis append_assoc join.simps(3) sublist_appendI sublist_order.dual_order.trans append_Nil2)
  qed simp
qed auto

lemma segments_printed:
  assumes "render_report doc = Inr text" and "report_template = pre @ ys @ post"
  shows "\<exists>ls. map_r (fill_segment doc) ys = Inr ls \<and> sublist (concat (map (\<lambda>l. l @ [newline]) ls)) text"
proof -
  obtain ls where "map_r (fill_segment doc) report_template = Inr ls" "text = concat (map (\<lambda>l. l @ [newline]) ls)"
    using assms(1) unfolding render_report_def by (elim rbind_E) blast
  then show ?thesis unfolding assms(2) map_r_append by (auto simp: rbind_eq_Inr)
qed

lemma table_row_printed:
  assumes r: "render_report doc = Inr text" and t: "Tabular headers rows \<in> set report_template" and row: "row \<in> set rows"
  shows "\<exists>cells. map_r (fill_part doc) row = Inr cells \<and> sublist (table_line cells) text"
proof -
  obtain pre post where "report_template = pre @ [Tabular headers rows] @ post" using split_list [OF t] by auto
  from segments_printed [OF r this] obtain l where l: "fill_segment doc (Tabular headers rows) = Inr l"
    and printed: "sublist (l @ [newline]) text" by (auto simp: rbind_eq_Inr simp del: fill_segment.simps)
  from l obtain cs where cs: "map_r (map_r (fill_part doc)) rows = Inr cs" and l': "l = table headers cs" by (auto simp: rbind_eq_Inr)
  obtain cells where cells: "cells \<in> set cs" "map_r (fill_part doc) row = Inr cells" using map_r_at [OF cs row] by blast
  have "sublist (table_line cells) l" unfolding l' table_def using cells(1) by (intro sublist_join) simp
  then have "sublist (table_line cells) text"
    using printed by (meson sublist_append_rightI sublist_order.order.trans)
  then show ?thesis using cells(2) by blast
qed

lemma tables_of_report:
  "Tabular allocation_table_headers allocation_table \<in> set report_template"
  "Tabular contract_table_headers contract_table \<in> set report_template"
  by (simp_all add: report_template_def)

subsection \<open>The rows behind the numbers\<close>

definition stage_members :: "row list \<Rightarrow> string \<Rightarrow> row list" where
  "stage_members rs stage = filter (\<lambda>r. text_cell r ''migration_stage'' = stage) rs"

definition group_members :: "row list \<Rightarrow> string \<Rightarrow> row list" where
  "group_members rs g = filter (\<lambda>r. text_cell r ''account_classification'' = ''genuine_contract'' \<and> text_cell r ''policy_group'' = g) rs"

definition group_sum :: "row list \<Rightarrow> string \<Rightarrow> stage_field \<Rightarrow> int" where
  "group_sum rs g fld = sum_list (map (\<lambda>r. stage_cell r fld) (group_members rs g))"

lemma stage_step_contract_rows:
  assumes "stage_step since s r = Inr s'"
  shows "if text_cell r ''account_classification'' = ''genuine_contract''
    then \<exists>f. ss_contracts s' = adjust no_contract (text_cell r ''policy_group'') f (ss_contracts s) \<and> (\<forall>v. ct_addresses (f v) = ct_addresses v + 1)
    else ss_contracts s' = ss_contracts s"
  using assms
proof (elim stage_step_Inr)
  fix w
  assume w: "read_stage_row r = Inr w"
    and s': "s' = book_stage (s\<lparr>ss_seen := ss_seen s @ [address_cell r ''address'']\<rparr>) w"
  show ?thesis by (auto simp: s' book_stage_def read_stage_row_Inr [OF w] count_contract_def)
qed

interpretation contract_rows: tallying_loop "stage_step since" ss_contracts no_contract "\<lambda>r. text_cell r ''policy_group''"
  "\<lambda>r. text_cell r ''account_classification'' = ''genuine_contract''" ct_addresses "\<lambda>_. 1" for since
proof unfold_locales
  show "ct_addresses no_contract = 0" by (simp add: no_contract_def)
  fix s r s'
  assume "stage_step since s r = Inr s'"
  note c = stage_step_contract_rows [OF this]
  show "\<exists>f. ss_contracts s' = adjust no_contract (text_cell r ''policy_group'') f (ss_contracts s) \<and> (\<forall>v. ct_addresses (f v) = ct_addresses v + 1)"
    if "text_cell r ''account_classification'' = ''genuine_contract''"
    using c unfolding if_P [OF that] .
  show "ss_contracts s' = ss_contracts s" if "text_cell r ''account_classification'' \<noteq> ''genuine_contract''"
    using c unfolding if_not_P [OF that] .
qed

lemma row_count_sum: "sum_list (map (\<lambda>_. 1) xs) = int (length xs)"
  by (induction xs) simp_all

lemma booked_stages:
  assumes "fold_r (stage_step since) no_rows rs = Inr s"
  shows "distinct (keys (ss_stages s))"
    and "stage \<noteq> [] \<Longrightarrow> stage_columns (entry no_stage (ss_stages s) stage)
      = [(''addresses'', int (length (stage_members rs stage))), (''allocation_atto'', stage_sum rs stage)]"
proof -
  show "distinct (keys (ss_stages s))" using stage_count.run_total [OF assms] by simp
  assume "stage \<noteq> []"
  then have "filter (\<lambda>r. text_cell r ''migration_stage'' \<noteq> [] \<and> text_cell r ''migration_stage'' = stage) rs = stage_members rs stage"
    unfolding stage_members_def by (intro filter_cong) auto
  then have "st_addresses (entry no_stage (ss_stages s) stage) = int (length (stage_members rs stage))"
    using stage_count.run_entry [OF assms, of stage] by (simp add: dict_simps no_stage_zero row_count_sum)
  then show "stage_columns (entry no_stage (ss_stages s) stage)
      = [(''addresses'', int (length (stage_members rs stage))), (''allocation_atto'', stage_sum rs stage)]"
    using stage_allocation_sum [OF assms \<open>stage \<noteq> []\<close>] by (simp add: stage_columns_def stage_allocation_def)
qed

lemma booked_groups:
  assumes "fold_r (stage_step since) no_rows rs = Inr s"
  shows "distinct (keys (ss_contracts s))"
    and "g \<in> set (keys (ss_contracts s)) \<longleftrightarrow> group_members rs g \<noteq> []"
    and "ct_addresses (entry no_contract (ss_contracts s) g) = int (length (group_members rs g))"
    and "ct_allocation (entry no_contract (ss_contracts s) g) = group_sum rs g Migration"
    and "ct_not_issued (entry no_contract (ss_contracts s) g) = group_sum rs g Contract"
proof -
  show "distinct (keys (ss_contracts s))" using contract_rows.run_total [OF assms] by simp
  show "g \<in> set (keys (ss_contracts s)) \<longleftrightarrow> group_members rs g \<noteq> []"
    unfolding contract_rows.run_keys [OF assms] group_members_def filter_empty_conv by auto
  show "ct_addresses (entry no_contract (ss_contracts s) g) = int (length (group_members rs g))"
    using contract_rows.run_entry [OF assms, of g] by (simp add: dict_simps no_contract_def group_members_def row_count_sum)
  show "ct_allocation (entry no_contract (ss_contracts s) g) = group_sum rs g Migration"
    using contract_total.run_entry [OF assms, of Migration g]
    by (simp add: dict_simps no_contract_def contract_counter_def contract_fields_def group_sum_def group_members_def)
  show "ct_not_issued (entry no_contract (ss_contracts s) g) = group_sum rs g Contract"
    using contract_total.run_entry [OF assms, of Contract g]
    by (simp add: dict_simps no_contract_def contract_counter_def contract_fields_def group_sum_def group_members_def)
qed

subsection \<open>Filled rows\<close>

lemma fill_counted: "at_path doc ks = Inr (JInt n) \<Longrightarrow> fill_part doc (Counted ks) = Inr (grouped n)"
  by (simp add: format_grouped_def)

lemma fill_amount: "at_path doc ks = Inr (JInt n) \<Longrightarrow> fill_part doc (Amount ks) = Inr (one_floor n)"
  by (simp add: int_at_def)

lemma fill_row3:
  "map_r (fill_part doc) [Written w, p, q] = Inr cells \<Longrightarrow> fill_part doc p = Inr x \<Longrightarrow> fill_part doc q = Inr y \<Longrightarrow>
     table_line cells = ''| '' @ w @ '' | '' @ x @ '' | '' @ y @ '' |''"
  by (auto simp: table_line_def simp del: fill_part.simps(2-))

lemma fill_row5:
  "map_r (fill_part doc) [Written w, p, q, Written u, Written v] = Inr cells \<Longrightarrow> fill_part doc p = Inr x \<Longrightarrow> fill_part doc q = Inr y \<Longrightarrow>
     table_line cells = ''| '' @ w @ '' | '' @ x @ '' | '' @ y @ '' | '' @ u @ '' | '' @ v @ '' |''"
  by (auto simp: table_line_def simp del: fill_part.simps(2-))

text \<open>Lines of the report as statements: a text, and the rows it speaks about.\<close>

definition stage_line_in :: "string \<Rightarrow> row list \<Rightarrow> string \<times> string \<Rightarrow> bool" where
  "stage_line_in printed rs = (\<lambda>(w, k). sublist
     (''| '' @ w @ '' | '' @ grouped (int (length (stage_members rs k))) @ '' | '' @ one_floor (stage_sum rs k) @ '' |'') printed)"

definition group_line_in :: "string \<Rightarrow> row list \<Rightarrow> string \<times> string \<times> stage_field \<times> string \<times> string \<Rightarrow> bool" where
  "group_line_in printed rs = (\<lambda>(w, g, fld, u, v). group_members rs g \<noteq> [] \<and> sublist
     (''| '' @ w @ '' | '' @ grouped (int (length (group_members rs g))) @ '' | '' @ one_floor (group_sum rs g fld)
        @ '' | '' @ u @ '' | '' @ v @ '' |'') printed)"

definition conservation_block :: "allocation \<Rightarrow> string list" where
  "conservation_block a =
      [''gross native snapshot                      '' @ one_floor (al_gross a),
       ''- existing non-issuance                    '' @ one_floor (sp_existing (al_supply a)),
       ''- historical retained caps                 '' @ one_floor (sp_historical (al_supply a)),
       ''    incident-contract recipients           '' @ one_floor (sp_retained (al_supply a)),
       ''    revert-leak credited wallets         '' @ one_floor (sp_leak (al_supply a)),
       ''- retained WONE backing                     '' @ one_floor (al_wone a),
       ''- reviewed-contract non-issuance            '' @ one_floor (al_contract a),
       ''= total migration allocation               '' @ one_floor (al_migration a)]"

lemma stage_line_printed:
  assumes run: "fold_r (stage_step since) no_rows rs = Inr s" and r: "render_report (policy_document sources out t s a) = Inr printed"
    and k: "k \<in> {''initial'', ''next_stage''}"
    and row: "[Written w, Counted [''stages'', k, ''addresses''], Amount [''stages'', k, ''allocation_atto'']] \<in> set allocation_table"
  shows "stage_line_in printed rs (w, k)"
proof -
  let ?doc = "policy_document sources out t s a"
  have "k \<noteq> []" using k by auto
  note columns = booked_stages(2) [OF run this]
  have at: "at_path ?doc [''stages'', k, ''addresses''] = Inr (JInt (int (length (stage_members rs k))))"
    "at_path ?doc [''stages'', k, ''allocation_atto''] = Inr (JInt (stage_sum rs k))"
    unfolding stage_at [OF booked_stages(1) [OF run] k] columns by simp_all
  obtain cells where "map_r (fill_part ?doc) [Written w, Counted [''stages'', k, ''addresses''], Amount [''stages'', k, ''allocation_atto'']] = Inr cells"
    and "sublist (table_line cells) printed" using table_row_printed [OF r tables_of_report(1) row] by blast
  then show ?thesis using fill_row3 [OF _ fill_counted [OF at(1)] fill_amount [OF at(2)]] unfolding stage_line_in_def split by metis
qed

lemma allocation_line_printed:
  assumes r: "render_report (policy_document sources out t s a) = Inr printed" and n: "map_of (allocation_columns a) c = Some n"
    and row: "[Written w, Written u, Amount [''allocation'', c]] \<in> set allocation_table"
  shows "sublist (''| '' @ w @ '' | '' @ u @ '' | '' @ one_floor n @ '' |'') printed"
proof -
  let ?doc = "policy_document sources out t s a"
  have at: "at_path ?doc [''allocation'', c] = Inr (JInt n)" by (simp add: allocation_at n)
  obtain cells where "map_r (fill_part ?doc) [Written w, Written u, Amount [''allocation'', c]] = Inr cells"
    and "sublist (table_line cells) printed" using table_row_printed [OF r tables_of_report(1) row] by blast
  then show ?thesis using fill_row3 [OF _ fill_part.simps(1) fill_amount [OF at]] by metis
qed

lemma group_line_printed:
  assumes run: "fold_r (stage_step since) no_rows rs = Inr s" and r: "render_report (policy_document sources out t s a) = Inr printed"
    and row: "[Written w, Counted [''contracts'', g, ''addresses''], Amount [''contracts'', g, c], Written u, Written v] \<in> set contract_table"
    and c: "(c, fld) \<in> {(''allocation_atto'', Migration), (''not_issued_atto'', Contract)}"
  shows "group_line_in printed rs (w, g, fld, u, v)"
proof -
  let ?doc = "policy_document sources out t s a"
  obtain cells where cells: "map_r (fill_part ?doc) [Written w, Counted [''contracts'', g, ''addresses''], Amount [''contracts'', g, c], Written u, Written v] = Inr cells"
    and p: "sublist (table_line cells) printed" using table_row_printed [OF r tables_of_report(2) row] by blast
  from cells obtain x where "at_path ?doc [''contracts'', g, ''addresses''] = Inr x" by (auto simp: rbind_eq_Inr)
  then have g: "g \<in> set (keys (ss_contracts s))"
    unfolding contract_at [OF booked_groups(1) [OF run]] by (simp split: if_split_asm)
  have at: "at_path ?doc [''contracts'', g, ''addresses''] = Inr (JInt (int (length (group_members rs g))))"
    "at_path ?doc [''contracts'', g, c] = Inr (JInt (group_sum rs g fld))"
    unfolding contract_at [OF booked_groups(1) [OF run]] if_P [OF g] using c by (auto simp: contract_columns_def booked_groups [OF run])
  then show ?thesis using fill_row5 [OF cells fill_counted [OF at(1)] fill_amount [OF at(2)]] p g booked_groups(2) [OF run] unfolding group_line_in_def split by metis
qed

lemma conservation_in_report:
  "\<exists>pre post. report_template = pre @ map Inline conservation_lines @ post"
  unfolding report_template_def by (metis append_assoc)

lemma conservation_printed:
  assumes r: "render_report (policy_document sources out t s a) = Inr printed"
  shows "sublist (concat (map (\<lambda>l. l @ [newline]) (conservation_block a))) printed"
proof -
  obtain pre post where "report_template = pre @ map Inline conservation_lines @ post" using conservation_in_report by blast
  from segments_printed [OF r this] obtain ls
    where ls: "map_r (fill_segment (policy_document sources out t s a)) (map Inline conservation_lines) = Inr ls"
      and p: "sublist (concat (map (\<lambda>l. l @ [newline]) ls)) printed" by blast
  have at: "int_at (policy_document sources out t s a) [''allocation'', k] = Inr n" if "map_of (allocation_columns a) k = Some n" for k n
    by (simp add: int_at_def allocation_at that)
  have "ls = conservation_block a"
    using ls unfolding conservation_lines_def conservation_block_def
    by (simp add: fill_line_def int_at_def allocation_at allocation_columns_def)
  then show ?thesis using p by simp
qed

lemma group_lines_printed:
  assumes run: "fold_r (stage_step since) no_rows rs = Inr s" and r: "render_report (policy_document sources out t s a) = Inr printed"
  shows "list_all (group_line_in printed rs)
      [(''Multisigs'', ''multisig'', Migration, ''next stage'', ''issue after per-address destination approval''),
       (''LayerZero collateral'', ''layerzero_bridge_collateral'', Migration, ''next stage'', ''issue after reconciliation''),
       (''1wallet'', ''onewallet'', Migration, ''next stage'', ''issue after recovery destination approval''),
       (''SmartVault'', ''smartvault'', Contract, em_dash, ''not issued''),
       (''Other reviewed contracts'', ''other_reviewed_contract'', Contract, em_dash, ''not issued'')]"
  unfolding list.pred_inject
    by (intro conjI; ((rule group_line_printed [OF run r, where c = "''allocation_atto''"], simp add: contract_table_def, simp)
        | (rule group_line_printed [OF run r, where c = "''not_issued_atto''"], simp add: contract_table_def, simp) | simp))

text \<open>
  C33. Every amount of the report is one of the policy. Its tables give, for the two stages and the five contract groups, the
  number of rows and the sum of their column over the rows of the policy file; no group is empty; and the printed conservation
  block, from the gross snapshot down to the total, states an exact equation, whose historical line is the sum of its two
  indented lines and whose total is what the stages and the deferred wallets get.
\<close>

lemma report_states_policy:
  assumes v: "verify_policy stage_summary migration supply digests header rs = Inr (s, a)"
    and r: "render_report (policy_document sources out since s a) = Inr printed"
  shows "list_all (stage_line_in printed rs) [(''Initial wallets'', ''initial''), (''Next-stage reviewed contracts'', ''next_stage'')]
    \<and> list_all (group_line_in printed rs)
      [(''Multisigs'', ''multisig'', Migration, ''next stage'', ''issue after per-address destination approval''),
       (''LayerZero collateral'', ''layerzero_bridge_collateral'', Migration, ''next stage'', ''issue after reconciliation''),
       (''1wallet'', ''onewallet'', Migration, ''next stage'', ''issue after recovery destination approval''),
       (''SmartVault'', ''smartvault'', Contract, em_dash, ''not issued''),
       (''Other reviewed contracts'', ''other_reviewed_contract'', Contract, em_dash, ''not issued'')]
    \<and> sublist (''| Deferred wallets | not a destination manifest | '' @ one_floor (al_deferred a) @ '' |'') printed
    \<and> sublist (concat (map (\<lambda>l. l @ [newline]) (conservation_block a))) printed
    \<and> al_gross a - sp_existing (al_supply a) - sp_historical (al_supply a) - al_wone a - al_contract a = al_migration a
    \<and> sp_historical (al_supply a) = sp_retained (al_supply a) + sp_leak (al_supply a)
    \<and> al_migration a = stage_sum rs ''initial'' + stage_sum rs ''next_stage'' + al_deferred a"
proof -
  obtain t where run: "fold_r (stage_step t) no_rows rs = Inr s" using verify_policy_facts(1) [OF v] by blast
  obtain part where p: "check_supply stage_summary supply = Inr part"
    and c: "check_allocation stage_summary migration s part = Inr a" using verify_policy_facts(2) [OF v] by blast
  note f = check_allocation_Inr [OF c] check_supply_Inr(1) [OF p]
  have "list_all (stage_line_in printed rs) [(''Initial wallets'', ''initial''), (''Next-stage reviewed contracts'', ''next_stage'')]"
    unfolding list.pred_inject by (intro conjI TrueI stage_line_printed [OF run r]) (simp_all add: allocation_table_def)
  moreover note group_lines_printed [OF run r]
  moreover have "sublist (''| Deferred wallets | not a destination manifest | '' @ one_floor (al_deferred a) @ '' |'') printed"
    using allocation_line_printed [OF r, of "''deferred_wallets_atto''" _ "''Deferred wallets''" "''not a destination manifest''"]
    by (simp add: allocation_columns_def allocation_table_def)
  moreover have "al_migration a = stage_sum rs ''initial'' + stage_sum rs ''next_stage'' + al_deferred a"
    using f stage_allocation_sum [OF run, of "''initial''"] stage_allocation_sum [OF run, of "''next_stage''"] by simp
  moreover have "al_gross a - sp_existing (al_supply a) - sp_historical (al_supply a) - al_wone a - al_contract a = al_migration a"
    and "sp_historical (al_supply a) = sp_retained (al_supply a) + sp_leak (al_supply a)"
    using check_allocation_Inr(1,3) [OF c] check_supply_Inr(1) [OF p] by simp_all
  ultimately show ?thesis using conservation_printed [OF r] by (intro conjI)
qed

subsection \<open>When there is a report\<close>

definition report_groups :: "string list" where
  "report_groups = [''multisig'', ''layerzero_bridge_collateral'', ''onewallet'', ''smartvault'', ''other_reviewed_contract'']"

fun parts_of :: "segment \<Rightarrow> part set" where
  "parts_of (Inline ps) = set ps"
| "parts_of (Tabular headers rows) = (\<Union>row \<in> set rows. set row)"

lemma map_r_Inl: "map_r f xs = Inl e \<Longrightarrow> \<exists>x \<in> set xs. f x = Inl e"
proof (induction xs)
  case (Cons x xs)
  then show ?case by (cases "f x"; cases "map_r f xs") auto
qed simp

lemma segment_error:
  assumes "fill_segment doc x = Inl e"
  shows "\<exists>p \<in> parts_of x. fill_part doc p = Inl e"
proof (cases x)
  case (Inline ps)
  then have "map_r (fill_part doc) ps = Inl e"
    using assms by (cases "map_r (fill_part doc) ps") (simp_all add: fill_line_def)
  then show ?thesis using map_r_Inl Inline by fastforce
next
  case (Tabular headers rows)
  then have "map_r (map_r (fill_part doc)) rows = Inl e"
    using assms by (cases "map_r (map_r (fill_part doc)) rows") simp_all
  then obtain row where "row \<in> set rows" "map_r (fill_part doc) row = Inl e" using map_r_Inl by blast
  then show ?thesis using map_r_Inl Tabular by fastforce
qed

lemma plain_parts: "x \<in> set (plain ls) \<Longrightarrow> p \<in> parts_of x \<Longrightarrow> \<exists>w. p = Written w"
  by (auto simp: plain_def)

lemma counted_error: "at_path doc ks = Inr (JInt n) \<Longrightarrow> fill_part doc (Counted ks) \<noteq> Inl e"
  by (simp add: format_grouped_def)

lemma amount_error: "at_path doc ks = Inr (JInt n) \<Longrightarrow> fill_part doc (Amount ks) \<noteq> Inl e"
  by (simp add: int_at_def)

lemma error_of_path:
  "at_path doc ks = Inl e' \<Longrightarrow> fill_part doc (Counted ks) = Inl e \<Longrightarrow> e = e'"
  "at_path doc ks = Inl e' \<Longrightarrow> fill_part doc (Amount ks) = Inl e \<Longrightarrow> e = e'"
  by (simp_all add: int_at_def)

definition group_parts :: "string \<Rightarrow> part set" where
  "group_parts g = {Counted [''contracts'', g, ''addresses''], Amount [''contracts'', g, ''allocation_atto''], Amount [''contracts'', g, ''not_issued_atto'']}"

lemma group_part_error:
  assumes run: "fold_r (stage_step since) no_rows rs = Inr s" and p: "p \<in> group_parts g"
    and e: "fill_part (policy_document sources out t s a) p = Inl e"
  shows "group_members rs g = [] \<and> e = KeyError g"
proof -
  let ?at = "\<lambda>c. at_path (policy_document sources out t s a) [''contracts'', g, c]"
  note at = contract_at [OF booked_groups(1) [OF run], of sources out t a g]
  show ?thesis
  proof (cases "g \<in> set (keys (ss_contracts s))")
    case True
    have "?at ''addresses'' = Inr (JInt (ct_addresses (entry no_contract (ss_contracts s) g)))"
      "?at ''allocation_atto'' = Inr (JInt (ct_allocation (entry no_contract (ss_contracts s) g)))"
      "?at ''not_issued_atto'' = Inr (JInt (ct_not_issued (entry no_contract (ss_contracts s) g)))"
      unfolding at if_P [OF True] by (simp_all add: contract_columns_def)
    note ok = counted_error [OF this(1)] amount_error [OF this(2)] amount_error [OF this(3)]
    from p e show ?thesis unfolding group_parts_def by (elim insertE emptyE) (simp_all only: ok)
  next
    case False
    then have "?at c = Inl (KeyError g)" for c
      unfolding at by (rule if_not_P)
    note err = error_of_path [OF this]
    from p e have "e = KeyError g" unfolding group_parts_def by (elim insertE emptyE) (simp_all only: err)
    then show ?thesis using False booked_groups(2) [OF run] by blast
  qed
qed

lemma allocation_part_error:
  "fill_part (policy_document sources out t s a) (Amount [''allocation'', k]) = Inl e \<Longrightarrow> k \<notin> set (map fst (allocation_columns a))"
proof
  assume "k \<in> set (map fst (allocation_columns a))"
  then obtain n where "map_of (allocation_columns a) k = Some n" by (metis map_of_eq_None_iff list.set_map not_None_eq)
  then have "at_path (policy_document sources out t s a) [''allocation'', k] = Inr (JInt n)" by (simp add: allocation_at)
  moreover assume "fill_part (policy_document sources out t s a) (Amount [''allocation'', k]) = Inl e"
  ultimately show False using amount_error by blast
qed

definition stage_parts :: "string \<Rightarrow> part set" where
  "stage_parts k = {Counted [''stages'', k, ''addresses''], Amount [''stages'', k, ''allocation_atto'']}"

lemma stage_part_error:
  assumes run: "fold_r (stage_step since) no_rows rs = Inr s" and k: "k \<in> {''initial'', ''next_stage''}" and p: "p \<in> stage_parts k"
  shows "fill_part (policy_document sources out t s a) p \<noteq> Inl e"
proof -
  note at = stage_at [OF booked_stages(1) [OF run] k]
  have "at_path (policy_document sources out t s a) [''stages'', k, ''addresses''] = Inr (JInt (st_addresses (entry no_stage (ss_stages s) k)))"
    "at_path (policy_document sources out t s a) [''stages'', k, ''allocation_atto''] = Inr (JInt (st_allocation (entry no_stage (ss_stages s) k)))"
    unfolding at by (simp_all add: stage_columns_def)
  note ok = counted_error [OF this(1)] amount_error [OF this(2)]
  from p show ?thesis unfolding stage_parts_def by (elim insertE emptyE) (simp_all only: ok not_False_eq_True)
qed

definition other_parts :: "part set" where
  "other_parts = {Counted [''deferred_below_threshold_after_incident_deductions'', ''addresses''],
     Amount [''deferred_below_threshold_after_incident_deductions'', ''allocation_atto''],
     Counted [''initial_wallets'', ''automatic_policy_addresses''], Counted [''initial_wallets'', ''manual_routing_addresses''],
     Counted [''initial_wallets'', ''validator_wrapper_addresses''], Printed [''output'']}"

lemma other_part_error:
  assumes "p \<in> other_parts"
  shows "fill_part (policy_document sources out t s a) p \<noteq> Inl e"
proof -
  let ?doc = "policy_document sources out t s a"
  have "at_path ?doc [''deferred_below_threshold_after_incident_deductions'', ''addresses''] = Inr (JInt (st_addresses (ss_below s)))"
    "at_path ?doc [''deferred_below_threshold_after_incident_deductions'', ''allocation_atto''] = Inr (JInt (st_allocation (ss_below s)))"
    unfolding below_at by (simp_all add: stage_columns_def)
  note below = counted_error [OF this(1)] amount_error [OF this(2)]
  have "at_path ?doc [''initial_wallets'', ''automatic_policy_addresses''] = Inr (JInt (entry 0 (ss_routing s) ''automatic_policy''))"
    "at_path ?doc [''initial_wallets'', ''manual_routing_addresses''] = Inr (JInt (entry 0 (ss_routing s) ''exchange_or_manual''))"
    "at_path ?doc [''initial_wallets'', ''validator_wrapper_addresses''] = Inr (JInt (ss_validators s))"
    by (simp_all add: at_path_Cons at_path_Nil document_fields initial_document_def getitem_def)
  note wallets = this [THEN counted_error]
  have "fill_part ?doc (Printed [''output'']) \<noteq> Inl e" by (simp add: at_path_Cons at_path_Nil document_fields)
  then show ?thesis using assms unfolding other_parts_def by (elim insertE emptyE) (simp_all only: below wallets not_False_eq_True)
qed

definition allocation_parts :: "part set" where
  "allocation_parts = (\<lambda>k. Amount [''allocation'', k]) ` set
     [''gross_native_snapshot_atto'', ''existing_non_issuance_atto'', ''historical_retained_caps_atto'',
      ''historical_incident_contract_recipients_atto'', ''revert_leak_credited_recipients_atto'', ''wone_retained_not_issued_atto'',
      ''reviewed_contract_non_issuance_atto'', ''abandoned_contracts_public_aggregate_atto'', ''initial_wallets_atto'',
      ''next_stage_contracts_atto'', ''deferred_wallets_atto'', ''total_exclusions_atto'', ''total_migration_atto'']"

lemma allocation_keys:
  "map fst (allocation_columns a) =
     [''gross_native_snapshot_atto'', ''existing_non_issuance_atto'', ''historical_retained_caps_atto'',
      ''historical_incident_contract_recipients_atto'', ''revert_leak_credited_recipients_atto'', ''wone_retained_not_issued_atto'',
      ''reviewed_contract_non_issuance_atto'', ''abandoned_contracts_public_aggregate_atto'', ''initial_wallets_atto'',
      ''next_stage_contracts_atto'', ''deferred_wallets_atto'', ''total_exclusions_atto'', ''total_migration_atto'']"
  by (simp add: allocation_columns_def)

definition known_part :: "part \<Rightarrow> bool" where
  "known_part p \<longleftrightarrow> (\<exists>w. p = Written w) \<or> p \<in> stage_parts ''initial'' \<or> p \<in> stage_parts ''next_stage''
     \<or> (\<exists>g \<in> set report_groups. p \<in> group_parts g) \<or> p \<in> allocation_parts \<or> p \<in> other_parts"

lemma known_plain: "\<forall>x \<in> set (plain ls). \<forall>p \<in> parts_of x. known_part p"
  by (simp add: plain_def known_part_def)

lemmas parts_known = known_part_def stage_parts_def group_parts_def allocation_parts_def other_parts_def report_groups_def

lemma known_written: "known_part (Written w)"
  by (simp add: known_part_def)

lemma known_tables:
  "\<forall>x \<in> set [Tabular allocation_table_headers allocation_table]. \<forall>p \<in> parts_of x. known_part p"
  "\<forall>x \<in> set [Tabular contract_table_headers contract_table]. \<forall>p \<in> parts_of x. known_part p"
  by (simp_all add: allocation_table_def contract_table_def known_written) (simp_all add: parts_known)

lemma known_lines: "\<forall>x \<in> set (map Inline conservation_lines). \<forall>p \<in> parts_of x. known_part p"
  by (simp add: conservation_lines_def known_written) (simp add: parts_known)

lemma known_template: "\<forall>x \<in> set report_template. \<forall>p \<in> parts_of x. known_part p"
  unfolding report_template_def set_append ball_Un
  by (intro conjI; (rule known_plain known_lines known_tables | (simp add: known_written, simp add: parts_known)))

lemma report_part_error:
  assumes run: "fold_r (stage_step since) no_rows rs = Inr s" and "known_part p"
    and e: "fill_part (policy_document sources out t s a) p = Inl e"
  shows "\<exists>g \<in> set report_groups. group_members rs g = [] \<and> e = KeyError g"
  using assms(2) unfolding known_part_def
proof (elim disjE exE bexE)
  show ?thesis if "p = Written w" for w using e by (simp add: that)
  show ?thesis if "p \<in> stage_parts ''initial''" using stage_part_error [OF run insertI1 that] e by simp
  show ?thesis if "p \<in> stage_parts ''next_stage''" using stage_part_error [OF run insertI2 [OF insertI1] that] e by simp
  show ?thesis if "g \<in> set report_groups" "p \<in> group_parts g" for g using group_part_error [OF run that(2) e] that(1) by (intro bexI)
  show ?thesis if "p \<in> allocation_parts"
  proof -
    from that obtain k where k: "p = Amount [''allocation'', k]" "k \<in> set (map fst (allocation_columns a))"
      unfolding allocation_parts_def allocation_keys by (rule imageE)
    from allocation_part_error [OF e [unfolded k(1)]] k(2) show ?thesis by (rule notE)
  qed
  show ?thesis if "p \<in> other_parts" using other_part_error [OF that] e by simp
qed

lemma sections_found: "map_r (subscript (policy_document sources out t s a)) [''allocation'', ''stages'', ''contracts'']
    = Inr [counts_document (allocation_columns a), sorted_document stage_columns (compared_stages s), sorted_document contract_columns (ss_contracts s)]"
  by (simp add: document_fields)

lemma report_missing:
  assumes run: "fold_r (stage_step since) no_rows rs = Inr s" and e: "render_report (policy_document sources out t s a) = Inl e"
  shows "\<exists>g \<in> set report_groups. group_members rs g = [] \<and> e = KeyError g"
proof -
  have "map_r (fill_segment (policy_document sources out t s a)) report_template = Inl e"
    using e unfolding render_report_def sections_found by (cases "map_r (fill_segment (policy_document sources out t s a)) report_template") simp_all
  then obtain x where x: "x \<in> set report_template" "fill_segment (policy_document sources out t s a) x = Inl e" using map_r_Inl by blast
  obtain p where "p \<in> parts_of x" "fill_part (policy_document sources out t s a) p = Inl e" using segment_error [OF x(2)] by blast
  then show ?thesis using report_part_error [OF run] known_template x(1) by blast
qed

lemma report_groups_present:
  assumes "fold_r (stage_step since) no_rows rs = Inr s" and "render_report (policy_document sources out t s a) = Inr printed"
  shows "list_all (\<lambda>g. group_members rs g \<noteq> []) report_groups"
  using group_lines_printed [OF assms] by (simp add: report_groups_def group_line_in_def)

text \<open>
  C34. What a passed verification leaves on disk. If a partial file of the document is left over, or the document is there and may
  not be replaced, nothing is written and the script ends with \<open>FileExistsError\<close>. Otherwise the document is written, which
  says that the verification passed; and if one of the five contract groups has no reviewed contract in the policy, the script
  then ends with a \<open>KeyError\<close> for such a group and without the report. If all five have one, the report is written as well,
  unless its own partial file is left over or it is there and may not be replaced.
\<close>

lemma policy_report_written:
  fixes encode :: "json \<Rightarrow> string" and out report :: string and files :: texts and sources :: "(string \<times> string \<times> string) list"
    and since :: json and replace_it :: bool
  assumes v: "verify_policy stage_summary migration supply digests header rs = Inr (s, a)"
  defines "result \<equiv> policy_document sources out since s a"
  defines "written \<equiv> AList.update out (encode result @ [newline]) files"
  defines "ended \<equiv> write_policy encode replace_it out report result files"
  shows "if map_of files (partial_path out) \<noteq> None \<or> (map_of files out \<noteq> None \<and> \<not> replace_it)
    then \<exists>path. ended = (files, Inl (FileExistsError path))
    else if \<exists>g \<in> set report_groups. group_members rs g = []
    then \<exists>g \<in> set report_groups. group_members rs g = [] \<and> ended = (written, Inl (KeyError g))
    else if map_of written (partial_path report) \<noteq> None \<or> (map_of written report \<noteq> None \<and> \<not> replace_it)
    then \<exists>path. ended = (written, Inl (FileExistsError path))
    else \<exists>printed. ended = (AList.update report printed written, Inr ())"
proof -
  obtain t where run: "fold_r (stage_step t) no_rows rs = Inr s" using verify_policy_facts(1) [OF v] by blast
  show ?thesis
  proof (cases "render_report (policy_document sources out since s a)")
    case (Inl e)
    from report_missing [OF run Inl] obtain g where "g \<in> set report_groups" "group_members rs g = []" "e = KeyError g" by blast
    then show ?thesis using Inl unfolding ended_def write_policy_def result_def written_def write_text_def by auto
  next
    case (Inr printed)
    have "\<not> (\<exists>g \<in> set report_groups. group_members rs g = [])"
      using report_groups_present [OF run Inr] by (auto simp: list_all_iff)
    then show ?thesis using Inr unfolding ended_def write_policy_def result_def written_def write_text_def by auto
  qed
qed

lemma policy_report_written_witness:
  "\<exists>s a g. verify_policy example_stage_summary example_migration example_supply example_digests required_columns
       [example_wallet, example_contract] = Inr (s, a)
     \<and> write_policy (\<lambda>_. ''x'') False ''o'' ''r'' (policy_document [] ''o'' JNull s a) [] = ([(''o'', ''x'' @ [newline])], Inl (KeyError g))"
proof -
  obtain s a where v: "verify_policy example_stage_summary example_migration example_supply example_digests required_columns
     [example_wallet, example_contract] = Inr (s, a)" using example_policy by blast
  have missing: "\<exists>g \<in> set report_groups. group_members [example_wallet, example_contract] g = []" by code_simp
  from policy_report_written [OF v, where encode = "\<lambda>_. ''x''" and out = "''o''" and report = "''r''" and files = "[]"
      and sources = "[]" and since = JNull and replace_it = False] missing v show ?thesis by auto
qed

subsection \<open>An example with every group\<close>

definition example_groups :: "row list" where
  "example_groups = map (\<lambda>(x, g). example_contract(''address'' \<mapsto> x, ''policy_group'' \<mapsto> g))
     (zip [''0xC1'', ''0xC2'', ''0xC3'', ''0xC4'', ''0xC5''] report_groups)"

definition example_group_summary :: json where
  "example_group_summary = JDict [(''status'', JStr ''passed''), (''output_sha256'', JStr ''p''),
     (''sources'', JDict [(''migration_summary'', JDict [(''sha256'', JStr ''m'')]),
        (''existing_non_issuance'', JDict [(''sha256'', JStr ''e'')]), (''historical_retention'', JList [JDict [(''sha256'', JStr ''h'')]])]),
     (''initial_window'', JDict [(''since_time_utc'', JStr ''2026-03-10T00:00:00Z'')]), (''qualified_rows'', JInt 6),
     (''stage_rows'', JDict [(''initial'', JInt 1)]),
     (''issuance_treatment_rows'', JDict [(''issue'', JInt 1), (''not_issued'', JInt 5)]),
     (''contracts'', JDict [(''groups'', JDict (map (\<lambda>g. (g, JDict [(''addresses'', JInt 1), (''allocation_atto'', JInt 0),
        (''wallet_allocation_atto'', JInt 0), (''staked_allocation_atto'', JInt 0),
        (''not_issued_atto'', JInt 1000000000000000000000), (''not_issued_wallet_atto'', JInt 1000000000000000000000),
        (''not_issued_staked_atto'', JInt 0)])) report_groups))]),
     (''allocation'', JDict [(''existing_non_issuance_atto'', JInt 0), (''historical_retained_caps_atto'', JInt 100),
        (''gross_native_snapshot_atto'', JInt 7000000000000000000000), (''total_migration_atto'', JInt 1999999999999999999900),
        (''reviewed_contract_non_issuance_atto'', JInt 5000000000000000000000),
        (''initial_wallets_atto'', JInt 1999999999999999999900), (''next_stage_contracts_atto'', JInt 0),
        (''deferred_wallets_atto'', JInt 0)]),
     (''initial_wallets'', JDict [(''automatic_policy_addresses'', JInt 1), (''manual_routing_addresses'', JInt 0)]),
     (''validator_wrappers'', JDict [(''initial_addresses'', JInt 1)]),
     (''deferred_wallets'', JDict [(''below_threshold_after_incident_deductions_addresses'', JInt 0),
        (''below_threshold_after_incident_deductions_atto'', JInt 0)])]"

definition example_group_migration :: json where
  "example_group_migration = JDict [(''status'', JStr ''passed''), (''native_total_claim_atto'', JStr ''7000000000000000000000''),
     (''wone_retained_not_issued_atto'', JInt 0), (''wone_reserve_atto'', JInt 0)]"

lemma report_states_policy_witness:
  "\<exists>s a printed. verify_policy example_group_summary example_group_migration example_supply example_digests required_columns
       (example_wallet # example_groups) = Inr (s, a) \<and> render_report (policy_document [] ''o'' JNull s a) = Inr printed
     \<and> sublist ''| Initial wallets | 1 | 1999.999999999999999900 |'' printed"
proof -
  have "is_ok (verify_policy example_group_summary example_group_migration example_supply example_digests required_columns
     (example_wallet # example_groups))" by code_simp
  then obtain s a where v: "verify_policy example_group_summary example_group_migration example_supply example_digests required_columns
     (example_wallet # example_groups) = Inr (s, a)" by (auto simp: is_ok_iff)
  obtain t where run: "fold_r (stage_step t) no_rows (example_wallet # example_groups) = Inr s" using verify_policy_facts(1) [OF v] by blast
  have "list_all (\<lambda>g. group_members (example_wallet # example_groups) g \<noteq> []) report_groups" by code_simp
  then have "\<exists>printed. render_report (policy_document [] ''o'' JNull s a) = Inr printed"
    using report_missing [OF run] unfolding list_all_iff by (metis sum.exhaust)
  then obtain printed where r: "render_report (policy_document [] ''o'' JNull s a) = Inr printed" by blast
  have line: "''| '' @ ''Initial wallets'' @ '' | '' @ grouped (int (length (stage_members (example_wallet # example_groups) ''initial'')))
      @ '' | '' @ one_floor (stage_sum (example_wallet # example_groups) ''initial'') @ '' |''
    = ''| Initial wallets | 1 | 1999.999999999999999900 |''" by code_simp
  have "stage_line_in printed (example_wallet # example_groups) (''Initial wallets'', ''initial'')"
    using report_states_policy [OF v r] unfolding list.pred_inject by blast
  then have "sublist ''| Initial wallets | 1 | 1999.999999999999999900 |'' printed" unfolding stage_line_in_def split line .
  then show ?thesis using v r by blast
qed

end
