(* ===== verification/Spec2Isabelle.thy ===== *)
theory Spec2Isabelle
  imports Address LedgerMerge SourceSummary Closure ShardBalance RevertLeak NonIssuance StagePolicy
    CreatedAccounts StateDiff PendingCutoff CanonicalInterval ExploitFlowProofs ReconciliationProofs DestinationMap ClaimsDiff Blacklist PackageProofs OutputProofs PublicationProofs PolicyReportProofs
begin

text \<open>
  Verification of the Harmony supply audit (the Python programs under \<open>src/toolkit/scripts\<close> and \<open>src/scripts\<close>).

  1. The program.

  The repository reconciles the native supply of the Harmony chain at a cutoff. Every script reads CSV exports, JSON documents
  or the answers of a node, checks each record, raises an exception at the first one that does not fit, and otherwise writes
  rows and totals that the next script reads. The parts, in the order in which data flows, and the theories that model them:

  \<^item> Addresses. Five scripts carry a copy of the Bech32 codec (\<open>blacklisted-address-audit.py\<close>, \<open>build-non-issuance-audit.py\<close>,
    \<open>cx-source-audit.py\<close>, \<open>historical-exploit-flow-export.py\<close>, \<open>historical-staking-rpc.py\<close>): theories Bech32 and Address.
  \<^item> Node access. \<open>rpc_call\<close>, \<open>batch\<close>, \<open>get_batch\<close> and their retries in the scripts under \<open>cutoff/\<close> and \<open>forensics/\<close>: theory
    Rpc. Used by CanonicalInterval (\<open>canonical-interval-audit.py\<close>), CreatedAccounts (\<open>verify-created-accounts.py\<close>), StateDiff
    (\<open>verify-state-diff-rpc.py\<close>), PendingCutoff (\<open>verify-pending-receipts.py\<close>), DestinationMap
    (\<open>map-cx-receipt-destinations.py\<close>) and the exploit-flow theories.
  \<^item> The claim ledger. \<open>actual-supply-ledger.py\<close> merges three sorted exports and the pending receipts: theories Ledger (state,
    operations, the loop) and LedgerMerge (lemmas).
  \<^item> Cross-shard receipts. \<open>cx-source-audit.py\<close>: theories Trace (the call tree and its classification), SourceAudit (rows,
    evidence, loop, totals), SourceAuditProofs; \<open>summarize-cx-source-audit.py\<close>: SourceSummary;
    \<open>historical-shard1-balance.py\<close>: ShardBalance, which reads the rows of DestinationMap.
  \<^item> Validator scans. \<open>undelegation-mint-reconcile.py\<close> and \<open>historical-staking-rpc.py\<close>: Validators and ValidatorsProofs;
    \<open>historical-claims-diff.py\<close> joins two staking scans: ClaimsDiff.
  \<^item> Formula and closure. \<open>reconstruct-cutoff-formula.py\<close> and \<open>historical-closure.py\<close>: Closure.
  \<^item> What is not issued. \<open>build-revert-leak-retention.py\<close>: RevertLeak; \<open>build-non-issuance-audit.py\<close>: NonIssuance, which
    checks the rows of RevertLeak again; \<open>migration-policy-reconciliation.py\<close>: StagePolicy (the comparisons), PolicyReport (the
    result document and the Markdown report) and PolicyReportProofs; \<open>blacklisted-address-audit.py\<close>: Blacklist.
  \<^item> The exploits. \<open>historical-exploit-flow-export.py\<close>: FlowRecords (the records and how they are completed), ExploitFlow
    (traces, edges, distribution, summary), ExploitFlowProofs.
  \<^item> The final check. \<open>verify-reconciliation.py\<close>: Reconciliation (every comparison, in order) and ReconciliationProofs, which
    ties it to Closure, ValidatorsProofs and ExploitFlow.
  \<^item> Publication. \<open>package-results.py\<close>: Package; \<open>update-result-index.py\<close>, \<open>update-results-manifest.py\<close>,
    \<open>verify-results.py\<close>, \<open>update-source-manifest.py\<close>, \<open>verify-source-manifest.py\<close>: Filetree and Manifest; lemmas in
    ManifestProofs and PackageProofs. \<open>check-public-package.py\<close>, \<open>check-numerical-embargo.py\<close> and \<open>verify-provenance.py\<close>:
    Pattern (regular expressions), Publication and PublicationProofs.
  \<^item> Writing of outputs. The step with which each of sixteen scripts writes its files, through a partial file that it renames
    or links: Output (names, inodes, operations, any number of runs that take turns, raise or are killed) and OutputProofs.

  Shared: Prelude (results, loops, named collections), Pybase (Python's strings, integers and JSON values), Cells (CSV cells),
  Defaultdict (dictionaries with a default), Timestamps (\<open>datetime.fromisoformat\<close> for the policy dates).

  2. How code and model correspond.

  A function that may raise is a function into \<open>result\<close>: \<open>Inl\<close> an \<open>error\<close>, named after the Python exception, or \<open>Inr\<close> a value;
  statements in sequence are \<open>rbind\<close>, a loop that may raise is \<open>fold_r\<close> or \<open>map_r\<close>. The state of a loop is a record whose fields are
  the Python variables. Dictionaries are association lists in insertion order where the order reaches the output, maps
  otherwise; a \<open>defaultdict\<close> is an association list read with its default. Python integers are \<open>int\<close>, amounts included: the
  scripts have no fixed-width integers outside the codec, where five-bit and eight-bit groups are \<open>nat\<close> with the masks written
  out. A text is a list of ASCII characters; a JSON value is the datatype \<open>json\<close>; CSV cells are texts and an absent cell is None.
  Order of the checks follows the code, so that the model raises the same kind of exception where the code raises one.

  Generators (\<open>rows\<close> of the ledger) are explicit cursors. Recursion on the call tree is structural. Loops with a condition are
  functions with a measure (the merge of the ledger on what is left of the four sources, the bisection on the sum of the
  interval widths, the chunk loop of the interval audit on the blocks left). The two validator scans may run for ever, since
  only an empty page of the node ends them: \<open>scan\<close> is a \<open>partial_function (option)\<close>, None is a run that does not return, and
  \<open>validator_scans_return\<close> says exactly when it returns. Retries are bounded by the code (five or six attempts), and the page
  loop of the exploit export by its own limit of 1,000 pages, which the model keeps as the code's limit and not as fuel.

  3. What is proved.

  Every property of the manifest is one theorem after a text with its number.

  \<^item> Conservation: the totals of the ledger, of the source audit, of the non-issuance inventory, of the policy stages, of the
    exploit export and of the blacklist audit are the sums of their inputs. These rest on three locales for loops:
    \<open>invariant_loop\<close> and \<open>conserving_loop\<close> (Prelude) and \<open>tallying_loop\<close> (Defaultdict), each interpreted on the loops of the
    components that provide it.
  \<^item> Refinement: the streaming three-way merge is the ledger of the key-wise composed rows (\<open>merge_refines_ledger\<close>), through the
    locales \<open>sorted_source\<close> and \<open>checked_source\<close>, interpreted on the cursors and on the receipt keys.
  \<^item> Equivalence with a reference: the two decoders, classification by the paths of the call tree, the reconstructed mint and
    the final reconciliation, what one script writes and the next one accepts (\<open>retention_accepted\<close> composes the non-issuance
    script, the revert-leak script that reads its CSV file, and the non-issuance script again).
  \<^item> Round trips: addresses (locale \<open>address_codec\<close>, interpreted on every decoder), index and manifests, packaging followed by
    verification.
  \<^item> Bounds, safety, errors and termination: retained amounts stay within credit and claim; a reported leak has the call it needs;
    one character of the data part of an address changed to another, the separator apart, is refused; a verified manifest pins every file; no printed amount passes the embargo;
    what the checks do not refuse.
  \<^item> State machine: \<open>reachable\<close> (Output) is the inductive set of the states that concurrent runs of the output steps reach;
    the invariant \<open>sound\<close> holds in all of them, so that a published name shows a complete output (OutputProofs).

  Where a theorem has hypotheses its witness, next to it, applies it to concrete inputs on which they hold.

  Six places where the code does not do what it means to are stated as theorems and listed as findings: the decoders accept
  every address under every lower-case human-readable part that begins with \<open>one1\<close> (\<open>foreign_prefix_accepted\<close>), a negative batch size passes any state difference
  (\<open>negative_batch_size_passes\<close>), restricting the verification of results to one set never passes beside another
  (\<open>single_set_refused\<close>), four handlers remove the partial file of another run, so that an incomplete file can be published
  (\<open>removing_handler_publishes_incomplete\<close>), the embargo stops the documentation of the program itself
  (\<open>process_history_stopped\<close>), and the report of the policy needs contract groups that no comparison asks for
  (\<open>policy_report_written\<close>). Further findings have no theorem of their own: \<open>build-non-issuance-audit.py\<close> indexes an empty list
  after it has written its rows when no retained balance is positive; \<open>package-results.py\<close> replaces machine paths in the values
  of a document and not in its keys, which is why \<open>packaged_documents_redacted\<close> speaks of the two separately; and the deferred
  amount of the policy is compared with the total only, not with the deferred rows (\<open>stage_policy_conserves\<close>).

  4. What is assumed, and what is not modelled.

  Parameters, never defined here: the answers of the node (by request and attempt), SHA-256 digests, file sizes and CSV row
  counts, which paths are files, what git lists, the bytes of a JSON or CSV encoding. CSV and JSON parsing is taken as done:
  documents are trees, rows are maps from column to text. Texts are ASCII; \<open>int\<close> on them has Python's syntax with sign,
  blanks and underscores, and the classes and line breaks of the publication checks are those of ASCII. Paths of the directory
  tree are written without \<open>.\<close> and \<open>..\<close>, and a path is looked up as it is written. Only \<open>verify-provenance.py\<close> resolves its
  paths; there the disk is a dictionary of absolute paths without symbolic links, which also has files outside the repository,
  so that its check for the root is needed. Manifests are read in text mode, where a carriage return ends a line as well
  (\<open>universal\<close>): what is said of them holds for paths and digests within one line (\<open>one_line\<close>). An address in an answer of the node is taken to be a text.

  Not modelled: parsing of command-line arguments and their defaults, creating directories, progress output, sleeping between
  attempts, and the encoding of the written JSON and CSV. The theories of the components return what is written; opening,
  flushing, renaming and linking are modelled on their own, in Output, with the texts as a parameter; PolicyReport also has the
  two writes of \<open>migration-policy-reconciliation.py\<close> with their checks for existing files, because the second follows a step
  that may raise. A handler that removes partial files runs only for exceptions inside its \<open>try\<close> block, after those checks.
  \<open>test-cx-constructor-evm.py\<close> only starts a Go test in a checkout of the node. The Go commands under
  \<open>src/toolkit/cmd\<close> read the node's databases through the node's own packages, which are not in the repository; the scripts
  modelled here read their output. Shell scripts, the as-run templates under \<open>repro/\<close> and the tests are not part of the model.
\<close>

end
